(* ===== verification/Prelude.thy ===== *)
theory Prelude
  imports Main "HOL-Library.Word" "HOL-Library.List_Lexorder"
begin

text \<open>
  Shared vocabulary of the development: the machine integers of the Rust sources, the
  result type of fallible and panicking code, the few standard-library operations that
  several components use (\<open>saturating_sub\<close>, \<open>checked_add\<close>, \<open>Option::is_some_and\<close>,
  \<open>Result\<close>-collecting iterators, bounded channels), and the generic facts on lists and
  options that the component theories rest on.
\<close>

subsection \<open>Types\<close>

type_synonym u8 = "8 word"
type_synonym u32 = "32 word"
type_synonym u64 = "64 word"
type_synonym slot = u64
type_synonym bytes = "u8 list"
type_synonym pubkey = bytes

text \<open>
  Collections of facts: \<open>rust_simps\<close> unfolds the standard-library operations below,
  \<open>inv_intros\<close> collects the preservation lemmas of the component invariants.
\<close>

named_theorems rust_simps
named_theorems inv_intros

subsection \<open>Results\<close>

text \<open>
  What a Rust call can do: return \<open>Ok\<close>, return \<open>Err\<close>, or panic (\<open>unwrap\<close> on
  \<open>None\<close>, an index out of range, \<open>debug_assert!\<close>).
\<close>

datatype ('e, 'a) outcome = Ok 'a | Err 'e | Panic

definition bind_outcome :: "('e, 'a) outcome \<Rightarrow> ('a \<Rightarrow> ('e, 'b) outcome) \<Rightarrow> ('e, 'b) outcome" where
  "bind_outcome r f = (case r of Ok x \<Rightarrow> f x | Err e \<Rightarrow> Err e | Panic \<Rightarrow> Panic)"

lemma bind_outcome_simps [simp]:
  "bind_outcome (Ok x) f = f x"
  "bind_outcome (Err e) f = Err e"
  "bind_outcome Panic f = Panic"
  by (simp_all add: bind_outcome_def)

lemma bind_outcome_eq_Ok:
  "bind_outcome r f = Ok y \<longleftrightarrow> (\<exists>x. r = Ok x \<and> f x = Ok y)"
  by (cases r) simp_all

lemma bind_outcome_eq_Err:
  "bind_outcome r f = Err e \<longleftrightarrow> r = Err e \<or> (\<exists>x. r = Ok x \<and> f x = Err e)"
  by (cases r) simp_all

text \<open>\<open>iter.map(f).collect::<Result<Vec<_>, _>>()\<close>: the first error wins.\<close>

fun try_map :: "('a \<Rightarrow> ('e, 'b) outcome) \<Rightarrow> 'a list \<Rightarrow> ('e, 'b list) outcome" where
  "try_map f [] = Ok []"
| "try_map f (x # xs) =
     bind_outcome (f x) (\<lambda>y. bind_outcome (try_map f xs) (\<lambda>ys. Ok (y # ys)))"

lemma try_map_eq_Ok:
  "try_map f xs = Ok ys \<longleftrightarrow> list_all2 (\<lambda>x y. f x = Ok y) xs ys"
  by (induction xs arbitrary: ys) (auto simp: bind_outcome_eq_Ok list_all2_Cons1)

lemma try_map_length: "try_map f xs = Ok ys \<Longrightarrow> length ys = length xs"
  by (auto simp: try_map_eq_Ok dest: list_all2_lengthD)

lemma try_map_Err_first:
  "try_map f xs = Err e \<Longrightarrow>
    \<exists>us x vs. xs = us @ x # vs \<and> f x = Err e \<and> (\<forall>u\<in>set us. \<exists>y. f u = Ok y)"
proof (induction xs)
  case Nil
  then show ?case by simp
next
  case (Cons x xs)
  show ?case
  proof (cases "f x")
    case (Ok y)
    with Cons.prems have "try_map f xs = Err e"
      by (auto simp: bind_outcome_eq_Err)
    from Cons.IH [OF this] obtain us z vs
      where "xs = us @ z # vs" "f z = Err e" "\<forall>u\<in>set us. \<exists>y. f u = Ok y" by blast
    with Ok show ?thesis
      by (intro exI [of _ "x # us"] exI [of _ z] exI [of _ vs]) simp
  next
    case (Err e')
    with Cons.prems show ?thesis
      by (intro exI [of _ "[]"] exI [of _ x] exI [of _ xs]) simp
  qed (use Cons.prems in simp)
qed

lemma try_map_no_panic: "(\<And>x. f x \<noteq> Panic) \<Longrightarrow> try_map f xs \<noteq> Panic"
  by (induction xs) (auto simp: bind_outcome_def split: outcome.splits)

lemma bind_no_panic: "r \<noteq> Panic \<Longrightarrow> (\<And>x. f x \<noteq> Panic) \<Longrightarrow> bind_outcome r f \<noteq> Panic"
  by (cases r) simp_all

text \<open>ASCII characters: \<open>is_ascii_digit\<close> and its like, white space, \<open>to_ascii_lowercase\<close> and \<open>to_ascii_uppercase\<close>.\<close>

definition is_ascii_digit :: "char \<Rightarrow> bool" where
  "is_ascii_digit c \<longleftrightarrow> (48 :: nat) \<le> of_char c \<and> of_char c \<le> (57 :: nat)"

definition is_ascii_uppercase :: "char \<Rightarrow> bool" where
  "is_ascii_uppercase c \<longleftrightarrow> (65 :: nat) \<le> of_char c \<and> of_char c \<le> (90 :: nat)"

definition is_ascii_lowercase :: "char \<Rightarrow> bool" where
  "is_ascii_lowercase c \<longleftrightarrow> (97 :: nat) \<le> of_char c \<and> of_char c \<le> (122 :: nat)"

definition is_whitespace :: "char \<Rightarrow> bool" where
  "is_whitespace c \<longleftrightarrow> (of_char c :: nat) \<in> {9, 10, 11, 12, 13, 32}"

definition ascii_lower :: "char \<Rightarrow> char" where
  "ascii_lower c = (let n = of_char c :: nat in if 65 \<le> n \<and> n \<le> 90 then char_of (n + 32) else c)"

definition ascii_upper :: "char \<Rightarrow> char" where
  "ascii_upper c = (let n = of_char c :: nat in if 97 \<le> n \<and> n \<le> 122 then char_of (n - 32) else c)"

text \<open>Stateful code that may fail: the next part runs on the state the last one left, unless it failed (\<open>?\<close>).\<close>

definition then_run ::
  "'r \<times> ('e, unit) outcome \<Rightarrow> ('r \<Rightarrow> 'r \<times> ('e, unit) outcome) \<Rightarrow> 'r \<times> ('e, unit) outcome" where
  "then_run x f = (case x of (r, Ok _) \<Rightarrow> f r | (r, Err e) \<Rightarrow> (r, Err e) | (r, Panic) \<Rightarrow> (r, Panic))"

lemma then_run_assoc: "then_run (then_run x f) g = then_run x (\<lambda>r. then_run (f r) g)"
  by (auto simp: then_run_def split: prod.splits outcome.splits)

lemma then_run_simps [simp]:
  "then_run (r, Ok u) f = f r" "then_run (r, Err e) f = (r, Err e)" "then_run (r, Panic) f = (r, Panic)"
  by (simp_all add: then_run_def)

subsection \<open>Options and integers\<close>

definition is_some_and :: "'a option \<Rightarrow> ('a \<Rightarrow> bool) \<Rightarrow> bool" where
  [rust_simps]: "is_some_and x P = (case x of None \<Rightarrow> False | Some v \<Rightarrow> P v)"

definition is_none_or :: "'a option \<Rightarrow> ('a \<Rightarrow> bool) \<Rightarrow> bool" where
  [rust_simps]: "is_none_or x P = (case x of None \<Rightarrow> True | Some v \<Rightarrow> P v)"

definition unwrap_or :: "'a option \<Rightarrow> 'a \<Rightarrow> 'a" where
  [rust_simps]: "unwrap_or x d = (case x of None \<Rightarrow> d | Some v \<Rightarrow> v)"

definition then_some :: "bool \<Rightarrow> 'a \<Rightarrow> 'a option" where
  [rust_simps]: "then_some b v = (if b then Some v else None)"

lemma is_some_and_simps [simp]:
  "is_some_and None P = False" "is_some_and (Some v) P = P v"
  by (simp_all add: is_some_and_def)

lemma is_none_or_simps [simp]:
  "is_none_or None P = True" "is_none_or (Some v) P = P v"
  by (simp_all add: is_none_or_def)

lemma unwrap_or_simps [simp]: "unwrap_or None d = d" "unwrap_or (Some v) d = v"
  by (simp_all add: unwrap_or_def)

lemma is_some_and_iff: "is_some_and x P \<longleftrightarrow> (\<exists>v. x = Some v \<and> P v)"
  by (cases x) simp_all

lemma then_some_iff [simp]: "then_some b v = Some w \<longleftrightarrow> b \<and> w = v" "then_some b v = None \<longleftrightarrow> \<not> b"
  by (auto simp: then_some_def)

definition saturating_sub :: "'a::len word \<Rightarrow> 'a word \<Rightarrow> 'a word" where
  "saturating_sub a b = (if a < b then 0 else a - b)"

definition saturating_add :: "'a::len word \<Rightarrow> 'a word \<Rightarrow> 'a word" where
  "saturating_add a b = (if unat a + unat b < 2 ^ LENGTH('a) then a + b else - 1)"

definition checked_add :: "'a::len word \<Rightarrow> 'a word \<Rightarrow> 'a word option" where
  "checked_add a b = (if unat a + unat b < 2 ^ LENGTH('a) then Some (a + b) else None)"

lemma unat_saturating_sub: "unat (saturating_sub a b) = unat a - unat b"
  by (auto simp: saturating_sub_def word_less_nat_alt unat_sub word_le_nat_alt not_less)

lemma saturating_sub_le: "saturating_sub a b \<le> a"
  by (simp add: word_le_nat_alt unat_saturating_sub)

lemma unat_saturating_add: "unat (saturating_add a b) = min (unat a + unat b) (2 ^ LENGTH('a) - 1)"
  for a b :: "'a::len word"
  by (auto simp: saturating_add_def unat_word_ariths unsigned_minus_1_eq_mask mask_eq_exp_minus_1)

lemma checked_add_eq_None: "checked_add a b = None \<longleftrightarrow> 2 ^ LENGTH('a) \<le> unat a + unat b"
  for a b :: "'a::len word"
  by (auto simp: checked_add_def)

lemma checked_add_eq_Some:
  "checked_add a b = Some c \<longleftrightarrow> unat a + unat b < 2 ^ LENGTH('a) \<and> c = a + b"
  for a b c :: "'a::len word"
  by (auto simp: checked_add_def)

lemma unat_bound: "unat a < 2 ^ LENGTH('a)" for a :: "'a::len word"
  by (rule unsigned_less)

lemma unat_add_no_wrap:
  "unat a + unat b < 2 ^ LENGTH('a) \<Longrightarrow> unat (a + b) = unat a + unat b"
  for a b :: "'a::len word"
  by (simp add: unat_word_ariths)

subsection \<open>Numbers as text\<close>

fun decimal :: "nat \<Rightarrow> string" where
  "decimal n = (if n < 10 then [char_of (48 + n)] else decimal (n div 10) @ [char_of (48 + n mod 10)])"

declare decimal.simps [simp del]

definition decimal_value :: "string \<Rightarrow> nat" where
  "decimal_value s = foldl (\<lambda>acc c. 10 * acc + (of_char c - 48)) 0 s"

lemma decimal_value_decimal: "decimal_value (decimal n) = n"
proof (induction n rule: decimal.induct)
  case (1 n)
  show ?case
  proof (cases "n < 10")
    case True
    then show ?thesis by (simp add: decimal.simps [of n] decimal_value_def)
  next
    case False
    with 1 have "decimal_value (decimal n) = 10 * (n div 10) + n mod 10"
      by (simp add: decimal.simps [of n] decimal_value_def)
    then show ?thesis by simp
  qed
qed

lemma decimal_inj: "decimal m = decimal n \<longleftrightarrow> m = n"
  by (metis decimal_value_decimal)

lemma decimal_nonempty [simp]: "decimal n \<noteq> []"
  by (simp add: decimal.simps [of n])

lemma decimal_digits: "c \<in> set (decimal n) \<Longrightarrow> (of_char c :: nat) \<in> {48..57}"
proof (induction n rule: decimal.induct)
  case (1 n)
  show ?case
  proof (cases "n < 10")
    case True
    with 1 show ?thesis by (auto simp: decimal.simps [of n])
  next
    case False
    have "n mod 10 < 10" by simp
    then have "48 + n mod 10 \<in> {48..57}" by auto
    with 1 False show ?thesis by (auto simp: decimal.simps [of n])
  qed
qed

lemma digit_not_in_decimal: "(of_char c :: nat) \<notin> {48..57} \<Longrightarrow> c \<notin> set (decimal n)"
  using decimal_digits by blast

text \<open>\<open>parts.join(sep)\<close>; a separator character that no part has can be split at.\<close>

fun join_with :: "string \<Rightarrow> string list \<Rightarrow> string" where
  "join_with sep [] = []"
| "join_with sep [x] = x"
| "join_with sep (x # xs) = x @ sep @ join_with sep xs"

lemma split_at_separator:
  "d \<notin> set xs \<Longrightarrow> d \<notin> set ys \<Longrightarrow> xs @ d # us = ys @ d # vs \<longleftrightarrow> xs = ys \<and> us = vs"
proof (induction xs arbitrary: ys)
  case Nil
  then show ?case by (cases ys) auto
next
  case (Cons x xs)
  then show ?case by (cases ys) auto
qed

lemma join_Cons: "xs \<noteq> [] \<Longrightarrow> join_with sep (x # xs) = x @ sep @ join_with sep xs"
  by (cases xs) simp_all

lemma join_inj:
  "\<forall>x\<in>set xs. x \<noteq> [] \<and> d \<notin> set x \<Longrightarrow> \<forall>y\<in>set ys. y \<noteq> [] \<and> d \<notin> set y \<Longrightarrow>
    join_with [d] xs = join_with [d] ys \<longleftrightarrow> xs = ys"
proof (induction xs arbitrary: ys)
  case Nil
  then show ?case by (cases ys; cases "tl ys") auto
next
  case (Cons x xs)
  show ?case
  proof (cases "ys = []")
    case True
    with Cons.prems show ?thesis by (cases xs) auto
  next
    case False
    then obtain y ys' where ys: "ys = y # ys'" by (cases ys) auto
    have sep: "d \<in> set (u @ d # w)" for u w by simp
    show ?thesis
    proof (cases "xs = [] \<or> ys' = []")
      case True
      with Cons.prems ys show ?thesis using sep by (cases xs; cases ys') (auto simp: join_Cons)
    next
      case False
      with Cons.prems Cons.IH [of ys'] ys show ?thesis
        by (simp add: join_Cons split_at_separator)
    qed
  qed
qed

subsection \<open>Strictly ascending lists\<close>

abbreviation ascending :: "'a::linorder list \<Rightarrow> bool" where
  "ascending xs \<equiv> sorted_wrt (<) xs"

lemma ascending_distinct: "ascending xs \<Longrightarrow> distinct xs"
  by (induction xs) auto

lemma ascending_filter: "ascending (map f xs) \<Longrightarrow> ascending (map f (filter P xs))"
  by (induction xs) auto

lemma ascending_snoc:
  "ascending (xs @ [x]) \<longleftrightarrow> ascending xs \<and> (\<forall>y\<in>set xs. y < x)"
  by (simp add: sorted_wrt_append)

lemma ascending_unique:
  "ascending xs \<Longrightarrow> ascending ys \<Longrightarrow> set xs = set ys \<Longrightarrow> xs = ys"
  by (simp add: strict_sorted_equal)

subsection \<open>Deterministic machines\<close>

text \<open>
  A component with state and inputs, as a step function. A predicate that every step keeps
  holds after any sequence of inputs; a reflexive and transitive relation that every step
  respects relates the first and the last state.
\<close>

locale machine =
  fixes step :: "'e \<Rightarrow> 's \<Rightarrow> 's"
    and inv :: "'s \<Rightarrow> bool"
  assumes step_inv: "inv s \<Longrightarrow> inv (step e s)"
begin

lemma run_inv: "inv s \<Longrightarrow> inv (fold step es s)"
  by (induction es arbitrary: s) (auto intro: step_inv)

lemma run_rel:
  assumes "inv s" and "\<And>x. R x x" and "\<And>x y z. R x y \<Longrightarrow> R y z \<Longrightarrow> R x z"
    and "\<And>x e. inv x \<Longrightarrow> R x (step e x)"
  shows "R s (fold step es s)"
  using assms(1)
proof (induction es arbitrary: s)
  case Nil
  then show ?case by (simp add: assms(2))
next
  case (Cons e es)
  then show ?case
    by (auto intro: assms(3) [OF assms(4)] step_inv)
qed

end

subsection \<open>Channels\<close>

text \<open>
  A \<open>tokio::sync::mpsc\<close> channel as the sender sees it: what was sent and not yet received,
  and whether the receiver is gone. A send to a closed channel returns the value
  (\<open>SendError\<close>); waiting for capacity changes no value and is not modelled.
\<close>

record 'a mpsc =
  queue :: "'a list"
  closed :: bool

definition mpsc_send :: "'a \<Rightarrow> 'a mpsc \<Rightarrow> 'a mpsc \<times> ('a, unit) outcome" where
  "mpsc_send x ch = (if closed ch then (ch, Err x) else (ch\<lparr>queue := queue ch @ [x]\<rparr>, Ok ()))"

end
