(* ===== verification/Prefilter.thy ===== *)
theory Prefilter
  imports Prelude "HOL-Library.Multiset"
begin

text \<open>
  The prefilters of parsers (\<open>crates/core/src/lib.rs\<close>): what a parser asks the server for, how
  two of them are merged, and the checks on account filters and data slices. A \<open>HashSet\<close> is a
  set. Base58 and base64 decoding are arguments, as they are code of other packages.
\<close>

subsection \<open>Data\<close>

datatype memcmp_data = MemcmpBytes bytes | MemcmpBase58 string | MemcmpBase64 string

datatype lamports_cmp = LamportsEq u64 | LamportsNe u64 | LamportsLt u64 | LamportsGt u64

datatype account_filter =
    Memcmp u64 memcmp_data
  | DataSize u64
  | TokenAccountState bool
  | Lamports lamports_cmp

record accounts_data_slice =
  slice_offset :: u64
  slice_length :: u64

text \<open>The keys of a cuckoo filter: a sorted vector without repetitions.\<close>

datatype cuckoo_accounts = CuckooAccounts (cuckoo_keys: "pubkey list")

datatype token_accounts = TokenAll | TokenBalanceChanged

record account_prefilter =
  ap_accounts :: "pubkey set"
  ap_owners :: "pubkey set"
  ap_filters :: "account_filter list"
  ap_nonempty_txn_signature :: "bool option"
  ap_cuckoo_accounts :: cuckoo_accounts

record transaction_prefilter =
  tp_accounts_include :: "pubkey set"
  tp_accounts_required :: "pubkey set"
  tp_accounts_exclude :: "pubkey set"
  tp_vote :: "bool option"
  tp_signature :: "string option"
  tp_token_accounts :: "token_accounts option"
  tp_failed :: "bool option"
  tp_cuckoo_accounts_include :: cuckoo_accounts

datatype block_meta_prefilter = BlockMetaPrefilter

record block_prefilter =
  bp_accounts_include :: "pubkey set"
  bp_include_transactions :: bool
  bp_include_accounts :: bool
  bp_include_entries :: bool
  bp_cuckoo_accounts_include :: cuckoo_accounts

record slot_prefilter =
  sp_filter_by_commitment :: bool
  sp_interslot_updates :: "bool option"

record prefilter =
  pf_account :: "account_prefilter option"
  pf_transaction :: "transaction_prefilter option"
  pf_block_meta :: "block_meta_prefilter option"
  pf_block :: "block_prefilter option"
  pf_slot :: "slot_prefilter option"

subsection \<open>Defaults\<close>

definition default_account_prefilter :: account_prefilter where
  "default_account_prefilter =
     \<lparr>ap_accounts = {}, ap_owners = {}, ap_filters = [], ap_nonempty_txn_signature = None,
      ap_cuckoo_accounts = CuckooAccounts []\<rparr>"

definition default_transaction_prefilter :: transaction_prefilter where
  "default_transaction_prefilter =
     \<lparr>tp_accounts_include = {}, tp_accounts_required = {}, tp_accounts_exclude = {}, tp_vote = None,
      tp_signature = None, tp_token_accounts = None, tp_failed = Some False,
      tp_cuckoo_accounts_include = CuckooAccounts []\<rparr>"

definition default_block_prefilter :: block_prefilter where
  "default_block_prefilter =
     \<lparr>bp_accounts_include = {}, bp_include_transactions = False, bp_include_accounts = False,
      bp_include_entries = False, bp_cuckoo_accounts_include = CuckooAccounts []\<rparr>"

definition default_slot_prefilter :: slot_prefilter where
  "default_slot_prefilter = \<lparr>sp_filter_by_commitment = True, sp_interslot_updates = None\<rparr>"

definition default_prefilter :: prefilter where
  "default_prefilter =
     \<lparr>pf_account = None, pf_transaction = None, pf_block_meta = None, pf_block = None, pf_slot = None\<rparr>"

subsection \<open>Cuckoo key sets\<close>

definition cuckoo_normalize :: "cuckoo_accounts \<Rightarrow> cuckoo_accounts" where
  "cuckoo_normalize c = CuckooAccounts (remdups_adj (sort (cuckoo_keys c)))"

definition cuckoo_from_list :: "pubkey list \<Rightarrow> cuckoo_accounts" where
  "cuckoo_from_list ks = cuckoo_normalize (CuckooAccounts ks)"

definition cuckoo_merge :: "cuckoo_accounts \<Rightarrow> cuckoo_accounts \<Rightarrow> cuckoo_accounts" where
  "cuckoo_merge c c' = cuckoo_normalize (CuckooAccounts (cuckoo_keys c @ cuckoo_keys c'))"

text \<open>The binary search of \<open>contains\<close>, between two bounds.\<close>

function binary_search :: "'a::linorder list \<Rightarrow> 'a \<Rightarrow> nat \<Rightarrow> nat \<Rightarrow> bool" where
  "binary_search xs k lo hi =
     (if hi \<le> lo then False
      else
        let mid = (lo + hi) div 2
        in if xs ! mid = k then True
           else if xs ! mid < k then binary_search xs k (mid + 1) hi
           else binary_search xs k lo mid)"
  by pat_completeness auto
termination
  by (relation "measure (\<lambda>(xs, k, lo, hi). hi - lo)") (auto simp: div_less_iff_less_mult)

declare binary_search.simps [simp del]

definition cuckoo_contains :: "cuckoo_accounts \<Rightarrow> pubkey \<Rightarrow> bool" where
  "cuckoo_contains c k = binary_search (cuckoo_keys c) k 0 (length (cuckoo_keys c))"

subsection \<open>Merging\<close>

definition merge_opt :: "('a \<Rightarrow> 'a \<Rightarrow> 'a) \<Rightarrow> 'a option \<Rightarrow> 'a option \<Rightarrow> 'a option" where
  "merge_opt f lhs rhs =
     (case (lhs, rhs) of
        (None, r) \<Rightarrow> r
      | (Some l, None) \<Rightarrow> Some l
      | (Some l, Some r) \<Rightarrow> Some (f l r))"

fun count_filters :: "account_filter list \<Rightarrow> (account_filter \<rightharpoonup> int) \<Rightarrow> account_filter \<rightharpoonup> int" where
  "count_filters [] counts = counts"
| "count_filters (f # fs) counts = count_filters fs (counts(f \<mapsto> unwrap_or (counts f) 0 + 1))"

fun discount_filters :: "account_filter list \<Rightarrow> (account_filter \<rightharpoonup> int) \<Rightarrow> (account_filter \<rightharpoonup> int) option" where
  "discount_filters [] counts = Some counts"
| "discount_filters (f # fs) counts =
     (case counts f of
        None \<Rightarrow> None
      | Some n \<Rightarrow> discount_filters fs (counts(f \<mapsto> n - 1)))"

text \<open>The keys of the counting map are the entries of the left list.\<close>

definition same_account_filters :: "account_filter list \<Rightarrow> account_filter list \<Rightarrow> bool" where
  "same_account_filters lhs rhs =
     (if length lhs \<noteq> length rhs then False
      else case discount_filters rhs (count_filters lhs Map.empty) of
             None \<Rightarrow> False
           | Some counts \<Rightarrow> list_all (\<lambda>f. counts f = Some 0) lhs)"

definition account_prefilter_merge :: "account_prefilter \<Rightarrow> account_prefilter \<Rightarrow> account_prefilter" where
  "account_prefilter_merge a b =
     \<lparr>ap_accounts = ap_accounts a \<union> ap_accounts b,
      ap_owners = ap_owners a \<union> ap_owners b,
      ap_filters = (if \<not> same_account_filters (ap_filters a) (ap_filters b) then [] else ap_filters a),
      ap_nonempty_txn_signature =
        (if ap_nonempty_txn_signature a \<noteq> ap_nonempty_txn_signature b then None
         else ap_nonempty_txn_signature a),
      ap_cuckoo_accounts = cuckoo_merge (ap_cuckoo_accounts a) (ap_cuckoo_accounts b)\<rparr>"

definition token_accounts_merge :: "token_accounts option \<Rightarrow> token_accounts option \<Rightarrow> token_accounts option" where
  "token_accounts_merge x y =
     (if x = Some TokenAll \<or> y = Some TokenAll then Some TokenAll else Some TokenBalanceChanged)"

definition transaction_prefilter_merge ::
  "transaction_prefilter \<Rightarrow> transaction_prefilter \<Rightarrow> transaction_prefilter" where
  "transaction_prefilter_merge a b =
     (let excl = {k \<in> tp_accounts_exclude a. k \<in> tp_accounts_exclude b};
          differ = tp_token_accounts a \<noteq> tp_token_accounts b
      in \<lparr>tp_accounts_include = tp_accounts_include a \<union> tp_accounts_include b,
          tp_accounts_required = tp_accounts_required a \<union> tp_accounts_required b,
          tp_accounts_exclude = (if differ then {} else excl),
          tp_vote = (if tp_vote a \<noteq> tp_vote b then None else tp_vote a),
          tp_signature = (if tp_signature a \<noteq> tp_signature b then None else tp_signature a),
          tp_token_accounts =
            (if differ then token_accounts_merge (tp_token_accounts a) (tp_token_accounts b)
             else tp_token_accounts a),
          tp_failed =
            (case (tp_failed a, tp_failed b) of
               (Some x, Some y) \<Rightarrow> if x = y then Some x else None
             | _ \<Rightarrow> None),
          tp_cuckoo_accounts_include =
            cuckoo_merge (tp_cuckoo_accounts_include a) (tp_cuckoo_accounts_include b)\<rparr>)"

definition block_meta_prefilter_merge ::
  "block_meta_prefilter \<Rightarrow> block_meta_prefilter \<Rightarrow> block_meta_prefilter" where
  "block_meta_prefilter_merge lhs rhs = lhs"

definition block_prefilter_merge :: "block_prefilter \<Rightarrow> block_prefilter \<Rightarrow> block_prefilter" where
  "block_prefilter_merge a b =
     \<lparr>bp_accounts_include = bp_accounts_include a \<union> bp_accounts_include b,
      bp_include_transactions = (bp_include_transactions a \<or> bp_include_transactions b),
      bp_include_accounts = (bp_include_accounts a \<or> bp_include_accounts b),
      bp_include_entries = (bp_include_entries a \<or> bp_include_entries b),
      bp_cuckoo_accounts_include =
        cuckoo_merge (bp_cuckoo_accounts_include a) (bp_cuckoo_accounts_include b)\<rparr>"

definition slot_prefilter_merge :: "slot_prefilter \<Rightarrow> slot_prefilter \<Rightarrow> slot_prefilter" where
  "slot_prefilter_merge lhs rhs =
     \<lparr>sp_filter_by_commitment = (sp_filter_by_commitment lhs \<and> sp_filter_by_commitment rhs),
      sp_interslot_updates =
        (case (sp_interslot_updates lhs, sp_interslot_updates rhs) of
           (Some a, Some b) \<Rightarrow> Some (a \<or> b)
         | (Some want, None) \<Rightarrow> Some want
         | (None, Some want) \<Rightarrow> Some want
         | (None, None) \<Rightarrow> None)\<rparr>"

definition prefilter_merge :: "prefilter \<Rightarrow> prefilter \<Rightarrow> prefilter" where
  "prefilter_merge p other =
     \<lparr>pf_account = merge_opt account_prefilter_merge (pf_account p) (pf_account other),
      pf_transaction = merge_opt transaction_prefilter_merge (pf_transaction p) (pf_transaction other),
      pf_block_meta = merge_opt block_meta_prefilter_merge (pf_block_meta p) (pf_block_meta other),
      pf_block = merge_opt block_prefilter_merge (pf_block p) (pf_block other),
      pf_slot = merge_opt slot_prefilter_merge (pf_slot p) (pf_slot other)\<rparr>"

definition prefilter_from_list :: "prefilter list \<Rightarrow> prefilter" where
  "prefilter_from_list ps = (case ps of [] \<Rightarrow> default_prefilter | p # ps' \<Rightarrow> foldl prefilter_merge p ps')"

subsection \<open>Validation\<close>

datatype prefilter_error =
    AlreadySet string
  | BadPubkey bytes
  | BadMemcmpData string u64 string
  | EmptyMemcmpData u64
  | MemcmpDataTooLarge u64 nat nat string
  | TooManyAccountFilters nat nat
  | RepeatedDataSize
  | FalseTokenAccountState
  | ZeroLengthDataSlice u64
  | DataSliceOverflow u64 u64
  | DataSliceOutOfOrder u64 u64
  | DataSliceOverlap u64 u64

definition check_memcmp_len :: "nat \<Rightarrow> nat \<Rightarrow> u64 \<Rightarrow> string \<Rightarrow> (prefilter_error, unit) outcome" where
  "check_memcmp_len len mx offset unit =
     (if mx < len then Err (MemcmpDataTooLarge offset len mx unit) else Ok ())"

definition MAX_DATA_BASE58_SIZE :: nat where "MAX_DATA_BASE58_SIZE = 175"
definition MAX_DATA_BASE64_SIZE :: nat where "MAX_DATA_BASE64_SIZE = 172"
definition MAX_DATA_SIZE :: nat where "MAX_DATA_SIZE = 128"
definition MAX_FILTERS :: nat where "MAX_FILTERS = 4"

text \<open>A decoder: the bytes, or the text of its error.\<close>

type_synonym decoder = "string \<Rightarrow> string + bytes"

definition decode_text :: "decoder \<Rightarrow> string \<Rightarrow> u64 \<Rightarrow> string \<Rightarrow> (prefilter_error, bytes) outcome" where
  "decode_text decode encoding offset text =
     (case decode text of Inl msg \<Rightarrow> Err (BadMemcmpData encoding offset msg) | Inr bs \<Rightarrow> Ok bs)"

fun decode_memcmp :: "decoder \<Rightarrow> decoder \<Rightarrow> u64 \<Rightarrow> memcmp_data \<Rightarrow> (prefilter_error, bytes) outcome" where
  "decode_memcmp bs58 base64 offset (MemcmpBytes bs) = Ok bs"
| "decode_memcmp bs58 base64 offset (MemcmpBase58 text) =
     bind_outcome (check_memcmp_len (length text) MAX_DATA_BASE58_SIZE offset ''base58 characters'') (\<lambda>_.
     decode_text bs58 ''base58'' offset text)"
| "decode_memcmp bs58 base64 offset (MemcmpBase64 text) =
     bind_outcome (check_memcmp_len (length text) MAX_DATA_BASE64_SIZE offset ''base64 characters'') (\<lambda>_.
     decode_text base64 ''base64'' offset text)"

fun account_filter_validate :: "decoder \<Rightarrow> decoder \<Rightarrow> account_filter \<Rightarrow> (prefilter_error, unit) outcome" where
  "account_filter_validate bs58 base64 (Memcmp offset data) =
     bind_outcome (decode_memcmp bs58 base64 offset data) (\<lambda>decoded.
     if decoded = [] then Err (EmptyMemcmpData offset)
     else check_memcmp_len (length decoded) MAX_DATA_SIZE offset ''decoded bytes'')"
| "account_filter_validate bs58 base64 (TokenAccountState False) = Err FalseTokenAccountState"
| "account_filter_validate bs58 base64 (TokenAccountState True) = Ok ()"
| "account_filter_validate bs58 base64 (DataSize _) = Ok ()"
| "account_filter_validate bs58 base64 (Lamports _) = Ok ()"

definition is_data_size :: "account_filter \<Rightarrow> bool" where
  "is_data_size f = (case f of DataSize _ \<Rightarrow> True | _ \<Rightarrow> False)"

fun validate_filters_loop ::
  "decoder \<Rightarrow> decoder \<Rightarrow> bool \<Rightarrow> account_filter list \<Rightarrow> (prefilter_error, unit) outcome" where
  "validate_filters_loop bs58 base64 saw_data_size [] = Ok ()"
| "validate_filters_loop bs58 base64 saw_data_size (f # fs) =
     bind_outcome (account_filter_validate bs58 base64 f) (\<lambda>_.
     if is_data_size f \<and> saw_data_size then Err RepeatedDataSize
     else validate_filters_loop bs58 base64 (saw_data_size \<or> is_data_size f) fs)"

definition account_filter_validate_all ::
  "decoder \<Rightarrow> decoder \<Rightarrow> account_filter list \<Rightarrow> (prefilter_error, unit) outcome" where
  "account_filter_validate_all bs58 base64 filters =
     (if MAX_FILTERS < length filters then Err (TooManyAccountFilters (length filters) MAX_FILTERS)
      else validate_filters_loop bs58 base64 False filters)"

definition slice_validate :: "accounts_data_slice \<Rightarrow> (prefilter_error, unit) outcome" where
  "slice_validate s =
     (if slice_length s = 0 then Err (ZeroLengthDataSlice (slice_offset s))
      else if checked_add (slice_offset s) (slice_length s) = None
      then Err (DataSliceOverflow (slice_offset s) (slice_length s))
      else Ok ())"

fun validate_slices_loop ::
  "accounts_data_slice option \<Rightarrow> accounts_data_slice list \<Rightarrow> (prefilter_error, unit) outcome" where
  "validate_slices_loop previous [] = Ok ()"
| "validate_slices_loop previous (s # ss) =
     bind_outcome (slice_validate s) (\<lambda>_.
     case previous of
       None \<Rightarrow> validate_slices_loop (Some s) ss
     | Some p \<Rightarrow>
         if slice_offset s < slice_offset p then Err (DataSliceOutOfOrder (slice_offset s) (slice_offset p))
         else
           let end = slice_offset p + slice_length p
           in if slice_offset s < end then Err (DataSliceOverlap (slice_offset s) end)
              else validate_slices_loop (Some s) ss)"

definition slice_validate_all :: "accounts_data_slice list \<Rightarrow> (prefilter_error, unit) outcome" where
  "slice_validate_all slices = validate_slices_loop None slices"

subsection \<open>Key sets\<close>

definition cuckoo_ok :: "cuckoo_accounts \<Rightarrow> bool" where
  "cuckoo_ok c \<longleftrightarrow> ascending (cuckoo_keys c)"

lemma ascending_remdups_adj: "sorted xs \<Longrightarrow> ascending (remdups_adj xs)"
  by (induction xs rule: remdups_adj.induct) (auto simp: order.strict_iff_order)

lemma cuckoo_normalize_ok: "cuckoo_ok (cuckoo_normalize c)"
  by (simp add: cuckoo_ok_def cuckoo_normalize_def ascending_remdups_adj)

lemma cuckoo_normalize_set: "set (cuckoo_keys (cuckoo_normalize c)) = set (cuckoo_keys c)"
  by (simp add: cuckoo_normalize_def)

lemma binary_search_member:
  "ascending xs \<Longrightarrow> hi \<le> length xs \<Longrightarrow> binary_search xs k lo hi \<longleftrightarrow> (\<exists>i. lo \<le> i \<and> i < hi \<and> xs ! i = k)"
proof (induction xs k lo hi rule: binary_search.induct)
  case (1 xs k lo hi)
  let ?mid = "(lo + hi) div 2"
  show ?case
  proof (cases "hi \<le> lo")
    case True
    then show ?thesis by (simp add: binary_search.simps)
  next
    case False
    then have mid: "lo \<le> ?mid" "?mid < hi" by auto
    have less: "xs ! i < xs ! j" if "i < j" "j < hi" for i j
      using 1(3,4) that by (simp add: sorted_wrt_nth_less)
    consider "xs ! ?mid = k" | "xs ! ?mid < k" | "k < xs ! ?mid" by fastforce
    then show ?thesis
    proof cases
      case 1
      with mid False show ?thesis by (subst binary_search.simps) (auto simp: Let_def)
    next
      case 2
      have gt: "?mid < i" if "i < hi" "xs ! i = k" for i
        using less [of i ?mid] 2 that mid by (metis linorder_neqE_nat order_less_asym order_less_irrefl)
      have "binary_search xs k lo hi = binary_search xs k (?mid + 1) hi"
        using 2 False by (subst binary_search.simps) (auto simp: Let_def)
      also have "\<dots> \<longleftrightarrow> (\<exists>i. ?mid + 1 \<le> i \<and> i < hi \<and> xs ! i = k)"
        using 1(1) [OF False refl] 2 1(3,4) by simp
      also have "\<dots> \<longleftrightarrow> (\<exists>i. lo \<le> i \<and> i < hi \<and> xs ! i = k)"
      proof (intro iffI; elim exE conjE)
        fix i assume "?mid + 1 \<le> i" "i < hi" "xs ! i = k"
        with mid show "\<exists>i. lo \<le> i \<and> i < hi \<and> xs ! i = k" by (intro exI [of _ i]) auto
      next
        fix i assume i: "lo \<le> i" "i < hi" "xs ! i = k"
        with gt [OF i(2,3)] show "\<exists>i. ?mid + 1 \<le> i \<and> i < hi \<and> xs ! i = k" by (intro exI [of _ i]) auto
      qed
      finally show ?thesis .
    next
      case 3
      have lt: "i < ?mid" if "i < hi" "xs ! i = k" for i
        using less [of ?mid i] 3 that mid by (metis linorder_neqE_nat order_less_asym order_less_irrefl)
      have "binary_search xs k lo hi = binary_search xs k lo ?mid"
        using 3 False by (subst binary_search.simps) (auto simp: Let_def)
      also have "\<dots> \<longleftrightarrow> (\<exists>i. lo \<le> i \<and> i < ?mid \<and> xs ! i = k)"
        using 1(2) [OF False refl] 3 1(3,4) mid by auto
      also have "\<dots> \<longleftrightarrow> (\<exists>i. lo \<le> i \<and> i < hi \<and> xs ! i = k)"
        using lt mid by (metis less_trans)
      finally show ?thesis .
    qed
  qed
qed

text \<open>
  C30. A cuckoo key set is a set: building it from keys and merging two of them keep it sorted
  without repetitions, the merged set has exactly the keys of both, and the binary search of
  \<open>contains\<close> finds a key exactly when it was put in.
\<close>

theorem cuckoo_accounts_set:
  "cuckoo_ok (cuckoo_from_list ks) \<and> cuckoo_ok (cuckoo_merge c c') \<and>
   (cuckoo_contains (cuckoo_from_list ks) k \<longleftrightarrow> k \<in> set ks) \<and>
   (cuckoo_contains (cuckoo_merge c c') k \<longleftrightarrow> k \<in> set (cuckoo_keys c) \<union> set (cuckoo_keys c')) \<and>
   length (cuckoo_keys (cuckoo_from_list ks)) = card (set ks)"
proof -
  have contains: "cuckoo_contains d k \<longleftrightarrow> k \<in> set (cuckoo_keys d)" if "cuckoo_ok d" for d
    using binary_search_member [of "cuckoo_keys d" "length (cuckoo_keys d)" k 0] that
    by (auto simp: cuckoo_contains_def cuckoo_ok_def in_set_conv_nth)
  have ok: "cuckoo_ok (cuckoo_from_list ks)" "cuckoo_ok (cuckoo_merge c c')"
    by (simp_all add: cuckoo_from_list_def cuckoo_merge_def cuckoo_normalize_ok)
  have "length (cuckoo_keys (cuckoo_from_list ks)) = card (set (cuckoo_keys (cuckoo_from_list ks)))"
    using ok(1) by (simp add: cuckoo_ok_def distinct_card ascending_distinct)
  then show ?thesis
    using ok contains [OF ok(1)] contains [OF ok(2)]
    by (simp add: cuckoo_from_list_def cuckoo_merge_def cuckoo_normalize_set)
qed


subsection \<open>Merging\<close>

lemma count_filters_get:
  "count_filters fs m f =
    (if f \<in> set fs then Some (unwrap_or (m f) 0 + int (count (mset fs) f)) else m f)"
  by (induction fs arbitrary: m) (auto simp: not_in_iff)

lemma discount_filters_get:
  "discount_filters fs m =
    (if set fs \<subseteq> dom m then Some (\<lambda>f. map_option (\<lambda>n. n - int (count (mset fs) f)) (m f)) else None)"
proof (induction fs arbitrary: m)
  case Nil
  then show ?case by (simp add: option.map_ident)
next
  case (Cons f fs)
  show ?case
  proof (cases "m f")
    case None
    then show ?thesis by auto
  next
    case (Some n)
    then have "set fs \<subseteq> dom (m(f \<mapsto> n - 1)) \<longleftrightarrow> set (f # fs) \<subseteq> dom m" by auto
    moreover have "map_option (\<lambda>n. n - int (count (mset fs) g)) ((m(f \<mapsto> n - 1)) g) =
        map_option (\<lambda>n. n - int (count (mset (f # fs)) g)) (m g)" for g
      using Some by simp
    ultimately show ?thesis
      using Some Cons [of "m(f \<mapsto> n - 1)"] by (simp only: discount_filters.simps option.simps)
  qed
qed

lemma same_account_filters_mset: "same_account_filters lhs rhs \<longleftrightarrow> mset lhs = mset rhs"
proof -
  have dom: "dom (count_filters lhs Map.empty) = set lhs" by (auto simp: count_filters_get split: if_splits)
  have "mset lhs = mset rhs" if "length lhs = length rhs" "set rhs \<subseteq> set lhs"
    "\<forall>f\<in>set lhs. count (mset lhs) f = count (mset rhs) f"
  proof (rule multiset_eqI)
    fix f show "count (mset lhs) f = count (mset rhs) f"
    proof (cases "f \<in> set lhs")
      case False
      with that(2) have "f \<notin> set rhs" by auto
      with False show ?thesis by (metis count_eq_zero_iff set_mset_mset)
    qed (use that(3) in simp)
  qed
  moreover have "length lhs = length rhs" "set rhs = set lhs" if "mset lhs = mset rhs"
    using that by (metis size_mset, metis set_mset_mset)
  ultimately show ?thesis
    unfolding same_account_filters_def discount_filters_get dom
    by (auto simp: count_filters_get list_all_iff)
qed

text \<open>What the account comparisons and the signature requirement of a prefilter let through.\<close>

definition contents_match ::
  "(account_filter \<Rightarrow> 'a \<Rightarrow> bool) \<Rightarrow> ('a \<Rightarrow> bool) \<Rightarrow> account_prefilter \<Rightarrow> 'a \<Rightarrow> bool" where
  "contents_match holds has_sig p a \<longleftrightarrow>
     (\<forall>f\<in>set (ap_filters p). holds f a) \<and> is_none_or (ap_nonempty_txn_signature p) (\<lambda>r. has_sig a = r)"

text \<open>
  Merging account prefilters over-delivers: the comparisons are kept exactly when both sides
  have the same ones, counted with repetition and in any order; an account update whose
  contents either side accepts is accepted by the merged prefilter; and its key and owner
  sets are the unions.
\<close>

theorem account_merge_over_delivers:
  "ap_filters (account_prefilter_merge a b) = (if mset (ap_filters a) = mset (ap_filters b) then ap_filters a else []) \<and>
   (contents_match holds has_sig a x \<or> contents_match holds has_sig b x \<longrightarrow>
      contents_match holds has_sig (account_prefilter_merge a b) x) \<and>
   ap_accounts (account_prefilter_merge a b) = ap_accounts a \<union> ap_accounts b \<and>
   ap_owners (account_prefilter_merge a b) = ap_owners a \<union> ap_owners b \<and>
   set (cuckoo_keys (ap_cuckoo_accounts (account_prefilter_merge a b))) =
     set (cuckoo_keys (ap_cuckoo_accounts a)) \<union> set (cuckoo_keys (ap_cuckoo_accounts b))"
proof -
  have "set (ap_filters a) = set (ap_filters b)" if "mset (ap_filters a) = mset (ap_filters b)"
    using that by (metis set_mset_mset)
  then show ?thesis
    by (auto simp: account_prefilter_merge_def same_account_filters_mset contents_match_def cuckoo_merge_def
        cuckoo_normalize_set)
qed

text \<open>
  A transaction as the server sees it, and what a transaction prefilter asks for, after the
  documentation of its fields: at least one of the included accounts (when any is given), all
  required ones, none of the excluded ones, where token-balance owners may count as accounts.
\<close>

record tx_view =
  tx_keys :: "pubkey set"
  tx_owners :: "pubkey set"
  tx_changed_owners :: "pubkey set"
  tx_vote :: bool
  tx_signature :: string
  tx_failed :: bool

definition tx_accounts :: "token_accounts option \<Rightarrow> tx_view \<Rightarrow> pubkey set" where
  "tx_accounts mode t =
     tx_keys t \<union>
     (case mode of None \<Rightarrow> {} | Some TokenAll \<Rightarrow> tx_owners t | Some TokenBalanceChanged \<Rightarrow> tx_changed_owners t)"

definition tx_included :: "transaction_prefilter \<Rightarrow> pubkey set" where
  "tx_included p = tp_accounts_include p \<union> set (cuckoo_keys (tp_cuckoo_accounts_include p))"

definition tx_matches :: "transaction_prefilter \<Rightarrow> tx_view \<Rightarrow> bool" where
  "tx_matches p t \<longleftrightarrow>
     (let accs = tx_accounts (tp_token_accounts p) t
      in (tx_included p = {} \<or> tx_included p \<inter> accs \<noteq> {}) \<and>
         tp_accounts_required p \<subseteq> accs \<and> tp_accounts_exclude p \<inter> accs = {} \<and>
         is_none_or (tp_vote p) (\<lambda>v. tx_vote t = v) \<and>
         is_none_or (tp_signature p) (\<lambda>s. tx_signature t = s) \<and>
         is_none_or (tp_failed p) (\<lambda>f. tx_failed t = f))"

lemma tx_included_merge: "tx_included (transaction_prefilter_merge a b) = tx_included a \<union> tx_included b"
  by (auto simp: tx_included_def transaction_prefilter_merge_def Let_def cuckoo_merge_def cuckoo_normalize_set)

lemma merged_accounts_wider:
  assumes "tx_changed_owners t \<subseteq> tx_owners t"
  shows "tx_accounts (tp_token_accounts a) t \<subseteq> tx_accounts (tp_token_accounts (transaction_prefilter_merge a b)) t"
    and "tx_accounts (tp_token_accounts b) t \<subseteq> tx_accounts (tp_token_accounts (transaction_prefilter_merge a b)) t"
  using assms
  by (auto simp: tx_accounts_def transaction_prefilter_merge_def token_accounts_merge_def Let_def
      split: option.splits token_accounts.splits)

text \<open>
  C22. Merging transaction prefilters over-delivers when the sides agree on what narrows: with the
  same required accounts, and include sets that are both given or both absent, a transaction
  that either side asks for is asked for by the merged prefilter. Exclusions, the vote, failure
  and signature choices and the token-owner modes need no agreement.
\<close>

theorem transaction_merge_over_delivers:
  assumes "tx_changed_owners t \<subseteq> tx_owners t"
    and "tp_accounts_required a = tp_accounts_required b" and "tx_included a = {} \<longleftrightarrow> tx_included b = {}"
    and "tx_matches a t \<or> tx_matches b t"
  shows "tx_matches (transaction_prefilter_merge a b) t"
proof -
  let ?m = "transaction_prefilter_merge a b"
  let ?A = "tx_accounts (tp_token_accounts ?m) t"
  note wider = merged_accounts_wider(1) [OF assms(1), of a b] merged_accounts_wider(2) [OF assms(1), of b a]
  have "tx_included ?m = {} \<or> tx_included ?m \<inter> ?A \<noteq> {}"
  proof (cases "tx_included a = {}")
    case True
    with assms(3) show ?thesis by (simp add: tx_included_merge)
  next
    case False
    with assms(3,4) have "tx_included a \<inter> tx_accounts (tp_token_accounts a) t \<noteq> {} \<or>
        tx_included b \<inter> tx_accounts (tp_token_accounts b) t \<noteq> {}"
      by (auto simp: tx_matches_def Let_def)
    with wider show ?thesis unfolding tx_included_merge by fast
  qed
  moreover have "tp_accounts_required ?m \<subseteq> ?A"
  proof -
    have "tp_accounts_required ?m = tp_accounts_required a"
      using assms(2) by (simp add: transaction_prefilter_merge_def Let_def)
    moreover have "tp_accounts_required a \<subseteq> tx_accounts (tp_token_accounts a) t \<or>
        tp_accounts_required a \<subseteq> tx_accounts (tp_token_accounts b) t"
      using assms(2,4) by (auto simp: tx_matches_def Let_def)
    ultimately show ?thesis using wider by fast
  qed
  moreover have "tp_accounts_exclude ?m \<inter> ?A = {}"
    using assms(4) by (auto simp: tx_matches_def transaction_prefilter_merge_def Let_def)
  moreover have "is_none_or (tp_vote ?m) (\<lambda>v. tx_vote t = v)" "is_none_or (tp_signature ?m) (\<lambda>s. tx_signature t = s)"
    using assms(4) by (auto simp: tx_matches_def transaction_prefilter_merge_def Let_def)
  moreover have "is_none_or (tp_failed ?m) (\<lambda>f. tx_failed t = f)"
    using assms(4)
    by (cases "tp_failed a"; cases "tp_failed b") (auto simp: tx_matches_def transaction_prefilter_merge_def Let_def)
  ultimately show ?thesis unfolding tx_matches_def Let_def by blast
qed


definition demo_tx_filter :: "pubkey set \<Rightarrow> pubkey set \<Rightarrow> transaction_prefilter" where
  "demo_tx_filter incl req = default_transaction_prefilter\<lparr>tp_accounts_include := incl, tp_accounts_required := req\<rparr>"

definition demo_tx :: "pubkey set \<Rightarrow> tx_view" where
  "demo_tx ks =
     \<lparr>tx_keys = ks, tx_owners = {}, tx_changed_owners = {}, tx_vote = False, tx_signature = [], tx_failed = False\<rparr>"

theorem transaction_merge_over_delivers_witness:
  "tx_matches (transaction_prefilter_merge (demo_tx_filter {[1]} {[9]}) (demo_tx_filter {[2]} {[9]})) (demo_tx {[2], [9]})"
  by (rule transaction_merge_over_delivers)
     (simp_all add: demo_tx_filter_def demo_tx_def default_transaction_prefilter_def tx_included_def tx_matches_def
       tx_accounts_def)


theorem account_merge_over_delivers_witness:
  "contents_match (\<lambda>f a. f = DataSize a) (\<lambda>_. True)
     (account_prefilter_merge (default_account_prefilter\<lparr>ap_filters := [DataSize 165]\<rparr>)
        (default_account_prefilter\<lparr>ap_filters := [DataSize 82]\<rparr>)) 165"
proof -
  let ?a = "default_account_prefilter\<lparr>ap_filters := [DataSize 165]\<rparr>"
  have "contents_match (\<lambda>f a. f = DataSize a) (\<lambda>_. True) ?a 165"
    by (simp add: contents_match_def default_account_prefilter_def)
  then show ?thesis
    using account_merge_over_delivers [of ?a "default_account_prefilter\<lparr>ap_filters := [DataSize 82]\<rparr>"
        "\<lambda>f a. f = DataSize a" "\<lambda>_. True" 165] by (simp only: simp_thms)
qed

subsection \<open>Validation\<close>

lemma validate_filters_loop_Ok:
  "validate_filters_loop bs58 base64 saw fs = Ok () \<longleftrightarrow>
    list_all (\<lambda>f. account_filter_validate bs58 base64 f = Ok ()) fs \<and>
    length (filter is_data_size fs) \<le> (if saw then 0 else 1)"
  by (induction fs arbitrary: saw) (auto simp: bind_outcome_eq_Ok)

lemma check_memcmp_len_Ok: "check_memcmp_len len mx offset u = Ok () \<longleftrightarrow> len \<le> mx"
  by (simp add: check_memcmp_len_def not_less)

text \<open>The server's rules for one filter, as the limits of the code state them.\<close>

definition filter_acceptable :: "decoder \<Rightarrow> decoder \<Rightarrow> account_filter \<Rightarrow> bool" where
  "filter_acceptable bs58 base64 f =
     (case f of
        Memcmp _ (MemcmpBytes bs) \<Rightarrow> 0 < length bs \<and> length bs \<le> 128
      | Memcmp _ (MemcmpBase58 text) \<Rightarrow>
          length text \<le> 175 \<and> (\<exists>bs. bs58 text = Inr bs \<and> 0 < length bs \<and> length bs \<le> 128)
      | Memcmp _ (MemcmpBase64 text) \<Rightarrow>
          length text \<le> 172 \<and> (\<exists>bs. base64 text = Inr bs \<and> 0 < length bs \<and> length bs \<le> 128)
      | TokenAccountState b \<Rightarrow> b
      | _ \<Rightarrow> True)"

lemma decode_text_Ok: "decode_text d e off text = Ok bs \<longleftrightarrow> d text = Inr bs"
  by (simp add: decode_text_def split: sum.splits)

lemma account_filter_validate_Ok:
  "account_filter_validate bs58 base64 f = Ok () \<longleftrightarrow> filter_acceptable bs58 base64 f"
proof (cases f)
  case (Memcmp off d)
  then show ?thesis
    by (cases d)
       (auto simp: filter_acceptable_def bind_outcome_eq_Ok decode_text_Ok check_memcmp_len_Ok MAX_DATA_SIZE_def
         MAX_DATA_BASE58_SIZE_def MAX_DATA_BASE64_SIZE_def split: if_splits)
next
  case (TokenAccountState b)
  then show ?thesis by (cases b) (simp_all add: filter_acceptable_def)
qed (simp_all add: filter_acceptable_def)

lemma account_filter_validate_all_no_panic: "account_filter_validate_all bs58 base64 fs \<noteq> Panic"
proof -
  have decode: "decode_memcmp bs58 base64 off d \<noteq> Panic" for off d
    by (cases d) (auto simp: check_memcmp_len_def decode_text_def split: sum.splits)
  have "account_filter_validate bs58 base64 f \<noteq> Panic" for f
  proof (cases f)
    case (Memcmp off d)
    with decode [of off d] show ?thesis by (auto simp: bind_outcome_def check_memcmp_len_def split: outcome.splits)
  next
    case (TokenAccountState b)
    then show ?thesis by (cases b) simp_all
  qed simp_all
  then have "validate_filters_loop bs58 base64 saw fs \<noteq> Panic" for saw
    by (induction fs arbitrary: saw) (auto simp: bind_outcome_def split: outcome.splits)
  then show "account_filter_validate_all bs58 base64 fs \<noteq> Panic"
    by (simp add: account_filter_validate_all_def)
qed

text \<open>
  C20. A list of account filters passes validation exactly when it has at most four entries, at
  most one of them a data size, every memcmp decodes to between 1 and 128 bytes within the
  limits on its text, and no token account state is \<open>false\<close>; otherwise it is an error, never
  a panic.
\<close>

theorem account_filter_validate_all_spec:
  "(account_filter_validate_all bs58 base64 fs = Ok () \<longleftrightarrow>
      length fs \<le> 4 \<and> list_all (filter_acceptable bs58 base64) fs \<and> length (filter is_data_size fs) \<le> 1) \<and>
   account_filter_validate_all bs58 base64 fs \<noteq> Panic"
proof
  show "account_filter_validate_all bs58 base64 fs = Ok () \<longleftrightarrow>
      length fs \<le> 4 \<and> list_all (filter_acceptable bs58 base64) fs \<and> length (filter is_data_size fs) \<le> 1"
    by (auto simp: account_filter_validate_all_def validate_filters_loop_Ok account_filter_validate_Ok MAX_FILTERS_def)
qed (rule account_filter_validate_all_no_panic)

definition slice_end :: "accounts_data_slice \<Rightarrow> nat" where
  "slice_end s = unat (slice_offset s) + unat (slice_length s)"

lemma slice_validate_Ok: "slice_validate s = Ok () \<longleftrightarrow> slice_length s \<noteq> 0 \<and> slice_end s < 2 ^ 64"
  by (auto simp: slice_validate_def slice_end_def checked_add_def)

lemma validate_slices_loop_Ok:
  "is_none_or previous (\<lambda>p. slice_validate p = Ok ()) \<Longrightarrow>
    validate_slices_loop previous ss = Ok () \<longleftrightarrow>
      list_all (\<lambda>s. slice_validate s = Ok ()) ss \<and>
      sorted_wrt (\<lambda>s t. slice_end s \<le> unat (slice_offset t)) ((case previous of None \<Rightarrow> [] | Some p \<Rightarrow> [p]) @ ss)"
proof (induction ss arbitrary: previous)
  case Nil
  then show ?case by (cases previous) simp_all
next
  case (Cons s ss)
  show ?case
  proof (cases previous)
    case None
    with Cons.IH [of "Some s"] show ?thesis by (auto simp: bind_outcome_eq_Ok)
  next
    case (Some p)
    then have "slice_end p < 2 ^ 64" using Cons.prems by (simp add: slice_validate_Ok)
    then have pend: "unat (slice_offset p + slice_length p) = slice_end p"
      by (simp add: slice_end_def unat_word_ariths)
    have le: "slice_end s \<le> slice_end s'" if "slice_end s \<le> unat (slice_offset s')" for s'
      using that by (simp add: slice_end_def)
    have "unat (slice_offset s) \<le> slice_end s" "unat (slice_offset p) \<le> slice_end p" by (simp_all add: slice_end_def)
    with Cons.IH [of "Some s"] Some pend show ?thesis
      by (auto simp: bind_outcome_eq_Ok Let_def word_less_nat_alt not_less intro: order_trans)
  qed
qed

text \<open>
  C25. A list of data slices passes validation exactly when every window is non-empty, ends
  within the 64-bit offset space, and the windows follow each other without overlap; the sum
  \<open>previous.offset + previous.length\<close> of the check never wraps.
\<close>

theorem slice_validate_all_spec:
  "slice_validate_all ss = Ok () \<longleftrightarrow>
    list_all (\<lambda>s. 0 < unat (slice_length s) \<and> slice_end s < 2 ^ 64) ss \<and>
    sorted_wrt (\<lambda>s t. slice_end s \<le> unat (slice_offset t)) ss"
  using validate_slices_loop_Ok [of None ss]
  by (simp add: slice_validate_all_def slice_validate_Ok unat_gt_0)


end
