(* ===== verification/Prefilter_Builder.thy ===== *)
theory Prefilter_Builder
  imports Prefilter
begin

text \<open>
  The builder of prefilters (\<open>PrefilterBuilder\<close> in \<open>crates/core/src/lib.rs\<close>). Every method is
  a definition. \<open>account_filters\<close> collects its argument into a \<open>HashSet\<close> and back: the order of
  the result is a choice of the hash map, so the function that does it is an argument
  \<open>dedup\<close>, of which only \<open>dedup_ok\<close> is assumed.
\<close>

record prefilter_builder =
  pb_error :: "prefilter_error option"
  pb_slots :: bool
  pb_block_metas :: bool
  pb_block_accounts_include :: "pubkey set option"
  pb_block_include_accounts :: bool
  pb_block_include_transactions :: bool
  pb_block_include_entries :: bool
  pb_block_cuckoo_accounts_include :: "cuckoo_accounts option"
  pb_accounts_include_all :: bool
  pb_accounts :: "pubkey set option"
  pb_account_owners :: "pubkey set option"
  pb_account_filters :: "account_filter list option"
  pb_account_nonempty_txn_signature :: "bool option"
  pb_account_cuckoo :: "cuckoo_accounts option"
  pb_transaction_accounts_exclude :: "pubkey set option"
  pb_transaction_vote :: "bool option"
  pb_transaction_signature :: "string option"
  pb_transaction_token_accounts :: "token_accounts option"
  pb_slot_interslot_updates :: "bool option"
  pb_transaction_accounts_include :: "pubkey set option"
  pb_transaction_accounts_required :: "pubkey set option"
  pb_transaction_cuckoo_accounts_include :: "cuckoo_accounts option"

definition default_prefilter_builder :: prefilter_builder where
  "default_prefilter_builder =
     \<lparr>pb_error = None, pb_slots = False, pb_block_metas = False, pb_block_accounts_include = None,
      pb_block_include_accounts = False, pb_block_include_transactions = False,
      pb_block_include_entries = False, pb_block_cuckoo_accounts_include = None,
      pb_accounts_include_all = False, pb_accounts = None, pb_account_owners = None,
      pb_account_filters = None, pb_account_nonempty_txn_signature = None, pb_account_cuckoo = None,
      pb_transaction_accounts_exclude = None, pb_transaction_vote = None,
      pb_transaction_signature = None, pb_transaction_token_accounts = None,
      pb_slot_interslot_updates = None, pb_transaction_accounts_include = None,
      pb_transaction_accounts_required = None, pb_transaction_cuckoo_accounts_include = None\<rparr>"

subsection \<open>Helpers\<close>

definition set_opt ::
  "(prefilter_builder \<Rightarrow> 'a option) \<Rightarrow> (('a option \<Rightarrow> 'a option) \<Rightarrow> prefilter_builder \<Rightarrow> prefilter_builder) \<Rightarrow>
   string \<Rightarrow> 'a \<Rightarrow> prefilter_builder \<Rightarrow> prefilter_builder \<times> (prefilter_error, unit) outcome" where
  "set_opt get upd field val b =
     (if get b \<noteq> None then (b, Err (AlreadySet field)) else (upd (\<lambda>_. Some val) b, Ok ()))"

definition pubkey_try_from :: "bytes \<Rightarrow> (prefilter_error, pubkey) outcome" where
  "pubkey_try_from p = (if length p = 32 then Ok p else Err (BadPubkey p))"

definition collect_pubkeys :: "bytes list \<Rightarrow> (prefilter_error, pubkey set) outcome" where
  "collect_pubkeys it = bind_outcome (try_map pubkey_try_from it) (\<lambda>ks. Ok (set ks))"

text \<open>\<open>collect_pubkeys(it)?.into_iter().collect::<CuckooAccounts>()\<close>: any order gives the same sorted keys.\<close>

definition collect_cuckoo :: "bytes list \<Rightarrow> (prefilter_error, cuckoo_accounts) outcome" where
  "collect_cuckoo it = bind_outcome (try_map pubkey_try_from it) (\<lambda>ks. Ok (cuckoo_from_list ks))"

definition mutate ::
  "(prefilter_builder \<Rightarrow> prefilter_builder \<times> (prefilter_error, unit) outcome) \<Rightarrow> prefilter_builder \<Rightarrow> prefilter_builder" where
  "mutate f b =
     (if pb_error b = None then
        (case f b of
           (b', Ok _) \<Rightarrow> b'
         | (b', Err e) \<Rightarrow> b'\<lparr>pb_error := Some e\<rparr>
         | (b', Panic) \<Rightarrow> b')
      else b)"

definition with_value ::
  "(prefilter_error, 'a) outcome \<Rightarrow> ('a \<Rightarrow> prefilter_builder \<Rightarrow> prefilter_builder \<times> (prefilter_error, unit) outcome) \<Rightarrow>
   prefilter_builder \<Rightarrow> prefilter_builder \<times> (prefilter_error, unit) outcome" where
  "with_value r f b = (case r of Ok v \<Rightarrow> f v b | Err e \<Rightarrow> (b, Err e) | Panic \<Rightarrow> (b, Panic))"

subsection \<open>Methods\<close>

definition account_filters ::
  "decoder \<Rightarrow> decoder \<Rightarrow> (account_filter list \<Rightarrow> account_filter list) \<Rightarrow> account_filter list \<Rightarrow>
   prefilter_builder \<Rightarrow> prefilter_builder" where
  "account_filters bs58 base64 dedup it =
     mutate (\<lambda>b.
       let filters = dedup it
       in with_value (account_filter_validate_all bs58 base64 filters)
            (\<lambda>_. set_opt pb_account_filters pb_account_filters_update ''account_filters'' filters) b)"

definition account_nonempty_txn_signature :: "bool \<Rightarrow> prefilter_builder \<Rightarrow> prefilter_builder" where
  "account_nonempty_txn_signature required =
     mutate (set_opt pb_account_nonempty_txn_signature pb_account_nonempty_txn_signature_update
       ''account_nonempty_txn_signature'' required)"

definition account_cuckoo :: "bytes list \<Rightarrow> prefilter_builder \<Rightarrow> prefilter_builder" where
  "account_cuckoo it =
     mutate (with_value (collect_cuckoo it)
       (set_opt pb_account_cuckoo pb_account_cuckoo_update ''account_cuckoo''))"

definition transaction_accounts_exclude :: "bytes list \<Rightarrow> prefilter_builder \<Rightarrow> prefilter_builder" where
  "transaction_accounts_exclude it =
     mutate (with_value (collect_pubkeys it)
       (set_opt pb_transaction_accounts_exclude pb_transaction_accounts_exclude_update ''transaction_accounts_exclude''))"

definition transaction_vote :: "bool \<Rightarrow> prefilter_builder \<Rightarrow> prefilter_builder" where
  "transaction_vote vote =
     mutate (set_opt pb_transaction_vote pb_transaction_vote_update ''transaction_vote'' vote)"

definition transaction_signature :: "string \<Rightarrow> prefilter_builder \<Rightarrow> prefilter_builder" where
  "transaction_signature sig =
     mutate (set_opt pb_transaction_signature pb_transaction_signature_update ''transaction_signature'' sig)"

definition transaction_token_accounts :: "token_accounts \<Rightarrow> prefilter_builder \<Rightarrow> prefilter_builder" where
  "transaction_token_accounts mode =
     mutate (set_opt pb_transaction_token_accounts pb_transaction_token_accounts_update
       ''transaction_token_accounts'' mode)"

definition transaction_cuckoo_accounts_include :: "bytes list \<Rightarrow> prefilter_builder \<Rightarrow> prefilter_builder" where
  "transaction_cuckoo_accounts_include it =
     mutate (with_value (collect_cuckoo it)
       (set_opt pb_transaction_cuckoo_accounts_include pb_transaction_cuckoo_accounts_include_update
          ''transaction_cuckoo_accounts_include''))"

definition slot_interslot_updates :: "bool \<Rightarrow> prefilter_builder \<Rightarrow> prefilter_builder" where
  "slot_interslot_updates wanted =
     mutate (set_opt pb_slot_interslot_updates pb_slot_interslot_updates_update ''slot_interslot_updates'' wanted)"

definition slots :: "prefilter_builder \<Rightarrow> prefilter_builder" where
  "slots = mutate (\<lambda>b. (b\<lparr>pb_slots := True\<rparr>, Ok ()))"

definition block_metas :: "prefilter_builder \<Rightarrow> prefilter_builder" where
  "block_metas = mutate (\<lambda>b. (b\<lparr>pb_block_metas := True\<rparr>, Ok ()))"

definition accounts_include_all :: "prefilter_builder \<Rightarrow> prefilter_builder" where
  "accounts_include_all = mutate (\<lambda>b. (b\<lparr>pb_accounts_include_all := True\<rparr>, Ok ()))"

definition builder_accounts :: "bytes list \<Rightarrow> prefilter_builder \<Rightarrow> prefilter_builder" where
  "builder_accounts it =
     mutate (with_value (collect_pubkeys it) (set_opt pb_accounts pb_accounts_update ''accounts''))"

definition account_owners :: "bytes list \<Rightarrow> prefilter_builder \<Rightarrow> prefilter_builder" where
  "account_owners it =
     mutate (with_value (collect_pubkeys it)
       (set_opt pb_account_owners pb_account_owners_update ''account_owners''))"

definition transaction_accounts :: "bytes list \<Rightarrow> prefilter_builder \<Rightarrow> prefilter_builder" where
  "transaction_accounts it =
     mutate (with_value (collect_pubkeys it)
       (set_opt pb_transaction_accounts_required pb_transaction_accounts_required_update
          ''transaction_accounts_required''))"

definition transaction_accounts_include :: "bytes list \<Rightarrow> prefilter_builder \<Rightarrow> prefilter_builder" where
  "transaction_accounts_include it =
     mutate (with_value (collect_pubkeys it)
       (set_opt pb_transaction_accounts_include pb_transaction_accounts_include_update
          ''transaction_accounts_include''))"

definition block_accounts_include :: "bytes list \<Rightarrow> prefilter_builder \<Rightarrow> prefilter_builder" where
  "block_accounts_include it =
     mutate (with_value (collect_pubkeys it)
       (set_opt pb_block_accounts_include pb_block_accounts_include_update ''block_accounts_include''))"

definition block_cuckoo_accounts_include :: "bytes list \<Rightarrow> prefilter_builder \<Rightarrow> prefilter_builder" where
  "block_cuckoo_accounts_include it =
     mutate (with_value (collect_cuckoo it)
       (set_opt pb_block_cuckoo_accounts_include pb_block_cuckoo_accounts_include_update
          ''block_cuckoo_accounts_include''))"

definition block_include_accounts :: "prefilter_builder \<Rightarrow> prefilter_builder" where
  "block_include_accounts = mutate (\<lambda>b. (b\<lparr>pb_block_include_accounts := True\<rparr>, Ok ()))"

definition block_include_transactions :: "prefilter_builder \<Rightarrow> prefilter_builder" where
  "block_include_transactions = mutate (\<lambda>b. (b\<lparr>pb_block_include_transactions := True\<rparr>, Ok ()))"

definition block_include_entries :: "prefilter_builder \<Rightarrow> prefilter_builder" where
  "block_include_entries = mutate (\<lambda>b. (b\<lparr>pb_block_include_entries := True\<rparr>, Ok ()))"

subsection \<open>Build\<close>

definition built_account :: "prefilter_builder \<Rightarrow> account_prefilter" where
  "built_account b =
     \<lparr>ap_accounts = unwrap_or (pb_accounts b) {},
      ap_owners = unwrap_or (pb_account_owners b) {},
      ap_filters = unwrap_or (pb_account_filters b) [],
      ap_nonempty_txn_signature = pb_account_nonempty_txn_signature b,
      ap_cuckoo_accounts = unwrap_or (pb_account_cuckoo b) (CuckooAccounts [])\<rparr>"

definition built_transaction :: "prefilter_builder \<Rightarrow> transaction_prefilter" where
  "built_transaction b =
     default_transaction_prefilter
       \<lparr>tp_accounts_include := unwrap_or (pb_transaction_accounts_include b) {},
        tp_accounts_exclude := unwrap_or (pb_transaction_accounts_exclude b) {},
        tp_accounts_required := unwrap_or (pb_transaction_accounts_required b) {},
        tp_vote := pb_transaction_vote b,
        tp_signature := pb_transaction_signature b,
        tp_token_accounts := pb_transaction_token_accounts b,
        tp_cuckoo_accounts_include := unwrap_or (pb_transaction_cuckoo_accounts_include b) (CuckooAccounts [])\<rparr>"

definition built_block :: "prefilter_builder \<Rightarrow> block_prefilter" where
  "built_block b =
     \<lparr>bp_accounts_include = unwrap_or (pb_block_accounts_include b) {},
      bp_include_transactions = pb_block_include_transactions b,
      bp_include_accounts = pb_block_include_accounts b,
      bp_include_entries = pb_block_include_entries b,
      bp_cuckoo_accounts_include = unwrap_or (pb_block_cuckoo_accounts_include b) (CuckooAccounts [])\<rparr>"

definition built_slot :: "prefilter_builder \<Rightarrow> slot_prefilter" where
  "built_slot b = default_slot_prefilter\<lparr>sp_interslot_updates := pb_slot_interslot_updates b\<rparr>"

definition build_prefilter :: "prefilter_builder \<Rightarrow> (prefilter_error, prefilter) outcome" where
  "build_prefilter b =
     (case pb_error b of
        Some err \<Rightarrow> Err err
      | None \<Rightarrow>
          let account = built_account b; transaction = built_transaction b; block = built_block b; slot = built_slot b
          in Ok \<lparr>pf_account =
                   (if pb_accounts_include_all b then
                      Some (default_account_prefilter
                        \<lparr>ap_filters := ap_filters account,
                         ap_nonempty_txn_signature := ap_nonempty_txn_signature account\<rparr>)
                    else then_some (account \<noteq> default_account_prefilter) account),
                 pf_transaction = then_some (transaction \<noteq> default_transaction_prefilter) transaction,
                 pf_block_meta = then_some (pb_block_metas b) BlockMetaPrefilter,
                 pf_block = then_some (block \<noteq> default_block_prefilter) block,
                 pf_slot = then_some (pb_slots b \<or> slot \<noteq> default_slot_prefilter) slot\<rparr>)"

subsection \<open>Sequences of builder calls\<close>

datatype builder_call =
    CallAccountFilters "account_filter list"
  | CallNonemptySignature bool
  | CallAccountCuckoo "bytes list"
  | CallTxExclude "bytes list"
  | CallTxVote bool
  | CallTxSignature string
  | CallTxTokenAccounts token_accounts
  | CallTxCuckoo "bytes list"
  | CallInterslot bool
  | CallSlots
  | CallBlockMetas
  | CallIncludeAll
  | CallAccounts "bytes list"
  | CallOwners "bytes list"
  | CallTxRequired "bytes list"
  | CallTxInclude "bytes list"
  | CallBlockAccounts "bytes list"
  | CallBlockCuckoo "bytes list"
  | CallBlockIncludeAccounts
  | CallBlockIncludeTransactions
  | CallBlockIncludeEntries

fun call_builder ::
  "decoder \<Rightarrow> decoder \<Rightarrow> (account_filter list \<Rightarrow> account_filter list) \<Rightarrow> builder_call \<Rightarrow>
   prefilter_builder \<Rightarrow> prefilter_builder" where
  "call_builder d58 d64 dd (CallAccountFilters fs) = account_filters d58 d64 dd fs"
| "call_builder d58 d64 dd (CallNonemptySignature r) = account_nonempty_txn_signature r"
| "call_builder d58 d64 dd (CallAccountCuckoo it) = account_cuckoo it"
| "call_builder d58 d64 dd (CallTxExclude it) = transaction_accounts_exclude it"
| "call_builder d58 d64 dd (CallTxVote v) = transaction_vote v"
| "call_builder d58 d64 dd (CallTxSignature s) = transaction_signature s"
| "call_builder d58 d64 dd (CallTxTokenAccounts m) = transaction_token_accounts m"
| "call_builder d58 d64 dd (CallTxCuckoo it) = transaction_cuckoo_accounts_include it"
| "call_builder d58 d64 dd (CallInterslot w) = slot_interslot_updates w"
| "call_builder d58 d64 dd CallSlots = slots"
| "call_builder d58 d64 dd CallBlockMetas = block_metas"
| "call_builder d58 d64 dd CallIncludeAll = accounts_include_all"
| "call_builder d58 d64 dd (CallAccounts it) = builder_accounts it"
| "call_builder d58 d64 dd (CallOwners it) = account_owners it"
| "call_builder d58 d64 dd (CallTxRequired it) = transaction_accounts it"
| "call_builder d58 d64 dd (CallTxInclude it) = transaction_accounts_include it"
| "call_builder d58 d64 dd (CallBlockAccounts it) = block_accounts_include it"
| "call_builder d58 d64 dd (CallBlockCuckoo it) = block_cuckoo_accounts_include it"
| "call_builder d58 d64 dd CallBlockIncludeAccounts = block_include_accounts"
| "call_builder d58 d64 dd CallBlockIncludeTransactions = block_include_transactions"
| "call_builder d58 d64 dd CallBlockIncludeEntries = block_include_entries"

definition run_builder ::
  "decoder \<Rightarrow> decoder \<Rightarrow> (account_filter list \<Rightarrow> account_filter list) \<Rightarrow> builder_call list \<Rightarrow> prefilter_builder" where
  "run_builder d58 d64 dd calls = fold (call_builder d58 d64 dd) calls default_prefilter_builder"

definition dedup_ok :: "('a list \<Rightarrow> 'a list) \<Rightarrow> bool" where
  "dedup_ok dd \<longleftrightarrow> (\<forall>xs. distinct (dd xs) \<and> set (dd xs) = set xs)"

lemmas builder_defs = account_filters_def account_nonempty_txn_signature_def account_cuckoo_def
  transaction_accounts_exclude_def transaction_vote_def transaction_signature_def
  transaction_token_accounts_def transaction_cuckoo_accounts_include_def slot_interslot_updates_def
  slots_def block_metas_def accounts_include_all_def builder_accounts_def account_owners_def
  transaction_accounts_def transaction_accounts_include_def block_accounts_include_def
  block_cuckoo_accounts_include_def block_include_accounts_def block_include_transactions_def
  block_include_entries_def

lemmas builder_steps = mutate_def with_value_def set_opt_def Let_def

lemma call_builder_mutate: "\<exists>f. call_builder d58 d64 dd c = mutate f"
  by (cases c) (auto simp: builder_defs)

lemma mutate_error: "pb_error b \<noteq> None \<Longrightarrow> mutate f b = b"
  by (auto simp: mutate_def)

lemma call_error: "pb_error b \<noteq> None \<Longrightarrow> call_builder d58 d64 dd c b = b"
  using call_builder_mutate [of d58 d64 dd c] by (auto simp: mutate_error)

lemma run_error: "pb_error b \<noteq> None \<Longrightarrow> fold (call_builder d58 d64 dd) cs b = b"
  by (induction cs) (simp_all add: call_error)

text \<open>
  The first mistake wins: once a call has failed, no later call changes the builder, and
  \<open>build\<close> reports exactly the error of that first failing call; without a failing call it
  succeeds. It never panics.
\<close>

lemma builder_first_error:
  "(case pb_error (run_builder d58 d64 dd (us @ [c])) of
      Some e \<Rightarrow> build_prefilter (run_builder d58 d64 dd (us @ c # vs)) = Err e
    | None \<Rightarrow> \<exists>p. build_prefilter (run_builder d58 d64 dd (us @ [c])) = Ok p) \<and>
   build_prefilter (run_builder d58 d64 dd us) \<noteq> Panic"
  by (auto simp: run_builder_def run_error build_prefilter_def Let_def split: option.splits)

subsection \<open>What a builder holds\<close>

definition keys_ok :: "pubkey set \<Rightarrow> bool" where
  "keys_ok ks \<longleftrightarrow> finite ks \<and> (\<forall>k\<in>ks. length k = 32)"

definition cuckoo_valid :: "cuckoo_accounts \<Rightarrow> bool" where
  "cuckoo_valid c \<longleftrightarrow> cuckoo_ok c \<and> (\<forall>k\<in>set (cuckoo_keys c). length k = 32)"

definition builder_ok :: "decoder \<Rightarrow> decoder \<Rightarrow> prefilter_builder \<Rightarrow> bool" where
  "builder_ok d58 d64 b \<longleftrightarrow>
     is_none_or (pb_accounts b) keys_ok \<and> is_none_or (pb_account_owners b) keys_ok \<and>
     is_none_or (pb_block_accounts_include b) keys_ok \<and> is_none_or (pb_transaction_accounts_exclude b) keys_ok \<and>
     is_none_or (pb_transaction_accounts_include b) keys_ok \<and> is_none_or (pb_transaction_accounts_required b) keys_ok \<and>
     is_none_or (pb_account_cuckoo b) cuckoo_valid \<and> is_none_or (pb_block_cuckoo_accounts_include b) cuckoo_valid \<and>
     is_none_or (pb_transaction_cuckoo_accounts_include b) cuckoo_valid \<and>
     is_none_or (pb_account_filters b) (\<lambda>fs. distinct fs \<and> account_filter_validate_all d58 d64 fs = Ok ())"

lemma builder_ok_error [simp]: "builder_ok d58 d64 (b\<lparr>pb_error := e\<rparr>) = builder_ok d58 d64 b"
  by (simp add: builder_ok_def)

lemma builder_ok_default: "builder_ok d58 d64 default_prefilter_builder"
  by (simp add: builder_ok_def default_prefilter_builder_def)

lemma builder_ok_mutate:
  "builder_ok d58 d64 b \<Longrightarrow> (\<And>b' r. f b = (b', r) \<Longrightarrow> builder_ok d58 d64 b') \<Longrightarrow> builder_ok d58 d64 (mutate f b)"
  by (auto simp: mutate_def split: prod.splits outcome.splits)

lemma try_map_pubkeys: "try_map pubkey_try_from it = Ok ks \<longleftrightarrow> ks = it \<and> (\<forall>k\<in>set it. length k = 32)"
  by (induction it arbitrary: ks) (auto simp: bind_outcome_eq_Ok pubkey_try_from_def)

lemma collect_pubkeys_Ok: "collect_pubkeys it = Ok ks \<Longrightarrow> keys_ok ks"
  by (auto simp: collect_pubkeys_def bind_outcome_eq_Ok try_map_pubkeys keys_ok_def)

lemma collect_cuckoo_Ok: "collect_cuckoo it = Ok c \<Longrightarrow> cuckoo_valid c"
  by (auto simp: collect_cuckoo_def bind_outcome_eq_Ok try_map_pubkeys cuckoo_valid_def
      cuckoo_from_list_def cuckoo_normalize_ok cuckoo_normalize_set)

lemma call_builder_ok:
  assumes "dedup_ok dd" and "builder_ok d58 d64 b"
  shows "builder_ok d58 d64 (call_builder d58 d64 dd c b)"
  using assms collect_pubkeys_Ok collect_cuckoo_Ok
  by (cases c)
     (auto simp: builder_defs with_value_def set_opt_def Let_def builder_ok_def dedup_ok_def mutate_def
       split: outcome.splits if_splits)

text \<open>What can be sent for a prefilter: keys of 32 bytes and comparisons the server accepts.\<close>

definition prefilter_valid :: "decoder \<Rightarrow> decoder \<Rightarrow> prefilter \<Rightarrow> bool" where
  "prefilter_valid d58 d64 p \<longleftrightarrow>
     is_none_or (pf_account p) (\<lambda>a. keys_ok (ap_accounts a) \<and> keys_ok (ap_owners a) \<and>
       cuckoo_valid (ap_cuckoo_accounts a) \<and> account_filter_validate_all d58 d64 (ap_filters a) = Ok ()) \<and>
     is_none_or (pf_transaction p) (\<lambda>t. keys_ok (tp_accounts_include t) \<and> keys_ok (tp_accounts_required t) \<and>
       keys_ok (tp_accounts_exclude t) \<and> cuckoo_valid (tp_cuckoo_accounts_include t) \<and> tp_failed t = Some False) \<and>
     is_none_or (pf_block p) (\<lambda>b. keys_ok (bp_accounts_include b) \<and> cuckoo_valid (bp_cuckoo_accounts_include b))"

lemma valid_defaults: "keys_ok {}" "cuckoo_valid (CuckooAccounts [])" "account_filter_validate_all d58 d64 [] = Ok ()"
  by (simp_all add: keys_ok_def cuckoo_valid_def cuckoo_ok_def account_filter_validate_all_def)

lemma valid_unwrap:
  "is_none_or x keys_ok \<Longrightarrow> keys_ok (unwrap_or x {})"
  "is_none_or y cuckoo_valid \<Longrightarrow> cuckoo_valid (unwrap_or y (CuckooAccounts []))"
  by (cases x; simp add: valid_defaults) (cases y; simp add: valid_defaults)

lemma builder_run_ok: "dedup_ok dd \<Longrightarrow> builder_ok d58 d64 (run_builder d58 d64 dd calls)"
proof -
  assume dd: "dedup_ok dd"
  have "builder_ok d58 d64 b \<Longrightarrow> builder_ok d58 d64 (fold (call_builder d58 d64 dd) calls b)" for b
    by (induction calls arbitrary: b) (auto intro: call_builder_ok [OF dd])
  then show ?thesis by (simp add: run_builder_def builder_ok_default)
qed

text \<open>
  C24. A prefilter that was built is one the server can act on: whatever calls were made, every
  key of it has 32 bytes, its cuckoo sets are sorted without repetitions, and its account
  comparisons pass validation.
\<close>

theorem built_prefilter_valid:
  assumes "dedup_ok dd" and "build_prefilter (run_builder d58 d64 dd calls) = Ok p"
  shows "prefilter_valid d58 d64 p"
proof -
  let ?b = "run_builder d58 d64 dd calls"
  have ok: "builder_ok d58 d64 ?b" by (rule builder_run_ok [OF assms(1)])
  have filters: "account_filter_validate_all d58 d64 (unwrap_or (pb_account_filters ?b) []) = Ok ()"
    using ok by (cases "pb_account_filters ?b") (simp_all add: builder_ok_def valid_defaults)
  have "p = (case build_prefilter ?b of Ok q \<Rightarrow> q | _ \<Rightarrow> p)" by (simp add: assms(2))
  moreover have "pb_error ?b = None"
    using assms(2) by (auto simp: build_prefilter_def Let_def split: option.splits)
  ultimately show ?thesis
    using ok filters
    by (simp add: build_prefilter_def Let_def prefilter_valid_def then_some_def built_account_def built_transaction_def
        built_block_def builder_ok_def valid_unwrap valid_defaults default_account_prefilter_def
        default_transaction_prefilter_def)
qed

theorem built_prefilter_valid_witness:
  "\<exists>p. build_prefilter (run_builder (\<lambda>_. Inl []) (\<lambda>_. Inl []) remdups
      [CallOwners [replicate 32 1], CallAccountFilters [DataSize 165, DataSize 165], CallSlots]) = Ok p \<and>
    prefilter_valid (\<lambda>_. Inl []) (\<lambda>_. Inl []) p"
proof -
  let ?b = "run_builder (\<lambda>_. Inl []) (\<lambda>_. Inl []) remdups
      [CallOwners [replicate 32 1], CallAccountFilters [DataSize 165, DataSize 165], CallSlots]"
  have "pb_error ?b = None"
    by (simp add: run_builder_def builder_defs builder_steps collect_pubkeys_def try_map_pubkeys pubkey_try_from_def
        account_filter_validate_all_def MAX_FILTERS_def default_prefilter_builder_def is_data_size_def)
  then obtain p where p: "build_prefilter ?b = Ok p" by (simp add: build_prefilter_def Let_def)
  have "dedup_ok (remdups :: account_filter list \<Rightarrow> account_filter list)" by (simp add: dedup_ok_def)
  from p built_prefilter_valid [OF this p] show ?thesis by blast
qed

subsection \<open>A field is given once\<close>

datatype builder_field =
    F_account_filters | F_signature_required | F_account_cuckoo | F_tx_exclude | F_tx_vote | F_tx_signature
  | F_tx_token | F_tx_cuckoo | F_interslot | F_accounts | F_owners | F_tx_required | F_tx_include
  | F_block_accounts | F_block_cuckoo

fun call_field :: "builder_call \<Rightarrow> builder_field option" where
  "call_field (CallAccountFilters _) = Some F_account_filters"
| "call_field (CallNonemptySignature _) = Some F_signature_required"
| "call_field (CallAccountCuckoo _) = Some F_account_cuckoo"
| "call_field (CallTxExclude _) = Some F_tx_exclude"
| "call_field (CallTxVote _) = Some F_tx_vote"
| "call_field (CallTxSignature _) = Some F_tx_signature"
| "call_field (CallTxTokenAccounts _) = Some F_tx_token"
| "call_field (CallTxCuckoo _) = Some F_tx_cuckoo"
| "call_field (CallInterslot _) = Some F_interslot"
| "call_field (CallAccounts _) = Some F_accounts"
| "call_field (CallOwners _) = Some F_owners"
| "call_field (CallTxRequired _) = Some F_tx_required"
| "call_field (CallTxInclude _) = Some F_tx_include"
| "call_field (CallBlockAccounts _) = Some F_block_accounts"
| "call_field (CallBlockCuckoo _) = Some F_block_cuckoo"
| "call_field _ = None"

fun field_set :: "builder_field \<Rightarrow> prefilter_builder \<Rightarrow> bool" where
  "field_set F_account_filters b = (pb_account_filters b \<noteq> None)"
| "field_set F_signature_required b = (pb_account_nonempty_txn_signature b \<noteq> None)"
| "field_set F_account_cuckoo b = (pb_account_cuckoo b \<noteq> None)"
| "field_set F_tx_exclude b = (pb_transaction_accounts_exclude b \<noteq> None)"
| "field_set F_tx_vote b = (pb_transaction_vote b \<noteq> None)"
| "field_set F_tx_signature b = (pb_transaction_signature b \<noteq> None)"
| "field_set F_tx_token b = (pb_transaction_token_accounts b \<noteq> None)"
| "field_set F_tx_cuckoo b = (pb_transaction_cuckoo_accounts_include b \<noteq> None)"
| "field_set F_interslot b = (pb_slot_interslot_updates b \<noteq> None)"
| "field_set F_accounts b = (pb_accounts b \<noteq> None)"
| "field_set F_owners b = (pb_account_owners b \<noteq> None)"
| "field_set F_tx_required b = (pb_transaction_accounts_required b \<noteq> None)"
| "field_set F_tx_include b = (pb_transaction_accounts_include b \<noteq> None)"
| "field_set F_block_accounts b = (pb_block_accounts_include b \<noteq> None)"
| "field_set F_block_cuckoo b = (pb_block_cuckoo_accounts_include b \<noteq> None)"

lemma collect_no_panic: "collect_pubkeys it \<noteq> Panic" "collect_cuckoo it \<noteq> Panic"
proof -
  have "try_map pubkey_try_from it \<noteq> Panic"
    by (induction it) (auto simp: pubkey_try_from_def bind_outcome_def split: outcome.splits)
  then show "collect_pubkeys it \<noteq> Panic" "collect_cuckoo it \<noteq> Panic"
    by (auto simp: collect_pubkeys_def collect_cuckoo_def bind_outcome_def split: outcome.splits)
qed

lemma call_sets_field:
  "call_field c = Some f \<Longrightarrow> pb_error (call_builder d58 d64 dd c b) = None \<Longrightarrow>
    \<not> field_set f b \<and> field_set f (call_builder d58 d64 dd c b)"
  using account_filter_validate_all_no_panic [of d58 d64] collect_no_panic
  by (cases c) (auto simp: builder_defs builder_steps split: if_splits outcome.splits)

lemma call_keeps_fields: "field_set f b \<Longrightarrow> field_set f (call_builder d58 d64 dd c b)"
  by (cases c; cases f) (auto simp: builder_defs builder_steps split: if_splits outcome.splits)

lemma run_keeps_fields: "field_set f b \<Longrightarrow> field_set f (fold (call_builder d58 d64 dd) cs b)"
  by (induction cs arbitrary: b) (auto intro: call_keeps_fields)

lemma run_no_error: "pb_error (fold (call_builder d58 d64 dd) cs b) = None \<Longrightarrow> pb_error b = None"
  using run_error [of b d58 d64 dd cs] by fastforce

text \<open>
  Every field of the builder is given at most once: a sequence of calls that builds has no
  two calls that give the same field.
\<close>

theorem builder_fields_once:
  assumes "build_prefilter (run_builder d58 d64 dd (us @ c # vs @ c' # ws)) = Ok p" and "call_field c \<noteq> None"
  shows "call_field c' \<noteq> call_field c"
proof
  assume same: "call_field c' = call_field c"
  obtain f where f: "call_field c = Some f" using assms(2) by blast
  let ?C = "call_builder d58 d64 dd"
  let ?b = "?C c (fold ?C us default_prefilter_builder)" and ?b' = "fold ?C vs (?C c (fold ?C us default_prefilter_builder))"
  have "pb_error (run_builder d58 d64 dd (us @ c # vs @ c' # ws)) = None"
    using assms(1) by (auto simp: build_prefilter_def split: option.splits)
  then have "pb_error (fold ?C ws (?C c' ?b')) = None" by (simp add: run_builder_def)
  from run_no_error [OF this] have c': "pb_error (?C c' ?b') = None" .
  then have "pb_error ?b' = None" using call_error [of ?b' d58 d64 dd c'] by fastforce
  from run_no_error [OF this] have "field_set f ?b" using call_sets_field [OF f] by blast
  then have "field_set f ?b'" by (rule run_keeps_fields)
  moreover have "\<not> field_set f ?b'" using call_sets_field [OF _ c'] same f by simp
  ultimately show False by simp
qed

theorem builder_fields_once_witness:
  "\<exists>p. build_prefilter (run_builder (\<lambda>_. Inl []) (\<lambda>_. Inl []) remdups
      ([] @ CallInterslot True # [CallSlots] @ CallTxVote True # [])) = Ok p \<and>
    call_field (CallTxVote True) \<noteq> call_field (CallInterslot True)"
proof -
  obtain p where p: "build_prefilter (run_builder (\<lambda>_. Inl []) (\<lambda>_. Inl []) remdups
      ([] @ CallInterslot True # [CallSlots] @ CallTxVote True # [])) = Ok p"
    by (simp add: run_builder_def builder_defs builder_steps default_prefilter_builder_def build_prefilter_def)
  have "call_field (CallInterslot True) \<noteq> None" by simp
  from p builder_fields_once [OF p this] show ?thesis by blast
qed

end
