(* ===== verification/Filters.thy ===== *)
theory Filters
  imports Prefilter_Builder
begin

text \<open>
  The filters of a subscription and the request sent to the server (\<open>Filters\<close>, the cuckoo
  filter of \<open>CuckooAccounts\<close> and the conversion to \<open>SubscribeRequest\<close> in
  \<open>crates/core/src/lib.rs\<close>). The cuckoo filter itself and the base58 text of a key are code of
  other packages and arguments here. Iterating over a \<open>HashSet\<close> yields its elements in an order
  that is a choice of the hash map: the function that lists them is an argument too.
\<close>

subsection \<open>Filters\<close>

type_synonym filters = "string \<rightharpoonup> prefilter"

definition filters_insert :: "string \<Rightarrow> prefilter \<Rightarrow> filters \<Rightarrow> filters \<times> prefilter option" where
  "filters_insert pid p fs = (fs(pid \<mapsto> p), fs pid)"

definition filters_merge :: "string \<Rightarrow> prefilter \<Rightarrow> filters \<Rightarrow> filters" where
  "filters_merge pid p fs =
     (case fs pid of Some existing \<Rightarrow> fs(pid \<mapsto> prefilter_merge existing p) | None \<Rightarrow> fs(pid \<mapsto> p))"

definition filters_remove :: "string \<Rightarrow> filters \<Rightarrow> filters \<times> prefilter option" where
  "filters_remove pid fs = (fs(pid := None), fs pid)"

subsection \<open>Cuckoo filters\<close>

record 'f cuckoo_api =
  with_capacity :: "nat \<Rightarrow> 'f option"
  cuckoo_insert :: "pubkey \<Rightarrow> 'f \<Rightarrow> 'f \<times> bool"
  cuckoo_lookup :: "'f \<Rightarrow> pubkey \<Rightarrow> bool"

text \<open>\<open>evicted |= filter.insert(&key.0).is_err()\<close> over the keys; the flag of an insert is success.\<close>

fun insert_keys :: "'f cuckoo_api \<Rightarrow> pubkey list \<Rightarrow> 'f \<Rightarrow> bool \<Rightarrow> 'f \<times> bool" where
  "insert_keys api [] f evicted = (f, evicted)"
| "insert_keys api (k # ks) f evicted =
     (case cuckoo_insert api k f of (f', ok) \<Rightarrow> insert_keys api ks f' (evicted \<or> \<not> ok))"

definition cuckoo_build :: "'f cuckoo_api \<Rightarrow> nat \<Rightarrow> cuckoo_accounts \<Rightarrow> ('f \<times> pubkey list) option" where
  "cuckoo_build api capacity c =
     (case with_capacity api capacity of
        None \<Rightarrow> None
      | Some f0 \<Rightarrow>
          (case insert_keys api (cuckoo_keys c) f0 False of
             (f, evicted) \<Rightarrow>
               Some (f, if evicted then filter (\<lambda>k. \<not> cuckoo_lookup api f k) (cuckoo_keys c) else [])))"

text \<open>\<open>len.saturating_mul(2)\<close> saturates at the largest \<open>usize\<close>.\<close>

definition usize_max :: nat where "usize_max = 2 ^ 64 - 1"

definition to_filter :: "'f cuckoo_api \<Rightarrow> cuckoo_accounts \<Rightarrow> 'f option \<times> pubkey list" where
  "to_filter api c =
     (if cuckoo_keys c = [] then (None, [])
      else
        let len = length (cuckoo_keys c);
            second = (case cuckoo_build api (min (2 * len) usize_max) c of
                        Some (f, missed) \<Rightarrow> (Some f, missed)
                      | None \<Rightarrow> (None, cuckoo_keys c))
        in case cuckoo_build api len c of
             Some (f, missed) \<Rightarrow> if missed = [] then (Some f, missed) else second
           | None \<Rightarrow> second)"

text \<open>The lister of hash sets and the text of a key.\<close>

record 'f wire_env =
  list_set :: "pubkey set \<Rightarrow> pubkey list"
  key_text :: "pubkey \<Rightarrow> string"
  cuckoo :: "'f cuckoo_api"

definition wire_keys :: "'f wire_env \<Rightarrow> pubkey set \<Rightarrow> cuckoo_accounts \<Rightarrow> string list \<times> 'f option" where
  "wire_keys env keys c =
     (case to_filter (cuckoo env) c of
        (f, missed) \<Rightarrow> (map (key_text env) (list_set env keys @ filter (\<lambda>k. k \<notin> keys) missed), f))"

subsection \<open>The request\<close>

datatype wire_cmp = WireEq u64 | WireNe u64 | WireLt u64 | WireGt u64

datatype wire_memcmp_data = WireBytes bytes | WireBase58 string | WireBase64 string

datatype wire_account_filter =
    WireMemcmp u64 "wire_memcmp_data option"
  | WireDatasize u64
  | WireTokenAccountState bool
  | WireLamports "wire_cmp option"

datatype wire_token_flag = WireTokenAll | WireTokenBalanceChanged

fun wire_memcmp :: "memcmp_data \<Rightarrow> wire_memcmp_data" where
  "wire_memcmp (MemcmpBytes bs) = WireBytes bs"
| "wire_memcmp (MemcmpBase58 t) = WireBase58 t"
| "wire_memcmp (MemcmpBase64 t) = WireBase64 t"

fun wire_lamports :: "lamports_cmp \<Rightarrow> wire_cmp" where
  "wire_lamports (LamportsEq l) = WireEq l"
| "wire_lamports (LamportsNe l) = WireNe l"
| "wire_lamports (LamportsLt l) = WireLt l"
| "wire_lamports (LamportsGt l) = WireGt l"

fun wire_token :: "token_accounts \<Rightarrow> wire_token_flag" where
  "wire_token TokenAll = WireTokenAll"
| "wire_token TokenBalanceChanged = WireTokenBalanceChanged"

fun wire_filter :: "account_filter \<Rightarrow> wire_account_filter" where
  "wire_filter (Memcmp offset data) = WireMemcmp offset (Some (wire_memcmp data))"
| "wire_filter (DataSize n) = WireDatasize n"
| "wire_filter (TokenAccountState state) = WireTokenAccountState state"
| "wire_filter (Lamports cmp) = WireLamports (Some (wire_lamports cmp))"

record 'f wire_accounts =
  wa_account :: "string list"
  wa_owner :: "string list"
  wa_filters :: "wire_account_filter list"
  wa_nonempty_txn_signature :: "bool option"
  wa_cuckoo :: "'f option"

record wire_slots =
  ws_filter_by_commitment :: "bool option"
  ws_interslot_updates :: "bool option"

record 'f wire_transactions =
  wt_vote :: "bool option"
  wt_failed :: "bool option"
  wt_cuckoo :: "'f option"
  wt_signature :: "string option"
  wt_account_include :: "string list"
  wt_account_exclude :: "string list"
  wt_account_required :: "string list"
  wt_token_accounts :: "wire_token_flag option"

record 'f wire_blocks =
  wb_account_include :: "string list"
  wb_include_transactions :: "bool option"
  wb_include_accounts :: "bool option"
  wb_include_entries :: "bool option"
  wb_cuckoo :: "'f option"

record 'f subscribe_request =
  req_accounts :: "string \<rightharpoonup> 'f wire_accounts"
  req_slots :: "string \<rightharpoonup> wire_slots"
  req_transactions :: "string \<rightharpoonup> 'f wire_transactions"
  req_blocks :: "string \<rightharpoonup> 'f wire_blocks"
  req_blocks_meta :: "string \<rightharpoonup> unit"
  req_entry :: "string \<rightharpoonup> unit"
  req_commitment :: "nat option"
  req_accounts_data_slice :: "accounts_data_slice list"
  req_from_slot :: "u64 option"

definition wire_account_prefilter :: "'f wire_env \<Rightarrow> account_prefilter \<Rightarrow> 'f wire_accounts" where
  "wire_account_prefilter env v =
     (case wire_keys env (ap_accounts v) (ap_cuckoo_accounts v) of
        (account, f) \<Rightarrow>
          \<lparr>wa_account = account,
           wa_owner = map (key_text env) (list_set env (ap_owners v)),
           wa_filters = map wire_filter (ap_filters v),
           wa_nonempty_txn_signature = ap_nonempty_txn_signature v,
           wa_cuckoo = f\<rparr>)"

definition wire_slot_prefilter :: "slot_prefilter \<Rightarrow> wire_slots" where
  "wire_slot_prefilter v =
     \<lparr>ws_filter_by_commitment = Some (sp_filter_by_commitment v),
      ws_interslot_updates = sp_interslot_updates v\<rparr>"

definition wire_transaction_prefilter :: "'f wire_env \<Rightarrow> transaction_prefilter \<Rightarrow> 'f wire_transactions" where
  "wire_transaction_prefilter env v =
     (case wire_keys env (tp_accounts_include v) (tp_cuckoo_accounts_include v) of
        (account_include, f) \<Rightarrow>
          \<lparr>wt_vote = tp_vote v,
           wt_failed = tp_failed v,
           wt_cuckoo = f,
           wt_signature = tp_signature v,
           wt_account_include = account_include,
           wt_account_exclude = map (key_text env) (list_set env (tp_accounts_exclude v)),
           wt_account_required = map (key_text env) (list_set env (tp_accounts_required v)),
           wt_token_accounts = map_option wire_token (tp_token_accounts v)\<rparr>)"

definition wire_block_prefilter :: "'f wire_env \<Rightarrow> block_prefilter \<Rightarrow> 'f wire_blocks" where
  "wire_block_prefilter env v =
     (case wire_keys env (bp_accounts_include v) (bp_cuckoo_accounts_include v) of
        (account_include, f) \<Rightarrow>
          \<lparr>wb_account_include = account_include,
           wb_include_transactions = Some (bp_include_transactions v),
           wb_include_accounts = Some (bp_include_accounts v),
           wb_include_entries = Some (bp_include_entries v),
           wb_cuckoo = f\<rparr>)"

text \<open>\<open>filter_map\<close> over the map of filters: a parser has an entry when its prefilter has the part.\<close>

definition request_part :: "(prefilter \<Rightarrow> 'a option) \<Rightarrow> ('a \<Rightarrow> 'b) \<Rightarrow> filters \<Rightarrow> string \<rightharpoonup> 'b" where
  "request_part part wire fs = (\<lambda>k. map_option wire (Option.bind (fs k) part))"

definition subscribe_request_from :: "'f wire_env \<Rightarrow> filters \<Rightarrow> 'f subscribe_request" where
  "subscribe_request_from env fs =
     \<lparr>req_accounts = request_part pf_account (wire_account_prefilter env) fs,
      req_slots = request_part pf_slot wire_slot_prefilter fs,
      req_transactions = request_part pf_transaction (wire_transaction_prefilter env) fs,
      req_blocks = request_part pf_block (wire_block_prefilter env) fs,
      req_blocks_meta = request_part pf_block_meta (\<lambda>_. ()) fs,
      req_entry = Map.empty,
      req_commitment = None,
      req_accounts_data_slice = [],
      req_from_slot = None\<rparr>"

subsection \<open>No key is lost\<close>

text \<open>
  What the code relies on: iterating over a set yields its elements once, keys have distinct
  texts, and a cuckoo filter into which every insert succeeded finds every inserted key.
\<close>

definition env_ok :: "'f wire_env \<Rightarrow> bool" where
  "env_ok env \<longleftrightarrow>
     (\<forall>ks. finite ks \<longrightarrow> set (list_set env ks) = ks \<and> distinct (list_set env ks)) \<and> inj (key_text env) \<and>
     (\<forall>cap f0 ks f. with_capacity (cuckoo env) cap = Some f0 \<longrightarrow> insert_keys (cuckoo env) ks f0 False = (f, False) \<longrightarrow>
        (\<forall>k\<in>set ks. cuckoo_lookup (cuckoo env) f k))"

lemma cuckoo_build_covers:
  assumes "env_ok env" and "cuckoo_build (cuckoo env) cap c = Some (f, missed)" and "k \<in> set (cuckoo_keys c)"
  shows "cuckoo_lookup (cuckoo env) f k \<or> k \<in> set missed"
proof -
  obtain f0 evicted where f0: "with_capacity (cuckoo env) cap = Some f0"
    and ins: "insert_keys (cuckoo env) (cuckoo_keys c) f0 False = (f, evicted)"
    and missed: "missed = (if evicted then filter (\<lambda>k. \<not> cuckoo_lookup (cuckoo env) f k) (cuckoo_keys c) else [])"
    using assms(2) by (auto simp: cuckoo_build_def split: option.splits prod.splits)
  show ?thesis
  proof (cases evicted)
    case True
    with missed assms(3) show ?thesis by auto
  next
    case False
    then have none: "insert_keys (cuckoo env) (cuckoo_keys c) f0 False = (f, False)" using ins by simp
    have "\<forall>cap f0 ks f. with_capacity (cuckoo env) cap = Some f0 \<longrightarrow> insert_keys (cuckoo env) ks f0 False = (f, False) \<longrightarrow>
        (\<forall>k\<in>set ks. cuckoo_lookup (cuckoo env) f k)" using assms(1) by (simp add: env_ok_def)
    from this [rule_format, OF f0 none assms(3)] show ?thesis by simp
  qed
qed

lemma cuckoo_build_missed:
  "cuckoo_build api cap c = Some (f, missed) \<Longrightarrow> set missed \<subseteq> set (cuckoo_keys c) \<and> (distinct (cuckoo_keys c) \<longrightarrow> distinct missed)"
  by (auto simp: cuckoo_build_def split: option.splits prod.splits)

lemma to_filter_cases:
  assumes "to_filter api c = (f, missed)"
  obtains (empty) "cuckoo_keys c = []" "missed = []"
    | (built) cap f' where "f = Some f'" "cuckoo_build api cap c = Some (f', missed)"
    | (unbuilt) "f = None" "missed = cuckoo_keys c"
proof (cases "cuckoo_keys c = []")
  case True
  with assms empty show thesis by (simp add: to_filter_def)
next
  case False
  let ?len = "length (cuckoo_keys c)"
  have second: thesis if "(case cuckoo_build api (min (2 * ?len) usize_max) c of
      Some (f, missed) \<Rightarrow> (Some f, missed) | None \<Rightarrow> (None, cuckoo_keys c)) = (f, missed)"
    using that built unbuilt by (auto split: option.splits)
  show thesis
    using assms False second built by (auto simp: to_filter_def Let_def split: option.splits if_splits)
qed

lemma to_filter_covers:
  assumes "env_ok env" and "to_filter (cuckoo env) c = (f, missed)" and "k \<in> set (cuckoo_keys c)"
  shows "is_some_and f (\<lambda>f. cuckoo_lookup (cuckoo env) f k) \<or> k \<in> set missed"
  using assms(2)
proof (cases rule: to_filter_cases)
  case (built cap f')
  with cuckoo_build_covers [OF assms(1) built(2) assms(3)] show ?thesis by simp
qed (use assms(3) in auto)

lemma to_filter_missed:
  assumes "to_filter api c = (f, missed)"
  shows "set missed \<subseteq> set (cuckoo_keys c) \<and> (distinct (cuckoo_keys c) \<longrightarrow> distinct missed)"
  using assms
proof (cases rule: to_filter_cases)
  case (built cap f')
  from cuckoo_build_missed [OF built(2)] show ?thesis .
qed auto

text \<open>
  No subscribed key is lost on the wire: every key of the list or of the cuckoo set is either
  in the list that is sent or found by the filter that is sent, even when the filter is full
  or cannot be built; and no key is listed twice.
\<close>

theorem wire_keys_complete:
  assumes "env_ok env" and "finite keys" and "cuckoo_ok c" and "wire_keys env keys c = (texts, f)"
  shows "(\<forall>k\<in>keys \<union> set (cuckoo_keys c).
      key_text env k \<in> set texts \<or> is_some_and f (\<lambda>f. cuckoo_lookup (cuckoo env) f k)) \<and>
    distinct texts \<and> set texts \<subseteq> key_text env ` (keys \<union> set (cuckoo_keys c))"
proof -
  obtain missed where tf: "to_filter (cuckoo env) c = (f, missed)"
    and texts: "texts = map (key_text env) (list_set env keys @ filter (\<lambda>k. k \<notin> keys) missed)"
    using assms(4) by (auto simp: wire_keys_def split: prod.splits)
  have ls: "set (list_set env keys) = keys" "distinct (list_set env keys)" and inj: "inj (key_text env)"
    using assms(1,2) by (auto simp: env_ok_def)
  have m: "set missed \<subseteq> set (cuckoo_keys c)" "distinct missed"
    using to_filter_missed [OF tf] assms(3) by (auto simp: cuckoo_ok_def ascending_distinct)
  have "distinct texts"
    using ls m(2) inj by (auto simp: texts distinct_map inj_on_def inj_def)
  moreover have "key_text env k \<in> set texts \<or> is_some_and f (\<lambda>f. cuckoo_lookup (cuckoo env) f k)"
    if "k \<in> keys \<union> set (cuckoo_keys c)" for k
    using that to_filter_covers [OF assms(1) tf, of k] ls(1) by (auto simp: texts)
  moreover have "set texts \<subseteq> key_text env ` (keys \<union> set (cuckoo_keys c))"
    using m(1) ls(1) by (auto simp: texts)
  ultimately show ?thesis by blast
qed

text \<open>A filter that never fails and holds exactly its keys, and one that holds none.\<close>

definition exact_cuckoo :: "pubkey list cuckoo_api" where
  "exact_cuckoo = \<lparr>with_capacity = (\<lambda>n. Some []), cuckoo_insert = (\<lambda>k f. (k # f, True)), cuckoo_lookup = (\<lambda>f k. k \<in> set f)\<rparr>"

definition demo_env :: "pubkey list wire_env" where
  "demo_env = \<lparr>list_set = sorted_list_of_set, key_text = map (\<lambda>b. char_of (unat b)), cuckoo = exact_cuckoo\<rparr>"

lemma exact_insert_keys: "insert_keys exact_cuckoo ks f e = (f', e') \<Longrightarrow> set f' = set ks \<union> set f"
  by (induction ks arbitrary: f e) (auto simp: exact_cuckoo_def)

lemma char_of_unat_inj: "inj (\<lambda>b :: u8. char_of (unat b) :: char)"
proof (rule injI)
  fix a b :: u8
  assume "(char_of (unat a) :: char) = char_of (unat b)"
  then have "(of_char (char_of (unat a) :: char) :: nat) = of_char (char_of (unat b) :: char)" by simp
  then have "unat a mod 256 = unat b mod 256" by (simp only: of_char_of)
  then show "a = b"
    using unat_bound [of a] unat_bound [of b] by (simp add: word_unat_eq_iff)
qed

lemma demo_env_ok: "env_ok demo_env"
  using exact_insert_keys char_of_unat_inj
  by (fastforce simp: env_ok_def demo_env_def exact_cuckoo_def)

theorem wire_keys_complete_witness:
  "key_text demo_env [7] \<in> set (fst (wire_keys demo_env {[5]} (CuckooAccounts [[7]]))) \<or>
   is_some_and (snd (wire_keys demo_env {[5]} (CuckooAccounts [[7]]))) (\<lambda>f. cuckoo_lookup (cuckoo demo_env) f [7])"
  using wire_keys_complete [OF demo_env_ok, of "{[5]}" "CuckooAccounts [[7]]"
      "fst (wire_keys demo_env {[5]} (CuckooAccounts [[7]]))" "snd (wire_keys demo_env {[5]} (CuckooAccounts [[7]]))"]
  by (simp add: cuckoo_ok_def)

text \<open>
  The request serves every parser by itself: a parser has an account, transaction, block,
  block-meta or slot subscription exactly when its prefilter has that part, its entry depends
  on no other parser's prefilter, comparisons keep their meaning on the wire, and what is set
  for the whole connection is left to the source.
\<close>

theorem subscribe_request_per_parser:
  "(pid \<in> dom (req_accounts (subscribe_request_from env fs)) \<longleftrightarrow> (\<exists>p a. fs pid = Some p \<and> pf_account p = Some a)) \<and>
   (pid \<in> dom (req_transactions (subscribe_request_from env fs)) \<longleftrightarrow> (\<exists>p t. fs pid = Some p \<and> pf_transaction p = Some t)) \<and>
   (pid \<in> dom (req_blocks (subscribe_request_from env fs)) \<longleftrightarrow> (\<exists>p b. fs pid = Some p \<and> pf_block p = Some b)) \<and>
   (pid \<in> dom (req_blocks_meta (subscribe_request_from env fs)) \<longleftrightarrow> (\<exists>p. fs pid = Some p \<and> pf_block_meta p \<noteq> None)) \<and>
   (pid \<in> dom (req_slots (subscribe_request_from env fs)) \<longleftrightarrow> (\<exists>p s. fs pid = Some p \<and> pf_slot p = Some s)) \<and>
   (pid \<noteq> pid' \<longrightarrow>
      req_accounts (subscribe_request_from env (filters_merge pid' q fs)) pid = req_accounts (subscribe_request_from env fs) pid \<and>
      req_transactions (subscribe_request_from env (filters_merge pid' q fs)) pid =
        req_transactions (subscribe_request_from env fs) pid) \<and>
   inj wire_filter \<and>
   req_entry (subscribe_request_from env fs) = Map.empty \<and> req_commitment (subscribe_request_from env fs) = None"
proof -
  have memcmp: "wire_memcmp d = wire_memcmp d' \<longleftrightarrow> d = d'" for d d' by (cases d; cases d') simp_all
  have lamports: "wire_lamports c = wire_lamports c' \<longleftrightarrow> c = c'" for c c' by (cases c; cases c') simp_all
  have "inj wire_filter"
  proof (rule injI)
    fix f g assume "wire_filter f = wire_filter g"
    then show "f = g" by (cases f; cases g) (simp_all add: memcmp lamports)
  qed
  then show ?thesis
    by (auto simp: subscribe_request_from_def request_part_def filters_merge_def dom_def split: option.splits
        bind_splits)
qed

theorem subscribe_request_per_parser_witness:
  "req_accounts (subscribe_request_from demo_env (filters_merge ''b'' default_prefilter Map.empty)) ''a'' =
   req_accounts (subscribe_request_from demo_env Map.empty) ''a''"
  using subscribe_request_per_parser [of "''a''" demo_env Map.empty "''b''" default_prefilter] by simp


end
