(* ===== verification/Sources.thy ===== *)
theory Sources
  imports Filters
begin

text \<open>
  What the runtime and its sources share (\<open>crates/runtime/src/sources.rs\<close>, the error type of
  \<open>crates/runtime/src/lib.rs\<close>): how a source exits and how it fails. A gRPC status is its code
  and its message; the codes are those of the gRPC specification, in its order. The boxed error
  of \<open>Error::Other\<close> is a type parameter.
\<close>

datatype grpc_code =
    Code_Ok | Cancelled | Unknown | InvalidArgument | DeadlineExceeded | NotFound | AlreadyExists
  | PermissionDenied | ResourceExhausted | FailedPrecondition | Aborted | OutOfRange
  | Unimplemented | Internal | Unavailable | DataLoss | Unauthenticated

record grpc_status =
  status_code :: grpc_code
  status_message :: string

datatype source_exit_status =
    ReceiverDropped
  | Completed
  | StreamEnded
  | StreamError grpc_code string
  | SourceError string

datatype 'o shipstern_error =
    IoError string
  | YellowstoneBuilder
  | YellowstoneClient
  | ClientHangup
  | ServerHangup
  | YellowstoneStatus grpc_status
  | ConfigError
  | OtherError 'o

text \<open>
  A slot update of the proto: the sources here only send the status \<open>SlotFinalized\<close>, never with an
  error.
\<close>

datatype proto_slot_status = ProtoSlotProcessed | ProtoSlotConfirmed | ProtoSlotFinalized

record slot_status_update =
  su_slot :: u64
  su_parent :: "u64 option"
  su_status :: proto_slot_status
  su_dead_error :: "string option"

text \<open>What a source sends to the runtime: an update, or the status that ended the stream.\<close>

type_synonym 'u runtime_item = "(grpc_status, 'u) outcome"

end
