(* ===== verification/Ordered_Map.thy ===== *)
theory Ordered_Map
  imports Prelude
begin

text \<open>
  \<open>std::collections::BTreeMap\<close>: a map whose iteration order is the key order. The interface
  is the locale \<open>ordered_map\<close>; the model the components use is a list of key-value pairs
  with strictly ascending keys, which interprets it.
\<close>

subsection \<open>The interface\<close>

locale ordered_map =
  fixes empty :: "'m"
    and lookup :: "'m \<Rightarrow> 'k::linorder \<Rightarrow> 'v option"
    and insert :: "'k \<Rightarrow> 'v \<Rightarrow> 'm \<Rightarrow> 'm"
    and remove :: "'k \<Rightarrow> 'm \<Rightarrow> 'm"
    and keys :: "'m \<Rightarrow> 'k list"
    and ok :: "'m \<Rightarrow> bool"
  assumes ok_empty: "ok empty"
    and ok_insert: "ok m \<Longrightarrow> ok (insert k v m)"
    and ok_remove: "ok m \<Longrightarrow> ok (remove k m)"
    and lookup_empty: "lookup empty k = None"
    and lookup_insert: "ok m \<Longrightarrow> lookup (insert k v m) k' = (if k' = k then Some v else lookup m k')"
    and lookup_remove: "ok m \<Longrightarrow> lookup (remove k m) k' = (if k' = k then None else lookup m k')"
    and keys_ascending: "ok m \<Longrightarrow> ascending (keys m)"
    and keys_dom: "ok m \<Longrightarrow> set (keys m) = {k. lookup m k \<noteq> None}"
begin

lemma keys_iff: "ok m \<Longrightarrow> k \<in> set (keys m) \<longleftrightarrow> (\<exists>v. lookup m k = Some v)"
  by (simp add: keys_dom)

lemma keys_insert: "ok m \<Longrightarrow> set (keys (insert k v m)) = Set.insert k (set (keys m))"
  by (auto simp: keys_dom ok_insert lookup_insert)

lemma keys_remove: "ok m \<Longrightarrow> set (keys (remove k m)) = set (keys m) - {k}"
  by (auto simp: keys_dom ok_remove lookup_remove)

lemma keys_insert_old: "ok m \<Longrightarrow> lookup m k \<noteq> None \<Longrightarrow> keys (insert k v m) = keys m"
  using keys_insert [of m k v] keys_iff [of m k]
  by (intro ascending_unique) (auto simp: keys_ascending ok_insert)

lemma keys_empty: "keys empty = []"
  using keys_dom [OF ok_empty] by (simp add: lookup_empty)

lemma first_key_least:
  assumes "ok m" and "keys m = k # ks" and "lookup m k' = Some v"
  shows "k \<le> k'"
  using keys_ascending [OF assms(1)] keys_iff [OF assms(1), of k'] assms(2,3) by fastforce

end

subsection \<open>The model\<close>

type_synonym ('k, 'v) btree_map = "('k \<times> 'v) list"

definition bt_ok :: "('k::linorder, 'v) btree_map \<Rightarrow> bool" where
  "bt_ok m = ascending (map fst m)"

abbreviation bt_keys :: "('k, 'v) btree_map \<Rightarrow> 'k list" where
  "bt_keys m \<equiv> map fst m"

abbreviation bt_values :: "('k, 'v) btree_map \<Rightarrow> 'v list" where
  "bt_values m \<equiv> map snd m"

abbreviation bt_get :: "('k, 'v) btree_map \<Rightarrow> 'k \<Rightarrow> 'v option" where
  "bt_get \<equiv> map_of"

fun bt_insert :: "'k::linorder \<Rightarrow> 'v \<Rightarrow> ('k, 'v) btree_map \<Rightarrow> ('k, 'v) btree_map" where
  "bt_insert k v [] = [(k, v)]"
| "bt_insert k v (p # m) =
     (if fst p < k then p # bt_insert k v m
      else if fst p = k then (k, v) # m
      else (k, v) # p # m)"

definition bt_remove :: "'k \<Rightarrow> ('k, 'v) btree_map \<Rightarrow> ('k, 'v) btree_map" where
  "bt_remove k m = filter (\<lambda>p. fst p \<noteq> k) m"

text \<open>\<open>map.entry(k).or_default()\<close> followed by an update of the entry in place.\<close>

definition bt_upsert ::
  "'k::linorder \<Rightarrow> 'v \<Rightarrow> ('v \<Rightarrow> 'v) \<Rightarrow> ('k, 'v) btree_map \<Rightarrow> ('k, 'v) btree_map" where
  "bt_upsert k d f m = bt_insert k (f (unwrap_or (bt_get m k) d)) m"

definition bt_retain :: "('k \<Rightarrow> 'v \<Rightarrow> bool) \<Rightarrow> ('k, 'v) btree_map \<Rightarrow> ('k, 'v) btree_map" where
  "bt_retain P m = filter (\<lambda>(k, v). P k v) m"

lemma bt_insert_keys: "set (bt_keys (bt_insert k v m)) = insert k (set (bt_keys m))"
  by (induction m) (auto split: if_splits)

lemma bt_insert_ok: "bt_ok m \<Longrightarrow> bt_ok (bt_insert k v m)"
proof (induction m)
  case Nil
  then show ?case by (simp add: bt_ok_def)
next
  case (Cons p m)
  have "set (map fst (bt_insert k v m)) = insert k (set (map fst m))"
    by (rule bt_insert_keys)
  with Cons show ?case by (auto simp: bt_ok_def)
qed

lemma bt_get_insert: "bt_ok m \<Longrightarrow> bt_get (bt_insert k v m) k' = (if k' = k then Some v else bt_get m k')"
  by (induction m) (auto simp: bt_ok_def)

lemma bt_remove_ok: "bt_ok m \<Longrightarrow> bt_ok (bt_remove k m)"
  by (simp add: bt_ok_def bt_remove_def ascending_filter)

lemma bt_get_remove: "bt_get (bt_remove k m) k' = (if k' = k then None else bt_get m k')"
  by (induction m) (auto simp: bt_remove_def)

interpretation bt: ordered_map "[]" map_of bt_insert bt_remove "map fst" bt_ok
proof unfold_locales
  show "bt_ok []" by (simp add: bt_ok_def)
  show "ascending (map fst m)" if "bt_ok m" for m :: "('a \<times> 'b) list"
    using that by (simp add: bt_ok_def)
  show "set (map fst m) = {k. map_of m k \<noteq> None}" for m :: "('a \<times> 'b) list"
    using dom_map_of_conv_image_fst [of m] by (simp add: dom_def)
qed (simp_all add: bt_insert_ok bt_remove_ok bt_get_insert bt_get_remove)

lemma bt_get_upsert:
  "bt_ok m \<Longrightarrow> bt_get (bt_upsert k d f m) k' =
     (if k' = k then Some (f (unwrap_or (bt_get m k) d)) else bt_get m k')"
  by (simp add: bt_upsert_def bt.lookup_insert)

lemma bt_upsert_ok: "bt_ok m \<Longrightarrow> bt_ok (bt_upsert k d f m)"
  by (simp add: bt_upsert_def bt.ok_insert)

lemma bt_keys_upsert: "set (bt_keys (bt_upsert k d f m)) = insert k (set (bt_keys m))"
  by (simp only: bt_upsert_def bt_insert_keys)

lemma bt_retain_ok: "bt_ok m \<Longrightarrow> bt_ok (bt_retain P m)"
  by (simp add: bt_ok_def bt_retain_def ascending_filter)

lemma bt_get_iff: "bt_ok m \<Longrightarrow> bt_get m k = Some v \<longleftrightarrow> (k, v) \<in> set m"
  by (simp add: bt_ok_def ascending_distinct map_of_eq_Some_iff)

lemma bt_get_retain:
  "bt_ok m \<Longrightarrow> bt_get (bt_retain P m) k =
     (case bt_get m k of None \<Rightarrow> None | Some v \<Rightarrow> if P k v then Some v else None)"
proof (induction m)
  case Nil
  then show ?case by (simp add: bt_retain_def)
next
  case (Cons p m)
  then have ok: "bt_ok m" and fresh: "bt_get m (fst p) = None"
    by (auto simp: bt_ok_def map_of_eq_None_iff)
  from Cons.IH [OF ok] fresh show ?case
    by (cases p) (auto simp: bt_retain_def)
qed

lemma bt_ext:
  assumes ok: "bt_ok m" "bt_ok n" and eq: "bt_get m = bt_get n"
  shows "m = n"
proof -
  have set_eq: "set m = set n"
    using eq bt_get_iff [OF ok(1)] bt_get_iff [OF ok(2)] by auto
  have "inj_on fst (set m)"
    using ok(1) by (auto simp: bt_ok_def distinct_map dest: ascending_distinct)
  with set_eq ok show ?thesis
    by (intro map_sorted_distinct_set_unique [of fst m n])
       (auto simp: bt_ok_def strict_sorted_iff)
qed

lemmas bt_simps = bt.lookup_insert bt.lookup_remove bt_get_upsert bt_get_retain
lemmas bt_oks [inv_intros] = bt.ok_empty bt.ok_insert bt.ok_remove bt_upsert_ok bt_retain_ok

end
