(* ===== verification/Coordinator_Types.thy ===== *)
theory Coordinator_Types
  imports Ordered_Map
begin

text \<open>
  The block coordinator's vocabulary (\<open>crates/block-coordinator/src/types.rs\<close>): block
  metadata, discard reasons, errors, parser messages, the two sort keys with their derived
  orders, the flushed slots, and the handle parsers send through.
  A \<open>Hash\<close> is its bytes. \<open>usize\<close> path components are 64-bit words.
\<close>

record block_metadata =
  parent_slot :: slot
  blockhash :: bytes
  expected_tx_count :: u64

datatype discard_reason = Dead | Forked | Untracked | Incomplete

fun discard_reason_label :: "discard_reason \<Rightarrow> string" where
  "discard_reason_label Dead = ''dead''"
| "discard_reason_label Forked = ''forked''"
| "discard_reason_label Untracked = ''untracked''"
| "discard_reason_label Incomplete = ''incomplete''"

datatype coordinator_error =
    TwoGateInvariantViolation slot "slot option"
  | ReadySlotMissingMetadata slot
  | InstructionOutputChannelClosed slot
  | AccountOutputChannelClosed slot

datatype parse_stats_kind =
    InstructionFiltered
  | InstructionError
  | AccountFiltered
  | AccountError
  | TransactionStatusFailed
  | TransactionStatusSucceeded

subsection \<open>Sort keys\<close>

datatype instruction_record_sort_key =
  InstructionRecordSortKey (tx_index: u64) (ix_path: "u64 list")

datatype account_record_sort_key =
  AccountRecordSortKey (write_version: u64) (key_pubkey: pubkey)

text \<open>
  The derived \<open>Ord\<close>: field by field, in declaration order; vectors and byte arrays compare
  lexicographically.
\<close>

definition instruction_key_less :: "instruction_record_sort_key \<Rightarrow> instruction_record_sort_key \<Rightarrow> bool" where
  "instruction_key_less a b \<longleftrightarrow>
     tx_index a < tx_index b \<or> tx_index a = tx_index b \<and> ix_path a < ix_path b"

definition account_key_less :: "account_record_sort_key \<Rightarrow> account_record_sort_key \<Rightarrow> bool" where
  "account_key_less a b \<longleftrightarrow>
     write_version a < write_version b \<or>
     write_version a = write_version b \<and> key_pubkey a < key_pubkey b"

lemmas key_less_defs = instruction_key_less_def account_key_less_def

instantiation instruction_record_sort_key :: linorder
begin

definition less_instruction_record_sort_key ::
    "instruction_record_sort_key \<Rightarrow> instruction_record_sort_key \<Rightarrow> bool" where
  "less_instruction_record_sort_key = instruction_key_less"

definition less_eq_instruction_record_sort_key ::
    "instruction_record_sort_key \<Rightarrow> instruction_record_sort_key \<Rightarrow> bool" where
  "less_eq_instruction_record_sort_key a b \<longleftrightarrow> a = b \<or> a < b"

instance
  by standard
     (auto simp: key_less_defs less_instruction_record_sort_key_def less_eq_instruction_record_sort_key_def
       intro: instruction_record_sort_key.expand)

end

instantiation account_record_sort_key :: linorder
begin

definition less_account_record_sort_key ::
    "account_record_sort_key \<Rightarrow> account_record_sort_key \<Rightarrow> bool" where
  "less_account_record_sort_key = account_key_less"

definition less_eq_account_record_sort_key ::
    "account_record_sort_key \<Rightarrow> account_record_sort_key \<Rightarrow> bool" where
  "less_eq_account_record_sort_key a b \<longleftrightarrow> a = b \<or> a < b"

instance
  by standard
     (auto simp: key_less_defs less_account_record_sort_key_def less_eq_account_record_sort_key_def
       intro: account_record_sort_key.expand)

end

lemmas sort_key_less = less_instruction_record_sort_key_def less_account_record_sort_key_def key_less_defs

subsection \<open>Messages and flushed slots\<close>

datatype 'r coordinator_message =
    InstructionParsed slot instruction_record_sort_key 'r
  | AccountParsed slot account_record_sort_key 'r
  | TransactionParsedMsg slot
  | ParseStatsMsg slot parse_stats_kind

fun message_slot :: "'r coordinator_message \<Rightarrow> slot" where
  "message_slot (InstructionParsed s k r) = s"
| "message_slot (AccountParsed s k r) = s"
| "message_slot (TransactionParsedMsg s) = s"
| "message_slot (ParseStatsMsg s k) = s"

datatype account_commit_at = Confirmed | Finalized

text \<open>The default commitment is \<open>Confirmed\<close>; accounts are by default a separate finalized stream.\<close>

definition default_account_commit_at :: account_commit_at where
  "default_account_commit_at = Confirmed"

datatype account_mode = Processed account_commit_at | FinalizedPassthrough

definition default_account_mode :: account_mode where
  "default_account_mode = FinalizedPassthrough"

record 'r instruction_slot =
  is_slot :: slot
  is_parent_slot :: slot
  is_blockhash :: bytes
  is_executed_transaction_count :: u64
  is_records :: "'r list"
  is_filtered_instruction_count :: u64
  is_failed_instruction_count :: u64
  is_transaction_status_failed_count :: u64
  is_transaction_status_succeeded_count :: u64

record 'r account_slot =
  as_slot :: slot
  as_records :: "'r list"
  as_decoded_account_count :: u64
  as_filtered_account_count :: u64
  as_failed_account_count :: u64

text \<open>The colour a slot number is logged in: \<open>COLORS[slot % 6]\<close>, as the ANSI code.\<close>

definition slot_colors :: "nat list" where
  "slot_colors = [91, 92, 93, 94, 95, 96]"

definition color_slot :: "slot \<Rightarrow> nat option" where
  "color_slot s =
     (let i = unat (s mod of_nat (length slot_colors))
      in if i < length slot_colors then Some (slot_colors ! i) else None)"

subsection \<open>The parsers' handle\<close>

type_synonym 'r coordinator_handle = "'r coordinator_message mpsc"

definition send_instruction_parsed ::
  "slot \<Rightarrow> instruction_record_sort_key \<Rightarrow> 'r \<Rightarrow> 'r coordinator_handle \<Rightarrow>
   'r coordinator_handle \<times> ('r coordinator_message, unit) outcome" where
  "send_instruction_parsed s k r tx = mpsc_send (InstructionParsed s k r) tx"

definition send_account_parsed ::
  "slot \<Rightarrow> account_record_sort_key \<Rightarrow> 'r \<Rightarrow> 'r coordinator_handle \<Rightarrow>
   'r coordinator_handle \<times> ('r coordinator_message, unit) outcome" where
  "send_account_parsed s k r tx = mpsc_send (AccountParsed s k r) tx"

definition send_transaction_parsed ::
  "slot \<Rightarrow> 'r coordinator_handle \<Rightarrow> 'r coordinator_handle \<times> ('r coordinator_message, unit) outcome" where
  "send_transaction_parsed s tx = mpsc_send (TransactionParsedMsg s) tx"

definition send_parse_stats ::
  "slot \<Rightarrow> parse_stats_kind \<Rightarrow> 'r coordinator_handle \<Rightarrow>
   'r coordinator_handle \<times> ('r coordinator_message, unit) outcome" where
  "send_parse_stats s k tx = mpsc_send (ParseStatsMsg s k) tx"

subsection \<open>Facts\<close>

text \<open>A CPI path sorts after its caller and before the caller's next sibling.\<close>

lemma ix_path_caller_first:
  "InstructionRecordSortKey t p < InstructionRecordSortKey t (p @ q # qs)"
  by (induction p) (auto simp: sort_key_less)

lemma ix_path_subtree_before_sibling:
  "i < j \<Longrightarrow> InstructionRecordSortKey t (p @ i # q) < InstructionRecordSortKey t (p @ j # r)"
  by (induction p) (auto simp: sort_key_less)

lemma unat_mod_6: "unat (s mod 6) = unat s mod 6" for s :: slot
  by (simp add: unat_mod)

lemma color_slot_eq: "color_slot s = Some (91 + unat s mod 6)"
proof -
  have "unat s mod 6 < 6" by simp
  then have "unat s mod 6 \<in> {0, 1, 2, 3, 4, 5}" by auto
  then show ?thesis
    by (auto simp: color_slot_def slot_colors_def unat_mod_6 Let_def)
qed

lemma color_slot_consecutive: "color_slot s \<noteq> color_slot (s + 1)"
proof -
  have next_eq: "unat (s + 1) = (unat s + 1) mod 2 ^ 64"
    by (simp add: unat_word_ariths)
  have "unat (s + 1) mod 6 \<noteq> unat s mod 6"
  proof (cases "unat s + 1 = 2 ^ 64")
    case True
    then have "unat s = 18446744073709551615" by simp
    with next_eq show ?thesis by simp
  next
    case False
    then have "unat s + 1 < 2 ^ 64"
      using unat_bound [of s] by simp
    with next_eq have "unat (s + 1) = unat s + 1" by simp
    then show ?thesis by presburger
  qed
  then show ?thesis by (simp add: color_slot_eq)
qed

end
