(* ===== verification/Slot_Buffer.thy ===== *)
theory Slot_Buffer
  imports Coordinator_Types
begin

text \<open>
  The per-slot buffer of parsed records (\<open>crates/block-coordinator/src/buffer.rs\<close>). One
  definition per method; the methods that only log (duplicate keys, counts over the
  expectation) have no other effect and their log lines are not modelled. Counters are
  \<open>u64\<close> and wrap as a release build does.
\<close>

record 'r slot_record_buffer =
  instruction_records :: "(instruction_record_sort_key, 'r) btree_map"
  account_records :: "(account_record_sort_key, 'r) btree_map"
  metadata :: "block_metadata option"
  parsed_tx_count :: u64
  instruction_commitment_reached :: bool
  finalized :: bool
  account_commitment_reached :: bool
  expected_account_count :: "u64 option"
  account_processed_count :: u64
  instructions_drained :: bool
  accounts_drained :: bool
  filtered_instruction_count :: u64
  failed_instruction_count :: u64
  filtered_account_count :: u64
  failed_account_count :: u64
  transaction_status_failed_count :: u64
  transaction_status_succeeded_count :: u64

definition default_buffer :: "'r slot_record_buffer" where
  "default_buffer = \<lparr>
     instruction_records = [],
     account_records = [],
     metadata = None,
     parsed_tx_count = 0,
     instruction_commitment_reached = False,
     finalized = False,
     account_commitment_reached = False,
     expected_account_count = None,
     account_processed_count = 0,
     instructions_drained = False,
     accounts_drained = False,
     filtered_instruction_count = 0,
     failed_instruction_count = 0,
     filtered_account_count = 0,
     failed_account_count = 0,
     transaction_status_failed_count = 0,
     transaction_status_succeeded_count = 0\<rparr>"

subsection \<open>Updates\<close>

definition insert_instruction_record ::
  "instruction_record_sort_key \<Rightarrow> 'r \<Rightarrow> 'r slot_record_buffer \<Rightarrow> 'r slot_record_buffer" where
  "insert_instruction_record k r b =
     b\<lparr>instruction_records := bt_insert k r (instruction_records b)\<rparr>"

definition insert_account_record ::
  "account_record_sort_key \<Rightarrow> 'r \<Rightarrow> 'r slot_record_buffer \<Rightarrow> 'r slot_record_buffer" where
  "insert_account_record k r b = b\<lparr>account_records := bt_insert k r (account_records b)\<rparr>"

definition set_block_metadata ::
  "block_metadata \<Rightarrow> 'r slot_record_buffer \<Rightarrow> 'r slot_record_buffer" where
  "set_block_metadata m b = b\<lparr>metadata := Some m\<rparr>"

definition increment_parsed_tx_count :: "'r slot_record_buffer \<Rightarrow> 'r slot_record_buffer" where
  "increment_parsed_tx_count b = b\<lparr>parsed_tx_count := parsed_tx_count b + 1\<rparr>"

fun increment_parse_stat ::
  "parse_stats_kind \<Rightarrow> 'r slot_record_buffer \<Rightarrow> 'r slot_record_buffer" where
  "increment_parse_stat InstructionFiltered b =
     b\<lparr>filtered_instruction_count := filtered_instruction_count b + 1\<rparr>"
| "increment_parse_stat InstructionError b =
     b\<lparr>failed_instruction_count := failed_instruction_count b + 1\<rparr>"
| "increment_parse_stat AccountFiltered b =
     b\<lparr>filtered_account_count := filtered_account_count b + 1\<rparr>"
| "increment_parse_stat AccountError b =
     b\<lparr>failed_account_count := failed_account_count b + 1\<rparr>"
| "increment_parse_stat TransactionStatusFailed b =
     b\<lparr>transaction_status_failed_count := transaction_status_failed_count b + 1\<rparr>"
| "increment_parse_stat TransactionStatusSucceeded b =
     b\<lparr>transaction_status_succeeded_count := transaction_status_succeeded_count b + 1\<rparr>"

definition increment_account_processed_count :: "'r slot_record_buffer \<Rightarrow> 'r slot_record_buffer" where
  "increment_account_processed_count b =
     b\<lparr>account_processed_count := account_processed_count b + 1\<rparr>"

definition mark_instruction_commitment_reached :: "'r slot_record_buffer \<Rightarrow> 'r slot_record_buffer" where
  "mark_instruction_commitment_reached b = b\<lparr>instruction_commitment_reached := True\<rparr>"

definition mark_as_finalized :: "'r slot_record_buffer \<Rightarrow> 'r slot_record_buffer" where
  "mark_as_finalized b = b\<lparr>finalized := True\<rparr>"

definition mark_account_commitment_reached :: "'r slot_record_buffer \<Rightarrow> 'r slot_record_buffer" where
  "mark_account_commitment_reached b = b\<lparr>account_commitment_reached := True\<rparr>"

text \<open>The first expectation wins; a later one is ignored.\<close>

definition set_expected_account_count :: "u64 \<Rightarrow> 'r slot_record_buffer \<Rightarrow> 'r slot_record_buffer" where
  "set_expected_account_count n b =
     (if expected_account_count b \<noteq> None then b else b\<lparr>expected_account_count := Some n\<rparr>)"

subsection \<open>Gates\<close>

definition tx_parse_complete :: "'r slot_record_buffer \<Rightarrow> bool" where
  "tx_parse_complete b =
     is_some_and (metadata b) (\<lambda>m. expected_tx_count m \<le> parsed_tx_count b)"

definition account_parse_complete :: "'r slot_record_buffer \<Rightarrow> bool" where
  "account_parse_complete b =
     is_some_and (expected_account_count b) (\<lambda>n. n \<le> account_processed_count b)"

definition instruction_gate_reached :: "'r slot_record_buffer \<Rightarrow> bool" where
  "instruction_gate_reached b \<longleftrightarrow> tx_parse_complete b \<and> instruction_commitment_reached b"

definition account_gate_reached :: "'r slot_record_buffer \<Rightarrow> bool" where
  "account_gate_reached b \<longleftrightarrow> account_parse_complete b \<and> account_commitment_reached b"

definition buffer_account_gate_frozen :: "'r slot_record_buffer \<Rightarrow> bool" where
  "buffer_account_gate_frozen b \<longleftrightarrow>
     account_commitment_reached b \<and> expected_account_count b \<noteq> None"

definition slot_ready :: "'r slot_record_buffer \<Rightarrow> bool" where
  "slot_ready b \<longleftrightarrow> instruction_gate_reached b \<and> account_gate_reached b"

definition is_fully_drained :: "'r slot_record_buffer \<Rightarrow> bool" where
  "is_fully_drained b \<longleftrightarrow> instructions_drained b \<and> accounts_drained b"

definition buffer_parent_slot :: "'r slot_record_buffer \<Rightarrow> slot option" where
  "buffer_parent_slot b = map_option parent_slot (metadata b)"

definition record_count :: "'r slot_record_buffer \<Rightarrow> nat" where
  "record_count b = length (instruction_records b) + length (account_records b)"

subsection \<open>Draining\<close>

definition drain_instruction_records ::
  "slot \<Rightarrow> 'r slot_record_buffer \<Rightarrow> 'r slot_record_buffer \<times> 'r instruction_slot option" where
  "drain_instruction_records s b =
     (case metadata b of
        None \<Rightarrow> (b, None)
      | Some m \<Rightarrow>
          (b\<lparr>instruction_records := [], instructions_drained := True\<rparr>,
           Some \<lparr>is_slot = s,
                 is_parent_slot = parent_slot m,
                 is_blockhash = blockhash m,
                 is_executed_transaction_count = expected_tx_count m,
                 is_records = bt_values (instruction_records b),
                 is_filtered_instruction_count = filtered_instruction_count b,
                 is_failed_instruction_count = failed_instruction_count b,
                 is_transaction_status_failed_count = transaction_status_failed_count b,
                 is_transaction_status_succeeded_count = transaction_status_succeeded_count b\<rparr>))"

definition drain_account_records ::
  "slot \<Rightarrow> 'r slot_record_buffer \<Rightarrow> 'r slot_record_buffer \<times> 'r account_slot" where
  "drain_account_records s b =
     (b\<lparr>account_records := [], accounts_drained := True\<rparr>,
      \<lparr>as_slot = s,
       as_records = bt_values (account_records b),
       as_decoded_account_count = of_nat (length (account_records b)),
       as_filtered_account_count = filtered_account_count b,
       as_failed_account_count = failed_account_count b\<rparr>)"

subsection \<open>Invariant\<close>

text \<open>Both record maps are ordered maps, so draining them yields the records in key order.\<close>

definition buffer_ok :: "'r slot_record_buffer \<Rightarrow> bool" where
  "buffer_ok b \<longleftrightarrow> bt_ok (instruction_records b) \<and> bt_ok (account_records b)"

lemmas buffer_update_defs =
  insert_instruction_record_def insert_account_record_def set_block_metadata_def
  increment_parsed_tx_count_def increment_account_processed_count_def
  mark_instruction_commitment_reached_def mark_as_finalized_def
  mark_account_commitment_reached_def set_expected_account_count_def

lemmas buffer_gate_defs =
  tx_parse_complete_def account_parse_complete_def instruction_gate_reached_def
  account_gate_reached_def buffer_account_gate_frozen_def is_fully_drained_def
  buffer_parent_slot_def

lemma buffer_ok_default [inv_intros]: "buffer_ok default_buffer"
  by (simp add: buffer_ok_def default_buffer_def bt.ok_empty)

lemma buffer_ok_updates [inv_intros]:
  assumes "buffer_ok b"
  shows "buffer_ok (insert_instruction_record k r b)"
    and "buffer_ok (insert_account_record k' r b)"
    and "buffer_ok (set_block_metadata m b)"
    and "buffer_ok (increment_parsed_tx_count b)"
    and "buffer_ok (increment_parse_stat st b)"
    and "buffer_ok (increment_account_processed_count b)"
    and "buffer_ok (mark_instruction_commitment_reached b)"
    and "buffer_ok (mark_as_finalized b)"
    and "buffer_ok (mark_account_commitment_reached b)"
    and "buffer_ok (set_expected_account_count n b)"
    and "buffer_ok (fst (drain_instruction_records s b))"
    and "buffer_ok (fst (drain_account_records s b))"
  using assms
  by (cases st;
      auto simp: buffer_ok_def buffer_update_defs drain_instruction_records_def
        drain_account_records_def bt.ok_insert bt.ok_empty split: option.splits)+

text \<open>What the drains return and leave behind.\<close>

lemma drain_instruction_records_None:
  "snd (drain_instruction_records s b) = None \<longleftrightarrow> metadata b = None"
  by (simp add: drain_instruction_records_def split: option.splits)

lemma gate_has_metadata: "instruction_gate_reached b \<Longrightarrow> \<exists>m. metadata b = Some m"
  by (auto simp: instruction_gate_reached_def tx_parse_complete_def is_some_and_iff)

lemma gate_implies_drain:
  "instruction_gate_reached b \<Longrightarrow>
    \<exists>m x. metadata b = Some m \<and> snd (drain_instruction_records s b) = Some x \<and>
      is_slot x = s \<and> is_parent_slot x = parent_slot m \<and>
      is_records x = bt_values (instruction_records b)"
  using gate_has_metadata [of b] by (auto simp: drain_instruction_records_def)

lemma drained_fields:
  assumes "metadata b = Some m"
  shows "instruction_records (fst (drain_instruction_records s b)) = []"
    and "instructions_drained (fst (drain_instruction_records s b))"
    and "metadata (fst (drain_instruction_records s b)) = metadata b"
    and "accounts_drained (fst (drain_instruction_records s b)) = accounts_drained b"
    and "account_records (fst (drain_instruction_records s b)) = account_records b"
    and "expected_account_count (fst (drain_instruction_records s b)) = expected_account_count b"
    and "account_commitment_reached (fst (drain_instruction_records s b)) = account_commitment_reached b"
    and "account_processed_count (fst (drain_instruction_records s b)) = account_processed_count b"
  using assms by (simp_all add: drain_instruction_records_def)

text \<open>Draining loses no record and invents none: what was buffered is what is delivered.\<close>

lemma drained_records_complete:
  "buffer_ok b \<Longrightarrow> metadata b = Some m \<Longrightarrow>
    snd (drain_instruction_records s b) = Some x \<Longrightarrow>
    set (is_records x) = {r. \<exists>k. bt_get (instruction_records b) k = Some r}"
  by (force simp: drain_instruction_records_def buffer_ok_def bt_get_iff)

end
