(* ===== verification/Coordinator_State.thy ===== *)
theory Coordinator_State
  imports Slot_Buffer
begin

text \<open>
  The coordinator's state machine (\<open>crates/block-coordinator/src/state.rs\<close>): which slots are
  buffered, which are known to be discarded, how far instructions and accounts were flushed,
  and the two drains that release slots in order. Each method is one definition. Log lines
  are not modelled, so the \<open>event\<close> name arguments that only feed them are left out.
  \<open>apply\<close> returns \<open>Ok(())\<close> on every path and is a state transformer here; the drains return
  the updated state with their result, and the \<open>unwrap\<close> in their loops is a \<open>Panic\<close> branch.
\<close>

datatype 'r coordinator_event =
    BlockFrozen slot block_metadata
  | SlotConfirmed slot
  | SlotFinalized slot
  | SlotDiscarded slot discard_reason
  | AccountEventSeen slot
  | InstructionRecordParsed slot instruction_record_sort_key 'r
  | AccountRecordParsed slot account_record_sort_key 'r
  | TransactionParsed slot
  | ParseStats slot parse_stats_kind

record 'r coordinator_state =
  buffer :: "(slot, 'r slot_record_buffer) btree_map"
  discarded_slots :: "slot set"
  last_instruction_flushed_slot :: "slot option"
  last_account_flushed_slot :: "slot option"
  account_event_counts :: "slot \<rightharpoonup> u64"
  account_commit_at :: account_commit_at
  late_account_record_drops :: u64
  late_account_event_drops :: u64

definition DISCARDED_SLOT_RETENTION_BEHIND_FLUSH :: slot where
  "DISCARDED_SLOT_RETENTION_BEHIND_FLUSH = 512"

definition new_state :: "account_commit_at \<Rightarrow> 'r coordinator_state" where
  "new_state commit_at = \<lparr>
     buffer = [],
     discarded_slots = {},
     last_instruction_flushed_slot = None,
     last_account_flushed_slot = None,
     account_event_counts = Map.empty,
     account_commit_at = commit_at,
     late_account_record_drops = 0,
     late_account_event_drops = 0\<rparr>"

definition default_state :: "'r coordinator_state" where
  "default_state = new_state Confirmed"

subsection \<open>Queries\<close>

definition pending_slot_count :: "'r coordinator_state \<Rightarrow> nat" where
  "pending_slot_count s = length (buffer s)"

definition discarded_slot_count :: "'r coordinator_state \<Rightarrow> nat" where
  "discarded_slot_count s = card (discarded_slots s)"

definition last_flushed_slot :: "'r coordinator_state \<Rightarrow> slot option" where
  "last_flushed_slot s =
     (case (last_instruction_flushed_slot s, last_account_flushed_slot s) of
        (Some a, Some b) \<Rightarrow> Some (min a b)
      | (Some a, None) \<Rightarrow> Some a
      | (None, b) \<Rightarrow> b)"

definition oldest_pending_slot :: "'r coordinator_state \<Rightarrow> slot option" where
  "oldest_pending_slot s = (case buffer s of [] \<Rightarrow> None | (k, _) # _ \<Rightarrow> Some k)"

definition is_already_flushed :: "slot \<Rightarrow> 'r coordinator_state \<Rightarrow> bool" where
  "is_already_flushed sl s \<longleftrightarrow>
     is_some_and (last_instruction_flushed_slot s) (\<lambda>last. sl \<le> last) \<and>
     is_some_and (last_account_flushed_slot s) (\<lambda>last. sl \<le> last)"

definition is_account_gate_frozen :: "slot \<Rightarrow> 'r coordinator_state \<Rightarrow> bool" where
  "is_account_gate_frozen sl s = is_some_and (bt_get (buffer s) sl) buffer_account_gate_frozen"

definition validate_instruction_slot :: "slot \<Rightarrow> 'r coordinator_state \<Rightarrow> bool" where
  "validate_instruction_slot sl s =
     (if sl \<in> discarded_slots s then False
      else if is_some_and (last_instruction_flushed_slot s) (\<lambda>last. sl \<le> last) then False
      else True)"

definition validate_account_slot :: "slot \<Rightarrow> 'r coordinator_state \<Rightarrow> 'r coordinator_state \<times> bool" where
  "validate_account_slot sl s =
     (if sl \<in> discarded_slots s then (s, False)
      else if is_some_and (last_account_flushed_slot s) (\<lambda>last. sl \<le> last) then
        (s\<lparr>late_account_record_drops := late_account_record_drops s + 1\<rparr>, False)
      else if is_some_and (bt_get (buffer s) sl) accounts_drained then
        (s\<lparr>late_account_record_drops := late_account_record_drops s + 1\<rparr>, False)
      else (s, True))"

subsection \<open>Updates\<close>

text \<open>\<open>self.buffer.entry(slot).or_default()\<close> and a method call on the entry.\<close>

definition with_entry ::
  "slot \<Rightarrow> ('r slot_record_buffer \<Rightarrow> 'r slot_record_buffer) \<Rightarrow> 'r coordinator_state \<Rightarrow>
   'r coordinator_state" where
  "with_entry sl f s = s\<lparr>buffer := bt_upsert sl default_buffer f (buffer s)\<rparr>"

definition prune_discarded_slots :: "'r coordinator_state \<Rightarrow> 'r coordinator_state" where
  "prune_discarded_slots s =
     (case last_flushed_slot s of
        None \<Rightarrow> s
      | Some frontier \<Rightarrow>
          s\<lparr>discarded_slots :=
              {x \<in> discarded_slots s.
                 saturating_sub frontier DISCARDED_SLOT_RETENTION_BEHIND_FLUSH < x}\<rparr>)"

definition freeze_account_gate :: "slot \<Rightarrow> 'r coordinator_state \<Rightarrow> 'r coordinator_state" where
  "freeze_account_gate sl s =
     (let count = unwrap_or (account_event_counts s sl) 0;
          s1 = s\<lparr>account_event_counts := (account_event_counts s)(sl := None)\<rparr>
      in with_entry sl
           (\<lambda>buf. mark_account_commitment_reached (set_expected_account_count count buf)) s1)"

definition discard_slot :: "slot \<Rightarrow> discard_reason \<Rightarrow> 'r coordinator_state \<Rightarrow> 'r coordinator_state" where
  "discard_slot sl reason s =
     (let s1 = s\<lparr>discarded_slots := insert sl (discarded_slots s)\<rparr>;
          s2 = s1\<lparr>account_event_counts := (account_event_counts s1)(sl := None)\<rparr>;
          s3 = prune_discarded_slots s2
      in s3\<lparr>buffer := bt_remove sl (buffer s3)\<rparr>)"

definition cleanup_fully_drained :: "'r coordinator_state \<Rightarrow> 'r coordinator_state" where
  "cleanup_fully_drained s =
     (let drained = map fst (filter (\<lambda>(_, buf). is_fully_drained buf) (buffer s));
          s1 = s\<lparr>buffer := fold bt_remove drained (buffer s)\<rparr>;
          s2 = prune_discarded_slots s1
      in case last_account_flushed_slot s2 of
           None \<Rightarrow> s2
         | Some frontier \<Rightarrow>
             s2\<lparr>account_event_counts :=
                  (\<lambda>x. if frontier < x then account_event_counts s2 x else None)\<rparr>)"

fun is_account_stat :: "parse_stats_kind \<Rightarrow> bool" where
  "is_account_stat AccountFiltered = True"
| "is_account_stat AccountError = True"
| "is_account_stat _ = False"

fun apply_event :: "'r coordinator_event \<Rightarrow> 'r coordinator_state \<Rightarrow> 'r coordinator_state" where
  "apply_event (BlockFrozen sl m) s =
     (if is_already_flushed sl s then s
      else with_entry sl (set_block_metadata m) s)"
| "apply_event (SlotConfirmed sl) s =
     (if is_already_flushed sl s then s
      else
        let s1 = with_entry sl mark_instruction_commitment_reached s
        in if account_commit_at s1 = Confirmed then freeze_account_gate sl s1 else s1)"
| "apply_event (SlotFinalized sl) s =
     (if account_commit_at s \<noteq> Finalized then s
      else if is_already_flushed sl s then s
      else
        let s1 = with_entry sl mark_as_finalized s
        in if account_commit_at s1 = Finalized then freeze_account_gate sl s1 else s1)"
| "apply_event (SlotDiscarded sl reason) s = discard_slot sl reason s"
| "apply_event (AccountEventSeen sl) s =
     (if is_already_flushed sl s then s
      else if sl \<in> discarded_slots s then s
      else if is_some_and (bt_get (buffer s) sl)
                (\<lambda>buf. account_gate_reached buf \<or> is_account_gate_frozen sl s)
      then s\<lparr>late_account_event_drops := late_account_event_drops s + 1\<rparr>
      else s\<lparr>account_event_counts := (account_event_counts s)
               (sl \<mapsto> unwrap_or (account_event_counts s sl) 0 + 1)\<rparr>)"
| "apply_event (InstructionRecordParsed sl k r) s =
     (if \<not> validate_instruction_slot sl s then s
      else with_entry sl (insert_instruction_record k r) s)"
| "apply_event (AccountRecordParsed sl k r) s =
     (case validate_account_slot sl s of
        (s1, False) \<Rightarrow> s1
      | (s1, True) \<Rightarrow>
          with_entry sl
            (\<lambda>buf. increment_account_processed_count (insert_account_record k r buf)) s1)"
| "apply_event (TransactionParsed sl) s =
     (if \<not> validate_instruction_slot sl s then s
      else with_entry sl increment_parsed_tx_count s)"
| "apply_event (ParseStats sl kind) s =
     (if is_account_stat kind then
        (case validate_account_slot sl s of
           (s1, False) \<Rightarrow> s1
         | (s1, True) \<Rightarrow>
             with_entry sl
               (\<lambda>buf. increment_account_processed_count (increment_parse_stat kind buf)) s1)
      else if \<not> validate_instruction_slot sl s then s
      else with_entry sl (increment_parse_stat kind) s)"

subsection \<open>Drains\<close>

fun drain_instruction_loop ::
  "slot list \<Rightarrow> 'r coordinator_state \<Rightarrow> 'r instruction_slot list \<Rightarrow>
   'r coordinator_state \<times> (coordinator_error, 'r instruction_slot list) outcome" where
  "drain_instruction_loop [] s flushed = (s, Ok flushed)"
| "drain_instruction_loop (sl # rest) s flushed =
     (case bt_get (buffer s) sl of
        None \<Rightarrow> (s, Panic)
      | Some buf \<Rightarrow>
          if instructions_drained buf \<or> \<not> instruction_gate_reached buf then
            if \<not> instructions_drained buf then (s, Ok flushed)
            else drain_instruction_loop rest s flushed
          else
            (case buffer_parent_slot buf of
               None \<Rightarrow> (s, Err (ReadySlotMissingMetadata sl))
             | Some parent \<Rightarrow>
                 let is_first = (last_instruction_flushed_slot s = None);
                     parent_ok =
                       is_some_and (last_instruction_flushed_slot s) (\<lambda>last. parent \<le> last) \<or>
                       parent \<in> discarded_slots s
                 in if \<not> is_first \<and> \<not> parent_ok then (s, Ok flushed)
                    else
                      (case drain_instruction_records sl buf of
                         (buf', None) \<Rightarrow> (s, Err (ReadySlotMissingMetadata sl))
                       | (buf', Some ix_slot) \<Rightarrow>
                           drain_instruction_loop rest
                             (s\<lparr>buffer := bt_insert sl buf' (buffer s),
                                last_instruction_flushed_slot := Some sl\<rparr>)
                             (flushed @ [ix_slot]))))"

definition drain_instruction_flushable ::
  "'r coordinator_state \<Rightarrow>
   'r coordinator_state \<times> (coordinator_error, 'r instruction_slot list) outcome" where
  "drain_instruction_flushable s =
     (case drain_instruction_loop (bt_keys (buffer s)) s [] of
        (s', Ok flushed) \<Rightarrow>
          (if flushed \<noteq> [] then cleanup_fully_drained s' else s', Ok flushed)
      | (s', r) \<Rightarrow> (s', r))"

fun drain_account_loop ::
  "slot list \<Rightarrow> 'r coordinator_state \<Rightarrow> 'r account_slot list \<Rightarrow>
   'r coordinator_state \<times> (coordinator_error, 'r account_slot list) outcome" where
  "drain_account_loop [] s flushed = (s, Ok flushed)"
| "drain_account_loop (sl # rest) s flushed =
     (case bt_get (buffer s) sl of
        None \<Rightarrow> (s, Panic)
      | Some buf \<Rightarrow>
          if accounts_drained buf \<or> \<not> account_gate_reached buf then
            if \<not> accounts_drained buf then (s, Ok flushed)
            else drain_account_loop rest s flushed
          else
            (case drain_account_records sl buf of
               (buf', acct_slot) \<Rightarrow>
                 drain_account_loop rest
                   (s\<lparr>buffer := bt_insert sl buf' (buffer s),
                      last_account_flushed_slot := Some sl\<rparr>)
                   (flushed @ [acct_slot])))"

definition drain_account_flushable ::
  "'r coordinator_state \<Rightarrow>
   'r coordinator_state \<times> (coordinator_error, 'r account_slot list) outcome" where
  "drain_account_flushable s =
     (case drain_account_loop (bt_keys (buffer s)) s [] of
        (s', Ok flushed) \<Rightarrow>
          (if flushed \<noteq> [] then cleanup_fully_drained s' else s', Ok flushed)
      | (s', r) \<Rightarrow> (s', r))"

subsection \<open>The state invariant\<close>

definition state_ok :: "'r coordinator_state \<Rightarrow> bool" where
  "state_ok s \<longleftrightarrow> bt_ok (buffer s) \<and> (\<forall>k b. bt_get (buffer s) k = Some b \<longrightarrow> buffer_ok b)"

lemma state_ok_buffer: "state_ok s \<Longrightarrow> bt_get (buffer s) k = Some b \<Longrightarrow> buffer_ok b"
  by (simp add: state_ok_def)

lemma state_ok_new [inv_intros]: "state_ok (new_state c)"
  by (simp add: state_ok_def new_state_def bt.ok_empty)

lemma state_ok_insert:
  "state_ok s \<Longrightarrow> buffer_ok b \<Longrightarrow> buffer t = bt_insert k b (buffer s) \<Longrightarrow> state_ok t"
  by (auto simp: state_ok_def bt_simps bt_oks split: if_splits)

lemma state_ok_with_entry [inv_intros]:
  "state_ok s \<Longrightarrow> (\<And>b. buffer_ok b \<Longrightarrow> buffer_ok (f b)) \<Longrightarrow> state_ok (with_entry sl f s)"
  by (cases "bt_get (buffer s) sl")
     (auto simp: state_ok_def with_entry_def bt_simps bt_oks buffer_ok_default split: if_splits)

lemma bt_ok_fold_remove: "bt_ok m \<Longrightarrow> bt_ok (fold bt_remove ks m)"
  by (induction ks arbitrary: m) (auto intro: bt.ok_remove)

lemma bt_get_fold_remove:
  "bt_ok m \<Longrightarrow> bt_get (fold bt_remove ks m) k = (if k \<in> set ks then None else bt_get m k)"
  by (induction ks arbitrary: m) (auto simp: bt_simps bt_oks)

lemma cleanup_frame [simp]:
  "last_instruction_flushed_slot (cleanup_fully_drained s) = last_instruction_flushed_slot s"
  "last_account_flushed_slot (cleanup_fully_drained s) = last_account_flushed_slot s"
  "account_commit_at (cleanup_fully_drained s) = account_commit_at s"
  by (simp_all add: cleanup_fully_drained_def prune_discarded_slots_def Let_def split: option.splits)

lemma cleanup_discarded: "discarded_slots (cleanup_fully_drained s) \<subseteq> discarded_slots s"
  by (auto simp: cleanup_fully_drained_def prune_discarded_slots_def Let_def split: option.splits)

lemma cleanup_buffer:
  assumes "bt_ok (buffer s)"
  shows "buffer (cleanup_fully_drained s) = bt_retain (\<lambda>_ b. \<not> is_fully_drained b) (buffer s)"
proof (rule bt_ext)
  let ?dr = "map fst (filter (\<lambda>(_, b). is_fully_drained b) (buffer s))"
  have eq: "buffer (cleanup_fully_drained s) = fold bt_remove ?dr (buffer s)"
    by (simp add: cleanup_fully_drained_def prune_discarded_slots_def Let_def split: option.splits)
  have mem: "k \<in> set ?dr \<longleftrightarrow> (\<exists>b. bt_get (buffer s) k = Some b \<and> is_fully_drained b)" for k
    by (force simp: bt_get_iff [OF assms])
  show "bt_ok (buffer (cleanup_fully_drained s))"
    unfolding eq by (rule bt_ok_fold_remove [OF assms])
  show "bt_ok (bt_retain (\<lambda>_ b. \<not> is_fully_drained b) (buffer s))"
    by (rule bt_retain_ok [OF assms])
  show "bt_get (buffer (cleanup_fully_drained s)) =
      bt_get (bt_retain (\<lambda>_ b. \<not> is_fully_drained b) (buffer s))"
  proof
    fix k
    show "bt_get (buffer (cleanup_fully_drained s)) k =
        bt_get (bt_retain (\<lambda>_ b. \<not> is_fully_drained b) (buffer s)) k"
      unfolding eq bt_get_fold_remove [OF assms] mem bt_get_retain [OF assms]
      by (auto split: option.splits)
  qed
qed

lemma state_ok_cleanup [inv_intros]: "state_ok s \<Longrightarrow> state_ok (cleanup_fully_drained s)"
  by (auto simp: state_ok_def cleanup_buffer bt_retain_ok bt_get_retain split: option.splits if_splits)

lemma state_ok_freeze [inv_intros]: "state_ok s \<Longrightarrow> state_ok (freeze_account_gate sl s)"
  unfolding freeze_account_gate_def Let_def
  by (rule state_ok_with_entry) (simp_all add: state_ok_def buffer_ok_updates)

lemma state_ok_discard [inv_intros]: "state_ok s \<Longrightarrow> state_ok (discard_slot sl r s)"
  by (auto simp: state_ok_def discard_slot_def prune_discarded_slots_def Let_def bt_simps bt_oks
      split: option.splits if_splits)

lemma validate_account_frame:
  "buffer (fst (validate_account_slot sl s)) = buffer s"
  "discarded_slots (fst (validate_account_slot sl s)) = discarded_slots s"
  "last_instruction_flushed_slot (fst (validate_account_slot sl s)) = last_instruction_flushed_slot s"
  "last_account_flushed_slot (fst (validate_account_slot sl s)) = last_account_flushed_slot s"
  "account_event_counts (fst (validate_account_slot sl s)) = account_event_counts s"
  "account_commit_at (fst (validate_account_slot sl s)) = account_commit_at s"
  by (simp_all add: validate_account_slot_def)

lemma state_ok_validated:
  "state_ok s \<Longrightarrow> validate_account_slot sl s = (t, b) \<Longrightarrow> state_ok t"
  using validate_account_frame(1) [of sl s] by (simp add: state_ok_def)

lemma state_ok_frames [simp]:
  "state_ok (s\<lparr>late_account_event_drops := n\<rparr>) = state_ok s"
  "state_ok (s\<lparr>account_event_counts := c\<rparr>) = state_ok s"
  by (simp_all add: state_ok_def)

lemma state_ok_apply [inv_intros]: "state_ok s \<Longrightarrow> state_ok (apply_event e s)"
proof (cases e)
  case (AccountRecordParsed sl k r)
  then show "state_ok s \<Longrightarrow> ?thesis"
    by (auto split: prod.splits bool.splits
        intro!: state_ok_with_entry buffer_ok_updates intro: state_ok_validated)
next
  case (ParseStats sl k)
  then show "state_ok s \<Longrightarrow> ?thesis"
    by (auto split: prod.splits bool.splits
        intro!: state_ok_with_entry buffer_ok_updates intro: state_ok_validated)
qed (auto simp: Let_def intro!: state_ok_with_entry state_ok_freeze state_ok_discard buffer_ok_updates)

interpretation apply_run: machine apply_event state_ok
  by unfold_locales (rule state_ok_apply)

end
