(* ===== verification/Coordinator_Flush.thy ===== *)
theory Coordinator_Flush
  imports Coordinator_State
begin

text \<open>
  What the coordinator's drains deliver. The two loops of \<open>state.rs\<close> are shown equal to
  scans over the buffered slots, the common facts on such scans are proved once in the
  locale \<open>slot_scan\<close>, and the properties of the coordinator state machine follow: flushed
  slots ascend, are gated and follow their parents, a drain leaves nothing flushable behind,
  records are neither lost nor reordered, and account gates count what was seen.
\<close>

subsection \<open>The scan both drains perform\<close>

text \<open>
  Both drains visit the buffered slots in ascending order. A slot that is already drained is
  skipped; the first one that may not be flushed yet ends the scan; any other is flushed and
  becomes the new frontier. \<open>scan_out\<close>, \<open>scan_mark\<close> and \<open>scan_last\<close> say what such a scan
  delivers, what it leaves in the buffer and where it leaves the frontier, for a given test
  of drained entries, stop condition, delivered value and effect on the entry.
\<close>

fun scan_out ::
  "('b \<Rightarrow> bool) \<Rightarrow> (slot option \<Rightarrow> 'b \<Rightarrow> bool) \<Rightarrow> (slot \<Rightarrow> 'b \<Rightarrow> 'x) \<Rightarrow> slot option \<Rightarrow>
   (slot \<times> 'b) list \<Rightarrow> 'x list" where
  "scan_out dr st em l [] = []"
| "scan_out dr st em l ((k, b) # m) =
     (if dr b then scan_out dr st em l m
      else if st l b then []
      else em k b # scan_out dr st em (Some k) m)"

fun scan_mark ::
  "('b \<Rightarrow> bool) \<Rightarrow> (slot option \<Rightarrow> 'b \<Rightarrow> bool) \<Rightarrow> (slot \<Rightarrow> 'b \<Rightarrow> 'b) \<Rightarrow> slot option \<Rightarrow>
   (slot \<times> 'b) list \<Rightarrow> (slot \<times> 'b) list" where
  "scan_mark dr st mk l [] = []"
| "scan_mark dr st mk l ((k, b) # m) =
     (if dr b then (k, b) # scan_mark dr st mk l m
      else if st l b then (k, b) # m
      else (k, mk k b) # scan_mark dr st mk (Some k) m)"

fun scan_last ::
  "('b \<Rightarrow> bool) \<Rightarrow> (slot option \<Rightarrow> 'b \<Rightarrow> bool) \<Rightarrow> slot option \<Rightarrow> (slot \<times> 'b) list \<Rightarrow> slot option" where
  "scan_last dr st l [] = l"
| "scan_last dr st l ((k, b) # m) =
     (if dr b then scan_last dr st l m
      else if st l b then l
      else scan_last dr st (Some k) m)"

locale slot_scan =
  fixes drained :: "'b \<Rightarrow> bool"
    and stops :: "slot option \<Rightarrow> 'b \<Rightarrow> bool"
    and emit :: "slot \<Rightarrow> 'b \<Rightarrow> 'x"
    and mark :: "slot \<Rightarrow> 'b \<Rightarrow> 'b"
    and slot_of :: "'x \<Rightarrow> slot"
  assumes emit_slot: "\<not> stops l b \<Longrightarrow> slot_of (emit k b) = k"
    and mark_drained: "\<not> stops l b \<Longrightarrow> drained (mark k b)"
begin

lemma out_origin:
  "x \<in> set (scan_out drained stops emit l m) \<Longrightarrow>
    \<exists>k b l'. (k, b) \<in> set m \<and> \<not> drained b \<and> \<not> stops l' b \<and> x = emit k b"
proof (induction m arbitrary: l)
  case Nil
  then show ?case by simp
next
  case (Cons p m)
  obtain k b where p: "p = (k, b)" by (cases p)
  from Cons.prems p consider "x = emit k b" "\<not> drained b" "\<not> stops l b"
    | l' where "x \<in> set (scan_out drained stops emit l' m)"
    by (auto split: if_splits)
  then show ?case
  proof cases
    case 1
    with p show ?thesis by auto
  next
    case 2
    from Cons.IH [OF this] show ?thesis by auto
  qed
qed

lemma out_slots: "x \<in> set (scan_out drained stops emit l m) \<Longrightarrow> slot_of x \<in> fst ` set m"
  by (drule out_origin) (force simp: emit_slot)

lemma out_ascending:
  "ascending (map fst m) \<Longrightarrow> ascending (map slot_of (scan_out drained stops emit l m))"
proof (induction m arbitrary: l)
  case Nil
  then show ?case by simp
next
  case (Cons p m)
  have "fst p < slot_of x" if "x \<in> set (scan_out drained stops emit (Some (fst p)) m)" for x
    using out_slots [OF that] Cons.prems by auto
  with Cons show ?case
    by (cases p) (auto simp: emit_slot)
qed

lemma out_chain:
  "scan_out drained stops emit l m = us @ x # vs \<Longrightarrow>
    \<exists>k b. (k, b) \<in> set m \<and> x = emit k b \<and> \<not> drained b \<and>
      \<not> stops (if us = [] then l else Some (slot_of (last us))) b"
proof (induction m arbitrary: l us)
  case Nil
  then show ?case by simp
next
  case (Cons p m)
  obtain k b where p: "p = (k, b)" by (cases p)
  show ?case
  proof (cases "drained b")
    case True
    with Cons.prems p have "scan_out drained stops emit l m = us @ x # vs" by simp
    from Cons.IH [OF this] obtain k' b' where "(k', b') \<in> set m" "x = emit k' b'" "\<not> drained b'"
      "\<not> stops (if us = [] then l else Some (slot_of (last us))) b'" by blast
    then show ?thesis by (intro exI [of _ k'] exI [of _ b']) simp
  next
    case False
    with Cons.prems p have go: "\<not> stops l b"
      and eq: "emit k b # scan_out drained stops emit (Some k) m = us @ x # vs"
      by (auto split: if_splits)
    show ?thesis
    proof (cases us)
      case Nil
      with eq False go p show ?thesis by auto
    next
      case (Cons u us')
      with eq have u: "u = emit k b" and rest: "scan_out drained stops emit (Some k) m = us' @ x # vs"
        by auto
      from Cons.IH [OF rest] obtain k' b' where "(k', b') \<in> set m" "x = emit k' b'" "\<not> drained b'"
        "\<not> stops (if us' = [] then Some k else Some (slot_of (last us'))) b'" by blast
      then show ?thesis
        using emit_slot [OF go, of k] u \<open>us = u # us'\<close>
        by (intro exI [of _ k'] exI [of _ b']) (auto split: if_splits)
    qed
  qed
qed

lemma last_out:
  "scan_last drained stops l m =
    (let out = scan_out drained stops emit l m in if out = [] then l else Some (slot_of (last out)))"
proof (induction m arbitrary: l)
  case Nil
  then show ?case by simp
next
  case (Cons p m)
  then show ?case by (cases p) (auto simp: emit_slot Let_def)
qed

lemma mark_keys: "map fst (scan_mark drained stops mark l m) = map fst m"
  by (induction drained stops mark l m rule: scan_mark.induct) auto

lemma mark_members:
  "(k, b) \<in> set (scan_mark drained stops mark l m) \<Longrightarrow>
    (k, b) \<in> set m \<or> (\<exists>b' l'. (k, b') \<in> set m \<and> \<not> stops l' b' \<and> b = mark k b')"
proof (induction m arbitrary: l)
  case Nil
  then show ?case by simp
next
  case (Cons p m)
  obtain k' b' where p: "p = (k', b')" by (cases p)
  from Cons.prems p consider "(k, b) \<in> set (p # m)"
    | "k = k'" "b = mark k' b'" "\<not> stops l b'"
    | l' where "(k, b) \<in> set (scan_mark drained stops mark l' m)"
    by (auto split: if_splits)
  then show ?case
  proof cases
    case 3
    from Cons.IH [OF this] show ?thesis by auto
  qed (use p in auto)
qed

lemma out_empty_mark: "scan_out drained stops emit l m = [] \<Longrightarrow> scan_mark drained stops mark l m = m"
  by (induction drained stops emit l m rule: scan_out.induct) (auto split: if_splits)

text \<open>Removing drained entries and stopping more often cannot make a finished scan deliver.\<close>

lemma again_empty:
  assumes "\<And>l b. stops l b \<Longrightarrow> stops' l b" and "\<And>b. \<not> P b \<Longrightarrow> drained b"
  shows "scan_out drained stops' emit (scan_last drained stops l m)
    (filter (\<lambda>(k, b). P b) (scan_mark drained stops mark l m)) = []"
  by (induction m arbitrary: l) (auto simp: assms(1) mark_drained dest: assms(2))

lemma first_ready:
  "(\<forall>(k', b')\<in>set us. drained b') \<Longrightarrow> \<not> drained b \<Longrightarrow> \<not> stops l b \<Longrightarrow>
    scan_out drained stops emit l (us @ (k, b) # m) =
      emit k b # scan_out drained stops emit (Some k) m"
  by (induction us) auto

end

lemma bt_insert_middle:
  "bt_ok (pre @ (k, b) # m) \<Longrightarrow> bt_insert k b' (pre @ (k, b) # m) = pre @ (k, b') # m"
  by (induction pre) (auto simp: bt_ok_def)

lemma bt_get_middle:
  "bt_ok (pre @ (k, b) # m) \<Longrightarrow> bt_get (pre @ (k, b) # m) k = Some b"
  by (induction pre) (auto simp: bt_ok_def)

subsection \<open>The two drains as scans\<close>

definition ix_stops :: "slot set \<Rightarrow> slot option \<Rightarrow> 'r slot_record_buffer \<Rightarrow> bool" where
  "ix_stops D l b \<longleftrightarrow> \<not> instruction_gate_reached b \<or>
     (\<exists>last m. l = Some last \<and> metadata b = Some m \<and> last < parent_slot m \<and> parent_slot m \<notin> D)"

definition ix_emit :: "slot \<Rightarrow> 'r slot_record_buffer \<Rightarrow> 'r instruction_slot" where
  "ix_emit k b = the (snd (drain_instruction_records k b))"

definition ix_mark :: "slot \<Rightarrow> 'r slot_record_buffer \<Rightarrow> 'r slot_record_buffer" where
  "ix_mark k b = fst (drain_instruction_records k b)"

definition acct_stops :: "slot option \<Rightarrow> 'r slot_record_buffer \<Rightarrow> bool" where
  "acct_stops l b \<longleftrightarrow> \<not> account_gate_reached b"

definition acct_emit :: "slot \<Rightarrow> 'r slot_record_buffer \<Rightarrow> 'r account_slot" where
  "acct_emit k b = snd (drain_account_records k b)"

definition acct_mark :: "slot \<Rightarrow> 'r slot_record_buffer \<Rightarrow> 'r slot_record_buffer" where
  "acct_mark k b = fst (drain_account_records k b)"

interpretation ix: slot_scan instructions_drained "ix_stops D" ix_emit ix_mark is_slot for D
proof
  fix l and b :: "'r slot_record_buffer" and k
  assume "\<not> ix_stops D l b"
  then have gate: "instruction_gate_reached b" by (simp add: ix_stops_def)
  then obtain m where m: "metadata b = Some m" by (auto dest: gate_has_metadata)
  show "is_slot (ix_emit k b) = k"
    using gate_implies_drain [OF gate, of k] by (auto simp: ix_emit_def)
  show "instructions_drained (ix_mark k b)"
    using drained_fields(2) [OF m] by (simp add: ix_mark_def)
qed

interpretation acct: slot_scan accounts_drained acct_stops acct_emit acct_mark as_slot
  by unfold_locales (simp_all add: acct_emit_def acct_mark_def drain_account_records_def)

lemma drain_instruction_loop_scan:
  fixes s :: "'r coordinator_state"
  assumes "bt_ok (pre @ m)" and "buffer s = pre @ m"
  shows "drain_instruction_loop (map fst m) s acc =
    (s\<lparr>buffer := pre @ scan_mark instructions_drained (ix_stops (discarded_slots s)) ix_mark
                   (last_instruction_flushed_slot s) m,
       last_instruction_flushed_slot :=
         scan_last instructions_drained (ix_stops (discarded_slots s))
           (last_instruction_flushed_slot s) m\<rparr>,
     Ok (acc @ scan_out instructions_drained (ix_stops (discarded_slots s)) ix_emit
               (last_instruction_flushed_slot s) m))"
  using assms
proof (induction m arbitrary: pre s acc)
  case Nil
  then show ?case by simp
next
  case (Cons p m)
  obtain k b where p: "p = (k, b)" by (cases p)
  have get: "bt_get (buffer s) k = Some b"
    using bt_get_middle [of pre k b m] Cons.prems p by simp
  have ok': "bt_ok ((pre @ [(k, b')]) @ m)" for b'
    using Cons.prems(1) p by (simp add: bt_ok_def)
  show ?case
  proof (cases "instructions_drained b \<or> ix_stops (discarded_slots s) (last_instruction_flushed_slot s) b")
    case True
    show ?thesis
    proof (cases "instructions_drained b")
      case True
      then show ?thesis
        using Cons.IH [of "pre @ [(k, b)]" s acc] ok' [of b] Cons.prems(2) p get by simp
    next
      case False
      then show ?thesis
        using \<open>instructions_drained b \<or> _\<close> Cons.prems(2) p get
        by (auto simp: ix_stops_def buffer_parent_slot_def Let_def dest: gate_has_metadata)
    qed
  next
    case False
    then have gate: "instruction_gate_reached b" by (simp add: ix_stops_def)
    from gate_implies_drain [OF this, of k] obtain md x
      where md: "metadata b = Some md" and x: "snd (drain_instruction_records k b) = Some x" by blast
    let ?s = "s\<lparr>buffer := pre @ (k, ix_mark k b) # m, last_instruction_flushed_slot := Some k\<rparr>"
    have step: "drain_instruction_loop (map fst (p # m)) s acc =
        drain_instruction_loop (map fst m) ?s (acc @ [ix_emit k b])"
      using False gate get md x Cons.prems p
      by (auto simp: ix_stops_def buffer_parent_slot_def Let_def bt_insert_middle ix_mark_def ix_emit_def
          is_some_and_iff not_le split: prod.splits)
    show ?thesis
      unfolding step using Cons.IH [of "pre @ [(k, ix_mark k b)]" ?s "acc @ [ix_emit k b]"]
        ok' [of "ix_mark k b"] False p by simp
  qed
qed

lemma drain_account_loop_scan:
  fixes s :: "'r coordinator_state"
  assumes "bt_ok (pre @ m)" and "buffer s = pre @ m"
  shows "drain_account_loop (map fst m) s acc =
    (s\<lparr>buffer := pre @ scan_mark accounts_drained acct_stops acct_mark (last_account_flushed_slot s) m,
       last_account_flushed_slot :=
         scan_last accounts_drained acct_stops (last_account_flushed_slot s) m\<rparr>,
     Ok (acc @ scan_out accounts_drained acct_stops acct_emit (last_account_flushed_slot s) m))"
  using assms
proof (induction m arbitrary: pre s acc)
  case Nil
  then show ?case by simp
next
  case (Cons p m)
  obtain k b where p: "p = (k, b)" by (cases p)
  have get: "bt_get (buffer s) k = Some b"
    using bt_get_middle [of pre k b m] Cons.prems p by simp
  have ok': "bt_ok ((pre @ [(k, b')]) @ m)" for b'
    using Cons.prems(1) p by (simp add: bt_ok_def)
  let ?s = "s\<lparr>buffer := pre @ (k, acct_mark k b) # m, last_account_flushed_slot := Some k\<rparr>"
  show ?case
    using Cons.IH [of "pre @ [(k, b)]" s acc] ok' [of b] Cons.prems p get
      Cons.IH [of "pre @ [(k, acct_mark k b)]" ?s "acc @ [acct_emit k b]"] ok' [of "acct_mark k b"]
    by (auto simp: acct_stops_def bt_insert_middle acct_mark_def acct_emit_def split: prod.splits)
qed

subsection \<open>What a drain returns\<close>

lemma drain_instruction_eq:
  assumes "bt_ok (buffer s)"
  shows "drain_instruction_flushable s =
    (let l = last_instruction_flushed_slot s; D = discarded_slots s;
         out = scan_out instructions_drained (ix_stops D) ix_emit l (buffer s);
         s' = s\<lparr>buffer := scan_mark instructions_drained (ix_stops D) ix_mark l (buffer s),
                last_instruction_flushed_slot := scan_last instructions_drained (ix_stops D) l (buffer s)\<rparr>
     in (if out = [] then s else cleanup_fully_drained s', Ok out))"
  using drain_instruction_loop_scan [of "[]" "buffer s" s "[]"] assms
  by (simp add: drain_instruction_flushable_def Let_def ix.out_empty_mark ix.last_out)

lemma drain_account_eq:
  assumes "bt_ok (buffer s)"
  shows "drain_account_flushable s =
    (let l = last_account_flushed_slot s;
         out = scan_out accounts_drained acct_stops acct_emit l (buffer s);
         s' = s\<lparr>buffer := scan_mark accounts_drained acct_stops acct_mark l (buffer s),
                last_account_flushed_slot := scan_last accounts_drained acct_stops l (buffer s)\<rparr>
     in (if out = [] then s else cleanup_fully_drained s', Ok out))"
  using drain_account_loop_scan [of "[]" "buffer s" s "[]"] assms
  by (simp add: drain_account_flushable_def Let_def acct.out_empty_mark acct.last_out)

lemma state_ok_mark:
  assumes "state_ok s" and "map fst m = map fst (buffer s)"
    and "\<And>k b. (k, b) \<in> set m \<Longrightarrow> buffer_ok b"
  shows "state_ok (s\<lparr>buffer := m\<rparr>)"
  using assms by (auto simp: state_ok_def bt_ok_def dest: map_of_SomeD)

lemma state_ok_members: "state_ok s \<Longrightarrow> (k, b) \<in> set (buffer s) \<Longrightarrow> buffer_ok b"
  using bt_get_iff [of "buffer s" k b] by (auto simp: state_ok_def)

lemma state_ok_drain_instruction [inv_intros]:
  assumes "state_ok s"
  shows "state_ok (fst (drain_instruction_flushable s))"
proof -
  let ?m = "scan_mark instructions_drained (ix_stops (discarded_slots s)) ix_mark
      (last_instruction_flushed_slot s) (buffer s)"
  have "state_ok (s\<lparr>buffer := ?m\<rparr>)"
    using assms
    by (rule state_ok_mark)
       (auto simp: ix.mark_keys ix_mark_def dest!: ix.mark_members intro!: buffer_ok_updates(11)
          intro: state_ok_members [OF assms])
  then have "state_ok (s\<lparr>buffer := ?m, last_instruction_flushed_slot := l\<rparr>)" for l
    by (simp add: state_ok_def)
  then show ?thesis
    using assms
    by (auto simp: drain_instruction_eq state_ok_def [of s] Let_def intro!: state_ok_cleanup)
qed

lemma state_ok_drain_account [inv_intros]:
  assumes "state_ok s"
  shows "state_ok (fst (drain_account_flushable s))"
proof -
  let ?m = "scan_mark accounts_drained acct_stops acct_mark (last_account_flushed_slot s) (buffer s)"
  have "state_ok (s\<lparr>buffer := ?m\<rparr>)"
    using assms
    by (rule state_ok_mark)
       (auto simp: acct.mark_keys acct_mark_def dest!: acct.mark_members intro!: buffer_ok_updates(12)
          intro: state_ok_members [OF assms])
  then have "state_ok (s\<lparr>buffer := ?m, last_account_flushed_slot := l\<rparr>)" for l
    by (simp add: state_ok_def)
  then show ?thesis
    using assms
    by (auto simp: drain_account_eq state_ok_def [of s] Let_def intro!: state_ok_cleanup)
qed

lemma drain_instruction_out:
  assumes "state_ok s" and "drain_instruction_flushable s = (s', r)"
  shows "r = Ok (scan_out instructions_drained (ix_stops (discarded_slots s)) ix_emit
      (last_instruction_flushed_slot s) (buffer s))"
  using assms by (auto simp: drain_instruction_eq state_ok_def Let_def)

lemma drain_account_out:
  assumes "state_ok s" and "drain_account_flushable s = (s', r)"
  shows "r = Ok (scan_out accounts_drained acct_stops acct_emit
      (last_account_flushed_slot s) (buffer s))"
  using assms by (auto simp: drain_account_eq state_ok_def Let_def)

lemma ascending_buffer: "state_ok s \<Longrightarrow> ascending (map fst (buffer s))"
  by (simp add: state_ok_def bt_ok_def)

lemma ix_not_stopped:
  "\<not> ix_stops D l b \<Longrightarrow> \<exists>m. metadata b = Some m \<and> is_parent_slot (ix_emit k b) = parent_slot m \<and>
     is_records (ix_emit k b) = map snd (instruction_records b) \<and>
     expected_tx_count m \<le> parsed_tx_count b \<and> instruction_commitment_reached b \<and>
     (l = None \<or> (\<exists>last. l = Some last \<and> parent_slot m \<le> last) \<or> parent_slot m \<in> D)"
  by (cases "metadata b"; cases l)
     (auto simp: ix_stops_def instruction_gate_reached_def tx_parse_complete_def ix_emit_def
       drain_instruction_records_def)

end
