(* ===== verification/Coordinator_Runs.thy ===== *)
theory Coordinator_Runs
  imports Coordinator_Flush
begin

text \<open>
  What a sequence of events does to one slot of the coordinator's state
  (\<open>crates/block-coordinator/src/state.rs\<close>): which records the slot's buffer holds after the
  run, and how the account counters of the slot relate to the account events and the parse
  results that were applied.
\<close>

subsection \<open>Open slots keep every record\<close>

text \<open>The instruction records of one slot, and the records a list of events carries for it.\<close>

definition slot_records ::
  "slot \<Rightarrow> 'r coordinator_state \<Rightarrow> (instruction_record_sort_key, 'r) btree_map" where
  "slot_records sl s =
     (case bt_get (buffer s) sl of None \<Rightarrow> [] | Some b \<Rightarrow> instruction_records b)"

fun records_for :: "slot \<Rightarrow> 'r coordinator_event list \<Rightarrow> (instruction_record_sort_key \<times> 'r) list" where
  "records_for sl [] = []"
| "records_for sl (InstructionRecordParsed sl' k r # es) =
     (if sl' = sl then (k, r) # records_for sl es else records_for sl es)"
| "records_for sl (_ # es) = records_for sl es"

fun discards :: "slot \<Rightarrow> 'r coordinator_event \<Rightarrow> bool" where
  "discards sl (SlotDiscarded sl' r) = (sl' = sl)"
| "discards sl _ = False"

lemma slot_records_with_entry:
  assumes "bt_ok (buffer s)"
    and "\<And>b. instruction_records (f b) = g (instruction_records b)"
  shows "slot_records sl (with_entry sl' f s) =
    (if sl = sl' then g (slot_records sl s) else slot_records sl s)"
  using assms(2)
  by (cases "bt_get (buffer s) sl")
     (auto simp: slot_records_def with_entry_def bt_get_upsert [OF assms(1)] default_buffer_def)

lemma with_entry_frame [simp]:
  "discarded_slots (with_entry sl f s) = discarded_slots s"
  "last_instruction_flushed_slot (with_entry sl f s) = last_instruction_flushed_slot s"
  "last_account_flushed_slot (with_entry sl f s) = last_account_flushed_slot s"
  "account_event_counts (with_entry sl f s) = account_event_counts s"
  "account_commit_at (with_entry sl f s) = account_commit_at s"
  by (simp_all add: with_entry_def)

lemma freeze_frame [simp]:
  "discarded_slots (freeze_account_gate sl s) = discarded_slots s"
  "last_instruction_flushed_slot (freeze_account_gate sl s) = last_instruction_flushed_slot s"
  "last_account_flushed_slot (freeze_account_gate sl s) = last_account_flushed_slot s"
  "account_commit_at (freeze_account_gate sl s) = account_commit_at s"
  by (simp_all add: freeze_account_gate_def Let_def)

lemma discard_frame [simp]:
  "last_instruction_flushed_slot (discard_slot sl r s) = last_instruction_flushed_slot s"
  "last_account_flushed_slot (discard_slot sl r s) = last_account_flushed_slot s"
  "account_commit_at (discard_slot sl r s) = account_commit_at s"
  by (simp_all add: discard_slot_def prune_discarded_slots_def Let_def split: option.splits)

lemma apply_frontiers [simp]:
  "last_instruction_flushed_slot (apply_event e s) = last_instruction_flushed_slot s"
  "last_account_flushed_slot (apply_event e s) = last_account_flushed_slot s"
  "account_commit_at (apply_event e s) = account_commit_at s"
  using validate_account_frame [of _ s]
  by (cases e; auto simp: Let_def split: prod.splits bool.splits; metis fst_conv)+

lemma apply_discarded:
  "discarded_slots (apply_event e s) \<subseteq> discarded_slots s \<union> {sl. discards sl e}"
  using validate_account_frame(2) [of _ s]
  by (cases e)
     (auto simp: Let_def discard_slot_def prune_discarded_slots_def split: prod.splits bool.splits option.splits,
       (metis fst_conv)+)

lemma validate_keeps:
  "validate_instruction_slot sl s \<Longrightarrow> \<not> discards sl e \<Longrightarrow> validate_instruction_slot sl (apply_event e s)"
  using apply_discarded [of e s] by (auto simp: validate_instruction_slot_def split: if_splits)

lemma slot_records_frames [simp]:
  "slot_records sl (s\<lparr>account_event_counts := c\<rparr>) = slot_records sl s"
  "slot_records sl (s\<lparr>late_account_event_drops := n\<rparr>) = slot_records sl s"
  by (simp_all add: slot_records_def)

lemma slot_records_validated:
  "validate_account_slot sl' s = (t, b) \<Longrightarrow> slot_records sl t = slot_records sl s"
  using validate_account_frame(1) [of sl' s] by (simp add: slot_records_def)

lemma increment_parse_stat_records: "instruction_records (increment_parse_stat k b) = instruction_records b"
  by (cases k) simp_all

lemma bt_ok_validated: "bt_ok (buffer s) \<Longrightarrow> validate_account_slot sl s = (t, b) \<Longrightarrow> bt_ok (buffer t)"
  using validate_account_frame(1) [of sl s] by simp

lemma bt_ok_with_entry: "bt_ok (buffer s) \<Longrightarrow> bt_ok (buffer (with_entry sl f s))"
  by (simp add: with_entry_def bt_upsert_ok)

lemma slot_records_id:
  "bt_ok (buffer s) \<Longrightarrow> (\<And>b. instruction_records (f b) = instruction_records b) \<Longrightarrow>
    slot_records sl (with_entry sl' f s) = slot_records sl s"
  using slot_records_with_entry [of s f "\<lambda>m. m" sl sl'] by simp

lemma slot_records_freeze:
  "bt_ok (buffer s) \<Longrightarrow> slot_records sl (freeze_account_gate sl' s) = slot_records sl s"
  by (simp add: freeze_account_gate_def Let_def slot_records_id buffer_update_defs)

lemma slot_records_discard:
  "bt_ok (buffer s) \<Longrightarrow> sl' \<noteq> sl \<Longrightarrow> slot_records sl (discard_slot sl' r s) = slot_records sl s"
  by (simp add: slot_records_def discard_slot_def prune_discarded_slots_def Let_def bt_simps
      split: option.splits)

lemma slot_records_apply:
  assumes ok: "bt_ok (buffer s)" and "validate_instruction_slot sl s" and "\<not> discards sl e"
  shows "slot_records sl (apply_event e s) = fold (\<lambda>(k, r). bt_insert k r) (records_for sl [e]) (slot_records sl s)"
proof (cases e)
  case (InstructionRecordParsed sl' k r)
  then show ?thesis
    using assms slot_records_with_entry [OF ok, of "insert_instruction_record k r" "bt_insert k r" sl sl']
    by (auto simp: insert_instruction_record_def)
next
  case (AccountRecordParsed sl' k r)
  then show ?thesis
    using ok by (auto simp: slot_records_id bt_ok_validated buffer_update_defs slot_records_validated
        split: prod.splits bool.splits)
next
  case (ParseStats sl' k)
  then show ?thesis
    using ok by (auto simp: slot_records_id bt_ok_validated buffer_update_defs slot_records_validated
        increment_parse_stat_records split: prod.splits bool.splits)
next
  case (SlotDiscarded sl' r)
  then show ?thesis using assms by (simp add: slot_records_discard)
qed (use ok in \<open>auto simp: Let_def slot_records_id slot_records_freeze bt_ok_with_entry buffer_update_defs\<close>)

lemma records_for_Cons: "records_for sl (e # es) = records_for sl [e] @ records_for sl es"
  by (cases e) auto

lemma slot_records_run:
  assumes "state_ok s" and "validate_instruction_slot sl s" and "\<forall>e\<in>set es. \<not> discards sl e"
  shows "slot_records sl (fold apply_event es s) =
    fold (\<lambda>(k, r). bt_insert k r) (records_for sl es) (slot_records sl s)"
  using assms
proof (induction es arbitrary: s)
  case Nil
  then show ?case by simp
next
  case (Cons e es)
  then have "slot_records sl (fold apply_event es (apply_event e s)) =
      fold (\<lambda>(k, r). bt_insert k r) (records_for sl es) (slot_records sl (apply_event e s))"
    by (auto intro!: Cons.IH state_ok_apply validate_keeps)
  also have "\<dots> = fold (\<lambda>(k, r). bt_insert k r) (records_for sl (e # es)) (slot_records sl s)"
    using Cons.prems slot_records_apply [of s sl e]
    by (simp add: records_for_Cons [of sl e es] state_ok_def)
  finally show ?case by simp
qed

subsection \<open>What the account gate expects\<close>

fun freezes :: "slot \<Rightarrow> 'r coordinator_event \<Rightarrow> bool" where
  "freezes sl (SlotConfirmed sl') = (sl' = sl)"
| "freezes sl (SlotFinalized sl') = (sl' = sl)"
| "freezes sl (SlotDiscarded sl' r) = (sl' = sl)"
| "freezes sl _ = False"

fun account_done :: "slot \<Rightarrow> 'r coordinator_event \<Rightarrow> bool" where
  "account_done sl (AccountRecordParsed sl' k r) = (sl' = sl)"
| "account_done sl (ParseStats sl' k) = (sl' = sl \<and> is_account_stat k)"
| "account_done sl _ = False"

definition processed_count :: "slot \<Rightarrow> 'r coordinator_state \<Rightarrow> u64" where
  "processed_count sl s =
     (case bt_get (buffer s) sl of None \<Rightarrow> 0 | Some b \<Rightarrow> account_processed_count b)"

text \<open>A slot whose accounts are still being counted: not discarded, not flushed, not frozen.\<close>

definition counting :: "slot \<Rightarrow> 'r coordinator_state \<Rightarrow> bool" where
  "counting sl s \<longleftrightarrow> sl \<notin> discarded_slots s \<and> last_account_flushed_slot s = None \<and>
     (\<forall>b. bt_get (buffer s) sl = Some b \<longrightarrow>
        expected_account_count b = None \<and> \<not> accounts_drained b)"

lemma get_with_entry:
  "bt_ok (buffer s) \<Longrightarrow> bt_get (buffer (with_entry sl' f s)) sl =
    (if sl = sl' then Some (f (unwrap_or (bt_get (buffer s) sl) default_buffer)) else bt_get (buffer s) sl)"
  by (simp add: with_entry_def bt_get_upsert)

lemma counting_flags:
  "counting sl s \<Longrightarrow> \<not> is_already_flushed sl' s"
  "counting sl s \<Longrightarrow> validate_account_slot sl s = (s, True)"
  "counting sl s \<Longrightarrow> \<not> is_some_and (bt_get (buffer s) sl)
      (\<lambda>b. account_gate_reached b \<or> is_account_gate_frozen sl s)"
  by (auto simp: counting_def is_already_flushed_def validate_account_slot_def is_some_and_iff
      account_gate_reached_def account_parse_complete_def is_account_gate_frozen_def
      buffer_account_gate_frozen_def)

lemma counting_with_entry:
  assumes "bt_ok (buffer s)" and "counting sl s"
    and "\<And>b. expected_account_count (f b) = expected_account_count b"
    and "\<And>b. accounts_drained (f b) = accounts_drained b"
  shows "counting sl (with_entry sl' f s)"
  using assms
  by (cases "bt_get (buffer s) sl")
     (auto simp: counting_def get_with_entry default_buffer_def)

lemma processed_with_entry:
  assumes "bt_ok (buffer s)" and "\<And>b. account_processed_count (f b) = account_processed_count b + n"
  shows "processed_count sl (with_entry sl' f s) = processed_count sl s + (if sl' = sl then n else 0)"
  using assms by (cases "bt_get (buffer s) sl") (auto simp: processed_count_def get_with_entry default_buffer_def)

lemma increment_parse_stat_account [simp]:
  "expected_account_count (increment_parse_stat k b) = expected_account_count b"
  "accounts_drained (increment_parse_stat k b) = accounts_drained b"
  "account_processed_count (increment_parse_stat k b) = account_processed_count b"
  by (cases k; simp)+

lemma processed_with_entry0:
  "bt_ok (buffer s) \<Longrightarrow> (\<And>b. account_processed_count (f b) = account_processed_count b) \<Longrightarrow>
    processed_count sl (with_entry sl' f s) = processed_count sl s"
  using processed_with_entry [of s f 0] by simp

lemma freeze_other:
  assumes "bt_ok (buffer s)" and "sl' \<noteq> sl"
  shows "counting sl s \<Longrightarrow> counting sl (freeze_account_gate sl' s)"
    and "processed_count sl (freeze_account_gate sl' s) = processed_count sl s"
    and "account_event_counts (freeze_account_gate sl' s) sl = account_event_counts s sl"
  using assms
  by (simp_all add: freeze_account_gate_def Let_def counting_def processed_count_def get_with_entry)

lemma discard_other:
  assumes "bt_ok (buffer s)" and "sl' \<noteq> sl"
  shows "counting sl s \<Longrightarrow> counting sl (discard_slot sl' r s)"
    and "processed_count sl (discard_slot sl' r s) = processed_count sl s"
    and "account_event_counts (discard_slot sl' r s) sl = account_event_counts s sl"
  using assms
  by (auto simp: discard_slot_def prune_discarded_slots_def Let_def counting_def processed_count_def
      bt_simps split: option.splits)

lemma counting_frames [simp]:
  "counting sl (s\<lparr>account_event_counts := c\<rparr>) = counting sl s"
  "counting sl (s\<lparr>late_account_event_drops := n\<rparr>) = counting sl s"
  "counting sl (s\<lparr>late_account_record_drops := n\<rparr>) = counting sl s"
  "processed_count sl (s\<lparr>account_event_counts := c\<rparr>) = processed_count sl s"
  "processed_count sl (s\<lparr>late_account_event_drops := n\<rparr>) = processed_count sl s"
  "processed_count sl (s\<lparr>late_account_record_drops := n\<rparr>) = processed_count sl s"
  by (simp_all add: counting_def processed_count_def)

lemma validated_cases:
  "validate_account_slot sl s = (s, True) \<or> validate_account_slot sl s = (s, False) \<or>
   validate_account_slot sl s = (s\<lparr>late_account_record_drops := late_account_record_drops s + 1\<rparr>, False)"
  by (simp add: validate_account_slot_def)

lemma counting_account_event:
  fixes sl' :: slot
  assumes ok: "bt_ok (buffer s)" and "counting sl s"
    and f: "\<And>b. expected_account_count (f b) = expected_account_count b"
      "\<And>b. accounts_drained (f b) = accounts_drained b"
      "\<And>b. account_processed_count (f b) = account_processed_count b + 1"
  defines "t \<equiv> (case validate_account_slot sl' s of (s1, False) \<Rightarrow> s1 | (s1, True) \<Rightarrow> with_entry sl' f s1)"
  shows "counting sl t \<and> account_event_counts t = account_event_counts s \<and>
    processed_count sl t = processed_count sl s + (if sl' = sl then 1 else 0)"
proof (cases "sl' = sl")
  case True
  then show ?thesis
    using counting_flags(2) [OF assms(2)] counting_with_entry [OF ok assms(2) f(1,2)]
      processed_with_entry [OF ok f(3)] by (simp add: t_def)
next
  case False
  consider "t = s" | "t = s\<lparr>late_account_record_drops := late_account_record_drops s + 1\<rparr>"
    | "t = with_entry sl' f s"
    using validated_cases [of sl' s] by (auto simp: t_def)
  then show ?thesis
    using False assms(2) counting_with_entry [OF ok assms(2) f(1,2)] processed_with_entry [OF ok f(3)]
    by cases auto
qed

lemma counting_apply:
  assumes ok: "bt_ok (buffer s)" and cn: "counting sl s" and nf: "\<not> freezes sl e"
  shows "counting sl (apply_event e s) \<and>
    unwrap_or (account_event_counts (apply_event e s) sl) 0 =
      unwrap_or (account_event_counts s sl) 0 + (if e = AccountEventSeen sl then 1 else 0) \<and>
    processed_count sl (apply_event e s) =
      processed_count sl s + (if account_done sl e then 1 else 0)"
proof (cases e)
  case (AccountRecordParsed sl' k r)
  then show ?thesis
    using counting_account_event [OF ok cn, of
        "\<lambda>b. increment_account_processed_count (insert_account_record k r b)" sl']
    by (simp add: buffer_update_defs)
next
  case (ParseStats sl' k)
  then show ?thesis
    using counting_account_event [OF ok cn, of
        "\<lambda>b. increment_account_processed_count (increment_parse_stat k b)" sl'] cn ok
    by (auto simp: buffer_update_defs processed_with_entry0 intro: counting_with_entry)
next
  case (AccountEventSeen sl')
  then show ?thesis
    using counting_flags(3) [OF cn] counting_flags(1) [OF cn] cn
    by (auto simp: counting_def)
next
  case (SlotConfirmed sl')
  then show ?thesis
    using nf ok cn
    by (auto simp: Let_def freeze_other bt_ok_with_entry counting_with_entry processed_with_entry0
        buffer_update_defs)
next
  case (SlotFinalized sl')
  then show ?thesis
    using nf ok cn
    by (auto simp: Let_def freeze_other bt_ok_with_entry counting_with_entry processed_with_entry0
        buffer_update_defs)
next
  case (SlotDiscarded sl' r)
  then show ?thesis using nf ok cn by (simp add: discard_other)
qed (use ok cn in \<open>auto simp: counting_with_entry processed_with_entry0 buffer_update_defs\<close>)

lemma counting_run:
  assumes "state_ok s" and "counting sl s" and "\<forall>e\<in>set es. \<not> freezes sl e"
  shows "counting sl (fold apply_event es s) \<and>
    unwrap_or (account_event_counts (fold apply_event es s) sl) 0 =
      unwrap_or (account_event_counts s sl) 0 + of_nat (count_list es (AccountEventSeen sl)) \<and>
    processed_count sl (fold apply_event es s) =
      processed_count sl s + of_nat (length (filter (account_done sl) es))"
  using assms
proof (induction es arbitrary: s)
  case Nil
  then show ?case by simp
next
  case (Cons e es)
  then have step: "counting sl (apply_event e s)"
    and eqs: "unwrap_or (account_event_counts (apply_event e s) sl) 0 =
      unwrap_or (account_event_counts s sl) 0 + (if e = AccountEventSeen sl then 1 else 0)"
      "processed_count sl (apply_event e s) = processed_count sl s + (if account_done sl e then 1 else 0)"
    using counting_apply [of s sl e] by (auto simp: state_ok_def)
  from Cons.IH [OF state_ok_apply [OF Cons.prems(1)] step] Cons.prems(3) show ?case
    by (auto simp: eqs)
qed

lemma freeze_sets_expectation:
  assumes "bt_ok (buffer s)" and "counting sl s"
  shows "\<exists>b. bt_get (buffer (freeze_account_gate sl s)) sl = Some b \<and>
    expected_account_count b = Some (unwrap_or (account_event_counts s sl) 0) \<and>
    account_processed_count b = processed_count sl s \<and> account_commitment_reached b \<and>
    \<not> accounts_drained b"
  using assms
  by (cases "bt_get (buffer s) sl")
     (auto simp: freeze_account_gate_def Let_def get_with_entry counting_def processed_count_def
       buffer_update_defs default_buffer_def)

end
