(* ===== verification/Coordinator_Properties.thy ===== *)
theory Coordinator_Properties
  imports Coordinator_Runs
begin

text \<open>
  The properties of the coordinator's state machine: the states that events and drains can
  reach, and what a drain of such a state delivers.
\<close>

subsection \<open>Reachable states\<close>

text \<open>The states a coordinator can be in: events and drains in any order.\<close>

inductive reachable :: "account_commit_at \<Rightarrow> 'r coordinator_state \<Rightarrow> bool" for c where
  start: "reachable c (new_state c)"
| event: "reachable c s \<Longrightarrow> reachable c (apply_event e s)"
| instructions: "reachable c s \<Longrightarrow> reachable c (fst (drain_instruction_flushable s))"
| accounts: "reachable c s \<Longrightarrow> reachable c (fst (drain_account_flushable s))"

lemma reachable_ok: "reachable c s \<Longrightarrow> state_ok s"
  by (induction rule: reachable.induct) (auto intro: inv_intros)

lemma reachable_run: "reachable c s \<Longrightarrow> reachable c (fold apply_event es s)"
  by (induction es arbitrary: s) (auto intro: reachable.event)

definition demo_events :: "slot \<Rightarrow> slot \<Rightarrow> nat coordinator_event list" where
  "demo_events sl p =
     [BlockFrozen sl \<lparr>parent_slot = p, blockhash = [], expected_tx_count = 1\<rparr>,
      InstructionRecordParsed sl (InstructionRecordSortKey 0 [0, 1]) 2,
      InstructionRecordParsed sl (InstructionRecordSortKey 0 [0]) 1,
      TransactionParsed sl,
      SlotConfirmed sl]"

definition demo_state :: "nat coordinator_state" where
  "demo_state = fold apply_event (demo_events 101 100 @ demo_events 100 99) (new_state Confirmed)"

lemma demo_reachable: "reachable Confirmed demo_state"
  unfolding demo_state_def by (intro reachable_run reachable.start)

definition demo_out :: "nat instruction_slot list" where
  "demo_out = (case snd (drain_instruction_flushable demo_state) of Ok xs \<Rightarrow> xs | _ \<Rightarrow> [])"

lemma demo_drain:
  "drain_instruction_flushable demo_state = (fst (drain_instruction_flushable demo_state), Ok demo_out)"
  by code_simp

lemma demo_out_eq: "demo_out = [demo_out ! 0, demo_out ! 1]"
  by code_simp

lemma demo_out_facts:
  "is_slot (demo_out ! 0) = 100" "is_parent_slot (demo_out ! 0) = 99"
  "is_records (demo_out ! 0) = [1, 2]"
  by code_simp+

lemma demo_out_mem: "demo_out ! 0 \<in> set demo_out"
  by (subst (2) demo_out_eq) simp

subsection \<open>Properties of the drains\<close>

text \<open>
  A drain of a reachable coordinator never fails: it neither panics on a missing buffer
  entry nor reports a ready slot without metadata, and the instruction slots it returns are
  strictly ascending.
\<close>

theorem drain_instruction_total:
  assumes "reachable c s"
  shows "\<exists>s' xs. drain_instruction_flushable s = (s', Ok xs) \<and> ascending (map is_slot xs)"
proof -
  have ok: "state_ok s" by (rule reachable_ok [OF assms])
  obtain s' r where dr: "drain_instruction_flushable s = (s', r)" by fastforce
  show ?thesis
    using dr drain_instruction_out [OF ok dr] ix.out_ascending [OF ascending_buffer [OF ok]] by auto
qed

theorem drain_instruction_total_witness:
  "\<exists>s' xs. drain_instruction_flushable demo_state = (s', Ok xs) \<and> ascending (map is_slot xs)"
  by (rule drain_instruction_total [OF demo_reachable])

text \<open>
  C6. The two gates: a flushed slot was buffered and not flushed before, its block metadata had
  arrived, at least the expected number of its transactions was parsed and the cluster had
  confirmed it; what is delivered is the slot's records in sort-key order.
\<close>

theorem drain_instruction_gated:
  assumes "reachable c s" and "drain_instruction_flushable s = (s', Ok xs)" and "x \<in> set xs"
  shows "\<exists>b m. bt_get (buffer s) (is_slot x) = Some b \<and> \<not> instructions_drained b \<and>
    metadata b = Some m \<and> expected_tx_count m \<le> parsed_tx_count b \<and>
    instruction_commitment_reached b \<and> is_parent_slot x = parent_slot m \<and>
    is_records x = map snd (instruction_records b) \<and> ascending (map fst (instruction_records b))"
proof -
  have ok: "state_ok s" by (rule reachable_ok [OF assms(1)])
  then have "x \<in> set (scan_out instructions_drained (ix_stops (discarded_slots s)) ix_emit
      (last_instruction_flushed_slot s) (buffer s))"
    using assms(2,3) drain_instruction_out by fastforce
  from ix.out_origin [OF this] obtain k b l where
    mem: "(k, b) \<in> set (buffer s)" and "\<not> instructions_drained b"
    and ns: "\<not> ix_stops (discarded_slots s) l b" and x: "x = ix_emit k b" by blast
  moreover have "bt_get (buffer s) k = Some b"
    using mem ok by (simp add: state_ok_def bt_get_iff)
  moreover have "is_slot x = k" using ix.emit_slot [OF ns] x by simp
  moreover have "ascending (map fst (instruction_records b))"
    using state_ok_members [OF ok mem] by (simp add: buffer_ok_def bt_ok_def)
  ultimately show ?thesis
    using ix_not_stopped [OF ns, of k] by auto
qed

theorem drain_instruction_gated_witness:
  "\<exists>b m. bt_get (buffer demo_state) 100 = Some b \<and> \<not> instructions_drained b \<and>
    metadata b = Some m \<and> expected_tx_count m \<le> parsed_tx_count b \<and>
    instruction_commitment_reached b \<and> 99 = parent_slot m \<and>
    [1, 2] = map snd (instruction_records b) \<and> ascending (map fst (instruction_records b))"
  using drain_instruction_gated [OF demo_reachable demo_drain demo_out_mem]
  by (simp only: demo_out_facts)

text \<open>
  C7. Slots are released along the chain: the first slot ever flushed may have any parent; every
  later one has a parent at or behind the slot flushed just before it, or a parent that is
  known to be discarded.
\<close>

theorem drain_instruction_parent_chain:
  assumes "reachable c s" and "drain_instruction_flushable s = (s', Ok (us @ x # vs))"
  shows "(if us = [] then last_instruction_flushed_slot s else Some (is_slot (last us))) = None \<or>
    (\<exists>p. (if us = [] then last_instruction_flushed_slot s else Some (is_slot (last us))) = Some p \<and>
      is_parent_slot x \<le> p) \<or>
    is_parent_slot x \<in> discarded_slots s"
proof -
  have ok: "state_ok s" by (rule reachable_ok [OF assms(1)])
  have "scan_out instructions_drained (ix_stops (discarded_slots s)) ix_emit
      (last_instruction_flushed_slot s) (buffer s) = us @ x # vs"
    using drain_instruction_out [OF ok assms(2)] by simp
  from ix.out_chain [OF this] obtain k b where "x = ix_emit k b"
    and ns: "\<not> ix_stops (discarded_slots s)
      (if us = [] then last_instruction_flushed_slot s else Some (is_slot (last us))) b" by blast
  then show ?thesis using ix_not_stopped [OF ns, of k] by auto
qed

theorem drain_instruction_parent_chain_witness:
  "is_parent_slot (demo_out ! 1) \<le> is_slot (demo_out ! 0) \<or>
   is_parent_slot (demo_out ! 1) \<in> discarded_slots demo_state"
proof -
  have "drain_instruction_flushable demo_state =
      (fst (drain_instruction_flushable demo_state), Ok ([demo_out ! 0] @ demo_out ! 1 # []))"
    using demo_drain demo_out_eq by simp
  from drain_instruction_parent_chain [OF demo_reachable this] show ?thesis by simp
qed

text \<open>
  A drain is exhaustive: what it leaves in the buffer is not flushable, so draining again
  delivers nothing and changes nothing.
\<close>

theorem drain_instruction_exhaustive:
  assumes "reachable c s" and "drain_instruction_flushable s = (s', r)"
  shows "drain_instruction_flushable s' = (s', Ok [])"
proof -
  have ok: "state_ok s" by (rule reachable_ok [OF assms(1)])
  have ok': "state_ok s'" using state_ok_drain_instruction [OF ok] assms(2) by simp
  let ?l = "last_instruction_flushed_slot s" and ?st = "ix_stops (discarded_slots s)"
  let ?out = "scan_out instructions_drained ?st ix_emit ?l (buffer s)"
  let ?m = "scan_mark instructions_drained ?st ix_mark ?l (buffer s)"
  let ?t = "s\<lparr>buffer := ?m, last_instruction_flushed_slot := scan_last instructions_drained ?st ?l (buffer s)\<rparr>"
  have eq: "s' = (if ?out = [] then s else cleanup_fully_drained ?t)"
    using assms(2) ok by (simp add: drain_instruction_eq state_ok_def Let_def)
  have "scan_out instructions_drained (ix_stops (discarded_slots s')) ix_emit
      (last_instruction_flushed_slot s') (buffer s') = []"
  proof (cases "?out = []")
    case True
    then show ?thesis using eq by simp
  next
    case False
    have "bt_ok ?m" using ok by (simp add: state_ok_def bt_ok_def ix.mark_keys)
    then have buf: "buffer s' = filter (\<lambda>(k, b). \<not> is_fully_drained b) ?m"
      using False eq by (simp add: cleanup_buffer bt_retain_def)
    have sub: "discarded_slots s' \<subseteq> discarded_slots s"
      using False eq cleanup_discarded [of ?t] by simp
    show ?thesis
      unfolding buf using False eq
      by (simp del: split_paired_All)
         (rule ix.again_empty, use sub in \<open>auto simp: ix_stops_def is_fully_drained_def\<close>)
  qed
  then show ?thesis using ok' by (simp add: drain_instruction_eq state_ok_def Let_def)
qed

theorem drain_instruction_exhaustive_witness:
  "drain_instruction_flushable (fst (drain_instruction_flushable demo_state)) =
    (fst (drain_instruction_flushable demo_state), Ok [])"
  by (rule drain_instruction_exhaustive [OF demo_reachable demo_drain])

text \<open>
  No head-of-line stall: when the oldest slot whose instructions are still pending passes
  its two gates and its parent is flushed or discarded (or nothing was flushed yet), the
  next drain delivers that slot first.
\<close>

theorem drain_instruction_progress:
  assumes "reachable c s" and "buffer s = us @ (sl, b) # vs"
    and "\<forall>(k, b')\<in>set us. instructions_drained b'" and "\<not> instructions_drained b"
    and "instruction_gate_reached b" and "metadata b = Some m"
    and "is_none_or (last_instruction_flushed_slot s)
           (\<lambda>l. parent_slot m \<le> l \<or> parent_slot m \<in> discarded_slots s)"
  shows "\<exists>s' x xs. drain_instruction_flushable s = (s', Ok (x # xs)) \<and> is_slot x = sl"
proof -
  have ok: "state_ok s" by (rule reachable_ok [OF assms(1)])
  have ns: "\<not> ix_stops (discarded_slots s) (last_instruction_flushed_slot s) b"
    using assms(5-7) by (auto simp: ix_stops_def)
  obtain s' r where dr: "drain_instruction_flushable s = (s', r)" by fastforce
  show ?thesis
    using dr drain_instruction_out [OF ok dr] ix.first_ready [OF assms(3,4) ns, of sl vs]
      ix.emit_slot [OF ns, of sl] assms(2) by auto
qed

theorem drain_instruction_progress_witness:
  "\<exists>s' x xs. drain_instruction_flushable demo_state = (s', Ok (x # xs)) \<and> is_slot x = 100"
proof -
  have split: "buffer demo_state = [] @ (100, the (bt_get (buffer demo_state) 100)) # tl (buffer demo_state)"
    by code_simp
  show ?thesis
    by (rule drain_instruction_progress [OF demo_reachable split]) (simp, code_simp+)
qed

text \<open>
  No record is lost or duplicated: from a reachable state in which a slot is open for
  instruction records (not discarded, beyond the flush frontier), run any events that do not
  discard it; if a drain then delivers the slot, its records are exactly the ones buffered
  before plus the ones the events carried for it, the last one per sort key, in key order.
\<close>

theorem no_data_loss:
  assumes "reachable c s" and "validate_instruction_slot sl s"
    and "\<forall>e\<in>set es. \<not> discards sl e"
    and "drain_instruction_flushable (fold apply_event es s) = (s', Ok xs)"
    and "x \<in> set xs" and "is_slot x = sl"
  shows "is_records x = map snd (fold (\<lambda>(k, r). bt_insert k r) (records_for sl es) (slot_records sl s))"
proof -
  let ?t = "fold apply_event es s"
  have ok: "state_ok s" by (rule reachable_ok [OF assms(1)])
  have okt: "state_ok ?t" by (rule apply_run.run_inv [OF ok])
  have "x \<in> set (scan_out instructions_drained (ix_stops (discarded_slots ?t)) ix_emit
      (last_instruction_flushed_slot ?t) (buffer ?t))"
    using drain_instruction_out [OF okt assms(4)] assms(5) by simp
  from ix.out_origin [OF this] obtain k b l where mem: "(k, b) \<in> set (buffer ?t)"
    and ns: "\<not> ix_stops (discarded_slots ?t) l b" and x: "x = ix_emit k b" by blast
  have "k = sl" using ix.emit_slot [OF ns] x assms(6) by simp
  then have "slot_records sl ?t = instruction_records b"
    using mem okt by (simp add: slot_records_def state_ok_def bt_get_iff [symmetric])
  then show ?thesis
    using ix_not_stopped [OF ns, of k] slot_records_run [OF ok assms(2,3)] x by auto
qed

theorem no_data_loss_witness:
  "is_records (demo_out ! 0) =
    map snd (fold (\<lambda>(k, r). bt_insert k r) (records_for 100 (demo_events 101 100 @ demo_events 100 99)) [])"
proof -
  have dr: "drain_instruction_flushable
      (fold apply_event (demo_events 101 100 @ demo_events 100 99) (new_state Confirmed)) =
      (fst (drain_instruction_flushable demo_state), Ok demo_out)"
    using demo_drain by (simp only: demo_state_def)
  have "is_records (demo_out ! 0) = map snd (fold (\<lambda>(k, r). bt_insert k r)
      (records_for 100 (demo_events 101 100 @ demo_events 100 99)) (slot_records 100 (new_state Confirmed)))"
  proof (rule no_data_loss [OF reachable.start _ _ dr demo_out_mem])
    show "validate_instruction_slot 100 (new_state Confirmed :: nat coordinator_state)" by code_simp
    show "\<forall>e\<in>set (demo_events 101 100 @ demo_events 100 99). \<not> discards 100 e"
      by (simp add: demo_events_def)
  qed (rule demo_out_facts)
  then show ?thesis by (simp add: slot_records_def new_state_def)
qed



text \<open>
  Account drains never fail; the account slots they return are strictly ascending, and each
  was frozen with an expected number of account updates and had processed at least as many.
\<close>

theorem drain_account_gated:
  assumes "reachable c s"
  shows "\<exists>s' xs. drain_account_flushable s = (s', Ok xs) \<and> ascending (map as_slot xs) \<and>
    (\<forall>x\<in>set xs. \<exists>b n. bt_get (buffer s) (as_slot x) = Some b \<and> \<not> accounts_drained b \<and>
       account_commitment_reached b \<and> expected_account_count b = Some n \<and>
       n \<le> account_processed_count b \<and> as_records x = map snd (account_records b))"
proof -
  have ok: "state_ok s" by (rule reachable_ok [OF assms])
  let ?out = "scan_out accounts_drained acct_stops acct_emit (last_account_flushed_slot s) (buffer s)"
  obtain s' r where dr: "drain_account_flushable s = (s', r)" by fastforce
  then have r: "r = Ok ?out" by (rule drain_account_out [OF ok])
  have "\<exists>b n. bt_get (buffer s) (as_slot x) = Some b \<and> \<not> accounts_drained b \<and>
       account_commitment_reached b \<and> expected_account_count b = Some n \<and>
       n \<le> account_processed_count b \<and> as_records x = map snd (account_records b)"
    if x: "x \<in> set ?out" for x
  proof -
    from acct.out_origin [OF x] obtain k b l where "(k, b) \<in> set (buffer s)" "\<not> accounts_drained b"
      and ns: "\<not> acct_stops l b" and "x = acct_emit k b" by blast
    moreover from this ok have "bt_get (buffer s) k = Some b" by (simp add: state_ok_def bt_get_iff)
    ultimately show ?thesis
      by (auto simp: acct_stops_def account_gate_reached_def account_parse_complete_def is_some_and_iff
          acct_emit_def drain_account_records_def)
  qed
  then show ?thesis
    using dr r acct.out_ascending [OF ascending_buffer [OF ok], of "last_account_flushed_slot s"]
    by (intro exI [of _ s'] exI [of _ ?out]) simp
qed

theorem drain_account_gated_witness:
  "\<exists>s' xs. drain_account_flushable demo_state = (s', Ok xs) \<and> ascending (map as_slot xs) \<and>
    (\<forall>x\<in>set xs. \<exists>b n. bt_get (buffer demo_state) (as_slot x) = Some b \<and> \<not> accounts_drained b \<and>
       account_commitment_reached b \<and> expected_account_count b = Some n \<and>
       n \<le> account_processed_count b \<and> as_records x = map snd (account_records b))"
  by (rule drain_account_gated [OF demo_reachable])

subsection \<open>Discarded slots\<close>

lemma last_flushed_frame: "last_flushed_slot (s\<lparr>discarded_slots := D\<rparr>) = last_flushed_slot s"
  "last_flushed_slot (s\<lparr>buffer := m\<rparr>) = last_flushed_slot s"
  "last_flushed_slot (s\<lparr>account_event_counts := c\<rparr>) = last_flushed_slot s"
  by (simp_all add: last_flushed_slot_def)

lemma saturating_sub_less: "saturating_sub l 512 < x \<longleftrightarrow> unat l - 512 < unat x" for l x :: slot
  by (simp add: word_less_nat_alt unat_saturating_sub)

fun parse_result_for :: "slot \<Rightarrow> 'r coordinator_event \<Rightarrow> bool" where
  "parse_result_for sl (InstructionRecordParsed sl' k r) = (sl' = sl)"
| "parse_result_for sl (AccountRecordParsed sl' k r) = (sl' = sl)"
| "parse_result_for sl (TransactionParsed sl') = (sl' = sl)"
| "parse_result_for sl (ParseStats sl' k) = (sl' = sl)"
| "parse_result_for sl (AccountEventSeen sl') = (sl' = sl)"
| "parse_result_for sl _ = False"

text \<open>
  Tombstones: after a slot is discarded its buffer is gone; the tombstone is kept exactly
  when the slot is less than 512 behind the slower of the two flush frontiers; and in every
  state that holds the tombstone, a parse result for the slot changes nothing.
\<close>

theorem discarded_slot_ignored:
  assumes "reachable c s"
  shows "bt_get (buffer (discard_slot sl r s)) sl = None \<and>
    (sl \<in> discarded_slots (discard_slot sl r s) \<longleftrightarrow>
       is_none_or (last_flushed_slot s) (\<lambda>l. unat l - 512 < unat sl)) \<and>
    (sl \<in> discarded_slots t \<longrightarrow> parse_result_for sl e \<longrightarrow> apply_event e t = t)"
proof (intro conjI impI)
  have "bt_ok (buffer s)" using reachable_ok [OF assms] by (simp add: state_ok_def)
  then show "bt_get (buffer (discard_slot sl r s)) sl = None"
    by (simp add: discard_slot_def prune_discarded_slots_def Let_def bt_simps split: option.splits)
  show "sl \<in> discarded_slots (discard_slot sl r s) \<longleftrightarrow>
      is_none_or (last_flushed_slot s) (\<lambda>l. unat l - 512 < unat sl)"
    by (cases "last_flushed_slot s")
       (simp_all add: discard_slot_def prune_discarded_slots_def Let_def last_flushed_frame
         DISCARDED_SLOT_RETENTION_BEHIND_FLUSH_def saturating_sub_less)
  show "sl \<in> discarded_slots t \<Longrightarrow> parse_result_for sl e \<Longrightarrow> apply_event e t = t"
    by (cases e) (auto simp: validate_instruction_slot_def validate_account_slot_def)
qed

theorem discarded_slot_ignored_witness:
  "bt_get (buffer (discard_slot 101 Dead demo_state)) 101 = None \<and>
   101 \<in> discarded_slots (discard_slot 101 Dead demo_state) \<and>
   apply_event (TransactionParsed 101) (discard_slot 101 Dead demo_state) = discard_slot 101 Dead demo_state"
proof -
  have none: "last_flushed_slot demo_state = None" by code_simp
  show ?thesis
    using discarded_slot_ignored [OF demo_reachable, of 101 Dead "discard_slot 101 Dead demo_state"
        "TransactionParsed 101"] none by simp
qed

end
