(* ===== verification/Coordinator_Order.thy ===== *)
theory Coordinator_Order
  imports Coordinator_Properties
begin

text \<open>
  The order of delivery over a whole run of the coordinator: batches of events, each followed
  by the two drains, as the loop of \<open>crates/block-coordinator/src/coordinator.rs\<close> performs
  them.
\<close>

subsection \<open>Batches\<close>

definition batch ::
  "'r coordinator_event list \<Rightarrow> 'r coordinator_state \<Rightarrow> 'r coordinator_state \<times> 'r instruction_slot list" where
  "batch es s =
     (case drain_instruction_flushable (fold apply_event es s) of
        (t, Ok xs) \<Rightarrow> (fst (drain_account_flushable t), xs)
      | (t, _) \<Rightarrow> (t, []))"

fun run_batches ::
  "'r coordinator_event list list \<Rightarrow> 'r coordinator_state \<Rightarrow> 'r coordinator_state \<times> 'r instruction_slot list" where
  "run_batches [] s = (s, [])"
| "run_batches (es # ess) s =
     (case batch es s of (t, xs) \<Rightarrow> case run_batches ess t of (u, ys) \<Rightarrow> (u, xs @ ys))"

fun frozen_slots :: "'r coordinator_event list \<Rightarrow> slot list" where
  "frozen_slots [] = []"
| "frozen_slots (BlockFrozen sl m # es) = sl # frozen_slots es"
| "frozen_slots (_ # es) = frozen_slots es"

subsection \<open>Slots that have metadata\<close>

text \<open>
  The buffered slots whose block is frozen, and those of them whose instructions are still
  pending. Only \<open>BlockFrozen\<close> adds to them.
\<close>

definition frozen :: "'r coordinator_state \<Rightarrow> slot set" where
  "frozen s = {k. \<exists>b. (k, b) \<in> set (buffer s) \<and> metadata b \<noteq> None}"

definition pending :: "'r coordinator_state \<Rightarrow> slot set" where
  "pending s = {k. \<exists>b. (k, b) \<in> set (buffer s) \<and> metadata b \<noteq> None \<and> \<not> instructions_drained b}"

lemma pending_frozen: "pending s \<subseteq> frozen s"
  by (auto simp: pending_def frozen_def)

lemma frozen_get:
  "bt_ok (buffer s) \<Longrightarrow> k \<in> frozen s \<longleftrightarrow> (\<exists>b. bt_get (buffer s) k = Some b \<and> metadata b \<noteq> None)"
  by (simp add: frozen_def bt_get_iff)

lemma pending_get:
  "bt_ok (buffer s) \<Longrightarrow> k \<in> pending s \<longleftrightarrow>
    (\<exists>b. bt_get (buffer s) k = Some b \<and> metadata b \<noteq> None \<and> \<not> instructions_drained b)"
  by (simp add: pending_def bt_get_iff)

lemma frozen_frames [simp]:
  "frozen (s\<lparr>account_event_counts := c\<rparr>) = frozen s"
  "frozen (s\<lparr>late_account_event_drops := n\<rparr>) = frozen s"
  "frozen (s\<lparr>last_instruction_flushed_slot := l\<rparr>) = frozen s"
  "pending (s\<lparr>account_event_counts := c\<rparr>) = pending s"
  "pending (s\<lparr>late_account_event_drops := n\<rparr>) = pending s"
  "pending (s\<lparr>last_instruction_flushed_slot := l\<rparr>) = pending s"
  by (simp_all add: frozen_def pending_def)

lemma find_with_entry:
  "bt_ok (buffer s) \<Longrightarrow> bt_get (buffer (with_entry sl f s)) k =
    (if k = sl then Some (f (unwrap_or (bt_get (buffer s) sl) default_buffer)) else bt_get (buffer s) k)"
  by (simp add: with_entry_def bt_get_upsert)

lemma with_entry_frozen:
  assumes "bt_ok (buffer s)"
    and "\<And>b. metadata (f b) = metadata b" and "\<And>b. instructions_drained (f b) = instructions_drained b"
  shows "frozen (with_entry sl f s) = frozen s" and "pending (with_entry sl f s) = pending s"
proof -
  note ok = bt_ok_with_entry [OF assms(1), of sl f]
  show "frozen (with_entry sl f s) = frozen s"
    by (rule set_eqI, cases "bt_get (buffer s) sl")
       (auto simp: frozen_get [OF ok] frozen_get [OF assms(1)] find_with_entry [OF assms(1)] assms(2)
         default_buffer_def)
  show "pending (with_entry sl f s) = pending s"
    by (rule set_eqI, cases "bt_get (buffer s) sl")
       (auto simp: pending_get [OF ok] pending_get [OF assms(1)] find_with_entry [OF assms(1)] assms(2,3)
         default_buffer_def)
qed

lemma buffer_frozen: "buffer t = buffer s \<Longrightarrow> frozen t = frozen s"
  and buffer_pending: "buffer t = buffer s \<Longrightarrow> pending t = pending s"
  by (simp_all add: frozen_def pending_def)

lemma freeze_frozen:
  "bt_ok (buffer s) \<Longrightarrow> frozen (freeze_account_gate sl s) = frozen s"
  "bt_ok (buffer s) \<Longrightarrow> pending (freeze_account_gate sl s) = pending s"
  by (simp_all add: freeze_account_gate_def Let_def with_entry_frozen buffer_update_defs)

lemma increment_parse_stat_gates [simp]:
  "metadata (increment_parse_stat k b) = metadata b"
  "instructions_drained (increment_parse_stat k b) = instructions_drained b"
  by (cases k; simp)+

lemma discard_frozen:
  assumes "bt_ok (buffer s)"
  shows "frozen (discard_slot sl r s) \<subseteq> frozen s" and "pending (discard_slot sl r s) \<subseteq> pending s"
  using assms
  by (auto simp: frozen_def pending_def discard_slot_def prune_discarded_slots_def Let_def bt_remove_def
      split: option.splits)

lemma apply_frozen:
  assumes ok: "bt_ok (buffer s)"
  shows "frozen (apply_event e s) \<subseteq> frozen s \<union> set (frozen_slots [e]) \<and>
    pending (apply_event e s) \<subseteq> pending s \<union> set (frozen_slots [e])"
proof (cases e)
  case (BlockFrozen sl m)
  have "frozen (with_entry sl (set_block_metadata m) s) \<subseteq> frozen s \<union> {sl}"
    "pending (with_entry sl (set_block_metadata m) s) \<subseteq> pending s \<union> {sl}"
    by (auto simp: frozen_get [OF bt_ok_with_entry [OF ok]] frozen_get [OF ok]
        pending_get [OF bt_ok_with_entry [OF ok]] pending_get [OF ok] find_with_entry [OF ok] split: if_splits)
  with BlockFrozen show ?thesis by auto
next
  case (AccountRecordParsed sl k r)
  then show ?thesis
    using ok by (auto simp: with_entry_frozen bt_ok_validated buffer_update_defs
        dest: bt_ok_validated [OF ok] split: prod.splits bool.splits)
       (metis buffer_frozen buffer_pending fst_conv subsetD order_refl validate_account_frame(1))+
next
  case (ParseStats sl k)
  then show ?thesis
    using ok by (auto simp: with_entry_frozen bt_ok_validated buffer_update_defs split: prod.splits bool.splits)
       (metis buffer_frozen buffer_pending fst_conv subsetD order_refl validate_account_frame(1))+
next
  case (SlotDiscarded sl r)
  then show ?thesis using discard_frozen [OF ok] by auto
qed (use ok in \<open>auto simp: Let_def with_entry_frozen freeze_frozen bt_ok_with_entry buffer_update_defs\<close>)

subsection \<open>Drains and the frontier\<close>

context slot_scan
begin

lemma mark_beyond:
  "ascending (map fst m) \<Longrightarrow> (k, b) \<in> set (scan_mark drained stops mark l m) \<Longrightarrow> \<not> drained b \<Longrightarrow>
    x \<in> set (scan_out drained stops emit l m) \<Longrightarrow> slot_of x < k"
proof (induction m arbitrary: l)
  case Nil
  then show ?case by simp
next
  case (Cons p m)
  obtain k' b' where p: "p = (k', b')" by (cases p)
  show ?case
  proof (cases "drained b'")
    case True
    with Cons p show ?thesis by auto
  next
    case False
    with Cons.prems p have go: "\<not> stops l b'" by (auto split: if_splits)
    with Cons.prems p False have "(k, b) \<in> set (scan_mark drained stops mark (Some k') m)"
      by (auto simp: mark_drained)
    moreover from this have "k \<in> set (map fst (scan_mark drained stops mark (Some k') m))" by force
    then have "k' < k" using Cons.prems(1) p by (simp only: mark_keys) auto
    ultimately show ?thesis
      using Cons p False go by (auto simp: emit_slot)
  qed
qed

lemma out_passes:
  "ascending (map fst (us @ (k, b) # vs)) \<Longrightarrow> \<not> drained b \<Longrightarrow>
    x \<in> set (scan_out drained stops emit l (us @ (k, b) # vs)) \<Longrightarrow> k < slot_of x \<Longrightarrow>
    k \<in> slot_of ` set (scan_out drained stops emit l (us @ (k, b) # vs)) \<and> (\<exists>l'. \<not> stops l' b)"
proof (induction us arbitrary: l)
  case Nil
  then show ?case by (auto simp: emit_slot image_iff split: if_splits)
next
  case (Cons p us)
  obtain k' b' where p: "p = (k', b')" by (cases p)
  show ?case
  proof (cases "drained b'")
    case True
    with Cons p show ?thesis by simp
  next
    case False
    with Cons.prems p have go: "\<not> stops l b'" by (auto split: if_splits)
    moreover have "k' < k" using Cons.prems(1) p by simp
    ultimately have "x \<in> set (scan_out drained stops emit (Some k') (us @ (k, b) # vs))"
      using Cons.prems(3,4) p False by (auto simp: emit_slot)
    with Cons p False go show ?thesis by auto
  qed
qed

end

text \<open>
  The blocks frozen so far are in \<open>F\<close>, the frontier is one of them, and what is still pending
  lies beyond the frontier.
\<close>

definition ordered :: "slot set \<Rightarrow> 'r coordinator_state \<Rightarrow> bool" where
  "ordered F s \<longleftrightarrow> state_ok s \<and> frozen s \<subseteq> F \<and>
     (\<forall>l. last_instruction_flushed_slot s = Some l \<longrightarrow> l \<in> F \<and> (\<forall>k\<in>pending s. l < k))"

lemma ordered_apply:
  assumes "ordered F s" and "\<forall>x\<in>set (frozen_slots [e]). \<forall>f\<in>F. f < x"
  shows "ordered (F \<union> set (frozen_slots [e])) (apply_event e s)"
  using assms apply_frozen [of s e] state_ok_apply [of s e]
  by (fastforce simp: ordered_def state_ok_def [of s])

lemma frozen_slots_Cons: "frozen_slots (e # es) = frozen_slots [e] @ frozen_slots es"
  by (cases e) simp_all

lemma frozen_slots_append: "frozen_slots (es @ es') = frozen_slots es @ frozen_slots es'"
proof (induction es)
  case (Cons e es)
  then show ?case
    using frozen_slots_Cons [of e "es @ es'"] frozen_slots_Cons [of e es] by simp
qed simp

lemma ordered_fold:
  "ordered F s \<Longrightarrow> ascending (frozen_slots es) \<Longrightarrow> \<forall>x\<in>set (frozen_slots es). \<forall>f\<in>F. f < x \<Longrightarrow>
    ordered (F \<union> set (frozen_slots es)) (fold apply_event es s)"
proof (induction es arbitrary: F s)
  case Nil
  then show ?case by simp
next
  case (Cons e es)
  have split: "frozen_slots (e # es) = frozen_slots [e] @ frozen_slots es" by (rule frozen_slots_Cons)
  have "ordered (F \<union> set (frozen_slots [e])) (apply_event e s)"
    using Cons.prems by (intro ordered_apply) (auto simp: split)
  from Cons.IH [OF this] show ?case
    using Cons.prems(2,3) by (auto simp: split sorted_wrt_append Un_assoc)
qed

lemma cleanup_frozen:
  assumes "bt_ok (buffer s)"
  shows "frozen (cleanup_fully_drained s) \<subseteq> frozen s" and "pending (cleanup_fully_drained s) \<subseteq> pending s"
  by (auto simp: frozen_def pending_def cleanup_buffer [OF assms] bt_retain_def)

lemma ordered_drain_instruction:
  assumes ord: "ordered F s" and dr: "drain_instruction_flushable s = (t, Ok xs)"
  shows "ordered F t \<and> ascending (map is_slot xs) \<and>
    (\<forall>x\<in>set xs. is_none_or (last_instruction_flushed_slot s) (\<lambda>l. l < is_slot x)) \<and>
    last_instruction_flushed_slot t =
      (if xs = [] then last_instruction_flushed_slot s else Some (is_slot (last xs)))"
proof -
  have ok: "state_ok s" using ord by (simp add: ordered_def)
  note asc = ascending_buffer [OF ok]
  let ?l = "last_instruction_flushed_slot s" and ?st = "ix_stops (discarded_slots s)"
  let ?m = "scan_mark instructions_drained ?st ix_mark ?l (buffer s)"
  let ?t = "s\<lparr>buffer := ?m, last_instruction_flushed_slot := scan_last instructions_drained ?st ?l (buffer s)\<rparr>"
  have xs: "xs = scan_out instructions_drained ?st ix_emit ?l (buffer s)"
    using drain_instruction_out [OF ok dr] by simp
  have t: "t = (if xs = [] then s else cleanup_fully_drained ?t)"
    using dr ok xs by (simp add: drain_instruction_eq state_ok_def Let_def split: if_splits)
  have last: "last_instruction_flushed_slot t = (if xs = [] then ?l else Some (is_slot (last xs)))"
    using ix.last_out [of "discarded_slots s" ?l "buffer s"] xs t by (simp add: Let_def)
  have delivered: "is_slot x \<in> pending s" if "x \<in> set xs" for x
  proof -
    from ix.out_origin [OF that [unfolded xs]] obtain k b l where
      "(k, b) \<in> set (buffer s)" "\<not> instructions_drained b" and ns: "\<not> ?st l b" and x: "x = ix_emit k b"
      by blast
    moreover have "metadata b \<noteq> None" using ix_not_stopped [OF ns, of k] by auto
    ultimately show ?thesis using ix.emit_slot [OF ns, of k] by (auto simp: pending_def)
  qed
  have "bt_ok ?m" using ok by (simp add: state_ok_def bt_ok_def ix.mark_keys)
  then have clean: "frozen t \<subseteq> frozen ?t" "pending t \<subseteq> pending ?t" if "xs \<noteq> []"
    using cleanup_frozen [of ?t] that t by auto
  have marked: "\<exists>b'. (k, b') \<in> set (buffer s) \<and> metadata b = metadata b'"
    if "(k, b) \<in> set ?m" for k b
    using ix.mark_members [OF that] by (fastforce simp: ix_mark_def drain_instruction_records_def split: option.splits)
  have "frozen t \<subseteq> F"
  proof (cases "xs = []")
    case True
    with ord t show ?thesis by (simp add: ordered_def)
  next
    case False
    have "frozen ?t \<subseteq> frozen s" using marked by (fastforce simp: frozen_def)
    with clean(1) [OF False] ord show ?thesis by (auto simp: ordered_def)
  qed
  moreover have "is_slot (last xs) < k" if "xs \<noteq> []" "k \<in> pending t" for k
    using clean(2) that ix.mark_beyond [OF asc, of k _ "discarded_slots s" ?l "last xs"] xs
    by (auto simp: pending_def)
  moreover have "is_slot (last xs) \<in> F" if "xs \<noteq> []"
    using delivered [of "last xs"] that ord pending_frozen [of s] by (auto simp: ordered_def)
  moreover have "state_ok t" using state_ok_drain_instruction [OF ok] dr by simp
  ultimately have "ordered F t" using last ord t by (auto simp: ordered_def)
  moreover have "is_none_or ?l (\<lambda>l. l < is_slot x)" if "x \<in> set xs" for x
    using ord delivered [OF that] by (cases ?l) (auto simp: ordered_def)
  ultimately show ?thesis using last ix.out_ascending [OF asc] xs by auto
qed

lemma ordered_drain_account:
  assumes ord: "ordered F s"
  shows "ordered F (fst (drain_account_flushable s))"
    and "last_instruction_flushed_slot (fst (drain_account_flushable s)) = last_instruction_flushed_slot s"
proof -
  have ok: "state_ok s" using ord by (simp add: ordered_def)
  let ?l = "last_account_flushed_slot s"
  let ?m = "scan_mark accounts_drained acct_stops acct_mark ?l (buffer s)"
  let ?t = "s\<lparr>buffer := ?m, last_account_flushed_slot := scan_last accounts_drained acct_stops ?l (buffer s)\<rparr>"
  let ?t' = "fst (drain_account_flushable s)"
  have t: "?t' = s \<or> ?t' = cleanup_fully_drained ?t"
    using ok by (simp add: drain_account_eq state_ok_def Let_def)
  then show last: "last_instruction_flushed_slot ?t' = last_instruction_flushed_slot s" by auto
  have "bt_ok ?m" using ok by (simp add: state_ok_def bt_ok_def acct.mark_keys)
  then have clean: "frozen (cleanup_fully_drained ?t) \<subseteq> frozen ?t" "pending (cleanup_fully_drained ?t) \<subseteq> pending ?t"
    using cleanup_frozen [of ?t] by auto
  have marked: "\<exists>b'. (k, b') \<in> set (buffer s) \<and> metadata b = metadata b' \<and>
      instructions_drained b = instructions_drained b'" if "(k, b) \<in> set ?m" for k b
    using acct.mark_members [OF that] by (fastforce simp: acct_mark_def drain_account_records_def)
  have "frozen ?t \<subseteq> frozen s" "pending ?t \<subseteq> pending s"
    using marked by (fastforce simp: frozen_def pending_def)+
  with clean t have "frozen ?t' \<subseteq> frozen s" "pending ?t' \<subseteq> pending s" by auto
  then show "ordered F ?t'"
    using ord last state_ok_drain_account [OF ok] by (auto simp: ordered_def)
qed

lemma ordered_batch:
  assumes "ordered F s" and "ascending (frozen_slots es)"
    and "\<forall>x\<in>set (frozen_slots es). \<forall>f\<in>F. f < x" and "batch es s = (t, xs)"
  shows "ordered (F \<union> set (frozen_slots es)) t \<and> ascending (map is_slot xs) \<and>
    (\<forall>x\<in>set xs. is_none_or (last_instruction_flushed_slot s) (\<lambda>l. l < is_slot x)) \<and>
    last_instruction_flushed_slot t =
      (if xs = [] then last_instruction_flushed_slot s else Some (is_slot (last xs)))"
proof -
  let ?u = "fold apply_event es s"
  have ord: "ordered (F \<union> set (frozen_slots es)) ?u" by (rule ordered_fold [OF assms(1-3)])
  have front: "last_instruction_flushed_slot ?u = last_instruction_flushed_slot s"
    by (induction es arbitrary: s) simp_all
  have "state_ok ?u" using ord by (simp add: ordered_def)
  then obtain v where dr: "drain_instruction_flushable ?u = (v, Ok xs)" and t: "t = fst (drain_account_flushable v)"
    using assms(4) drain_instruction_out [of ?u] by (fastforce simp: batch_def split: prod.splits outcome.splits)
  show ?thesis
    using ordered_drain_instruction [OF ord dr] ordered_drain_account [of "F \<union> set (frozen_slots es)" v]
    by (simp add: t front)
qed

lemma ordered_run:
  "ordered F s \<Longrightarrow> ascending (frozen_slots (concat ess)) \<Longrightarrow>
    \<forall>x\<in>set (frozen_slots (concat ess)). \<forall>f\<in>F. f < x \<Longrightarrow> run_batches ess s = (t, xs) \<Longrightarrow>
    ascending (map is_slot xs) \<and>
    (\<forall>x\<in>set xs. is_none_or (last_instruction_flushed_slot s) (\<lambda>l. l < is_slot x))"
proof (induction ess arbitrary: F s xs)
  case Nil
  then show ?case by simp
next
  case (Cons es ess)
  obtain u ys where b: "batch es s = (u, ys)" by fastforce
  with Cons.prems(4) obtain zs where r: "run_batches ess u = (t, zs)" and xs: "xs = ys @ zs"
    by (auto split: prod.splits)
  have es: "ascending (frozen_slots es)" "\<forall>x\<in>set (frozen_slots es). \<forall>f\<in>F. f < x"
    using Cons.prems(2,3) by (auto simp: frozen_slots_append sorted_wrt_append)
  from ordered_batch [OF Cons.prems(1) es b] have
    ord: "ordered (F \<union> set (frozen_slots es)) u" and ys: "ascending (map is_slot ys)"
    "\<forall>x\<in>set ys. is_none_or (last_instruction_flushed_slot s) (\<lambda>l. l < is_slot x)"
    "last_instruction_flushed_slot u =
      (if ys = [] then last_instruction_flushed_slot s else Some (is_slot (last ys)))" by blast+
  have zs: "ascending (map is_slot zs)"
    "\<forall>x\<in>set zs. is_none_or (last_instruction_flushed_slot u) (\<lambda>l. l < is_slot x)"
    using Cons.IH [OF ord _ _ r] Cons.prems(2,3) by (auto simp: frozen_slots_append sorted_wrt_append)
  show ?case
  proof (cases "ys = []")
    case True
    with zs ys(3) xs show ?thesis by simp
  next
    case False
    have "is_slot y \<le> is_slot (last ys)" if "y \<in> set ys" for y
      using ys(1) that False by (cases ys rule: rev_cases) (auto simp: sorted_wrt_append less_imp_le)
    moreover have "is_slot (last ys) < is_slot z" if "z \<in> set zs" for z
      using zs(2) ys(3) that False by simp
    ultimately have "is_slot y < is_slot z" if "y \<in> set ys" "z \<in> set zs" for y z
      using that by (meson order_le_less_trans)
    moreover from this have "is_none_or (last_instruction_flushed_slot s) (\<lambda>l. l < is_slot z)" if "z \<in> set zs" for z
      using ys(2) that False by (cases "last_instruction_flushed_slot s"; cases ys) (auto intro: less_trans)
    ultimately show ?thesis using ys(1,2) zs(1) xs by (auto simp: sorted_wrt_append)
  qed
qed

lemma run_batches_ascending:
  assumes "ascending (frozen_slots (concat ess))"
  shows "ascending (map is_slot (snd (run_batches ess (new_state c))))"
proof -
  have "ordered {} (new_state c :: 'a coordinator_state)"
    using state_ok_new by (simp add: ordered_def frozen_def new_state_def)
  from ordered_run [OF this assms, of "fst (run_batches ess (new_state c))"] show ?thesis by simp
qed

subsection \<open>Order over a run\<close>

text \<open>
  C1. In-order delivery: when blocks are frozen in ascending slot order, the instruction slots
  delivered over a whole run, whatever else the events are and however they are batched, are
  strictly ascending; in particular no slot is delivered twice.
\<close>

theorem in_order_delivery:
  assumes "ascending (frozen_slots (concat ess))"
  shows "ascending (map is_slot (snd (run_batches ess (new_state c))))"
  by (rule run_batches_ascending [OF assms])

theorem in_order_delivery_witness:
  "ascending (map is_slot (snd (run_batches
     [take 4 (demo_events 100 99), demo_events 101 100, drop 4 (demo_events 100 99)] (new_state Confirmed)))) \<and>
   map is_slot (snd (run_batches
     [take 4 (demo_events 100 99), demo_events 101 100, drop 4 (demo_events 100 99)] (new_state Confirmed))) = [100, 101]"
proof -
  have "ascending (frozen_slots (concat
      [take 4 (demo_events 100 99), demo_events 101 100, drop 4 (demo_events 100 99)]))" by code_simp
  from in_order_delivery [OF this, of Confirmed] show ?thesis by (rule conjI) code_simp
qed

definition late_freeze :: "nat coordinator_event list list" where
  "late_freeze =
     [[BlockFrozen 102 \<lparr>parent_slot = 99, blockhash = [], expected_tx_count = 0\<rparr>, SlotConfirmed 102],
      [BlockFrozen 100 \<lparr>parent_slot = 99, blockhash = [], expected_tx_count = 0\<rparr>, SlotConfirmed 100]]"


text \<open>
  Head of line: a slot is delivered only when every earlier buffered slot whose
  instructions were still pending is delivered by the same drain. In particular a slot that
  is not ready, whatever event created its buffer, holds back all later ones.
\<close>

theorem incomplete_slot_blocks:
  assumes "reachable c s" and "drain_instruction_flushable s = (s', Ok xs)" and "x \<in> set xs"
    and "(k, b) \<in> set (buffer s)" and "k < is_slot x" and "\<not> instructions_drained b"
  shows "instruction_gate_reached b \<and> (\<exists>y\<in>set xs. is_slot y = k)"
proof -
  have ok: "state_ok s" by (rule reachable_ok [OF assms(1)])
  let ?l = "last_instruction_flushed_slot s" and ?st = "ix_stops (discarded_slots s)"
  have xs: "xs = scan_out instructions_drained ?st ix_emit ?l (buffer s)"
    using drain_instruction_out [OF ok assms(2)] by simp
  obtain us vs where m: "buffer s = us @ (k, b) # vs" using assms(4) by (meson split_list)
  from ix.out_passes [OF _ assms(6) _ assms(5), of us vs "discarded_slots s" ?l]
  have "k \<in> is_slot ` set xs" "\<exists>l'. \<not> ?st l' b"
    using ascending_buffer [OF ok] assms(3) unfolding xs m by blast+
  then show ?thesis by (auto simp: ix_stops_def)
qed

theorem incomplete_slot_blocks_witness:
  "\<exists>b. bt_get (buffer demo_state) 100 = Some b \<and> instruction_gate_reached b \<and> 100 \<in> is_slot ` set demo_out"
proof -
  have "is_some_and (bt_get (buffer demo_state) 100) (\<lambda>b. \<not> instructions_drained b)" by code_simp
  then obtain b where b: "bt_get (buffer demo_state) 100 = Some b" "\<not> instructions_drained b"
    by (auto simp: is_some_and_iff)
  have "(100, b) \<in> set (buffer demo_state)" using b(1) by (rule map_of_SomeD)
  moreover have "demo_out ! 1 \<in> set demo_out" by (subst (2) demo_out_eq) simp
  moreover have "100 < is_slot (demo_out ! 1)" by code_simp
  ultimately show ?thesis
    using incomplete_slot_blocks [OF demo_reachable demo_drain, of "demo_out ! 1" 100 b] b by auto
qed

end
