(* ===== verification/Coordinator.thy ===== *)
theory Coordinator
  imports Coordinator_Order
begin

text \<open>
  The coordinator's event loop (\<open>crates/block-coordinator/src/coordinator.rs\<close>). The block
  machine it owns (\<open>yellowstone_block_machine\<close>) and base58 decoding are code of other
  packages: their operations are the fields of \<open>block_machine\<close>, an argument of the
  definitions. The two receivers are the sequence of things \<open>select!\<close> takes from them, in
  the order it takes them; the end of that sequence is both channels closed. A receiver of
  an output channel may be dropped between any two of them.
\<close>

subsection \<open>Updates and the block machine\<close>

text \<open>
  A geyser update, with the fields that the coordinator and its source read; what they only
  pass on is the payload \<open>'p\<close>.
\<close>

datatype 'p update_oneof =
    Update_Account slot 'p
  | Update_Slot slot 'p
  | Update_Transaction slot 'p
  | Update_BlockMeta slot string 'p
  | Update_Entry 'p
  | Update_Other 'p

record 'p subscribe_update =
  update_oneof :: "'p update_oneof option"
  envelope :: 'p

datatype 'p coordinator_input =
    GeyserUpdate "'p subscribe_update"
  | AccountEventSeenInput slot

datatype commitment_level = CommitProcessed | CommitConfirmed | CommitFinalized

record frozen_block =
  frozen_slot :: slot
  frozen_parent_slot :: slot
  frozen_blockhash :: bytes
  frozen_entries :: "u64 list"

datatype block_machine_output =
    FrozenBlock frozen_block
  | SlotStatus slot commitment_level
  | DeadSlotDetected slot
  | ForksDetected slot

datatype deadletter_event = IncompleteSlot slot

record ('w, 'p) block_machine =
  handle_new_geyser_event :: "'p subscribe_update \<Rightarrow> 'w \<Rightarrow> 'w \<times> bool"
  pop_next_state_machine_output :: "'w \<Rightarrow> 'w \<times> block_machine_output option"
  pop_next_dlq :: "'w \<Rightarrow> 'w \<times> deadletter_event option"
  bs58_decodes :: "string \<Rightarrow> bool"

record ('w, 'r) block_machine_coordinator =
  wrapper :: 'w
  state :: "'r coordinator_state"
  instruction_output_tx :: "'r instruction_slot mpsc option"
  account_output_tx :: "'r account_slot mpsc option"
  require_tx_gate :: bool

definition new_coordinator ::
  "'w \<Rightarrow> 'r instruction_slot mpsc option \<Rightarrow> 'r account_slot mpsc option \<Rightarrow> account_commit_at \<Rightarrow>
   bool \<Rightarrow> ('w, 'r) block_machine_coordinator" where
  "new_coordinator w ix_tx acct_tx commit_at gate =
     \<lparr>wrapper = w, state = new_state commit_at, instruction_output_tx = ix_tx,
      account_output_tx = acct_tx, require_tx_gate = gate\<rparr>"

subsection \<open>Converting inputs to events\<close>

fun output_events :: "bool \<Rightarrow> block_machine_output \<Rightarrow> 'r coordinator_event list" where
  "output_events gate (FrozenBlock f) =
     [BlockFrozen (frozen_slot f)
        \<lparr>parent_slot = frozen_parent_slot f, blockhash = frozen_blockhash f,
         expected_tx_count = (if gate then sum_list (frozen_entries f) else 0)\<rparr>]"
| "output_events gate (SlotStatus sl CommitConfirmed) = [SlotConfirmed sl]"
| "output_events gate (SlotStatus sl CommitFinalized) = [SlotFinalized sl]"
| "output_events gate (SlotStatus sl CommitProcessed) = []"
| "output_events gate (DeadSlotDetected sl) = [SlotDiscarded sl Dead]"
| "output_events gate (ForksDetected sl) = [SlotDiscarded sl Forked]"

fun dlq_events :: "deadletter_event \<Rightarrow> 'r coordinator_event list" where
  "dlq_events (IncompleteSlot sl) = [SlotDiscarded sl Incomplete]"

text \<open>The \<open>while let Some(..) = pop()\<close> loops; \<open>None\<close> is a loop that never ends.\<close>

partial_function (option) pop_events ::
  "('w \<Rightarrow> 'w \<times> 'o option) \<Rightarrow> ('o \<Rightarrow> 'e list) \<Rightarrow> 'w \<Rightarrow> 'e list \<Rightarrow> ('w \<times> 'e list) option" where
  "pop_events pop conv w events =
     (case pop w of
        (w', None) \<Rightarrow> Some (w', events)
      | (w', Some x) \<Rightarrow> pop_events pop conv w' (events @ conv x))"

definition feed_update ::
  "('w, 'p) block_machine \<Rightarrow> bool \<Rightarrow> 'p subscribe_update \<Rightarrow> 'w \<Rightarrow>
   ('w \<times> 'r coordinator_event list) option" where
  "feed_update bm gate u w =
     (case handle_new_geyser_event bm u w of
        (w', False) \<Rightarrow>
          Some (w', case update_oneof u of
                      Some (Update_BlockMeta sl _ _) \<Rightarrow> [SlotDiscarded sl Untracked]
                    | _ \<Rightarrow> [])
      | (w', True) \<Rightarrow>
          Option.bind (pop_events (pop_next_state_machine_output bm) (output_events gate) w' [])
            (\<lambda>(w'', events). pop_events (pop_next_dlq bm) dlq_events w'' events))"

definition convert_geyser_update ::
  "('w, 'p) block_machine \<Rightarrow> bool \<Rightarrow> 'p subscribe_update \<Rightarrow> 'w \<Rightarrow>
   ('w \<times> 'r coordinator_event list) option" where
  "convert_geyser_update bm gate u w =
     (case update_oneof u of
        Some (Update_BlockMeta _ hash _) \<Rightarrow>
          if bs58_decodes bm hash then feed_update bm gate u w else Some (w, [])
      | _ \<Rightarrow> feed_update bm gate u w)"

fun convert_parsed_message :: "'r coordinator_message \<Rightarrow> 'r coordinator_event list" where
  "convert_parsed_message (InstructionParsed sl k r) = [InstructionRecordParsed sl k r]"
| "convert_parsed_message (AccountParsed sl k r) = [AccountRecordParsed sl k r]"
| "convert_parsed_message (TransactionParsedMsg sl) = [TransactionParsed sl]"
| "convert_parsed_message (ParseStatsMsg sl kind) = [ParseStats sl kind]"

subsection \<open>The event loop\<close>

text \<open>What the loop waits for, and the receivers of its outputs going away.\<close>

datatype ('p, 'r) selected =
    InputReady "'p coordinator_input"
  | ParsedReady "'r coordinator_message"
  | InstructionReceiverDropped
  | AccountReceiverDropped

text \<open>\<open>for x in xs { tx.send(x).await.map_err(err)? }\<close>\<close>

fun send_all :: "('a \<Rightarrow> 'e) \<Rightarrow> 'a list \<Rightarrow> 'a mpsc \<Rightarrow> 'a mpsc \<times> ('e, unit) outcome" where
  "send_all err [] tx = (tx, Ok ())"
| "send_all err (x # xs) tx =
     (case mpsc_send x tx of
        (tx', Ok _) \<Rightarrow> send_all err xs tx'
      | (tx', Err y) \<Rightarrow> (tx', Err (err y))
      | (tx', Panic) \<Rightarrow> (tx', Panic))"

definition selected_events ::
  "('w, 'p) block_machine \<Rightarrow> bool \<Rightarrow> ('p, 'r) selected \<Rightarrow> 'w \<Rightarrow>
   ('w \<times> 'r coordinator_event list) option" where
  "selected_events bm gate sel w =
     (case sel of
        InputReady (GeyserUpdate u) \<Rightarrow> convert_geyser_update bm gate u w
      | InputReady (AccountEventSeenInput sl) \<Rightarrow> Some (w, [AccountEventSeen sl])
      | ParsedReady msg \<Rightarrow> Some (w, convert_parsed_message msg)
      | _ \<Rightarrow> Some (w, []))"

definition flush_instructions ::
  "('w, 'r) block_machine_coordinator \<Rightarrow>
   ('w, 'r) block_machine_coordinator \<times> (coordinator_error, unit) outcome" where
  "flush_instructions c =
     (case drain_instruction_flushable (state c) of
        (s, Ok slots) \<Rightarrow>
          (case instruction_output_tx c of
             None \<Rightarrow> (c\<lparr>state := s\<rparr>, Ok ())
           | Some tx \<Rightarrow>
               (case send_all (\<lambda>x. InstructionOutputChannelClosed (is_slot x)) slots tx of
                  (tx', r) \<Rightarrow> (c\<lparr>state := s, instruction_output_tx := Some tx'\<rparr>, r)))
      | (s, Err e) \<Rightarrow> (c\<lparr>state := s\<rparr>, Err e)
      | (s, Panic) \<Rightarrow> (c\<lparr>state := s\<rparr>, Panic))"

definition flush_accounts ::
  "('w, 'r) block_machine_coordinator \<Rightarrow>
   ('w, 'r) block_machine_coordinator \<times> (coordinator_error, unit) outcome" where
  "flush_accounts c =
     (case drain_account_flushable (state c) of
        (s, Ok slots) \<Rightarrow>
          (case account_output_tx c of
             None \<Rightarrow> (c\<lparr>state := s\<rparr>, Ok ())
           | Some tx \<Rightarrow>
               (case send_all (\<lambda>x. AccountOutputChannelClosed (as_slot x)) slots tx of
                  (tx', r) \<Rightarrow> (c\<lparr>state := s, account_output_tx := Some tx'\<rparr>, r)))
      | (s, Err e) \<Rightarrow> (c\<lparr>state := s\<rparr>, Err e)
      | (s, Panic) \<Rightarrow> (c\<lparr>state := s\<rparr>, Panic))"

text \<open>One iteration of the loop. A dropped receiver only closes its channel.\<close>

definition coordinator_step ::
  "('w, 'p) block_machine \<Rightarrow> ('p, 'r) selected \<Rightarrow> ('w, 'r) block_machine_coordinator \<Rightarrow>
   (('w, 'r) block_machine_coordinator \<times> (coordinator_error, unit) outcome) option" where
  "coordinator_step bm sel c =
     (case sel of
        InstructionReceiverDropped \<Rightarrow>
          Some (c\<lparr>instruction_output_tx := map_option (closed_update (\<lambda>_. True)) (instruction_output_tx c)\<rparr>,
                Ok ())
      | AccountReceiverDropped \<Rightarrow>
          Some (c\<lparr>account_output_tx := map_option (closed_update (\<lambda>_. True)) (account_output_tx c)\<rparr>,
                Ok ())
      | _ \<Rightarrow>
          map_option
            (\<lambda>(w, events).
               let c1 = c\<lparr>wrapper := w, state := fold apply_event events (state c)\<rparr>
               in case flush_instructions c1 of
                    (c2, Ok _) \<Rightarrow> flush_accounts c2
                  | (c2, r) \<Rightarrow> (c2, r))
            (selected_events bm (require_tx_gate c) sel (wrapper c)))"

fun run_inner ::
  "('w, 'p) block_machine \<Rightarrow> ('p, 'r) selected list \<Rightarrow> ('w, 'r) block_machine_coordinator \<Rightarrow>
   (('w, 'r) block_machine_coordinator \<times> (coordinator_error, unit) outcome) option" where
  "run_inner bm [] c = Some (c, Ok ())"
| "run_inner bm (sel # sels) c =
     (case coordinator_step bm sel c of
        None \<Rightarrow> None
      | Some (c', Ok _) \<Rightarrow> run_inner bm sels c'
      | Some (c', r) \<Rightarrow> Some (c', r))"

definition run_coordinator ::
  "('w, 'p) block_machine \<Rightarrow> 'w \<Rightarrow> ('p, 'r) selected list \<Rightarrow> 'r instruction_slot mpsc option \<Rightarrow>
   'r account_slot mpsc option \<Rightarrow> account_commit_at \<Rightarrow> bool \<Rightarrow>
   (('w, 'r) block_machine_coordinator \<times> (coordinator_error, unit) outcome) option" where
  "run_coordinator bm w sels ix_tx acct_tx commit_at gate =
     run_inner bm sels (new_coordinator w ix_tx acct_tx commit_at gate)"

subsection \<open>The loops of the boundary layer\<close>

text \<open>What a pop operation yields until it has nothing left.\<close>

fun drains_to :: "('w \<Rightarrow> 'w \<times> 'o option) \<Rightarrow> 'w \<Rightarrow> 'o list \<Rightarrow> 'w \<Rightarrow> bool" where
  "drains_to pop w [] w' \<longleftrightarrow> pop w = (w', None)"
| "drains_to pop w (x # xs) w' \<longleftrightarrow> (\<exists>v. pop w = (v, Some x) \<and> drains_to pop v xs w')"

definition pops_end :: "('w, 'p) block_machine \<Rightarrow> bool" where
  "pops_end bm \<longleftrightarrow>
     (\<forall>w. \<exists>xs w'. drains_to (pop_next_state_machine_output bm) w xs w') \<and>
     (\<forall>w. \<exists>xs w'. drains_to (pop_next_dlq bm) w xs w')"

lemma pop_events_drains:
  "drains_to pop w xs w' \<Longrightarrow> pop_events pop conv w events = Some (w', events @ concat (map conv xs))"
proof (induction xs arbitrary: w events)
  case Nil
  then show ?case by (simp add: pop_events.simps)
next
  case (Cons x xs)
  then show ?case by (auto simp: pop_events.simps [of pop conv w])
qed

lemma convert_total:
  assumes "pops_end bm"
  shows "\<exists>w' es. convert_geyser_update bm gate u w = Some (w', es)"
proof -
  obtain v ok where h: "handle_new_geyser_event bm u w = (v, ok)" by fastforce
  obtain xs v1 where d1: "drains_to (pop_next_state_machine_output bm) v xs v1"
    using assms unfolding pops_end_def by blast
  obtain ys v2 where d2: "drains_to (pop_next_dlq bm) v1 ys v2"
    using assms unfolding pops_end_def by blast
  have "\<exists>w' es. feed_update bm gate u w = Some (w', es)"
    using h by (cases ok) (simp_all add: feed_update_def pop_events_drains [OF d1] pop_events_drains [OF d2])
  then show ?thesis
    by (auto simp: convert_geyser_update_def split: option.splits update_oneof.splits)
qed

subsection \<open>Sending the outputs\<close>

lemma send_all_open: "\<not> closed tx \<Longrightarrow> send_all err xs tx = (tx\<lparr>queue := queue tx @ xs\<rparr>, Ok ())"
  by (induction xs arbitrary: tx) (simp_all add: mpsc_send_def)

lemma send_all_closed:
  "closed tx \<Longrightarrow> send_all err xs tx = (tx, case xs of [] \<Rightarrow> Ok () | x # _ \<Rightarrow> Err (err x))"
  by (cases xs) (simp_all add: mpsc_send_def)

lemma send_all_cases:
  "send_all err xs tx =
    (if closed tx then (tx, case xs of [] \<Rightarrow> Ok () | x # _ \<Rightarrow> Err (err x))
     else (tx\<lparr>queue := queue tx @ xs\<rparr>, Ok ()))"
  by (simp add: send_all_open send_all_closed)

text \<open>An error of the coordinator is a closed output channel.\<close>

definition channel_error :: "('w, 'r) block_machine_coordinator \<Rightarrow> coordinator_error \<Rightarrow> bool" where
  "channel_error c e \<longleftrightarrow>
     (\<exists>sl. e = InstructionOutputChannelClosed sl \<and> is_some_and (instruction_output_tx c) closed \<or>
           e = AccountOutputChannelClosed sl \<and> is_some_and (account_output_tx c) closed)"

lemma flush_instructions_safe:
  assumes "reachable a (state c)" and "flush_instructions c = (c', r)"
  shows "reachable a (state c') \<and> (r = Ok () \<or> (\<exists>e. r = Err e \<and> channel_error c' e))"
proof -
  obtain s x where dr: "drain_instruction_flushable (state c) = (s, Ok x)"
    using drain_instruction_out [OF reachable_ok [OF assms(1)]] by (metis surj_pair)
  have "reachable a s" using reachable.instructions [OF assms(1)] dr by simp
  then show ?thesis
    using assms(2) dr
    by (auto simp: flush_instructions_def send_all_cases channel_error_def split: option.splits list.splits if_splits)
qed

lemma flush_accounts_safe:
  assumes "reachable a (state c)" and "flush_accounts c = (c', r)"
  shows "reachable a (state c') \<and> (r = Ok () \<or> (\<exists>e. r = Err e \<and> channel_error c' e))"
proof -
  obtain s x where dr: "drain_account_flushable (state c) = (s, Ok x)"
    using drain_account_out [OF reachable_ok [OF assms(1)]] by (metis surj_pair)
  have "reachable a s" using reachable.accounts [OF assms(1)] dr by simp
  then show ?thesis
    using assms(2) dr
    by (auto simp: flush_accounts_def send_all_cases channel_error_def split: option.splits list.splits if_splits)
qed

lemma selected_total: "pops_end bm \<Longrightarrow> \<exists>w' es. selected_events bm gate sel v = Some (w', es)"
  using convert_total [of bm gate _ v]
  by (auto simp: selected_events_def split: selected.splits coordinator_input.splits)

lemma step_safe:
  assumes "pops_end bm" and "reachable a (state c)"
  shows "\<exists>c' r. coordinator_step bm sel c = Some (c', r) \<and> reachable a (state c') \<and>
    (r = Ok () \<or> (\<exists>e. r = Err e \<and> channel_error c' e))"
proof -
  obtain w es where sel: "selected_events bm (require_tx_gate c) sel (wrapper c) = Some (w, es)" using selected_total [OF assms(1)] by blast
  let ?c1 = "c\<lparr>wrapper := w, state := fold apply_event es (state c)\<rparr>"
  have r1: "reachable a (state ?c1)" using reachable_run [OF assms(2)] by simp
  obtain c2 r2 where f: "flush_instructions ?c1 = (c2, r2)" by fastforce
  note s2 = flush_instructions_safe [OF r1 f]
  obtain c3 r3 where g: "flush_accounts c2 = (c3, r3)" by fastforce
  have s3: "reachable a (state c3) \<and> (r3 = Ok () \<or> (\<exists>e. r3 = Err e \<and> channel_error c3 e))"
    using flush_accounts_safe [OF conjunct1 [OF s2] g] .
  have step: "\<exists>c' r. (case flush_instructions ?c1 of (c2, Ok _) \<Rightarrow> flush_accounts c2 | (c2, r) \<Rightarrow> (c2, r)) = (c', r) \<and>
      reachable a (state c') \<and> (r = Ok () \<or> (\<exists>e. r = Err e \<and> channel_error c' e))"
    using s2 s3 f g by (cases r2) auto
  show ?thesis
    using step sel assms(2) by (cases sel) (auto simp: coordinator_step_def Let_def)
qed

subsection \<open>Properties of the event loop\<close>

text \<open>
  C6. The event loop is total and fails only from outside: when the block machine's pop
  operations run dry, every run returns, and its result is \<open>Ok\<close> or an error that names an
  output channel whose receiver is gone; the state it leaves is a reachable one.
\<close>

theorem run_coordinator_safe:
  assumes "pops_end bm"
  shows "\<exists>c r. run_coordinator bm w sels ix_tx acct_tx commit_at gate = Some (c, r) \<and>
    reachable commit_at (state c) \<and> (r = Ok () \<or> (\<exists>e. r = Err e \<and> channel_error c e))"
proof -
  have "reachable commit_at (state c0) \<Longrightarrow> \<exists>c r. run_inner bm sels c0 = Some (c, r) \<and>
      reachable commit_at (state c) \<and> (r = Ok () \<or> (\<exists>e. r = Err e \<and> channel_error c e))" for c0
  proof (induction sels arbitrary: c0)
    case (Cons sel sels)
    from step_safe [OF assms Cons.prems, of sel] obtain c' r where
      "coordinator_step bm sel c0 = Some (c', r)" "reachable commit_at (state c')"
      "r = Ok () \<or> (\<exists>e. r = Err e \<and> channel_error c' e)" by blast
    then show ?case using Cons.IH [of c'] by auto
  qed simp
  then show ?thesis by (simp add: run_coordinator_def new_coordinator_def reachable.start)
qed

definition idle_machine :: "(unit, nat) block_machine" where
  "idle_machine =
     \<lparr>handle_new_geyser_event = (\<lambda>u w. ((), True)),
      pop_next_state_machine_output = (\<lambda>w. ((), None)),
      pop_next_dlq = (\<lambda>w. ((), None)),
      bs58_decodes = (\<lambda>_. True)\<rparr>"

theorem run_coordinator_safe_witness:
  "\<exists>c r. run_coordinator idle_machine () [ParsedReady (TransactionParsedMsg 7)] None None Confirmed True = Some (c, r) \<and>
    reachable Confirmed (state c :: nat coordinator_state) \<and> (r = Ok () \<or> (\<exists>e. r = Err e \<and> channel_error c e))"
proof (rule run_coordinator_safe)
  show "pops_end idle_machine"
    unfolding pops_end_def idle_machine_def by (auto intro!: exI [of _ "[]"])
qed

text \<open>The batches of events that a run takes from its inputs.\<close>

fun input_batches ::
  "('w, 'p) block_machine \<Rightarrow> bool \<Rightarrow> ('p, 'r) selected list \<Rightarrow> 'w \<Rightarrow> 'r coordinator_event list list option" where
  "input_batches bm gate [] w = Some []"
| "input_batches bm gate (sel # sels) w =
     (case selected_events bm gate sel w of
        None \<Rightarrow> None
      | Some (w', es) \<Rightarrow> map_option (\<lambda>ess. es # ess) (input_batches bm gate sels w'))"

fun drops_receiver :: "('p, 'r) selected \<Rightarrow> bool" where
  "drops_receiver InstructionReceiverDropped = True"
| "drops_receiver AccountReceiverDropped = True"
| "drops_receiver _ = False"

definition outputs_open :: "('w, 'r) block_machine_coordinator \<Rightarrow> bool" where
  "outputs_open c \<longleftrightarrow> is_none_or (instruction_output_tx c) (\<lambda>tx. \<not> closed tx) \<and>
     is_none_or (account_output_tx c) (\<lambda>tx. \<not> closed tx)"

lemma step_batch:
  assumes "state_ok (state c)" and "outputs_open c" and "instruction_output_tx c = Some tx"
    and "\<not> drops_receiver sel" and "selected_events bm (require_tx_gate c) sel (wrapper c) = Some (w, es)"
  shows "\<exists>c'. coordinator_step bm sel c = Some (c', Ok ()) \<and> outputs_open c' \<and>
    instruction_output_tx c' = Some (tx\<lparr>queue := queue tx @ snd (batch es (state c))\<rparr>) \<and>
    state c' = fst (batch es (state c)) \<and> wrapper c' = w \<and> require_tx_gate c' = require_tx_gate c"
proof -
  let ?s = "fold apply_event es (state c)"
  have ok: "state_ok ?s" by (rule apply_run.run_inv [OF assms(1)])
  obtain t xs where dr: "drain_instruction_flushable ?s = (t, Ok xs)"
    using drain_instruction_out [OF ok] by (metis surj_pair)
  have ok': "state_ok t" using state_ok_drain_instruction [OF ok] dr by simp
  obtain u ys where da: "drain_account_flushable t = (u, Ok ys)"
    using drain_account_out [OF ok'] by (metis surj_pair)
  have b: "batch es (state c) = (u, xs)" by (simp add: batch_def dr da)
  have "coordinator_step bm sel c =
      (case flush_instructions (c\<lparr>wrapper := w, state := ?s\<rparr>) of
         (c2, Ok _) \<Rightarrow> Some (flush_accounts c2) | (c2, r) \<Rightarrow> Some (c2, r))"
    using assms(4,5) by (cases sel) (auto simp: coordinator_step_def Let_def split: prod.splits outcome.splits)
  moreover have "flush_instructions (c\<lparr>wrapper := w, state := ?s\<rparr>) =
      (c\<lparr>wrapper := w, state := t, instruction_output_tx := Some (tx\<lparr>queue := queue tx @ xs\<rparr>)\<rparr>, Ok ())"
    using dr assms(2,3) by (simp add: flush_instructions_def outputs_open_def send_all_open)
  ultimately show ?thesis
    using assms(2) b da
    by (cases "account_output_tx c") (auto simp: flush_accounts_def outputs_open_def send_all_open assms(3))
qed

lemma batch_ok: "state_ok s \<Longrightarrow> state_ok (fst (batch es s))"
  by (auto simp: batch_def intro: inv_intros apply_run.run_inv split: prod.splits outcome.splits)
     (metis apply_run.run_inv fst_conv state_ok_drain_account state_ok_drain_instruction)+

lemma run_refines:
  "state_ok (state c) \<Longrightarrow> outputs_open c \<Longrightarrow> instruction_output_tx c = Some tx \<Longrightarrow>
    \<forall>sel\<in>set sels. \<not> drops_receiver sel \<Longrightarrow> input_batches bm (require_tx_gate c) sels (wrapper c) = Some ess \<Longrightarrow>
    \<exists>c'. run_inner bm sels c = Some (c', Ok ()) \<and>
      instruction_output_tx c' = Some (tx\<lparr>queue := queue tx @ snd (run_batches ess (state c))\<rparr>) \<and>
      state c' = fst (run_batches ess (state c))"
proof (induction sels arbitrary: c tx ess)
  case Nil
  then show ?case by simp
next
  case (Cons sel sels)
  from Cons.prems(5) obtain w es ess' where sel: "selected_events bm (require_tx_gate c) sel (wrapper c) = Some (w, es)"
    and rest: "input_batches bm (require_tx_gate c) sels w = Some ess'" and ess: "ess = es # ess'"
    by (auto split: option.splits)
  from step_batch [OF Cons.prems(1-3) _ sel] Cons.prems(4) obtain c1 where
    step: "coordinator_step bm sel c = Some (c1, Ok ())" and c1: "outputs_open c1"
      "instruction_output_tx c1 = Some (tx\<lparr>queue := queue tx @ snd (batch es (state c))\<rparr>)"
      "state c1 = fst (batch es (state c))" "wrapper c1 = w" "require_tx_gate c1 = require_tx_gate c" by auto
  have "state_ok (state c1)" using batch_ok [OF Cons.prems(1)] c1(3) by simp
  from Cons.IH [OF this c1(1,2)] Cons.prems(4) rest c1(4,5) step c1(3) show ?case
    by (auto simp: ess split: prod.splits)
qed

text \<open>
  C2. The event loop refines the batched state machine: while the receivers stay, a run
  succeeds, its instruction channel receives exactly the slots that the batches of events
  taken from its inputs deliver, in that order; and when the block machine froze blocks in
  ascending slot order, the receiver sees strictly ascending slots.
\<close>

theorem run_coordinator_delivers:
  assumes "\<forall>sel\<in>set sels. \<not> drops_receiver sel" and "input_batches bm gate sels w = Some ess"
    and "is_none_or acct_tx (\<lambda>tx. \<not> closed tx)"
  shows "\<exists>c tx. run_coordinator bm w sels (Some \<lparr>queue = [], closed = False\<rparr>) acct_tx commit_at gate = Some (c, Ok ()) \<and>
    instruction_output_tx c = Some tx \<and> queue tx = snd (run_batches ess (new_state commit_at)) \<and>
    (ascending (frozen_slots (concat ess)) \<longrightarrow> ascending (map is_slot (queue tx)))"
proof -
  let ?c = "new_coordinator w (Some \<lparr>queue = [], closed = False\<rparr>) acct_tx commit_at gate"
  have "state_ok (state ?c)" "outputs_open ?c" "instruction_output_tx ?c = Some \<lparr>queue = [], closed = False\<rparr>"
    using state_ok_new assms(3) by (auto simp: new_coordinator_def outputs_open_def)
  from run_refines [OF this assms(1), of bm ess] assms(2) obtain c' where
    "run_inner bm sels ?c = Some (c', Ok ())"
    "instruction_output_tx c' = Some \<lparr>queue = snd (run_batches ess (new_state commit_at)), closed = False\<rparr>"
    by (auto simp: new_coordinator_def)
  then show ?thesis
    using run_batches_ascending [of ess commit_at]
    by (intro exI [of _ c'] exI [of _ "\<lparr>queue = snd (run_batches ess (new_state commit_at)), closed = False\<rparr>"])
       (simp add: run_coordinator_def)
qed

text \<open>A block machine whose state is the list of outputs it still has to hand out.\<close>

definition scripted_machine :: "(block_machine_output list, nat) block_machine" where
  "scripted_machine =
     \<lparr>handle_new_geyser_event = (\<lambda>u w. (w, True)),
      pop_next_state_machine_output = (\<lambda>w. case w of [] \<Rightarrow> ([], None) | x # xs \<Rightarrow> (xs, Some x)),
      pop_next_dlq = (\<lambda>w. (w, None)),
      bs58_decodes = (\<lambda>_. True)\<rparr>"

definition script :: "block_machine_output list" where
  "script =
     [FrozenBlock \<lparr>frozen_slot = 100, frozen_parent_slot = 99, frozen_blockhash = [], frozen_entries = [1, 0]\<rparr>,
      FrozenBlock \<lparr>frozen_slot = 101, frozen_parent_slot = 100, frozen_blockhash = [], frozen_entries = []\<rparr>,
      SlotStatus 101 CommitConfirmed, SlotStatus 100 CommitConfirmed]"

definition scripted_inputs :: "(nat, nat) selected list" where
  "scripted_inputs =
     [InputReady (GeyserUpdate \<lparr>update_oneof = Some (Update_Entry 0), envelope = 0\<rparr>),
      ParsedReady (TransactionParsedMsg 100)]"

theorem run_coordinator_delivers_witness:
  "\<exists>c tx. run_coordinator scripted_machine script scripted_inputs (Some \<lparr>queue = [], closed = False\<rparr>) None
      Confirmed True = Some (c, Ok ()) \<and>
    instruction_output_tx c = Some tx \<and> map is_slot (queue tx) = [100, 101] \<and>
    ascending (map is_slot (queue tx))"
proof -
  let ?ess = "[concat (map (output_events True) script), [TransactionParsed 100 :: nat coordinator_event]]"
  have "list_all (\<lambda>sel. \<not> drops_receiver sel) scripted_inputs" by code_simp
  then have no: "\<forall>sel\<in>set scripted_inputs. \<not> drops_receiver sel" by (simp add: list_all_iff)
  have "drains_to (pop_next_state_machine_output scripted_machine) script script []"
    by (simp add: scripted_machine_def script_def)
  note d1 = pop_events_drains [OF this]
  have "drains_to (pop_next_dlq scripted_machine) [] [] []" by (simp add: scripted_machine_def)
  note d2 = pop_events_drains [OF this]
  have handle: "handle_new_geyser_event scripted_machine u w = (w, True)" for u w
    by (simp add: scripted_machine_def)
  have ess: "input_batches scripted_machine True scripted_inputs script = Some ?ess"
    by (simp add: scripted_inputs_def selected_events_def convert_geyser_update_def feed_update_def handle d1 d2)
  have asc: "ascending (frozen_slots (concat ?ess))" by code_simp
  have slots: "map is_slot (snd (run_batches ?ess (new_state Confirmed))) = [100, 101]" by code_simp
  have "is_none_or None (\<lambda>tx :: nat account_slot mpsc. \<not> closed tx)" by simp
  from run_coordinator_delivers [OF no ess this, of Confirmed] obtain c tx where
    run: "run_coordinator scripted_machine script scripted_inputs (Some \<lparr>queue = [], closed = False\<rparr>) None
      Confirmed True = Some (c, Ok ())" "instruction_output_tx c = Some tx"
      "queue tx = snd (run_batches ?ess (new_state Confirmed))"
      "ascending (frozen_slots (concat ?ess)) \<longrightarrow> ascending (map is_slot (queue tx))"
    by blast
  have "map is_slot (queue tx) = [100, 101]" "ascending (map is_slot (queue tx))"
    using run(3,4) asc slots by simp_all
  with run(1,2) show ?thesis by (intro exI [of _ c] exI [of _ tx] conjI)
qed

end
