(* ===== verification/Fixtures.thy ===== *)
theory Fixtures
  imports Coordinator
begin

text \<open>
  Capture and replay of geyser updates (\<open>crates/block-coordinator/src/fixtures.rs\<close>): a file of
  messages, each behind its length as four big-endian bytes. Encoding and decoding a message
  (\<open>prost\<close>) are arguments. The file is the bytes written to it; each call of the operating
  system may fail, which an argument of \<open>fixture_write\<close> says.
\<close>

unbundle bit_operations_syntax

subsection \<open>Big-endian lengths\<close>

definition u32_to_be_bytes :: "u32 \<Rightarrow> bytes" where
  "u32_to_be_bytes w = [ucast (drop_bit 24 w), ucast (drop_bit 16 w), ucast (drop_bit 8 w), ucast w]"

definition u32_from_be_bytes :: "bytes \<Rightarrow> u32" where
  "u32_from_be_bytes = foldl (\<lambda>acc b. push_bit 8 acc OR ucast b) 0"

lemma u32_to_be_bytes_length [simp]: "length (u32_to_be_bytes w) = 4"
  by (simp add: u32_to_be_bytes_def)

lemma u32_be_bytes_roundtrip [simp]: "u32_from_be_bytes (u32_to_be_bytes w) = w"
proof (rule bit_word_eqI)
  fix n assume "n < LENGTH(32)"
  then have "n < 8 \<or> 8 \<le> n \<and> n < 16 \<or> 16 \<le> n \<and> n < 24 \<or> 24 \<le> n \<and> n < 32" by auto
  then show "bit (u32_from_be_bytes (u32_to_be_bytes w)) n = bit w n"
    by (elim disjE conjE)
       (auto simp: u32_from_be_bytes_def u32_to_be_bytes_def bit_simps)
qed

subsection \<open>Writer\<close>

datatype fixture_error = InvalidData | IoFailure

record fixture_writer =
  fixture_file :: bytes
  target_slots :: nat
  block_meta_count :: nat

definition fixture_writer_new :: "nat \<Rightarrow> fixture_writer" where
  "fixture_writer_new n = \<lparr>fixture_file = [], target_slots = n, block_meta_count = 0\<rparr>"

definition is_block_meta :: "'p subscribe_update \<Rightarrow> bool" where
  "is_block_meta u = (case update_oneof u of Some (Update_BlockMeta _ _ _) \<Rightarrow> True | _ \<Rightarrow> False)"

definition fixture_write ::
  "('p subscribe_update \<Rightarrow> bytes) \<Rightarrow> (nat \<Rightarrow> bool) \<Rightarrow> 'p subscribe_update \<Rightarrow> fixture_writer \<Rightarrow>
   fixture_writer \<times> (fixture_error, bool) outcome" where
  "fixture_write encode io u fw =
     (let body = encode u in
      if 2 ^ 32 \<le> length body then (fw, Err InvalidData)
      else if \<not> io 0 then (fw, Err IoFailure)
      else
        let fw1 = fw\<lparr>fixture_file := fixture_file fw @ u32_to_be_bytes (of_nat (length body))\<rparr>
        in if \<not> io 1 then (fw1, Err IoFailure)
           else
             let fw2 = fw1\<lparr>fixture_file := fixture_file fw1 @ body\<rparr>
             in if is_block_meta u then
                  let fw3 = fw2\<lparr>block_meta_count := block_meta_count fw2 + 1\<rparr>
                  in if target_slots fw3 \<le> block_meta_count fw3 then
                       (if io 2 then (fw3, Ok False) else (fw3, Err IoFailure))
                     else (fw3, Ok True)
                else (fw2, Ok True))"

definition fixture_finish :: "bool \<Rightarrow> fixture_writer \<Rightarrow> (fixture_error, unit) outcome" where
  "fixture_finish io fw = (if io then Ok () else Err IoFailure)"

subsection \<open>Reader\<close>

text \<open>\<open>read_exact\<close> of \<open>n\<close> bytes; at the end of the file the reader has nothing left.\<close>

definition read_exact :: "nat \<Rightarrow> bytes \<Rightarrow> bytes \<times> bytes option" where
  "read_exact n f = (if length f < n then ([], None) else (drop n f, Some (take n f)))"

definition fixture_next :: "(bytes \<Rightarrow> 'u option) \<Rightarrow> bytes \<Rightarrow> bytes \<times> 'u option" where
  "fixture_next decode f =
     (case read_exact 4 f of
        (f1, None) \<Rightarrow> (f1, None)
      | (f1, Some len_buf) \<Rightarrow>
          (case read_exact (unat (u32_from_be_bytes len_buf)) f1 of
             (f2, None) \<Rightarrow> (f2, None)
           | (f2, Some msg_buf) \<Rightarrow> (f2, decode msg_buf)))"

lemma fixture_next_shorter: "fixture_next decode f = (f', Some u) \<Longrightarrow> length f' < length f"
  by (auto simp: fixture_next_def read_exact_def split: if_splits)

function fixture_collect :: "(bytes \<Rightarrow> 'u option) \<Rightarrow> bytes \<Rightarrow> 'u list" where
  "fixture_collect decode f =
     (case fixture_next decode f of (_, None) \<Rightarrow> [] | (f', Some u) \<Rightarrow> u # fixture_collect decode f')"
  by pat_completeness auto
termination
  by (relation "measure (\<lambda>(_, f). length f)") (auto dest: fixture_next_shorter [OF sym])

declare fixture_collect.simps [simp del]

subsection \<open>Round trip\<close>

fun fixture_write_all ::
  "('p subscribe_update \<Rightarrow> bytes) \<Rightarrow> 'p subscribe_update list \<Rightarrow> fixture_writer \<Rightarrow>
   fixture_writer \<times> (fixture_error, bool) outcome list" where
  "fixture_write_all encode [] fw = (fw, [])"
| "fixture_write_all encode (u # us) fw =
     (case fixture_write encode (\<lambda>_. True) u fw of
        (fw', r) \<Rightarrow> case fixture_write_all encode us fw' of (fw'', rs) \<Rightarrow> (fw'', r # rs))"

definition frame :: "bytes \<Rightarrow> bytes" where
  "frame body = u32_to_be_bytes (of_nat (length body)) @ body"

lemma fixture_write_ok:
  assumes "length (encode u) < 2 ^ 32"
  shows "fixture_write encode (\<lambda>_. True) u fw =
    (fw\<lparr>fixture_file := fixture_file fw @ frame (encode u),
        block_meta_count := block_meta_count fw + (if is_block_meta u then 1 else 0)\<rparr>,
     Ok (\<not> (is_block_meta u \<and> target_slots fw \<le> block_meta_count fw + 1)))"
  using assms by (simp add: fixture_write_def frame_def Let_def)

lemma fixture_next_frame:
  assumes "length body < 2 ^ 32"
  shows "fixture_next decode (frame body @ f) = (f, decode body)"
  using assms by (simp add: fixture_next_def read_exact_def frame_def unat_of_nat)

lemma fixture_write_all_file:
  "\<forall>u\<in>set us. length (encode u) < 2 ^ 32 \<Longrightarrow>
    fixture_file (fst (fixture_write_all encode us fw)) = fixture_file fw @ concat (map (frame \<circ> encode) us)"
  by (induction us arbitrary: fw) (simp_all add: fixture_write_ok split_beta)

lemma fixture_collect_frames:
  "\<forall>u\<in>set us. length (encode u) < 2 ^ 32 \<and> decode (encode u) = Some u \<Longrightarrow>
    fixture_collect decode (concat (map (frame \<circ> encode) us)) = us"
proof (induction us)
  case Nil
  show ?case by (subst fixture_collect.simps) (simp add: fixture_next_def read_exact_def)
next
  case (Cons u us)
  then show ?case
    by (subst fixture_collect.simps) (simp add: fixture_next_frame comp_def)
qed

text \<open>
  C18. Capture and replay: reading back a file to which updates were written yields exactly these
  updates in order, for every codec that decodes what it encodes and messages below 4 GiB;
  and the writer asks to stop at an update exactly when it is a \<open>BlockMeta\<close> that brings their
  number to the target.
\<close>

theorem fixture_roundtrip:
  assumes "\<forall>u\<in>set us. length (encode u) < 2 ^ 32 \<and> decode (encode u) = Some u"
  shows "fixture_collect decode (fixture_file (fst (fixture_write_all encode us (fixture_writer_new n)))) = us \<and>
    snd (fixture_write_all encode us (fixture_writer_new n)) =
      map (\<lambda>i. Ok (\<not> (is_block_meta (us ! i) \<and> n \<le> length (filter is_block_meta (take (Suc i) us)))))
        [0..<length us]"
proof
  show "fixture_collect decode (fixture_file (fst (fixture_write_all encode us (fixture_writer_new n)))) = us"
    using assms by (simp add: fixture_write_all_file fixture_writer_new_def fixture_collect_frames)
  have "snd (fixture_write_all encode us fw) =
      map (\<lambda>i. Ok (\<not> (is_block_meta (us ! i) \<and> target_slots fw \<le>
        block_meta_count fw + length (filter is_block_meta (take (Suc i) us))))) [0..<length us]" for fw
    using assms
  proof (induction us arbitrary: fw)
    case (Cons u us)
    let ?fw = "fst (fixture_write encode (\<lambda>_. True) u fw)"
    have "snd (fixture_write_all encode us ?fw) =
      map (\<lambda>i. Ok (\<not> (is_block_meta (us ! i) \<and> target_slots ?fw \<le>
        block_meta_count ?fw + length (filter is_block_meta (take (Suc i) us))))) [0..<length us]"
      using Cons by simp
    then show ?case
      using Cons.prems
      by (auto simp: fixture_write_ok upt_conv_Cons map_Suc_upt [symmetric] comp_def split_beta simp del: upt_Suc)
  qed simp
  from this [of "fixture_writer_new n"]
  show "snd (fixture_write_all encode us (fixture_writer_new n)) =
      map (\<lambda>i. Ok (\<not> (is_block_meta (us ! i) \<and> n \<le> length (filter is_block_meta (take (Suc i) us)))))
        [0..<length us]" by (simp add: fixture_writer_new_def)
qed

definition sample_update :: "nat \<Rightarrow> nat subscribe_update" where
  "sample_update n =
     \<lparr>update_oneof = (if n < 2 then Some (Update_Slot 5 n) else Some (Update_BlockMeta 5 [] n)), envelope = n\<rparr>"

definition sample_encode :: "nat subscribe_update \<Rightarrow> bytes" where
  "sample_encode u = replicate (envelope u) 0"

definition sample_decode :: "bytes \<Rightarrow> nat subscribe_update option" where
  "sample_decode bs = Some (sample_update (length bs))"

theorem fixture_roundtrip_witness:
  "fixture_collect sample_decode (fixture_file (fst (fixture_write_all sample_encode
      [sample_update 1, sample_update 3] (fixture_writer_new 1)))) = [sample_update 1, sample_update 3] \<and>
   snd (fixture_write_all sample_encode [sample_update 1, sample_update 3] (fixture_writer_new 1)) = [Ok True, Ok False]"
proof -
  have "\<forall>u\<in>set [sample_update 1, sample_update 3].
      length (sample_encode u) < 2 ^ 32 \<and> sample_decode (sample_encode u) = Some u"
    by (simp add: sample_encode_def sample_decode_def sample_update_def)
  from fixture_roundtrip [OF this, of 1] show ?thesis
    by (simp only: list.size(3,4)) (simp add: sample_update_def is_block_meta_def)
qed

end
