(* ===== verification/Coordinator_Source.thy ===== *)
theory Coordinator_Source
  imports Sources Fixtures
begin

text \<open>
  The tap between the geyser stream and the runtime (\<open>crates/block-coordinator/src/source.rs\<close>):
  the subscription the coordinator needs, and the loop that sends every update to the
  coordinator, to the runtime or to both, and may capture it to a file. The gRPC client is code
  of another package: connecting, subscribing and the stream it yields are arguments. The
  stream is a sequence of items; a timeout of an idle stream and the receivers of the two
  channels going away are items too, so that a run is any interleaving of them.
\<close>

subsection \<open>The subscription\<close>

text \<open>\<open>CommitmentLevel::Processed as i32\<close>\<close>

definition commitment_processed :: nat where "commitment_processed = 0"

definition with_coordinator_subscriptions :: "'f subscribe_request \<Rightarrow> 'f subscribe_request" where
  "with_coordinator_subscriptions req =
     (let entry = (req_entry req)(''coordinator'' \<mapsto> ());
          blocks_meta = (req_blocks_meta req)(''coordinator'' \<mapsto> ());
          with_slots = (case req_slots req ''coordinator'' of
                     Some _ \<Rightarrow> req_slots req
                   | None \<Rightarrow> (req_slots req)(''coordinator'' \<mapsto>
                       \<lparr>ws_filter_by_commitment = None, ws_interslot_updates = None\<rparr>))
      in req\<lparr>req_entry := entry, req_blocks_meta := blocks_meta,
             req_slots := (\<lambda>k. map_option
               (\<lambda>f. f\<lparr>ws_interslot_updates := Some True, ws_filter_by_commitment := None\<rparr>) (with_slots k))\<rparr>)"

definition with_from_slot :: "u64 option \<Rightarrow> 'f subscribe_request \<Rightarrow> 'f subscribe_request" where
  "with_from_slot from_slot req =
     req\<lparr>req_from_slot := (case from_slot of Some s \<Rightarrow> Some s | None \<Rightarrow> req_from_slot req)\<rparr>"

definition with_commitment_processed :: "'f subscribe_request \<Rightarrow> 'f subscribe_request" where
  "with_commitment_processed req = req\<lparr>req_commitment := Some commitment_processed\<rparr>"

subsection \<open>The stream loop\<close>

record 'p coordinator_source_config =
  source_from_slot :: "u64 option"
  stream_idle_warn_secs :: u64
  coordinator_input_tx :: "'p coordinator_input mpsc option"
  fixture_path :: "string option"
  fixture_slots :: "nat option"

text \<open>The state of the loop: the two senders, the capture, and what its log lines read.\<close>

record 'p source_run =
  coordinator_tx :: "'p coordinator_input mpsc"
  runtime_tx :: "'p subscribe_update runtime_item mpsc"
  capture :: "fixture_writer option"
  last_seen_slot :: "slot option"
  idle :: bool

text \<open>
  What the loop meets: an update together with the success of the file operations its capture
  makes, a status, a timeout (only waited for when warnings are on), and dropped receivers.
\<close>

datatype 'p source_item =
    NextUpdate "'p subscribe_update" "nat \<Rightarrow> bool"
  | NextError grpc_status
  | IdleTimeout
  | CoordinatorReceiverDropped
  | RuntimeReceiverDropped

definition is_block_sm_event :: "'p subscribe_update \<Rightarrow> bool" where
  "is_block_sm_event u =
     (case update_oneof u of
        Some (Update_Entry _) \<Rightarrow> True
      | Some (Update_Slot _ _) \<Rightarrow> True
      | Some (Update_BlockMeta _ _ _) \<Rightarrow> True
      | _ \<Rightarrow> False)"

definition is_runtime_event :: "'p subscribe_update \<Rightarrow> bool" where
  "is_runtime_event u =
     (case update_oneof u of
        Some (Update_Account _ _) \<Rightarrow> True
      | Some (Update_Transaction _ _) \<Rightarrow> True
      | _ \<Rightarrow> False)"

definition event_slot :: "'p subscribe_update \<Rightarrow> slot option" where
  "event_slot u =
     (case update_oneof u of
        Some (Update_Slot sl _) \<Rightarrow> Some sl
      | Some (Update_BlockMeta sl _ _) \<Rightarrow> Some sl
      | Some (Update_Transaction sl _) \<Rightarrow> Some sl
      | Some (Update_Account sl _) \<Rightarrow> Some sl
      | _ \<Rightarrow> None)"

text \<open>
  In the loop \<open>Ok\<close> goes on, \<open>Err\<close> breaks with an exit status. First the capture of an update,
  then the two sends to the coordinator, then the one to the runtime. The final flush of the
  capture after the loop can only log its failure and is left out.
\<close>

definition capture_update ::
  "('p subscribe_update \<Rightarrow> bytes) \<Rightarrow> (fixture_error \<Rightarrow> string) \<Rightarrow> (nat \<Rightarrow> bool) \<Rightarrow> 'p subscribe_update \<Rightarrow>
   'p source_run \<Rightarrow> 'p source_run \<times> (source_exit_status, unit) outcome" where
  "capture_update encode io_text io u r =
     (case capture r of
        None \<Rightarrow> (r, Ok ())
      | Some w \<Rightarrow>
          (case fixture_write encode io u w of
             (w', Ok True) \<Rightarrow> (r\<lparr>capture := Some w'\<rparr>, Ok ())
           | (w', Ok False) \<Rightarrow> (r\<lparr>capture := Some w'\<rparr>, Err Completed)
           | (w', Err e) \<Rightarrow> (r\<lparr>capture := Some w'\<rparr>, Err (SourceError (io_text e)))
           | (w', Panic) \<Rightarrow> (r\<lparr>capture := Some w'\<rparr>, Panic)))"

definition coordinator_send ::
  "'p coordinator_input \<Rightarrow> 'p source_run \<Rightarrow> 'p source_run \<times> (source_exit_status, unit) outcome" where
  "coordinator_send x r =
     (case mpsc_send x (coordinator_tx r) of
        (tx, Ok _) \<Rightarrow> (r\<lparr>coordinator_tx := tx\<rparr>, Ok ())
      | (tx, _) \<Rightarrow> (r\<lparr>coordinator_tx := tx\<rparr>, Err (SourceError ''Coordinator input channel closed'')))"

definition announce_account ::
  "'p subscribe_update \<Rightarrow> 'p source_run \<Rightarrow> 'p source_run \<times> (source_exit_status, unit) outcome" where
  "announce_account u r =
     (case update_oneof u of
        Some (Update_Account sl _) \<Rightarrow> coordinator_send (AccountEventSeenInput sl) r
      | _ \<Rightarrow> (r, Ok ()))"

definition forward_block_event ::
  "'p subscribe_update \<Rightarrow> 'p source_run \<Rightarrow> 'p source_run \<times> (source_exit_status, unit) outcome" where
  "forward_block_event u r =
     (let r1 = (case event_slot u of Some sl \<Rightarrow> r\<lparr>last_seen_slot := Some sl\<rparr> | None \<Rightarrow> r)
      in if is_block_sm_event u then coordinator_send (GeyserUpdate u) r1 else (r1, Ok ()))"

definition forward_runtime ::
  "'p subscribe_update \<Rightarrow> 'p source_run \<Rightarrow> 'p source_run \<times> (source_exit_status, unit) outcome" where
  "forward_runtime u r =
     (if \<not> is_runtime_event u then (r, Ok ())
      else
        (case mpsc_send (Ok u) (runtime_tx r) of
           (tx, Ok _) \<Rightarrow> (r\<lparr>runtime_tx := tx\<rparr>, Ok ())
         | (tx, _) \<Rightarrow> (r\<lparr>runtime_tx := tx\<rparr>, Err ReceiverDropped)))"

fun source_step ::
  "('p subscribe_update \<Rightarrow> bytes) \<Rightarrow> (fixture_error \<Rightarrow> string) \<Rightarrow> u64 \<Rightarrow> 'p source_item \<Rightarrow>
   'p source_run \<Rightarrow> 'p source_run \<times> (source_exit_status, unit) outcome" where
  "source_step encode io_text idle_warn_secs (NextUpdate u io) r =
     then_run
       (then_run
         (then_run (capture_update encode io_text io u (if idle_warn_secs = 0 then r else r\<lparr>idle := False\<rparr>))
           (announce_account u))
         (forward_block_event u))
       (forward_runtime u)"
| "source_step encode io_text idle_warn_secs (NextError status) r =
     (case mpsc_send (Err status) (runtime_tx r) of
        (tx, _) \<Rightarrow>
          ((if idle_warn_secs = 0 then r else r\<lparr>idle := False\<rparr>)\<lparr>runtime_tx := tx\<rparr>,
           Err (StreamError (status_code status) (status_message status))))"
| "source_step encode io_text idle_warn_secs IdleTimeout r =
     ((if idle_warn_secs = 0 then r else r\<lparr>idle := True\<rparr>), Ok ())"
| "source_step encode io_text idle_warn_secs CoordinatorReceiverDropped r =
     (r\<lparr>coordinator_tx := (coordinator_tx r)\<lparr>closed := True\<rparr>\<rparr>, Ok ())"
| "source_step encode io_text idle_warn_secs RuntimeReceiverDropped r =
     (r\<lparr>runtime_tx := (runtime_tx r)\<lparr>closed := True\<rparr>\<rparr>, Ok ())"

fun source_loop ::
  "('p subscribe_update \<Rightarrow> bytes) \<Rightarrow> (fixture_error \<Rightarrow> string) \<Rightarrow> u64 \<Rightarrow> 'p source_item list \<Rightarrow>
   'p source_run \<Rightarrow> 'p source_run \<times> (unit, source_exit_status) outcome" where
  "source_loop encode io_text idle_warn_secs [] r = (r, Ok StreamEnded)"
| "source_loop encode io_text idle_warn_secs (item # items) r =
     (case source_step encode io_text idle_warn_secs item r of
        (r', Ok _) \<Rightarrow> source_loop encode io_text idle_warn_secs items r'
      | (r', Err status) \<Rightarrow> (r', Ok status)
      | (r', Panic) \<Rightarrow> (r', Panic))"

subsection \<open>Connecting\<close>

text \<open>
  The packages around the loop: encoding and error texts of the capture, opening its file, the
  client's connection, and the subscription, which yields the items of the stream.
\<close>

record ('p, 'f, 'o) source_env =
  src_wire :: "'f wire_env"
  src_encode :: "'p subscribe_update \<Rightarrow> bytes"
  src_io_text :: "fixture_error \<Rightarrow> string"
  src_create_file :: "string \<Rightarrow> bool"
  src_dial :: "('o shipstern_error, unit) outcome"
  src_subscribe :: "'f subscribe_request \<Rightarrow> ('o shipstern_error, 'p source_item list) outcome"

definition open_capture ::
  "('p, 'f, 'o) source_env \<Rightarrow> 'p coordinator_source_config \<Rightarrow> ('o shipstern_error, fixture_writer option) outcome" where
  "open_capture env config =
     (case (fixture_path config, fixture_slots config) of
        (Some path, Some n) \<Rightarrow>
          if src_create_file env path then Ok (Some (fixture_writer_new n))
          else Err (IoError (src_io_text env IoFailure))
      | _ \<Rightarrow> Ok None)"

definition source_request ::
  "'f wire_env \<Rightarrow> 'p coordinator_source_config \<Rightarrow> filters \<Rightarrow> 'f subscribe_request" where
  "source_request env config filters =
     with_commitment_processed (with_from_slot (source_from_slot config)
       (with_coordinator_subscriptions (subscribe_request_from env filters)))"

definition source_connect ::
  "('p, 'f, 'o) source_env \<Rightarrow> 'p coordinator_source_config \<Rightarrow> filters \<Rightarrow>
   'p subscribe_update runtime_item mpsc \<Rightarrow>
   ('o shipstern_error, 'p source_run \<times> (unit, source_exit_status) outcome) outcome" where
  "source_connect env config filters tx =
     (case coordinator_input_tx config of
        None \<Rightarrow> Err (IoError ''coordinator_input_tx must be set before connect'')
      | Some ctx \<Rightarrow>
          bind_outcome (open_capture env config) (\<lambda>writer.
          bind_outcome (src_dial env) (\<lambda>_.
          bind_outcome (src_subscribe env (source_request (src_wire env) config filters)) (\<lambda>items.
          Ok (source_loop (src_encode env) (src_io_text env) (stream_idle_warn_secs config) items
                \<lparr>coordinator_tx = ctx, runtime_tx = tx, capture = writer,
                 last_seen_slot = None, idle = False\<rparr>)))))"

subsection \<open>What the coordinator subscribes to\<close>

lemma ran_single:
  assumes "\<And>k. m k = None \<or> m k = Some v" and "m k0 \<noteq> None"
  shows "ran m = {v}"
proof -
  have "m k0 = Some v" using assms(1) [of k0] assms(2) by blast
  moreover have "ran m \<subseteq> {v}"
  proof
    fix w assume "w \<in> ran m"
    then obtain k where "m k = Some w" by (auto simp: ran_def)
    with assms(1) [of k] show "w \<in> {v}" by simp
  qed
  ultimately show ?thesis by (auto intro: ranI)
qed

text \<open>
  The request the source subscribes with has what block reconstruction needs: entries and
  block metadata, slot updates between commitments and at every commitment under every name,
  commitment processed, and the configured start slot; what the parsers asked for about
  accounts, transactions and blocks is unchanged.
\<close>

theorem source_request_spec:
  "req_entry (source_request env config fs) ''coordinator'' = Some () \<and>
   req_blocks_meta (source_request env config fs) ''coordinator'' = Some () \<and>
   dom (req_blocks_meta (source_request env config fs)) = insert ''coordinator'' {p. \<exists>f. fs p = Some f \<and> pf_block_meta f \<noteq> None} \<and>
   dom (req_slots (source_request env config fs)) = insert ''coordinator'' {p. \<exists>f. fs p = Some f \<and> pf_slot f \<noteq> None} \<and>
   ran (req_slots (source_request env config fs)) =
     {\<lparr>ws_filter_by_commitment = None, ws_interslot_updates = Some True\<rparr>} \<and>
   req_commitment (source_request env config fs) = Some commitment_processed \<and>
   req_from_slot (source_request env config fs) = source_from_slot config \<and>
   req_accounts (source_request env config fs) = req_accounts (subscribe_request_from env fs) \<and>
   req_transactions (source_request env config fs) = req_transactions (subscribe_request_from env fs) \<and>
   req_blocks (source_request env config fs) = req_blocks (subscribe_request_from env fs)"
proof -
  let ?q = "source_request env config fs"
  have every: "req_slots ?q k = None \<or>
      req_slots ?q k = Some \<lparr>ws_filter_by_commitment = None, ws_interslot_updates = Some True\<rparr>" for k
    by (auto simp: source_request_def with_commitment_processed_def with_from_slot_def
        with_coordinator_subscriptions_def Let_def split: option.splits)
  have dom: "dom (req_slots ?q) = insert ''coordinator'' {p. \<exists>f. fs p = Some f \<and> pf_slot f \<noteq> None}"
    by (auto simp: source_request_def with_commitment_processed_def with_from_slot_def dom_def
        with_coordinator_subscriptions_def Let_def subscribe_request_from_def request_part_def bind_eq_Some_conv
        split: option.splits if_splits)
  then obtain w where "req_slots ?q ''coordinator'' = Some w" by blast
  then have "ran (req_slots ?q) = {\<lparr>ws_filter_by_commitment = None, ws_interslot_updates = Some True\<rparr>}"
    by (intro ran_single [where ?k0.0 = "''coordinator''"] every) simp
  moreover have "dom (req_blocks_meta ?q) = insert ''coordinator'' {p. \<exists>f. fs p = Some f \<and> pf_block_meta f \<noteq> None}"
    by (auto simp: source_request_def with_commitment_processed_def with_from_slot_def dom_def
        with_coordinator_subscriptions_def Let_def subscribe_request_from_def request_part_def bind_eq_Some_conv)
  ultimately show ?thesis using dom
    by (simp add: source_request_def with_commitment_processed_def with_from_slot_def
        with_coordinator_subscriptions_def Let_def subscribe_request_from_def split: option.splits)
qed

subsection \<open>What a run delivers\<close>

text \<open>The slots of the announcements sent to the coordinator and of the accounts sent to the runtime.\<close>

fun seen_slots :: "'p coordinator_input list \<Rightarrow> slot list" where
  "seen_slots [] = []"
| "seen_slots (AccountEventSeenInput sl # xs) = sl # seen_slots xs"
| "seen_slots (GeyserUpdate u # xs) = seen_slots xs"

fun account_slots :: "'p subscribe_update runtime_item list \<Rightarrow> slot list" where
  "account_slots [] = []"
| "account_slots (Ok u # xs) =
     (case update_oneof u of Some (Update_Account sl _) \<Rightarrow> [sl] | _ \<Rightarrow> []) @ account_slots xs"
| "account_slots (_ # xs) = account_slots xs"

lemma seen_slots_append [simp]: "seen_slots (xs @ ys) = seen_slots xs @ seen_slots ys"
  by (induction xs rule: seen_slots.induct) auto

lemma account_slots_append [simp]: "account_slots (xs @ ys) = account_slots xs @ account_slots ys"
  by (induction xs rule: account_slots.induct) auto

lemmas step_defs = then_run_def capture_update_def announce_account_def forward_block_event_def
  forward_runtime_def coordinator_send_def mpsc_send_def Let_def

text \<open>
  One step keeps the announced and the delivered accounts equal; only a step that finds the
  runtime gone leaves one announcement without its account.
\<close>

definition tap_ok :: "'p source_run \<Rightarrow> bool" where
  "tap_ok r \<longleftrightarrow> seen_slots (queue (coordinator_tx r)) = account_slots (queue (runtime_tx r))"

definition tap_stopped :: "'p source_run \<Rightarrow> bool" where
  "tap_stopped r \<longleftrightarrow>
     (\<exists>sl. seen_slots (queue (coordinator_tx r)) = account_slots (queue (runtime_tx r)) @ [sl])"

lemma capture_update_tap:
  "capture_update encode io_text io u r = (r', res) \<Longrightarrow>
   coordinator_tx r' = coordinator_tx r \<and> runtime_tx r' = runtime_tx r \<and> res \<noteq> Err ReceiverDropped"
  by (auto simp: capture_update_def split: option.splits prod.splits outcome.splits bool.splits)

lemma forward_tap:
  assumes "then_run (then_run (announce_account u r) (forward_block_event u)) (forward_runtime u) = (r', res)"
    and "tap_ok r"
  shows "tap_ok r' \<or> res = Err ReceiverDropped \<and> tap_stopped r'"
  using assms
  by (cases "update_oneof u"; (cases "the (update_oneof u)")?)
     (auto simp: step_defs tap_ok_def tap_stopped_def is_block_sm_event_def is_runtime_event_def event_slot_def
       split: if_splits)

lemma source_step_tap:
  assumes "source_step encode io_text w item r = (r', res)" and "tap_ok r"
  shows "tap_ok r' \<or> res = Err ReceiverDropped \<and> tap_stopped r'"
proof (cases item)
  case (NextUpdate u io)
  let ?r0 = "if w = 0 then r else r\<lparr>idle := False\<rparr>"
  obtain r1 res1 where c: "capture_update encode io_text io u ?r0 = (r1, res1)" by fastforce
  then have "tap_ok r1" using capture_update_tap [OF c] assms(2) by (auto simp: tap_ok_def split: if_splits)
  moreover have "then_run (r1, res1) (\<lambda>r. then_run (then_run (announce_account u r) (forward_block_event u)) (forward_runtime u)) = (r', res)"
    using assms(1) c by (simp add: NextUpdate then_run_assoc)
  ultimately show ?thesis
    using forward_tap [of u r1 r' res] by (cases res1) (auto simp: then_run_def split: prod.splits)
qed (use assms in \<open>auto simp: tap_ok_def mpsc_send_def split: if_splits\<close>)

lemma source_loop_tap:
  "source_loop encode io_text w items r = (r', res) \<Longrightarrow> tap_ok r \<Longrightarrow>
   tap_ok r' \<or> res = Ok ReceiverDropped \<and> tap_stopped r'"
proof (induction items arbitrary: r)
  case (Cons item items)
  obtain r1 res1 where st: "source_step encode io_text w item r = (r1, res1)" by fastforce
  from source_step_tap [OF st Cons.prems(2)] Cons.prems(1) Cons.IH [of r1] st show ?case
    by (cases res1) (auto simp del: source_step.simps)
qed simp

definition demo_source :: "nat source_item list \<Rightarrow> (nat, pubkey list, unit) source_env" where
  "demo_source items =
     \<lparr>src_wire = demo_env, src_encode = (\<lambda>_. []), src_io_text = (\<lambda>_. ''io''), src_create_file = (\<lambda>_. True),
      src_dial = Ok (), src_subscribe = (\<lambda>_. Ok items)\<rparr>"

definition demo_config :: "nat coordinator_source_config" where
  "demo_config =
     \<lparr>source_from_slot = None, stream_idle_warn_secs = 5,
      coordinator_input_tx = Some \<lparr>queue = [], closed = False\<rparr>, fixture_path = None, fixture_slots = None\<rparr>"

definition demo_update :: "nat update_oneof \<Rightarrow> nat source_item" where
  "demo_update x = NextUpdate \<lparr>update_oneof = Some x, envelope = 0\<rparr> (\<lambda>_. True)"

text \<open>
  Every account the runtime gets was announced to the coordinator before it, in the same
  order: whatever the stream sends and whenever a receiver goes away, the announced accounts
  are those the runtime got, and at most one more, the one in hand when the runtime was found
  gone. The coordinator never waits for fewer accounts than the runtime parses.
\<close>

theorem source_announces_accounts:
  assumes "source_connect env config fs tx = Ok (r, res)"
    and "queue tx = []" and "is_some_and (coordinator_input_tx config) (\<lambda>ctx. queue ctx = [])"
  shows "seen_slots (queue (coordinator_tx r)) = account_slots (queue (runtime_tx r)) \<or>
    res = Ok ReceiverDropped \<and>
    (\<exists>sl. seen_slots (queue (coordinator_tx r)) = account_slots (queue (runtime_tx r)) @ [sl])"
proof -
  from assms(3) obtain ctx where ctx: "coordinator_input_tx config = Some ctx" "queue ctx = []"
    by (auto simp: is_some_and_iff)
  from assms(1) ctx(1) obtain items writer where
    "source_loop (src_encode env) (src_io_text env) (stream_idle_warn_secs config) items
       \<lparr>coordinator_tx = ctx, runtime_tx = tx, capture = writer, last_seen_slot = None, idle = False\<rparr> = (r, res)"
    by (auto simp: source_connect_def bind_outcome_eq_Ok)
  from source_loop_tap [OF this] ctx(2) assms(2) show ?thesis
    by (simp add: tap_ok_def tap_stopped_def)
qed

theorem source_announces_accounts_witness:
  "\<exists>r. source_connect (demo_source [demo_update (Update_Account 7 0), RuntimeReceiverDropped,
      demo_update (Update_Account 8 0)]) demo_config Map.empty \<lparr>queue = [], closed = False\<rparr> = Ok (r, Ok ReceiverDropped) \<and>
    seen_slots (queue (coordinator_tx r)) = [7, 8] \<and> account_slots (queue (runtime_tx r)) = [7]"
proof -
  let ?c = "source_connect (demo_source [demo_update (Update_Account 7 0), RuntimeReceiverDropped,
      demo_update (Update_Account 8 0)]) demo_config Map.empty \<lparr>queue = [], closed = False\<rparr>"
  obtain r where r: "?c = Ok (r, Ok ReceiverDropped)"
    and q: "account_slots (queue (runtime_tx r)) = [7]" "8 \<in> set (seen_slots (queue (coordinator_tx r)))"
    by (auto simp: source_connect_def demo_source_def demo_config_def demo_update_def open_capture_def step_defs
        is_block_sm_event_def is_runtime_event_def event_slot_def)
  from source_announces_accounts [OF r] q show ?thesis
    using r by (auto simp: demo_config_def)
qed

text \<open>What each update is to the coordinator, and the updates before the status that ends the stream.\<close>

definition coordinator_view :: "'p subscribe_update \<Rightarrow> 'p coordinator_input list" where
  "coordinator_view u =
     (case update_oneof u of
        Some (Update_Account sl _) \<Rightarrow> [AccountEventSeenInput sl]
      | _ \<Rightarrow> if is_block_sm_event u then [GeyserUpdate u] else [])"

fun streamed :: "'p source_item list \<Rightarrow> 'p subscribe_update list \<times> grpc_status option" where
  "streamed [] = ([], None)"
| "streamed (NextUpdate u _ # items) = (case streamed items of (us, st) \<Rightarrow> (u # us, st))"
| "streamed (NextError st # items) = ([], Some st)"
| "streamed (IdleTimeout # items) = streamed items"
| "streamed (CoordinatorReceiverDropped # items) = streamed items"
| "streamed (RuntimeReceiverDropped # items) = streamed items"

fun receivers_stay :: "'p source_item list \<Rightarrow> bool" where
  "receivers_stay [] = True"
| "receivers_stay (CoordinatorReceiverDropped # items) = False"
| "receivers_stay (RuntimeReceiverDropped # items) = False"
| "receivers_stay (_ # items) = receivers_stay items"

definition both_open :: "'p source_run \<Rightarrow> bool" where
  "both_open r \<longleftrightarrow> \<not> closed (coordinator_tx r) \<and> \<not> closed (runtime_tx r) \<and> capture r = None"

lemma source_step_open:
  assumes "both_open r"
  shows "\<exists>r'. source_step encode io_text w (NextUpdate u io) r = (r', Ok ()) \<and> both_open r' \<and>
    queue (coordinator_tx r') = queue (coordinator_tx r) @ coordinator_view u \<and>
    queue (runtime_tx r') = queue (runtime_tx r) @ (if is_runtime_event u then [Ok u] else [])"
  using assms
  by (cases "update_oneof u"; (cases "the (update_oneof u)")?)
     (auto simp: step_defs both_open_def coordinator_view_def is_block_sm_event_def is_runtime_event_def event_slot_def)

lemma source_loop_open:
  "both_open r \<Longrightarrow> receivers_stay items \<Longrightarrow> streamed items = (us, st) \<Longrightarrow>
   \<exists>r'. source_loop encode io_text w items r =
       (r', Ok (case st of None \<Rightarrow> StreamEnded | Some s \<Rightarrow> StreamError (status_code s) (status_message s))) \<and>
     queue (coordinator_tx r') = queue (coordinator_tx r) @ concat (map coordinator_view us) \<and>
     queue (runtime_tx r') = queue (runtime_tx r) @ map Ok (filter is_runtime_event us) @
       (case st of None \<Rightarrow> [] | Some s \<Rightarrow> [Err s])"
proof (induction items arbitrary: r us rule: streamed.induct)
  case (2 u io items)
  obtain us' where us: "us = u # us'" "streamed items = (us', st)"
    using "2.prems"(3) by (auto split: prod.splits)
  obtain r1 where r1: "source_step encode io_text w (NextUpdate u io) r = (r1, Ok ())" "both_open r1"
    "queue (coordinator_tx r1) = queue (coordinator_tx r) @ coordinator_view u"
    "queue (runtime_tx r1) = queue (runtime_tx r) @ (if is_runtime_event u then [Ok u] else [])"
    using source_step_open [OF "2.prems"(1)] by blast
  from "2.IH" [OF r1(2) _ us(2)] "2.prems"(2) r1 us(1) show ?case
    by (auto simp del: source_step.simps)
next
  case (4 items)
  from "4.IH" [of "if w = 0 then r else r\<lparr>idle := True\<rparr>" us] "4.prems" show ?case
    by (auto simp: both_open_def)
qed (auto simp: both_open_def mpsc_send_def)

text \<open>
  The tap is transparent: while both receivers stay and nothing is captured, the coordinator
  gets every entry, slot and block-metadata update and one announcement per account, the
  runtime every account and transaction, each in stream order and nothing else; timeouts of
  an idle stream change nothing, and the exit status says how the stream ended.
\<close>

theorem source_tap_transparent:
  assumes "coordinator_input_tx config = Some \<lparr>queue = [], closed = False\<rparr>" and "fixture_path config = None"
    and "src_dial env = Ok ()" and "src_subscribe env (source_request (src_wire env) config fs) = Ok items"
    and "receivers_stay items" and "streamed items = (us, st)"
  shows "\<exists>r. source_connect env config fs \<lparr>queue = [], closed = False\<rparr> =
      Ok (r, Ok (case st of None \<Rightarrow> StreamEnded | Some s \<Rightarrow> StreamError (status_code s) (status_message s))) \<and>
    queue (coordinator_tx r) = concat (map coordinator_view us) \<and>
    queue (runtime_tx r) = map Ok (filter is_runtime_event us) @ (case st of None \<Rightarrow> [] | Some s \<Rightarrow> [Err s])"
proof -
  let ?r = "\<lparr>coordinator_tx = \<lparr>queue = [], closed = False\<rparr>, runtime_tx = \<lparr>queue = [], closed = False\<rparr>,
    capture = None, last_seen_slot = None, idle = False\<rparr>"
  have "both_open ?r" by (simp add: both_open_def)
  from source_loop_open [OF this assms(5,6), of "src_encode env" "src_io_text env" "stream_idle_warn_secs config"]
  show ?thesis using assms(1-4) by (auto simp: source_connect_def open_capture_def)
qed

theorem source_tap_transparent_witness:
  "\<exists>r. source_connect (demo_source [demo_update (Update_Account 7 0), IdleTimeout, demo_update (Update_Entry 1),
      NextError \<lparr>status_code = Unavailable, status_message = ''gone''\<rparr>, demo_update (Update_Entry 2)])
      demo_config Map.empty \<lparr>queue = [], closed = False\<rparr> = Ok (r, Ok (StreamError Unavailable ''gone'')) \<and>
    queue (coordinator_tx r) =
      [AccountEventSeenInput 7, GeyserUpdate \<lparr>update_oneof = Some (Update_Entry 1), envelope = 0\<rparr>] \<and>
    length (queue (runtime_tx r)) = 2"
proof -
  let ?items = "[demo_update (Update_Account 7 0), IdleTimeout, demo_update (Update_Entry 1),
      NextError \<lparr>status_code = Unavailable, status_message = ''gone''\<rparr>, demo_update (Update_Entry 2)]"
  have "streamed ?items = ([\<lparr>update_oneof = Some (Update_Account 7 0), envelope = 0\<rparr>,
      \<lparr>update_oneof = Some (Update_Entry 1), envelope = 0\<rparr>],
      Some \<lparr>status_code = Unavailable, status_message = ''gone''\<rparr>)"
    by (simp add: demo_update_def)
  from source_tap_transparent [of demo_config "demo_source ?items" Map.empty, OF _ _ _ _ _ this] show ?thesis
    by (auto simp: demo_config_def demo_source_def demo_update_def coordinator_view_def is_block_sm_event_def
        is_runtime_event_def)
qed

end
