(* ===== verification/Preconf_Filter.thy ===== *)
theory Preconf_Filter
  imports Sources "HOL-Library.Char_ord"
begin

text \<open>
  The regions of the preconfirmation feeds (\<open>crates/preconf-source/src/config.rs\<close>) and the way
  from the runtime's prefilters to the feed's subscribe request
  (\<open>crates/preconf-source/src/filter.rs\<close>). Parser names are strings of bytes; the text of a key
  is an argument; the order in which a hash map yields its parsers is an argument of the
  function that iterates over it, a list of the map's keys.
\<close>

subsection \<open>Regions\<close>

datatype harmonic_region = H_Ams | H_Ewr | H_Fra | H_Lon | H_Tyo | H_Sgp | H_Slc

datatype bam_region =
    B_Ams | B_Dfw | B_Dub | B_Ewr | B_Fra | B_Hkg | B_Iad | B_Lax | B_Lon | B_Pit | B_Sea | B_Sin
  | B_Slc | B_Sqq | B_Tyo

text \<open>The derived order of an enum is the order of its variants.\<close>

fun harmonic_rank :: "harmonic_region \<Rightarrow> nat" where
  "harmonic_rank H_Ams = 0" | "harmonic_rank H_Ewr = 1" | "harmonic_rank H_Fra = 2" | "harmonic_rank H_Lon = 3"
| "harmonic_rank H_Tyo = 4" | "harmonic_rank H_Sgp = 5" | "harmonic_rank H_Slc = 6"

fun bam_rank :: "bam_region \<Rightarrow> nat" where
  "bam_rank B_Ams = 0" | "bam_rank B_Dfw = 1" | "bam_rank B_Dub = 2" | "bam_rank B_Ewr = 3"
| "bam_rank B_Fra = 4" | "bam_rank B_Hkg = 5" | "bam_rank B_Iad = 6" | "bam_rank B_Lax = 7"
| "bam_rank B_Lon = 8" | "bam_rank B_Pit = 9" | "bam_rank B_Sea = 10" | "bam_rank B_Sin = 11"
| "bam_rank B_Slc = 12" | "bam_rank B_Sqq = 13" | "bam_rank B_Tyo = 14"

lemma harmonic_rank_inj [simp]: "harmonic_rank a = harmonic_rank b \<longleftrightarrow> a = b"
  by (cases a; cases b) simp_all

lemma bam_rank_inj [simp]: "bam_rank a = bam_rank b \<longleftrightarrow> a = b"
  by (cases a; cases b) simp_all

instantiation harmonic_region :: linorder
begin

definition less_eq_harmonic_region :: "harmonic_region \<Rightarrow> harmonic_region \<Rightarrow> bool" where
  "a \<le> b \<longleftrightarrow> harmonic_rank a \<le> harmonic_rank b"

definition less_harmonic_region :: "harmonic_region \<Rightarrow> harmonic_region \<Rightarrow> bool" where
  "a < b \<longleftrightarrow> harmonic_rank a < harmonic_rank b"

instance
  by standard (auto simp: less_eq_harmonic_region_def less_harmonic_region_def dest: le_antisym)

end

instantiation bam_region :: linorder
begin

definition less_eq_bam_region :: "bam_region \<Rightarrow> bam_region \<Rightarrow> bool" where
  "a \<le> b \<longleftrightarrow> bam_rank a \<le> bam_rank b"

definition less_bam_region :: "bam_region \<Rightarrow> bam_region \<Rightarrow> bool" where
  "a < b \<longleftrightarrow> bam_rank a < bam_rank b"

instance
  by standard (auto simp: less_eq_bam_region_def less_bam_region_def dest: le_antisym)

end

datatype feed = Harmonic harmonic_region | Bam bam_region

text \<open>The region of the request is the proto's enum with the same variants.\<close>

datatype wire_region = HarmonicRegion harmonic_region | BamRegion bam_region

fun feed_region :: "feed \<Rightarrow> wire_region" where
  "feed_region (Harmonic region) = HarmonicRegion region"
| "feed_region (Bam region) = BamRegion region"

text \<open>\<open>regions.iter().copied().collect::<BTreeSet<_>>().into_iter()\<close>\<close>

definition dedup :: "'a::linorder list \<Rightarrow> 'a list" where
  "dedup regions = sort (remdups regions)"

lemma dedup_ascending: "ascending (dedup xs)"
  by (simp add: dedup_def strict_sorted_iff)

lemma set_dedup [simp]: "set (dedup xs) = set xs"
  by (simp add: dedup_def)

subsection \<open>Limits and errors\<close>

definition FEED_MAX_FILTERS :: nat where "FEED_MAX_FILTERS = 64"
definition MAX_ACCOUNTS :: nat where "MAX_ACCOUNTS = 10000"
definition MAX_FILTER_NAME_BYTES :: nat where "MAX_FILTER_NAME_BYTES = 64"

datatype filter_error =
    NoTransactionFilters
  | TokenAccountsUnsupported string
  | NoPositiveSelector string
  | NameTooLong string nat
  | TooManyFilters nat
  | TooManyAccounts string nat

datatype execution_result = Success | ExecutionFailure | FeesOnly

record feed_transaction_filter =
  tf_account_include :: "string list"
  tf_account_exclude :: "string list"
  tf_account_required :: "string list"
  tf_signature :: "string list"
  tf_execution_results :: "execution_result list"

record feed_request =
  fq_transactions :: "string \<rightharpoonup> feed_transaction_filter"
  fq_region :: "wire_region option"

subsection \<open>Building the request\<close>

definition feed_list ::
  "(pubkey \<Rightarrow> string) \<Rightarrow> string \<Rightarrow> pubkey set \<Rightarrow> (filter_error, string list) outcome" where
  "feed_list text_of parser keys =
     (let texts = sorted_list_of_set (text_of ` keys)
      in if MAX_ACCOUNTS < length texts then Err (TooManyAccounts parser (length texts)) else Ok texts)"

definition feed_transaction_filter_of ::
  "(pubkey \<Rightarrow> string) \<Rightarrow> string \<Rightarrow> transaction_prefilter \<Rightarrow> (filter_error, feed_transaction_filter) outcome" where
  "feed_transaction_filter_of text_of parser p =
     (if MAX_FILTER_NAME_BYTES < length parser then Err (NameTooLong parser (length parser))
      else if tp_token_accounts p \<noteq> None then Err (TokenAccountsUnsupported parser)
      else
        bind_outcome (feed_list text_of parser
          (tp_accounts_include p \<union> set (cuckoo_keys (tp_cuckoo_accounts_include p)))) (\<lambda>account_include.
        bind_outcome (feed_list text_of parser (tp_accounts_required p)) (\<lambda>account_required.
        bind_outcome (feed_list text_of parser (tp_accounts_exclude p)) (\<lambda>account_exclude.
        let signature = (case tp_signature p of None \<Rightarrow> [] | Some s \<Rightarrow> [s])
        in if account_include = [] \<and> account_required = [] \<and> signature = []
           then Err (NoPositiveSelector parser)
           else
             Ok \<lparr>tf_account_include = account_include,
                 tf_account_exclude = account_exclude,
                 tf_account_required = account_required,
                 tf_signature = signature,
                 tf_execution_results =
                   (case tp_failed p of
                      None \<Rightarrow> []
                    | Some False \<Rightarrow> [Success]
                    | Some True \<Rightarrow> [ExecutionFailure, FeesOnly])\<rparr>))))"

text \<open>The parsers that have a transaction prefilter, in the order the map yields them.\<close>

definition feed_entries :: "string list \<Rightarrow> filters \<Rightarrow> (string \<times> transaction_prefilter) list" where
  "feed_entries order fs =
     List.map_filter (\<lambda>parser. Option.bind (fs parser) (\<lambda>p. map_option (Pair parser) (pf_transaction p))) order"

definition feed_transactions ::
  "(pubkey \<Rightarrow> string) \<Rightarrow> string list \<Rightarrow> filters \<Rightarrow> (filter_error, string \<rightharpoonup> feed_transaction_filter) outcome" where
  "feed_transactions text_of order fs =
     bind_outcome (try_map (\<lambda>(parser, p).
         bind_outcome (feed_transaction_filter_of text_of parser p) (\<lambda>f. Ok (parser, f)))
         (feed_entries order fs)) (\<lambda>transactions.
     if transactions = [] then Err NoTransactionFilters
     else if FEED_MAX_FILTERS < length transactions then Err (TooManyFilters (length transactions))
     else Ok (map_of transactions))"

definition feed_request_for :: "(string \<rightharpoonup> feed_transaction_filter) \<Rightarrow> wire_region \<Rightarrow> feed_request" where
  "feed_request_for transactions region = \<lparr>fq_transactions = transactions, fq_region = Some region\<rparr>"

definition unserved :: "string list \<Rightarrow> filters \<Rightarrow> string list" where
  "unserved order fs = filter (\<lambda>parser. is_some_and (fs parser) (\<lambda>p. pf_transaction p = None)) order"

definition vote_rules_of :: "filters \<Rightarrow> string \<rightharpoonup> bool" where
  "vote_rules_of fs = (\<lambda>parser. Option.bind (fs parser) (\<lambda>p. Option.bind (pf_transaction p) tp_vote))"

subsection \<open>What the feed can serve\<close>

text \<open>The key sets of a prefilter, which are finite, and the limits of the feed.\<close>

definition included_keys :: "transaction_prefilter \<Rightarrow> pubkey set" where
  "included_keys p = tp_accounts_include p \<union> set (cuckoo_keys (tp_cuckoo_accounts_include p))"

definition keys_finite :: "transaction_prefilter \<Rightarrow> bool" where
  "keys_finite p \<longleftrightarrow> finite (included_keys p) \<and> finite (tp_accounts_required p) \<and> finite (tp_accounts_exclude p)"

definition expressible :: "(pubkey \<Rightarrow> string) \<Rightarrow> string \<Rightarrow> transaction_prefilter \<Rightarrow> bool" where
  "expressible text_of parser p \<longleftrightarrow>
     length parser \<le> 64 \<and> tp_token_accounts p = None \<and>
     card (text_of ` included_keys p) \<le> 10000 \<and> card (text_of ` tp_accounts_required p) \<le> 10000 \<and>
     card (text_of ` tp_accounts_exclude p) \<le> 10000 \<and>
     (included_keys p \<noteq> {} \<or> tp_accounts_required p \<noteq> {} \<or> tp_signature p \<noteq> None)"

definition served :: "filters \<Rightarrow> string \<rightharpoonup> transaction_prefilter" where
  "served fs = (\<lambda>parser. Option.bind (fs parser) pf_transaction)"

definition feed_filter :: "(pubkey \<Rightarrow> string) \<Rightarrow> transaction_prefilter \<Rightarrow> feed_transaction_filter" where
  "feed_filter text_of p =
     \<lparr>tf_account_include = sorted_list_of_set (text_of ` included_keys p),
      tf_account_exclude = sorted_list_of_set (text_of ` tp_accounts_exclude p),
      tf_account_required = sorted_list_of_set (text_of ` tp_accounts_required p),
      tf_signature = (case tp_signature p of None \<Rightarrow> [] | Some s \<Rightarrow> [s]),
      tf_execution_results =
        (case tp_failed p of None \<Rightarrow> [] | Some failed \<Rightarrow> if failed then [ExecutionFailure, FeesOnly] else [Success])\<rparr>"

lemma feed_list_Ok:
  "feed_list text_of parser keys = Ok texts \<longleftrightarrow>
    card (text_of ` keys) \<le> 10000 \<and> texts = sorted_list_of_set (text_of ` keys)"
  by (auto simp: feed_list_def MAX_ACCOUNTS_def Let_def)

lemma feed_transaction_filter_of_Ok:
  assumes "keys_finite p"
  shows "feed_transaction_filter_of text_of parser p = Ok f \<longleftrightarrow> expressible text_of parser p \<and> f = feed_filter text_of p"
proof -
  have fin: "finite (text_of ` included_keys p)" "finite (text_of ` tp_accounts_required p)"
    using assms by (auto simp: keys_finite_def)
  show ?thesis
    using fin
    by (auto simp: feed_transaction_filter_of_def bind_outcome_eq_Ok feed_list_Ok expressible_def feed_filter_def
        MAX_FILTER_NAME_BYTES_def Let_def included_keys_def [symmetric] split: option.splits bool.splits)
qed

lemma feed_transaction_filter_of_no_panic: "feed_transaction_filter_of text_of parser p \<noteq> Panic"
  by (auto simp: feed_transaction_filter_of_def feed_list_def bind_outcome_def Let_def split: outcome.splits if_splits)

lemma feed_entries_served:
  "feed_entries order fs = List.map_filter (\<lambda>parser. map_option (Pair parser) (served fs parser)) order"
proof -
  have "Option.bind (fs parser) (\<lambda>p. map_option (Pair parser) (pf_transaction p)) = map_option (Pair parser) (served fs parser)"
    for parser by (cases "fs parser") (simp_all add: served_def)
  then show ?thesis by (simp add: feed_entries_def)
qed

lemma feed_entries_map:
  assumes "distinct order" and "set order = dom fs"
  shows "map_of (feed_entries order fs) = served fs" and "distinct (map fst (feed_entries order fs))"
    and "fst ` set (feed_entries order fs) = dom (served fs)"
proof -
  have fst: "map fst (feed_entries order fs) = filter (\<lambda>parser. served fs parser \<noteq> None) order"
    by (induction order) (auto simp: feed_entries_served map_filter_simps split: option.splits)
  show d: "distinct (map fst (feed_entries order fs))" using assms(1) by (simp add: fst)
  have mem: "(parser, p) \<in> set (feed_entries order fs) \<longleftrightarrow> served fs parser = Some p" for parser p
  proof -
    have "served fs parser = Some p \<Longrightarrow> parser \<in> set order"
      using assms(2) by (auto simp: served_def bind_eq_Some_conv)
    then show ?thesis by (force simp: feed_entries_served map_filter_def)
  qed
  show "map_of (feed_entries order fs) = served fs"
  proof
    fix parser
    show "map_of (feed_entries order fs) parser = served fs parser"
      using mem [of parser] map_of_eq_Some_iff [OF d, of parser]
      by (cases "served fs parser") (auto simp: map_of_eq_None_iff mem)
  qed
  show "fst ` set (feed_entries order fs) = dom (served fs)" using mem by force
qed

text \<open>
  The feed request is built exactly when the feed can serve it: between 1 and 64 parsers have a
  transaction prefilter, and each has a name of at most 64 bytes, no token-account expansion,
  at most 10000 accounts per list and an include, required or signature list of its own. The
  request then carries every such parser under its own name, with its sorted keys and wished
  outcomes, in whatever order the parsers are visited; otherwise the result is an error.
\<close>

theorem feed_transactions_spec:
  assumes "distinct order" and "set order = dom fs" and "\<And>parser p. served fs parser = Some p \<Longrightarrow> keys_finite p"
  shows "(feed_transactions text_of order fs = Ok m \<longleftrightarrow>
      dom (served fs) \<noteq> {} \<and> card (dom (served fs)) \<le> 64 \<and>
      (\<forall>parser p. served fs parser = Some p \<longrightarrow> expressible text_of parser p) \<and>
      m = (\<lambda>parser. map_option (feed_filter text_of) (served fs parser))) \<and>
    feed_transactions text_of order fs \<noteq> Panic"
proof -
  let ?es = "feed_entries order fs"
  let ?conv = "\<lambda>(parser, p). bind_outcome (feed_transaction_filter_of text_of parser p) (\<lambda>f. Ok (parser, f))"
  note es = feed_entries_map [OF assms(1,2)]
  have mem: "served fs parser = Some p \<longleftrightarrow> (parser, p) \<in> set ?es" for parser p
    using map_of_eq_Some_iff [OF es(2), of parser p] by (simp add: es(1))
  have conv: "bind_outcome (feed_transaction_filter_of text_of parser p) (\<lambda>f. Ok (parser, f)) = Ok y \<longleftrightarrow> expressible text_of parser p \<and> y = (parser, feed_filter text_of p)"
    if "(parser, p) \<in> set ?es" for parser p y
    using feed_transaction_filter_of_Ok [OF assms(3)] that mem by (auto simp: bind_outcome_eq_Ok)
  have len: "length ?es = card (dom (served fs))"
    using distinct_card [OF es(2)] es(3) by simp
  have tried: "try_map ?conv ?es = Ok ys \<longleftrightarrow>
      (\<forall>(parser, p)\<in>set ?es. expressible text_of parser p) \<and> ys = map (\<lambda>(parser, p). (parser, feed_filter text_of p)) ?es" for ys
  proof -
    have "list_all2 (\<lambda>x y. ?conv x = Ok y) ?es ys \<longleftrightarrow>
      list_all2 (\<lambda>x y. (case x of (parser, p) \<Rightarrow> expressible text_of parser p) \<and>
        y = (case x of (parser, p) \<Rightarrow> (parser, feed_filter text_of p))) ?es ys"
      by (rule list.rel_cong) (auto simp: conv)
    then show ?thesis
      by (auto simp: try_map_eq_Ok list_all2_conv_all_nth all_set_conv_all_nth intro!: nth_equalityI)
  qed
  have map: "map_of (map (\<lambda>(parser, p). (parser, feed_filter text_of p)) ?es) =
      (\<lambda>parser. map_option (feed_filter text_of) (served fs parser))"
    by (auto simp: map_of_map es(1))
  have "dom (served fs) = {} \<longleftrightarrow> ?es = []" by (metis es(3) image_is_empty set_empty)
  then have "feed_transactions text_of order fs = Ok m \<longleftrightarrow>
      dom (served fs) \<noteq> {} \<and> card (dom (served fs)) \<le> 64 \<and>
      (\<forall>parser p. served fs parser = Some p \<longrightarrow> expressible text_of parser p) \<and>
      m = (\<lambda>parser. map_option (feed_filter text_of) (served fs parser))"
    using len map by (auto simp: feed_transactions_def bind_outcome_eq_Ok tried mem FEED_MAX_FILTERS_def)
  moreover have "feed_transactions text_of order fs \<noteq> Panic"
    unfolding feed_transactions_def
    by (intro bind_no_panic try_map_no_panic)
       (auto simp: feed_transaction_filter_of_no_panic bind_no_panic split: prod.splits)
  ultimately show ?thesis ..
qed

definition demo_feed_filters :: filters where
  "demo_feed_filters = [''a'' \<mapsto> default_prefilter\<lparr>pf_transaction :=
     Some (default_transaction_prefilter\<lparr>tp_accounts_include := {[7], [5]}, tp_failed := Some False\<rparr>)\<rparr>]"

theorem feed_transactions_spec_witness:
  "\<exists>m f. feed_transactions (map (\<lambda>b. char_of (unat b))) [''a''] demo_feed_filters = Ok m \<and> m ''a'' = Some f \<and>
    tf_execution_results f = [Success] \<and> length (tf_account_include f) = 2"
proof -
  let ?text = "map (\<lambda>b :: u8. char_of (unat b) :: char)"
  let ?p = "default_transaction_prefilter\<lparr>tp_accounts_include := {[7], [5]}, tp_failed := Some False\<rparr>"
  let ?m = "\<lambda>parser. map_option (feed_filter ?text) (served demo_feed_filters parser)"
  have served: "served demo_feed_filters = [''a'' \<mapsto> ?p]"
    by (auto simp: served_def demo_feed_filters_def)
  have fin: "keys_finite ?p"
    by (simp add: keys_finite_def included_keys_def default_transaction_prefilter_def)
  have card: "card (?text ` included_keys ?p) = 2"
    by (simp add: included_keys_def default_transaction_prefilter_def)
  then have ex: "expressible ?text ''a'' ?p"
    by (auto simp: expressible_def default_transaction_prefilter_def included_keys_def)
  have all: "served demo_feed_filters parser = Some p \<Longrightarrow> keys_finite p \<and> expressible ?text parser p" for parser p
    using fin ex by (simp add: served split: if_splits)
  have doms: "dom (served demo_feed_filters) = {''a''}" "set [''a''] = dom demo_feed_filters"
    by (simp add: served) (simp add: demo_feed_filters_def)
  have "feed_transactions ?text [''a''] demo_feed_filters = Ok ?m"
    by (rule iffD2 [OF conjunct1 [OF feed_transactions_spec [OF _ doms(2)]]]) (use all doms(1) in auto)
  then show ?thesis using card by (simp add: served feed_filter_def)
qed

end
