(* ===== verification/Instruction_Tree.thy ===== *)
theory Instruction_Tree
  imports Prelude
begin

text \<open>
  The tree of instructions of a transaction (\<open>crates/core/src/instruction.rs\<close>): paths, account
  keys, the nesting of Solana's flat list of inner instructions by stack height, and the
  iterators over the tree. Payloads that are only passed on (errors, token balances, rewards,
  headers, configurations) are of the type \<open>'x\<close>. Indices of the wire format are \<open>u32\<close> and
  \<open>u8\<close>; their conversion to a 64-bit \<open>usize\<close> cannot fail, so the \<open>IndexConvert\<close> error has no
  branch.
\<close>

subsection \<open>Paths\<close>

type_synonym path = "u32 list"

definition new_single :: "u32 \<Rightarrow> path" where
  "new_single idx = [idx]"

definition push_clone :: "path \<Rightarrow> u32 \<Rightarrow> path" where
  "push_clone p idx = p @ [idx]"

definition is_parent_of :: "path \<Rightarrow> path \<Rightarrow> bool" where
  "is_parent_of p q =
     (if length p + 1 \<noteq> length q then False else take (length p) q = take (length p) p)"

definition is_ancestor_of :: "path \<Rightarrow> path \<Rightarrow> bool" where
  "is_ancestor_of p q =
     (if length q \<le> length p then False else take (length p) q = take (length p) p)"

subsection \<open>Account keys\<close>

record account_keys =
  static_keys :: "bytes list"
  dynamic_rw :: "bytes list"
  dynamic_ro :: "bytes list"

datatype account_key_error = InvalidIndex nat | InvalidKey

fun find_key :: "bytes list list \<Rightarrow> nat \<Rightarrow> bytes option" where
  "find_key [] i = None"
| "find_key (k # ks) i = (if i < length k then Some (k ! i) else find_key ks (i - length k))"

definition account_keys_get :: "account_keys \<Rightarrow> nat \<Rightarrow> (account_key_error, pubkey) outcome" where
  "account_keys_get ks idx =
     (case find_key [static_keys ks, dynamic_rw ks, dynamic_ro ks] idx of
        None \<Rightarrow> Err (InvalidIndex idx)
      | Some k \<Rightarrow> if length k = 32 then Ok k else Err InvalidKey)"

subsection \<open>Instructions\<close>

record 'x instruction_shared =
  sh_slot :: u64
  sh_signature :: bytes
  sh_is_vote :: bool
  sh_txn_index :: u64
  sh_err :: "'x option"
  sh_fee :: u64
  sh_pre_balances :: "u64 list"
  sh_post_balances :: "u64 list"
  sh_pre_token_balances :: "'x list"
  sh_post_token_balances :: "'x list"
  sh_log_messages :: "string list"
  sh_rewards :: "'x list"
  sh_compute_units_consumed :: "u64 option"
  sh_recent_blockhash :: bytes
  sh_accounts :: account_keys
  sh_message_header :: 'x
  sh_transaction_config :: "'x option"

datatype 'x instruction_update =
  InstructionUpdate
    (ix_program: pubkey)
    (ix_accounts: "pubkey list")
    (ix_data: bytes)
    (ix_shared: "'x instruction_shared")
    (ix_inner: "'x instruction_update list")
    (ix_path: path)
    (ix_log_range: "nat \<times> nat")

fun with_inner :: "'x instruction_update list \<Rightarrow> 'x instruction_update \<Rightarrow> 'x instruction_update" where
  "with_inner xs (InstructionUpdate p a d s _ q r) = InstructionUpdate p a d s xs q r"

fun with_log_range :: "nat \<times> nat \<Rightarrow> 'x instruction_update \<Rightarrow> 'x instruction_update" where
  "with_log_range r (InstructionUpdate p a d s i q _) = InstructionUpdate p a d s i q r"

definition push_inner :: "'x instruction_update \<Rightarrow> 'x instruction_update \<Rightarrow> 'x instruction_update" where
  "push_inner child ix = with_inner (ix_inner ix @ [child]) ix"

lemma with_fields [simp]:
  "ix_inner (with_inner xs n) = xs" "ix_path (with_inner xs n) = ix_path n"
  "ix_program (with_inner xs n) = ix_program n" "ix_accounts (with_inner xs n) = ix_accounts n"
  "ix_data (with_inner xs n) = ix_data n" "ix_shared (with_inner xs n) = ix_shared n"
  "ix_log_range (with_inner xs n) = ix_log_range n"
  "ix_inner (with_log_range r n) = ix_inner n" "ix_path (with_log_range r n) = ix_path n"
  "ix_program (with_log_range r n) = ix_program n" "ix_accounts (with_log_range r n) = ix_accounts n"
  "ix_data (with_log_range r n) = ix_data n" "ix_shared (with_log_range r n) = ix_shared n"
  "ix_log_range (with_log_range r n) = r"
  by (cases n; simp)+

lemma with_inner_twice [simp]: "with_inner xs (with_inner ys n) = with_inner xs n"
  by (cases n) simp

lemma with_inner_same [simp]: "with_inner (ix_inner n) n = n"
  by (cases n) simp

subsection \<open>Nesting by stack height\<close>

text \<open>
  The inner instructions arrive flat, in execution order, with their stack heights. The loop
  goes backwards; at each parent it moves the directly following instructions of greater
  height into the parent.
\<close>

type_synonym 'x entry = "'x instruction_update \<times> u32 option"

fun take_children ::
  "u32 \<Rightarrow> 'x instruction_update \<Rightarrow> 'x entry list \<Rightarrow> 'x instruction_update \<times> 'x entry list" where
  "take_children height parent [] = (parent, [])"
| "take_children height parent ((child, h) # rest) =
     (if is_some_and h (\<lambda>h. height < h) then take_children height (push_inner child parent) rest
      else (parent, (child, h) # rest))"

fun nest_loop :: "nat \<Rightarrow> 'x entry list \<Rightarrow> 'x entry list" where
  "nest_loop 0 inner = inner"
| "nest_loop (Suc parent_idx) inner =
     (case inner ! parent_idx of
        (_, None) \<Rightarrow> nest_loop parent_idx inner
      | (parent, Some height) \<Rightarrow>
          (case take_children height parent (drop (Suc parent_idx) inner) of
             (parent', rest) \<Rightarrow>
               nest_loop parent_idx (take parent_idx inner @ (parent', Some height) # rest)))"

definition nest :: "'x entry list \<Rightarrow> 'x instruction_update list" where
  "nest inner = map fst (nest_loop (length inner - 1) inner)"

subsection \<open>Paths from stack heights\<close>

definition bump_last :: "path \<Rightarrow> path" where
  "bump_last p = (if p = [] then [] else p[length p - 1 := last p + 1])"

definition next_path :: "u32 option \<Rightarrow> u32 option \<Rightarrow> path \<Rightarrow> path" where
  "next_path prev cur p =
     (case (cur, prev) of
        (Some c, Some h) \<Rightarrow>
          if h < c then p @ [0]
          else if c = h then bump_last p
          else bump_last (take (unat c) p)
      | _ \<Rightarrow> bump_last p)"

fun derive_paths_loop :: "u32 option \<Rightarrow> u32 option list \<Rightarrow> path \<Rightarrow> path list" where
  "derive_paths_loop prev [] p = []"
| "derive_paths_loop prev (c # cs) p =
     (let p' = next_path prev c p in p' # derive_paths_loop c cs p')"

definition derive_paths_from_stackheights :: "u32 option list \<Rightarrow> u32 \<Rightarrow> path list" where
  "derive_paths_from_stackheights heights outer_index =
     (case heights of
        [] \<Rightarrow> []
      | h # hs \<Rightarrow> (let p = [outer_index, 0] in p # derive_paths_loop h hs p))"

subsection \<open>Iterators\<close>

datatype 'x visit_all_state =
    VisitInit "'x instruction_update"
  | VisitStarted "'x instruction_update list list"

text \<open>The loop over the stack of slice iterators, the innermost first.\<close>

fun visit_advance ::
  "'x instruction_update list list \<Rightarrow> 'x instruction_update list list \<times> 'x instruction_update option" where
  "visit_advance [] = ([], None)"
| "visit_advance ([] # d) = visit_advance d"
| "visit_advance ((ix # rest) # d) = (ix_inner ix # rest # d, Some ix)"

fun visit_next :: "'x visit_all_state \<Rightarrow> 'x visit_all_state \<times> 'x instruction_update option" where
  "visit_next (VisitInit i) = (VisitStarted [ix_inner i], Some i)"
| "visit_next (VisitStarted d) = (case visit_advance d of (d', r) \<Rightarrow> (VisitStarted d', r))"

definition stack_weight :: "'x instruction_update list list \<Rightarrow> nat" where
  "stack_weight d = sum_list (map (size_list size) d)"

fun visit_weight :: "'x visit_all_state \<Rightarrow> nat" where
  "visit_weight (VisitInit i) = Suc (size i)"
| "visit_weight (VisitStarted d) = stack_weight d"

lemma size_inner: "size_list size (ix_inner i) < size i"
  by (cases i) simp

lemma visit_advance_weight: "visit_advance d = (d', Some x) \<Longrightarrow> stack_weight d' < stack_weight d"
proof (induction d rule: visit_advance.induct)
  case (3 ix rest d)
  then show ?case using size_inner [of ix] by (auto simp: stack_weight_def)
qed (simp_all add: stack_weight_def)

lemma visit_next_weight: "visit_next v = (v', Some x) \<Longrightarrow> visit_weight v' < visit_weight v"
  using size_inner visit_advance_weight
  by (cases v) (auto simp: stack_weight_def less_Suc_eq split: prod.splits)

function visit_collect :: "'x visit_all_state \<Rightarrow> 'x instruction_update list" where
  "visit_collect v = (case visit_next v of (_, None) \<Rightarrow> [] | (v', Some x) \<Rightarrow> x # visit_collect v')"
  by pat_completeness auto
termination
  by (relation "measure visit_weight") (auto dest: visit_next_weight [OF sym])

declare visit_collect.simps [simp del]

definition visit_all :: "'x instruction_update \<Rightarrow> 'x instruction_update list" where
  "visit_all i = visit_collect (VisitInit i)"

text \<open>The closure of \<open>visit_all_with_flat_indices\<close> over the visited instructions.\<close>

fun flat_indices ::
  "u32 option \<Rightarrow> bool \<Rightarrow> u32 \<Rightarrow> 'x instruction_update list \<Rightarrow> ('x instruction_update \<times> path) list" where
  "flat_indices outer_index visited_outer next_inner_index [] = []"
| "flat_indices outer_index visited_outer next_inner_index (ix # ixs) =
     (if \<not> visited_outer then (ix, ix_path ix) # flat_indices outer_index True next_inner_index ixs
      else case outer_index of
             None \<Rightarrow> (ix, ix_path ix) # flat_indices outer_index visited_outer next_inner_index ixs
           | Some outer \<Rightarrow>
               (ix, [outer, next_inner_index]) #
               flat_indices outer_index visited_outer (next_inner_index + 1) ixs)"

definition visit_all_with_flat_indices :: "'x instruction_update \<Rightarrow> ('x instruction_update \<times> path) list" where
  "visit_all_with_flat_indices i =
     flat_indices (case ix_path i of [] \<Rightarrow> None | k # _ \<Rightarrow> Some k) False 0 (visit_all i)"

subsection \<open>Paths and account keys\<close>

text \<open>
  The path predicates mean what their names say: a parent is the path without its last
  index, an ancestor is a proper prefix, and a path made by \<open>push_clone\<close> is a child of the
  path it was made from.
\<close>

lemma path_relations:
  "(is_parent_of p q \<longleftrightarrow> (\<exists>i. q = push_clone p i)) \<and>
   (is_ancestor_of p q \<longleftrightarrow> (\<exists>r. r \<noteq> [] \<and> q = p @ r))"
proof
  show "is_parent_of p q \<longleftrightarrow> (\<exists>i. q = push_clone p i)"
    by (cases q rule: rev_cases) (auto simp: is_parent_of_def push_clone_def)
  show "is_ancestor_of p q \<longleftrightarrow> (\<exists>r. r \<noteq> [] \<and> q = p @ r)"
    by (auto simp: is_ancestor_of_def intro!: exI [of _ "drop (length p) q"])
       (metis append_take_drop_id)
qed

lemma find_key_concat: "find_key ks i = (if i < length (concat ks) then Some (concat ks ! i) else None)"
  by (induction ks arbitrary: i) (auto simp: nth_append)

text \<open>
  An account index of the wire format addresses the concatenation of the static, the
  writable and the read-only keys; the result is that key when it has 32 bytes, and an error
  that distinguishes a bad index from a bad key otherwise.
\<close>

lemma account_keys_get_spec:
  "account_keys_get ks idx =
    (let all_keys = static_keys ks @ dynamic_rw ks @ dynamic_ro ks
     in if length all_keys \<le> idx then Err (InvalidIndex idx)
        else if length (all_keys ! idx) = 32 then Ok (all_keys ! idx) else Err InvalidKey)"
  by (simp add: account_keys_get_def find_key_concat)

subsection \<open>Iteration is preorder\<close>

fun preorder :: "'x instruction_update \<Rightarrow> 'x instruction_update list" where
  "preorder (InstructionUpdate p a d s xs q r) =
     InstructionUpdate p a d s xs q r # concat (map preorder xs)"

lemma preorder_unfold: "preorder n = n # concat (map preorder (ix_inner n))"
  by (cases n) simp

lemma visit_advance_preorder:
  "(case visit_advance d of (_, None) \<Rightarrow> [] | (d', Some x) \<Rightarrow> x # concat (map (concat \<circ> map preorder) d')) =
    concat (map (concat \<circ> map preorder) d)"
proof (induction d rule: visit_advance.induct)
  case (3 ix rest d)
  then show ?case using preorder_unfold [of ix] by (simp add: comp_def)
qed simp_all

lemma visit_collect_started: "visit_collect (VisitStarted d) = concat (map (concat \<circ> map preorder) d)"
proof (induction "stack_weight d" arbitrary: d rule: less_induct)
  case less
  show ?case
    using visit_advance_preorder [of d] less visit_advance_weight [of d]
    by (subst visit_collect.simps) (auto split: prod.splits option.splits)
qed

lemma visit_all_preorder: "visit_all n = preorder n"
  by (subst preorder_unfold)
     (simp add: visit_all_def visit_collect.simps [of "VisitInit n"] visit_collect_started)

subsection \<open>What nesting does\<close>

text \<open>The backward loop, as a recursion over the flat list.\<close>

fun nest_list :: "'x entry list \<Rightarrow> 'x entry list" where
  "nest_list [] = []"
| "nest_list ((parent, None) # rest) = (parent, None) # nest_list rest"
| "nest_list ((parent, Some height) # rest) =
     (case take_children height parent (nest_list rest) of (parent', rest') \<Rightarrow> (parent', Some height) # rest')"

lemma nest_loop_list: "nest_loop (length pre) (pre @ nest_list suf) = nest_list (pre @ suf)"
proof (induction pre arbitrary: suf rule: rev_induct)
  case Nil
  then show ?case by simp
next
  case (snoc x pre)
  obtain p h where x: "x = (p, h)" by (cases x)
  show ?case
    using snoc.IH [of "x # suf"] by (cases h) (auto simp: x nth_append split: prod.splits)
qed

lemma nest_eq: "nest xs = map fst (nest_list xs)"
proof (cases xs rule: rev_cases)
  case Nil
  then show ?thesis by (simp add: nest_def)
next
  case (snoc ys y)
  have "nest_list [y] = [y]" by (cases y; cases "snd y") auto
  with snoc nest_loop_list [of ys "[y]"] show ?thesis by (simp add: nest_def)
qed

definition label ::
  "'x instruction_update \<Rightarrow> pubkey \<times> pubkey list \<times> bytes \<times> 'x instruction_shared \<times> path" where
  "label n = (ix_program n, ix_accounts n, ix_data n, ix_shared n, ix_path n)"

lemma label_with [simp]: "label (with_inner xs n) = label n" "label (with_log_range r n) = label n"
  by (simp_all add: label_def)

text \<open>Any field that nesting does not touch is kept, in preorder.\<close>

lemma flat_push:
  assumes "\<And>xs n. f (with_inner xs n) = f n"
  shows "map f (preorder (push_inner c p)) = map f (preorder p) @ map f (preorder c)"
  by (simp add: push_inner_def preorder_unfold [of "with_inner _ _"] preorder_unfold [of p] assms)

lemma take_children_flat:
  assumes "\<And>xs n. f (with_inner xs n) = f n"
  shows "take_children h p xs = (p', rest) \<Longrightarrow>
    map f (preorder p') @ concat (map (map f \<circ> preorder \<circ> fst) rest) =
    map f (preorder p) @ concat (map (map f \<circ> preorder \<circ> fst) xs)"
  by (induction h p xs rule: take_children.induct) (auto simp: flat_push [of f, OF assms] split: if_splits)

lemma nest_flat:
  assumes "\<And>xs n. f (with_inner xs n) = f n" and "\<forall>x\<in>set xs. ix_inner (fst x) = []"
  shows "map f (concat (map preorder (nest xs))) = map (f \<circ> fst) xs"
proof -
  have "concat (map (map f \<circ> preorder \<circ> fst) (nest_list xs)) = map (f \<circ> fst) xs"
    using assms(2)
  proof (induction xs rule: nest_list.induct)
    case (3 p h rest)
    obtain p' rest' where t: "take_children h p (nest_list rest) = (p', rest')" by fastforce
    with 3 take_children_flat [of f, OF assms(1) t] show ?case by (simp add: preorder_unfold [of p] comp_def)
  qed (simp_all add: preorder_unfold)
  then show ?thesis by (simp add: nest_eq map_concat comp_def)
qed

subsection \<open>Paths are positions\<close>

text \<open>
  Stack heights as a runtime produces them: all present, inner instructions start at 2, and
  a call goes down by one level at a time.
\<close>

fun heights_wf :: "u32 \<Rightarrow> u32 option list \<Rightarrow> bool" where
  "heights_wf prev [] = True"
| "heights_wf prev (None # cs) = False"
| "heights_wf prev (Some h # cs) = (2 \<le> unat h \<and> unat h \<le> Suc (unat prev) \<and> heights_wf h cs)"

definition children_pathed :: "'x instruction_update \<Rightarrow> bool" where
  "children_pathed n \<longleftrightarrow>
     (\<forall>m\<in>set (preorder n). \<forall>i<length (ix_inner m). ix_path (ix_inner m ! i) = push_clone (ix_path m) (of_nat i))"

lemma children_pathed_unfold:
  "children_pathed n \<longleftrightarrow>
    (\<forall>i<length (ix_inner n). ix_path (ix_inner n ! i) = push_clone (ix_path n) (of_nat i) \<and>
      children_pathed (ix_inner n ! i))"
  by (auto simp: children_pathed_def preorder_unfold [of n] all_set_conv_all_nth in_set_conv_nth)

lemma children_pathed_leaf: "ix_inner n = [] \<Longrightarrow> children_pathed n"
  by (subst children_pathed_unfold) simp

lemma children_pathed_push:
  assumes "children_pathed p" and "children_pathed c"
    and "ix_path c = push_clone (ix_path p) (of_nat (length (ix_inner p)))"
  shows "children_pathed (push_inner c p)"
  using assms
  by (subst children_pathed_unfold)
     (auto simp: push_inner_def nth_append less_Suc_eq children_pathed_unfold [of p])

lemma bump_last_snoc [simp]: "bump_last (p @ [x]) = p @ [x + 1]"
  by (simp add: bump_last_def list_update_append)

lemma length_bump_last [simp]: "length (bump_last p) = length p"
  by (simp add: bump_last_def)

text \<open>A list of roots: paths as long as heights, and each root the next sibling of an ancestor-or-self
  of the root before it.\<close>

fun linked :: "'x entry list \<Rightarrow> bool" where
  "linked [] = True"
| "linked ((a, None) # rest) = False"
| "linked ((a, Some ha) # rest) =
     (length (ix_path a) = unat ha \<and> children_pathed a \<and> linked rest \<and>
      (case rest of
         [] \<Rightarrow> True
       | (b, None) # _ \<Rightarrow> False
       | (b, Some hb) # _ \<Rightarrow> unat hb \<le> unat ha \<and> ix_path b = bump_last (take (unat hb) (ix_path a))))"

definition head_ok :: "nat \<Rightarrow> path \<Rightarrow> 'x entry list \<Rightarrow> bool" where
  "head_ok i p R =
     (case R of
        [] \<Rightarrow> True
      | (b, None) # _ \<Rightarrow> False
      | (b, Some k) # _ \<Rightarrow>
          if unat k \<le> length p then ix_path b = bump_last (take (unat k) p)
          else unat k = Suc (length p) \<and> ix_path b = push_clone p (of_nat i))"

lemma take_children_pathed:
  "take_children h n R = (n', R') \<Longrightarrow> linked R \<Longrightarrow> length (ix_path n) = unat h \<Longrightarrow> children_pathed n \<Longrightarrow>
    head_ok (length (ix_inner n)) (ix_path n) R \<Longrightarrow>
    linked ((n', Some h) # R') \<and> ix_path n' = ix_path n"
proof (induction h n R rule: take_children.induct)
  case (1 h n)
  then show ?case by simp
next
  case (2 h n c k R)
  obtain k' where k: "k = Some k'" using 2 by (cases k) auto
  show ?case
  proof (cases "h < k'")
    case True
    then have gt: "unat h < unat k'" by (simp add: word_less_nat_alt)
    with 2 k have c: "unat k' = Suc (unat h)" "ix_path c = push_clone (ix_path n) (of_nat (length (ix_inner n)))"
      by (auto simp: head_ok_def)
    have "head_ok (Suc (length (ix_inner n))) (ix_path n) R"
    proof (cases R)
      case (Cons q R1)
      obtain d kd where q: "q = (d, kd)" by (cases q)
      with Cons 2(3) k obtain kd' where kd: "kd = Some kd'" by (cases kd) auto
      with Cons q 2(3) k have d: "unat kd' \<le> unat k'" "ix_path d = bump_last (take (unat kd') (ix_path c))" by auto
      show ?thesis
      proof (cases "unat kd' \<le> unat h")
        case True
        with d c 2(4) show ?thesis by (simp add: head_ok_def Cons q kd push_clone_def)
      next
        case False
        with d c have "unat kd' = Suc (unat h)" by simp
        with d c 2(4) show ?thesis by (simp add: head_ok_def Cons q kd push_clone_def add.commute)
      qed
    qed (simp add: head_ok_def)
    moreover have "children_pathed c" using 2(3) k by simp
    ultimately show ?thesis
      using 2 k True c children_pathed_push [of n c] by (simp add: push_inner_def)
  next
    case False
    then have "unat k' \<le> unat h" by (simp add: word_less_nat_alt)
    with 2 k False show ?thesis by (auto simp: head_ok_def)
  qed
qed

lemma nest_list_pathed:
  "map (ix_path \<circ> fst) ys = derive_paths_loop (Some h) (map snd ys) (ix_path n) \<Longrightarrow>
    heights_wf h (map snd ys) \<Longrightarrow> length (ix_path n) = unat h \<Longrightarrow>
    \<forall>x\<in>set ((n, Some h) # ys). ix_inner (fst x) = [] \<Longrightarrow>
    \<exists>n' R. nest_list ((n, Some h) # ys) = (n', Some h) # R \<and> ix_path n' = ix_path n \<and> linked ((n', Some h) # R)"
proof (induction ys arbitrary: n h)
  case Nil
  then show ?case by (simp add: children_pathed_leaf)
next
  case (Cons y ys)
  obtain m k where y: "y = (m, k)" by (cases y)
  with Cons.prems(2) obtain k' where k: "k = Some k'" by (cases k) auto
  have m: "ix_path m = next_path (Some h) (Some k') (ix_path n)"
    and rest: "map (ix_path \<circ> fst) ys = derive_paths_loop (Some k') (map snd ys) (ix_path m)"
    using Cons.prems(1) y k by (auto simp: Let_def comp_def)
  have wf: "unat k' \<le> Suc (unat h)" "heights_wf k' (map snd ys)" using Cons.prems(2) y k by auto
  have nxt: "if unat k' \<le> unat h then ix_path m = bump_last (take (unat k') (ix_path n))
      else unat k' = Suc (unat h) \<and> ix_path m = push_clone (ix_path n) 0"
    using wf(1) Cons.prems(3)
    by (auto simp: m next_path_def push_clone_def word_less_nat_alt not_less)
  then have len: "length (ix_path m) = unat k'"
    using Cons.prems(3) by (auto simp: push_clone_def split: if_splits)
  from Cons.IH [OF rest wf(2) len] Cons.prems(4) y k obtain m' R where
    R: "nest_list (y # ys) = (m', Some k') # R" "ix_path m' = ix_path m" "linked ((m', Some k') # R)" by auto
  obtain n' R' where t: "take_children h n ((m', Some k') # R) = (n', R')" by fastforce
  have "head_ok (length (ix_inner n)) (ix_path n) ((m', Some k') # R)"
    using nxt R(2) Cons.prems(3,4) by (auto simp: head_ok_def split: if_splits)
  moreover have "children_pathed n" using Cons.prems(4) by (simp add: children_pathed_leaf)
  ultimately have "linked ((n', Some h) # R') \<and> ix_path n' = ix_path n"
    by (intro take_children_pathed [OF t R(3) Cons.prems(3)])
  moreover have "nest_list ((n, Some h) # y # ys) = (n', Some h) # R'" using R(1) t by simp
  ultimately show ?case by blast
qed

lemma take_children_heights: "take_children h n R = (n', R') \<Longrightarrow> set (map snd R') \<subseteq> set (map snd R)"
  by (induction h n R rule: take_children.induct) (auto split: if_splits)

lemma nest_list_heights: "set (map snd (nest_list xs)) \<subseteq> set (map snd xs)"
proof (induction xs rule: nest_list.induct)
  case (3 p h rest)
  obtain p' rest' where t: "take_children h p (nest_list rest) = (p', rest')" by fastforce
  have "set (map snd rest') \<subseteq> set (map snd rest)" using 3 take_children_heights [OF t] by (meson order_trans)
  then show ?case using t by auto
qed auto

lemma heights_wf_ge: "heights_wf h hs \<Longrightarrow> c \<in> set hs \<Longrightarrow> \<exists>k. c = Some k \<and> 2 \<le> unat k"
  by (induction h hs rule: heights_wf.induct) auto

lemma linked_level_two:
  "linked R \<Longrightarrow> \<forall>c\<in>set (map snd R). \<exists>k. c = Some k \<and> 2 \<le> unat k \<Longrightarrow>
    R = (n, Some h) # R' \<Longrightarrow> unat h = 2 \<Longrightarrow> ix_path n = [k, of_nat j] \<Longrightarrow> i < length R \<Longrightarrow>
    ix_path (fst (R ! i)) = [k, of_nat (j + i)] \<and> children_pathed (fst (R ! i))"
proof (induction R arbitrary: n h R' i j)
  case Nil
  then show ?case by simp
next
  case (Cons r R)
  show ?case
  proof (cases i)
    case 0
    with Cons.prems show ?thesis by simp
  next
    case (Suc i')
    with Cons.prems obtain m h' R2 where R: "R = (m, h') # R2" by (cases R) auto
    with Cons.prems(2) obtain h2 where h2: "h' = Some h2" "2 \<le> unat h2" by auto
    have m: "unat h2 = 2" "ix_path m = [k, of_nat (Suc j)]"
      using Cons.prems(1,3-5) R h2 bump_last_snoc [of "[k]" "of_nat j"] by (auto simp: add.commute)
    have "linked R" "\<forall>c\<in>set (map snd R). \<exists>k. c = Some k \<and> 2 \<le> unat k"
      using Cons.prems(1-3) by auto
    from Cons.IH [OF this _ m, of R2 i'] R h2 Cons.prems(6) Suc show ?thesis by simp
  qed
qed

lemma nest_paths:
  assumes "map (ix_path \<circ> fst) es = derive_paths_from_stackheights (map snd es) k"
    and "heights_wf 1 (map snd es)" and "\<forall>x\<in>set es. ix_inner (fst x) = []" and "i < length (nest es)"
  shows "ix_path (nest es ! i) = [k, of_nat i] \<and> children_pathed (nest es ! i)"
proof -
  obtain e es' where es: "es = e # es'" using assms(4) by (cases es) (simp_all add: nest_def)
  obtain n h where e: "e = (n, Some h)" and h: "2 \<le> unat h" "unat h \<le> 2" and wf: "heights_wf h (map snd es')"
    using assms(2) es by (cases e; cases "snd e") auto
  have n: "ix_path n = [k, 0]"
    and loop: "map (ix_path \<circ> fst) es' = derive_paths_loop (Some h) (map snd es') (ix_path n)"
    using assms(1) es e by (auto simp: derive_paths_from_stackheights_def Let_def)
  from nest_list_pathed [OF loop wf] n h assms(3) es e obtain n' R where
    R: "nest_list es = (n', Some h) # R" "ix_path n' = ix_path n" "linked ((n', Some h) # R)" by auto
  have all2: "\<forall>c\<in>set (map snd (nest_list es)). \<exists>k. c = Some k \<and> 2 \<le> unat k"
    using nest_list_heights [of es] heights_wf_ge [OF assms(2)] by blast
  have "i < length (nest_list es)" using assms(4) by (simp add: nest_eq)
  moreover from this have "ix_path (fst (nest_list es ! i)) = [k, of_nat (0 + i)] \<and> children_pathed (fst (nest_list es ! i))"
    using all2 R n h by (intro linked_level_two [where R' = R and n = n' and h = h]) simp_all
  ultimately show ?thesis by (simp add: nest_eq)
qed

end
