(* ===== verification/Log_Messages.thy ===== *)
theory Log_Messages
  imports Instruction_Tree
begin

text \<open>
  Assigning the log lines of a transaction to its instructions
  (\<open>crates/core/src/log_messages.rs\<close>, and the log methods of \<open>instruction.rs\<close>). A log line is
  the list of its bytes; every separator the code looks for is ASCII, so splitting bytes and
  splitting characters agree. Parsing a public key (base58) is an argument. Depth counters
  count log lines and are natural numbers here.
\<close>

subsection \<open>String operations\<close>

definition strip_prefix :: "string \<Rightarrow> string \<Rightarrow> string option" where
  "strip_prefix p s = (if take (length p) s = p then Some (drop (length p) s) else None)"

definition split_once :: "char \<Rightarrow> string \<Rightarrow> (string \<times> string) option" where
  "split_once c s =
     (case dropWhile (\<lambda>x. x \<noteq> c) s of
        [] \<Rightarrow> None
      | _ # t \<Rightarrow> Some (takeWhile (\<lambda>x. x \<noteq> c) s, t))"

fun str_contains :: "string \<Rightarrow> string \<Rightarrow> bool" where
  "str_contains p [] = (p = [])"
| "str_contains p (c # s) = (take (length p) (c # s) = p \<or> str_contains p s)"

lemma strip_prefix_append [simp]: "strip_prefix p (p @ s) = Some s"
  by (simp add: strip_prefix_def)

lemma strip_prefix_eq_Some: "strip_prefix p s = Some t \<longleftrightarrow> s = p @ t"
  by (auto simp: strip_prefix_def) (metis append_take_drop_id)

lemma split_once_append: "c \<notin> set s \<Longrightarrow> split_once c (s @ c # t) = Some (s, t)"
proof -
  assume c: "c \<notin> set s"
  have "takeWhile (\<lambda>x. x \<noteq> c) (s @ c # t) = s" "dropWhile (\<lambda>x. x \<noteq> c) (s @ c # t) = c # t"
    using c by (induction s) auto
  then show ?thesis by (simp add: split_once_def)
qed

lemma split_once_eq_Some: "split_once c s = Some (a, b) \<longleftrightarrow> s = a @ c # b \<and> c \<notin> set a"
proof
  assume "split_once c s = Some (a, b)"
  then have ab: "a = takeWhile (\<lambda>x. x \<noteq> c) s" "dropWhile (\<lambda>x. x \<noteq> c) s = c # b"
    by (auto simp: split_once_def dest: hd_dropWhile split: list.splits)
       (metis (mono_tags, lifting) hd_dropWhile list.distinct(1) list.sel(1))
  then show "s = a @ c # b \<and> c \<notin> set a"
    by (metis (mono_tags, lifting) set_takeWhileD takeWhile_dropWhile_id)
qed (simp add: split_once_append)

subsection \<open>Classifying a line\<close>

datatype log_line_kind = Invoke | Close | Other

definition classify_log_line :: "string \<Rightarrow> log_line_kind" where
  "classify_log_line line =
     (case strip_prefix ''Program '' line of
        None \<Rightarrow> Other
      | Some rest \<Rightarrow>
          (case split_once CHR '' '' rest of
             None \<Rightarrow> Other
           | Some (second, tail) \<Rightarrow>
               if second \<in> {''log:'', ''data:'', ''return:''} then Other
               else if is_some_and (strip_prefix ''invoke ['' tail)
                         (\<lambda>after_invoke.
                            let digits = takeWhile (\<lambda>c. c \<noteq> CHR '']'') after_invoke
                            in digits \<noteq> [] \<and> list_all is_ascii_digit digits)
               then Invoke
               else if tail = ''success'' \<or> strip_prefix ''failed:'' tail \<noteq> None then Close
               else Other))"

definition is_outer_invoke :: "string \<Rightarrow> bool" where
  "is_outer_invoke line \<longleftrightarrow> classify_log_line line = Invoke \<and> str_contains '' invoke [1]'' line"

definition invoked_program :: "(string \<Rightarrow> pubkey option) \<Rightarrow> string \<Rightarrow> pubkey option" where
  "invoked_program parse line =
     (case strip_prefix ''Program '' line of
        None \<Rightarrow> None
      | Some rest \<Rightarrow>
          (case split_once CHR '' '' rest of
             None \<Rightarrow> None
           | Some (second, _) \<Rightarrow> parse second))"

subsection \<open>Assigning ranges\<close>

text \<open>
  The loop of \<open>assign_logs_recursive\<close>: the depth, the position, the inner instructions that
  have no invoke line yet and those that had one. It returns the position behind the last
  line it consumed and the inner instructions.
\<close>

function assign_logs_loop ::
  "string list \<Rightarrow> nat \<Rightarrow> nat \<Rightarrow> 'x instruction_update list \<Rightarrow> 'x instruction_update list \<Rightarrow>
   nat \<times> 'x instruction_update list" where
  "assign_logs_loop logs depth pos todo did =
     (if pos < length logs \<and> 0 < depth then
        (case classify_log_line (logs ! pos) of
           Invoke \<Rightarrow>
             (case todo of
                child # rest \<Rightarrow>
                  (case assign_logs_loop logs 1 (pos + 1) (ix_inner child) [] of
                     (pos', inner) \<Rightarrow>
                       assign_logs_loop logs depth pos' rest
                         (did @ [with_log_range (pos, pos') (with_inner inner child)]))
              | [] \<Rightarrow> assign_logs_loop logs (depth + 1) (pos + 1) [] did)
         | Close \<Rightarrow>
             if depth - 1 = 0 then (pos + 1, did @ todo)
             else assign_logs_loop logs (depth - 1) (pos + 1) todo did
         | Other \<Rightarrow> assign_logs_loop logs depth (pos + 1) todo did)
      else (pos, did @ todo))"
  by pat_completeness auto
termination
  by (relation "measures [\<lambda>(logs, depth, pos, todo, did). size_list size todo,
      \<lambda>(logs, depth, pos, todo, did). length logs - pos]")
     (auto simp: size_inner less_SucI trans_less_add1)

declare assign_logs_loop.simps [simp del]

definition assign_logs_recursive ::
  "string list \<Rightarrow> nat \<Rightarrow> 'x instruction_update \<Rightarrow> nat \<times> 'x instruction_update" where
  "assign_logs_recursive logs invoke_pos ix =
     (case assign_logs_loop logs 1 (invoke_pos + 1) (ix_inner ix) [] of
        (pos, inner) \<Rightarrow> (pos, with_log_range (invoke_pos, pos) (with_inner inner ix)))"

text \<open>\<open>(from..to).find(pred)\<close>\<close>

definition find_from :: "(string \<Rightarrow> bool) \<Rightarrow> nat \<Rightarrow> string list \<Rightarrow> nat option" where
  "find_from P from logs = find (\<lambda>pos. P (logs ! pos)) [from..<length logs]"

fun assign_outer ::
  "(string \<Rightarrow> pubkey option) \<Rightarrow> string list \<Rightarrow> nat \<Rightarrow> 'x instruction_update list \<Rightarrow> 'x instruction_update list" where
  "assign_outer parse logs cursor [] = []"
| "assign_outer parse logs cursor (ix # ixs) =
     (case find_from is_outer_invoke cursor logs of
        None \<Rightarrow> ix # ixs
      | Some pos \<Rightarrow>
          if invoked_program parse (logs ! pos) \<noteq> Some (ix_program ix) then
            ix # assign_outer parse logs cursor ixs
          else
            (case assign_logs_recursive logs pos ix of
               (cursor', ix') \<Rightarrow> ix' # assign_outer parse logs cursor' ixs))"

definition assign_log_messages ::
  "(string \<Rightarrow> pubkey option) \<Rightarrow> string list \<Rightarrow> 'x instruction_update list \<Rightarrow> 'x instruction_update list" where
  "assign_log_messages parse logs outer =
     (if logs = [] \<or> outer = [] then outer else assign_outer parse logs 0 outer)"

subsection \<open>Reading logs\<close>

text \<open>The slice \<open>&logs[a..b]\<close> panics when the range is not one of the log.\<close>

definition log_messages :: "'x instruction_update \<Rightarrow> ('e, string list) outcome" where
  "log_messages ix =
     (let logs = sh_log_messages (ix_shared ix); (a, b) = ix_log_range ix
      in if a \<le> b \<and> b \<le> length logs then Ok (take (b - a) (drop a logs)) else Panic)"

fun direct_lines :: "nat \<Rightarrow> string list \<Rightarrow> string list" where
  "direct_lines depth [] = []"
| "direct_lines depth (line # lines) =
     (case classify_log_line line of
        Invoke \<Rightarrow> (if depth + 1 = 1 then [line] else []) @ direct_lines (depth + 1) lines
      | Close \<Rightarrow> (if depth = 1 then [line] else []) @ direct_lines (depth - 1) lines
      | Other \<Rightarrow> (if depth = 1 then [line] else []) @ direct_lines depth lines)"

definition direct_log_messages :: "'x instruction_update \<Rightarrow> ('e, string list) outcome" where
  "direct_log_messages ix = bind_outcome (log_messages ix) (\<lambda>lines. Ok (direct_lines 0 lines))"

fun split_loop :: "nat \<Rightarrow> string list \<Rightarrow> string list list \<Rightarrow> string list \<Rightarrow> string list list" where
  "split_loop depth current result [] = (if current \<noteq> [] then result @ [current] else result)"
| "split_loop depth current result (line # lines) =
     (if depth = 0 \<and> is_outer_invoke line then
        split_loop 1 [line] (if current \<noteq> [] then result @ [current] else result) lines
      else if 0 < depth then
        split_loop
          (case classify_log_line line of Invoke \<Rightarrow> depth + 1 | Close \<Rightarrow> depth - 1 | Other \<Rightarrow> depth)
          (current @ [line]) result lines
      else split_loop depth current result lines)"

definition split_logs_by_outer_ix :: "string list \<Rightarrow> string list list" where
  "split_logs_by_outer_ix logs = split_loop 0 [] [] logs"

subsection \<open>What the classification means\<close>

definition reserved_tags :: "string set" where
  "reserved_tags = {''log:'', ''data:'', ''return:''}"

definition program_line :: "string \<Rightarrow> string \<Rightarrow> string \<Rightarrow> bool" where
  "program_line line second tail \<longleftrightarrow>
     line = ''Program '' @ second @ '' '' @ tail \<and> CHR '' '' \<notin> set second \<and> second \<notin> reserved_tags"

lemma classify_program_line:
  "classify_log_line line \<noteq> Other \<Longrightarrow> \<exists>second tail. program_line line second tail"
proof -
  assume c: "classify_log_line line \<noteq> Other"
  then obtain rest where rest: "strip_prefix ''Program '' line = Some rest"
    by (auto simp: classify_log_line_def split: option.splits)
  with c obtain second tail where st: "split_once CHR '' '' rest = Some (second, tail)"
    by (auto simp: classify_log_line_def split: option.splits)
  with c rest have "second \<notin> reserved_tags"
    by (auto simp: classify_log_line_def reserved_tags_def)
  with rest st show ?thesis
    by (intro exI [of _ second] exI [of _ tail]) (simp add: program_line_def strip_prefix_eq_Some split_once_eq_Some)
qed

lemma classify_of_program_line:
  assumes "program_line line second tail"
  shows "classify_log_line line =
    (if is_some_and (strip_prefix ''invoke ['' tail)
          (\<lambda>after_invoke. let digits = takeWhile (\<lambda>c. c \<noteq> CHR '']'') after_invoke
             in digits \<noteq> [] \<and> list_all is_ascii_digit digits) then Invoke
     else if tail = ''success'' \<or> strip_prefix ''failed:'' tail \<noteq> None then Close
     else Other)"
  using assms split_once_append [of "CHR '' ''" second tail]
  by (auto simp: classify_log_line_def program_line_def reserved_tags_def strip_prefix_def)

text \<open>
  C19. A line is structural only by its shape: an invoke line is \<open>Program <id> invoke [<digits>\<close>
  followed by nothing or a bracket, a close line is \<open>Program <id> success\<close> or
  \<open>Program <id> failed:...\<close>, where the id is one word that is none of the runtime's tags; so
  whatever a program logs, its \<open>Program log:\<close>, \<open>Program data:\<close> and \<open>Program return:\<close> lines are
  never structural.
\<close>

theorem classify_log_line_spec:
  "(classify_log_line line = Invoke \<longleftrightarrow>
      (\<exists>second digits rest. program_line line second (''invoke ['' @ digits @ rest) \<and> digits \<noteq> [] \<and>
         list_all is_ascii_digit digits \<and> (rest = [] \<or> hd rest = CHR '']''))) \<and>
   (classify_log_line line = Close \<longleftrightarrow>
      (\<exists>second. program_line line second ''success'' \<or>
         (\<exists>rest. program_line line second (''failed:'' @ rest)))) \<and>
   classify_log_line (''Program log: '' @ payload) = Other \<and>
   classify_log_line (''Program data: '' @ payload) = Other \<and>
   classify_log_line (''Program return: '' @ payload) = Other"
proof (intro conjI iffI)
  assume c: "classify_log_line line = Invoke"
  then obtain second tail where pl: "program_line line second tail"
    using classify_program_line by fastforce
  obtain after where after: "tail = ''invoke ['' @ after"
    and d: "takeWhile (\<lambda>c. c \<noteq> CHR '']'') after \<noteq> []"
      "list_all is_ascii_digit (takeWhile (\<lambda>c. c \<noteq> CHR '']'') after)"
    using c unfolding classify_of_program_line [OF pl]
    by (auto simp: is_some_and_iff strip_prefix_eq_Some Let_def split: if_splits)
  have "after = takeWhile (\<lambda>c. c \<noteq> CHR '']'') after @ dropWhile (\<lambda>c. c \<noteq> CHR '']'') after" by simp
  moreover have "dropWhile (\<lambda>c. c \<noteq> CHR '']'') after = [] \<or> hd (dropWhile (\<lambda>c. c \<noteq> CHR '']'') after) = CHR '']''"
    using hd_dropWhile [of "\<lambda>c. c \<noteq> CHR '']''" after] by blast
  ultimately show "\<exists>second digits rest. program_line line second (''invoke ['' @ digits @ rest) \<and> digits \<noteq> [] \<and>
      list_all is_ascii_digit digits \<and> (rest = [] \<or> hd rest = CHR '']'')"
    using pl after d by metis
next
  assume "\<exists>second digits rest. program_line line second (''invoke ['' @ digits @ rest) \<and> digits \<noteq> [] \<and>
      list_all is_ascii_digit digits \<and> (rest = [] \<or> hd rest = CHR '']'')"
  then obtain second digits rest where pl: "program_line line second (''invoke ['' @ digits @ rest)"
    and d: "digits \<noteq> []" "list_all is_ascii_digit digits" "rest = [] \<or> hd rest = CHR '']''" by blast
  have "takeWhile (\<lambda>c. c \<noteq> CHR '']'') (digits @ rest) = digits"
    using d(2,3) by (induction digits) (auto simp: is_ascii_digit_def takeWhile_eq_Nil_iff)
  then show "classify_log_line line = Invoke"
    unfolding classify_of_program_line [OF pl] using d(1,2) by (simp only: strip_prefix_append) simp
next
  assume c: "classify_log_line line = Close"
  then obtain second tail where pl: "program_line line second tail"
    using classify_program_line by fastforce
  have "tail = ''success'' \<or> (\<exists>rest. tail = ''failed:'' @ rest)"
    using c unfolding classify_of_program_line [OF pl]
    by (auto simp: strip_prefix_eq_Some split: if_splits)
  with pl show "\<exists>second. program_line line second ''success'' \<or>
      (\<exists>rest. program_line line second (''failed:'' @ rest))" by blast
next
  assume "\<exists>second. program_line line second ''success'' \<or> (\<exists>rest. program_line line second (''failed:'' @ rest))"
  then obtain second where "program_line line second ''success'' \<or>
      (\<exists>rest. program_line line second (''failed:'' @ rest))" by blast
  then show "classify_log_line line = Close"
    by (elim disjE exE) (simp_all add: classify_of_program_line strip_prefix_def)
qed (simp_all add: classify_log_line_def strip_prefix_def split_once_def)

subsection \<open>Ranges stay inside the log\<close>

definition ranges_in :: "string list \<Rightarrow> 'x instruction_update \<Rightarrow> bool" where
  "ranges_in logs n \<longleftrightarrow>
     (\<forall>m\<in>set (preorder n). fst (ix_log_range m) \<le> snd (ix_log_range m) \<and> snd (ix_log_range m) \<le> length logs)"

lemma ranges_in_unfold:
  "ranges_in logs n \<longleftrightarrow> fst (ix_log_range n) \<le> snd (ix_log_range n) \<and> snd (ix_log_range n) \<le> length logs \<and>
    list_all (ranges_in logs) (ix_inner n)"
  by (auto simp: ranges_in_def preorder_unfold [of n] list_all_iff)

lemma assign_logs_loop_bounds:
  "assign_logs_loop logs depth pos todo did = (pos', inner) \<Longrightarrow> pos \<le> length logs \<Longrightarrow>
    list_all (ranges_in logs) todo \<Longrightarrow> list_all (ranges_in logs) did \<Longrightarrow>
    pos \<le> pos' \<and> pos' \<le> length logs \<and> list_all (ranges_in logs) inner"
proof (induction logs depth pos todo did arbitrary: pos' inner rule: assign_logs_loop.induct)
  case (1 logs depth pos todo did)
  show ?case
  proof (cases "pos < length logs \<and> 0 < depth")
    case False
    then have "pos' = pos" "inner = did @ todo"
      using 1(6) assign_logs_loop.simps [of logs depth pos todo did] by auto
    with 1(7-9) show ?thesis by simp
  next
    case go: True
    note step = assign_logs_loop.simps [of logs depth pos todo did]
    show ?thesis
    proof (cases "classify_log_line (logs ! pos)")
      case Invoke
      show ?thesis
      proof (cases todo)
        case Nil
        with go Invoke 1(6) step have "assign_logs_loop logs (depth + 1) (pos + 1) [] did = (pos', inner)" by simp
        from 1(1) [OF go Invoke Nil this] go 1(9) show ?thesis by simp
      next
        case (Cons child rest)
        obtain p1 in1 where sub: "assign_logs_loop logs 1 (pos + 1) (ix_inner child) [] = (p1, in1)" by fastforce
        have child: "list_all (ranges_in logs) (ix_inner child)" using 1(8) Cons ranges_in_unfold [of logs child] by simp
        have b1: "pos + 1 \<le> p1" "p1 \<le> length logs" "list_all (ranges_in logs) in1"
          using 1(2) [OF go Invoke Cons sub] go child by auto
        have r: "assign_logs_loop logs depth p1 rest (did @ [with_log_range (pos, p1) (with_inner in1 child)]) = (pos', inner)"
          using go Invoke 1(6) step Cons sub by simp
        have "ranges_in logs (with_log_range (pos, p1) (with_inner in1 child))"
          using b1 by (subst ranges_in_unfold) simp
        with 1(3) [OF go Invoke Cons sub [symmetric] r] b1 1(8,9) Cons show ?thesis by simp
      qed
    next
      case Close
      show ?thesis
      proof (cases "depth - 1 = 0")
        case True
        with go Close 1(6) step have "pos' = pos + 1" "inner = did @ todo" by auto
        with go 1(8,9) show ?thesis by simp
      next
        case False
        with go Close 1(6) step have "assign_logs_loop logs (depth - 1) (pos + 1) todo did = (pos', inner)" by simp
        from 1(4) [OF go Close False this] go 1(8,9) show ?thesis by simp
      qed
    next
      case Other
      with go 1(6) step have "assign_logs_loop logs depth (pos + 1) todo did = (pos', inner)" by simp
      from 1(5) [OF go Other this] go 1(8,9) show ?thesis by simp
    qed
  qed
qed

lemma assign_logs_recursive_bounds:
  assumes "assign_logs_recursive logs pos ix = (pos', ix')" and "pos < length logs" and "ranges_in logs ix"
  shows "pos < pos' \<and> pos' \<le> length logs \<and> ranges_in logs ix'"
proof -
  obtain inner where l: "assign_logs_loop logs 1 (pos + 1) (ix_inner ix) [] = (pos', inner)"
    and ix': "ix' = with_log_range (pos, pos') (with_inner inner ix)"
    using assms(1) by (auto simp: assign_logs_recursive_def split: prod.splits)
  from assign_logs_loop_bounds [OF l] assms(2,3) ranges_in_unfold [of logs ix] show ?thesis
    by (auto simp: ix' ranges_in_unfold [of logs "with_log_range _ _"])
qed

lemma find_from_Some: "find_from P from logs = Some pos \<Longrightarrow> from \<le> pos \<and> pos < length logs \<and> P (logs ! pos)"
  by (auto simp: find_from_def find_Some_iff)

lemma assign_outer_bounds:
  "list_all (ranges_in logs) ixs \<Longrightarrow> list_all (ranges_in logs) (assign_outer parse logs cursor ixs)"
proof (induction parse logs cursor ixs rule: assign_outer.induct)
  case (2 parse logs cursor ix ixs)
  then show ?case
    using assign_logs_recursive_bounds [of logs _ ix] find_from_Some [of is_outer_invoke cursor logs]
    by (fastforce split: option.splits prod.splits)
qed simp

lemma assign_log_messages_bounds:
  "list_all (ranges_in logs) ixs \<Longrightarrow> list_all (ranges_in logs) (assign_log_messages parse logs ixs)"
  by (simp add: assign_log_messages_def assign_outer_bounds)


subsection \<open>Well-nested logs\<close>

text \<open>
  The log of an instruction as a runtime writes it: an invoke line, then lines of its own and
  the logs of the instructions it calls, in order, then a close line. The third argument
  collects the instruction's own lines.
\<close>

inductive logs_body :: "'x instruction_update list \<Rightarrow> string list \<Rightarrow> string list \<Rightarrow> bool"
  and log_of :: "'x instruction_update \<Rightarrow> string list \<Rightarrow> string list \<Rightarrow> bool" where
  body_nil: "logs_body [] [] []"
| body_other: "classify_log_line l = Other \<Longrightarrow> logs_body cs ls own \<Longrightarrow> logs_body cs (l # ls) (l # own)"
| body_child: "log_of c ls1 own1 \<Longrightarrow> logs_body cs ls2 own \<Longrightarrow> logs_body (c # cs) (ls1 @ ls2) own"
| log_of: "classify_log_line i = Invoke \<Longrightarrow> classify_log_line z = Close \<Longrightarrow>
    logs_body (ix_inner n) b own \<Longrightarrow> log_of n (i # b @ [z]) (i # own @ [z])"

definition log_slice :: "'a list \<Rightarrow> nat \<times> nat \<Rightarrow> 'a list" where
  "log_slice xs r = take (snd r - fst r) (drop (fst r) xs)"

definition logged :: "string list \<Rightarrow> 'x instruction_update \<Rightarrow> bool" where
  "logged logs n \<longleftrightarrow> (\<forall>m\<in>set (preorder n). \<exists>own. log_of m (log_slice logs (ix_log_range m)) own)"

lemma logged_unfold:
  "logged logs n \<longleftrightarrow> (\<exists>own. log_of n (log_slice logs (ix_log_range n)) own) \<and> list_all (logged logs) (ix_inner n)"
  by (auto simp: logged_def preorder_unfold [of n] list_all_iff)

lemma log_of_head: "log_of n ls own \<Longrightarrow> \<exists>i r. ls = i # r \<and> classify_log_line i = Invoke"
  by (auto elim: log_of.cases)

lemma drop_Cons_nth: "drop pos logs = l # r \<Longrightarrow> pos < length logs \<and> logs ! pos = l \<and> drop (Suc pos) logs = r"
  by (metis drop_Suc drop_eq_Nil linorder_not_le list.distinct(1) list.sel(3) nth_via_drop tl_drop)

lemma loop_steps:
  assumes "drop pos logs = l # r"
  shows "classify_log_line l = Other \<Longrightarrow> assign_logs_loop logs 1 pos cs did = assign_logs_loop logs 1 (pos + 1) cs did"
    and "classify_log_line l = Close \<Longrightarrow> assign_logs_loop logs 1 pos cs did = (pos + 1, did @ cs)"
    and "classify_log_line l = Invoke \<Longrightarrow> assign_logs_recursive logs pos c = (p, c') \<Longrightarrow>
      assign_logs_loop logs 1 pos (c # cs) did = assign_logs_loop logs 1 p cs (did @ [c'])"
proof -
  note l = drop_Cons_nth [OF assms]
  show "classify_log_line l = Other \<Longrightarrow> assign_logs_loop logs 1 pos cs did = assign_logs_loop logs 1 (pos + 1) cs did"
    using l by (subst assign_logs_loop.simps) simp
  show "classify_log_line l = Close \<Longrightarrow> assign_logs_loop logs 1 pos cs did = (pos + 1, did @ cs)"
    using l by (subst assign_logs_loop.simps) simp
  show "classify_log_line l = Invoke \<Longrightarrow> assign_logs_recursive logs pos c = (p, c') \<Longrightarrow>
      assign_logs_loop logs 1 pos (c # cs) did = assign_logs_loop logs 1 p cs (did @ [c'])"
    using l by (subst assign_logs_loop.simps) (auto simp: assign_logs_recursive_def split: prod.splits)
qed

lemma assign_well_nested:
  fixes cs :: "'x instruction_update list" and n :: "'x instruction_update"
  shows "logs_body cs ls own \<Longrightarrow> drop pos logs = ls @ z # post \<Longrightarrow> classify_log_line z = Close \<Longrightarrow>
     \<exists>cs'. assign_logs_loop logs 1 pos cs did = (pos + length ls + 1, did @ cs') \<and>
       list_all (logged logs) cs' \<and> logs_body cs' ls own"
  and "log_of n ls' own' \<Longrightarrow> drop pos logs = ls' @ post \<Longrightarrow>
     \<exists>n'. assign_logs_recursive logs pos n = (pos + length ls', n') \<and> logged logs n' \<and>
       ix_log_range n' = (pos, pos + length ls') \<and> log_of n' ls' own'"
proof (induction arbitrary: pos logs did z post and pos logs post rule: logs_body_log_of.inducts)
  case body_nil
  then have "drop pos logs = z # post" by simp
  from loop_steps(2) [OF this body_nil(2), of "[]" did] show ?case
    by (intro exI [of _ "[]"]) (simp add: logs_body_log_of.body_nil)
next
  case (body_other l cs ls own)
  have dr: "drop pos logs = l # ls @ z # post" using body_other(4) by simp
  have "drop (pos + 1) logs = ls @ z # post" using drop_Cons_nth [OF dr] by simp
  from body_other(3) [OF this body_other(5), of did] obtain cs' where
    "assign_logs_loop logs 1 (pos + 1) cs did = (pos + 1 + length ls + 1, did @ cs')"
    "list_all (logged logs) cs'" "logs_body cs' ls own" by blast
  then show ?case
    using loop_steps(1) [OF dr body_other(1), of cs did] logs_body_log_of.body_other [OF body_other(1)] by auto
next
  case (body_child c ls1 own1 cs ls2 own)
  have dr: "drop pos logs = ls1 @ ls2 @ z # post" using body_child(5) by simp
  from body_child(3) [OF dr] obtain c' where
    c': "assign_logs_recursive logs pos c = (pos + length ls1, c')" "logged logs c'" "log_of c' ls1 own1" by blast
  have "drop (pos + length ls1) logs = ls2 @ z # post" using dr by (metis append_eq_conv_conj drop_drop add.commute)
  from body_child(4) [OF this body_child(6), of "did @ [c']"] obtain cs' where
    cs': "assign_logs_loop logs 1 (pos + length ls1) cs (did @ [c']) = (pos + length ls1 + length ls2 + 1, (did @ [c']) @ cs')"
    "list_all (logged logs) cs'" "logs_body cs' ls2 own" by blast
  from log_of_head [OF body_child(1)] obtain i r where i: "ls1 = i # r" "classify_log_line i = Invoke" by blast
  have "assign_logs_loop logs 1 pos (c # cs) did = (pos + length (ls1 @ ls2) + 1, did @ c' # cs')"
    using loop_steps(3) [OF _ i(2) c'(1), of "r @ ls2 @ z # post" cs did] dr i(1) cs'(1) by simp
  moreover have "logs_body (c' # cs') (ls1 @ ls2) own" by (rule logs_body_log_of.body_child [OF c'(3) cs'(3)])
  ultimately show ?case using c'(2) cs'(2) by (intro exI [of _ "c' # cs'"]) simp
next
  case (log_of i z n b own)
  have dr: "drop pos logs = i # b @ z # post" using log_of(5) by simp
  have "drop (pos + 1) logs = b @ z # post" using drop_Cons_nth [OF dr] by simp
  from log_of(4) [OF this log_of(2), of "[]"] obtain cs' where
    cs': "assign_logs_loop logs 1 (pos + 1) (ix_inner n) [] = (pos + length (i # b @ [z]), cs')"
    "list_all (logged logs) cs'" "logs_body cs' b own" by auto
  let ?n = "with_log_range (pos, pos + length (i # b @ [z])) (with_inner cs' n)"
  have n: "log_of ?n (i # b @ [z]) (i # own @ [z])"
    using log_of(1,2) cs'(3) by (intro logs_body_log_of.log_of) simp_all
  moreover have "log_slice logs (ix_log_range ?n) = i # b @ [z]" using dr by (simp add: log_slice_def)
  ultimately have "logged logs ?n" using cs'(2) by (subst logged_unfold) auto
  with n cs'(1) show ?case by (auto simp: assign_logs_recursive_def)
qed


subsection \<open>Transactions\<close>

text \<open>
  The log of a transaction as blocks, one for each outer instruction that logs; a precompile
  has none, and the next block does not name its program.
\<close>

fun first_line :: "string list option list \<Rightarrow> string option" where
  "first_line [] = None"
| "first_line (None # bs) = first_line bs"
| "first_line (Some b # bs) = Some (hd b)"

fun txn_log :: "(string \<Rightarrow> pubkey option) \<Rightarrow> 'x instruction_update list \<Rightarrow> string list option list \<Rightarrow> bool" where
  "txn_log parse [] [] = True"
| "txn_log parse (ix # ixs) (Some b # bs) =
     ((\<exists>own. log_of ix b own) \<and> is_outer_invoke (hd b) \<and> invoked_program parse (hd b) = Some (ix_program ix) \<and>
      txn_log parse ixs bs)"
| "txn_log parse (ix # ixs) (None # bs) =
     (is_none_or (first_line bs) (\<lambda>l. invoked_program parse l \<noteq> Some (ix_program ix)) \<and> txn_log parse ixs bs)"
| "txn_log parse _ _ = False"

abbreviation block_lines :: "string list option list \<Rightarrow> string list" where
  "block_lines bs \<equiv> concat (map (\<lambda>b. unwrap_or b []) bs)"

lemma txn_log_first:
  "txn_log parse ixs bs \<Longrightarrow>
    (case first_line bs of
       None \<Rightarrow> block_lines bs = []
     | Some l \<Rightarrow> \<exists>r. block_lines bs = l # r \<and> is_outer_invoke l)"
proof (induction parse ixs bs rule: txn_log.induct)
  case (2 parse ix ixs b bs)
  then show ?case using log_of_head by fastforce
qed (auto split: option.splits)

lemma find_from_here:
  "drop pos logs = l # r \<Longrightarrow> P l \<Longrightarrow> find_from P pos logs = Some pos"
  using drop_Cons_nth [of pos logs l r] by (simp add: find_from_def upt_conv_Cons)

lemma find_from_end: "drop pos logs = [] \<Longrightarrow> find_from P pos logs = None"
  by (simp add: find_from_def)

lemma assign_outer_logged:
  "txn_log parse ixs bs \<Longrightarrow> drop pos logs = block_lines bs \<Longrightarrow>
    list_all2 (\<lambda>(ix, b) ix'. case b of
        None \<Rightarrow> ix' = ix
      | Some lines \<Rightarrow> log_slice logs (ix_log_range ix') = lines \<and> logged logs ix') (zip ixs bs) (assign_outer parse logs pos ixs)"
proof (induction parse ixs bs arbitrary: pos rule: txn_log.induct)
  case (2 parse ix ixs b bs)
  then obtain own where b: "log_of ix b own" by auto
  have dr: "drop pos logs = b @ block_lines bs" using 2(3) by simp
  from assign_well_nested(2) [OF b dr] obtain ix' where
    ix': "assign_logs_recursive logs pos ix = (pos + length b, ix')" "logged logs ix'"
    "ix_log_range ix' = (pos, pos + length b)" by blast
  from log_of_head [OF b] obtain i r where i: "b = i # r" by blast
  with dr have "drop pos logs = i # r @ block_lines bs" by simp
  note here = drop_Cons_nth [OF this] find_from_here [OF this, of is_outer_invoke]
  have "drop (pos + length b) logs = block_lines bs" using dr by (metis append_eq_conv_conj drop_drop add.commute)
  from 2(1) [OF _ this] 2(2) here i ix' dr show ?case by (auto simp: log_slice_def)
next
  case (3 parse ix ixs bs)
  have dr: "drop pos logs = block_lines bs" using 3(3) by simp
  have IH: "list_all2 (\<lambda>(ix, b) ix'. case b of
        None \<Rightarrow> ix' = ix
      | Some lines \<Rightarrow> log_slice logs (ix_log_range ix') = lines \<and> logged logs ix') (zip ixs bs) (assign_outer parse logs pos ixs)"
    using 3(1) [OF _ dr] 3(2) by simp
  show ?case
  proof (cases "first_line bs")
    case None
    then have "drop pos logs = []" using txn_log_first [of parse ixs bs] 3(2) dr by simp
    note none = find_from_end [OF this, of is_outer_invoke]
    then have "assign_outer parse logs pos ixs = ixs" by (cases ixs) simp_all
    with IH none show ?thesis by simp
  next
    case (Some l)
    then obtain r where l: "drop pos logs = l # r" "is_outer_invoke l"
      using txn_log_first [of parse ixs bs] 3(2) dr by auto
    with 3(2) Some have "assign_outer parse logs pos (ix # ixs) = ix # assign_outer parse logs pos ixs"
      using find_from_here [OF l(1), of is_outer_invoke] drop_Cons_nth [OF l(1)] by simp
    with IH show ?thesis by simp
  qed
qed simp_all

text \<open>
  C21. On a well-nested log every instruction gets exactly its own lines: an outer instruction
  the block from its invoke line to its close line, every inner instruction of it the part of
  that block that is its log; an outer instruction that logs nothing keeps its empty range.
\<close>

theorem assign_log_messages_exact:
  assumes "txn_log parse ixs bs"
  shows "list_all2 (\<lambda>(ix, b) ix'. case b of
        None \<Rightarrow> ix' = ix
      | Some lines \<Rightarrow> log_slice (block_lines bs) (ix_log_range ix') = lines \<and> logged (block_lines bs) ix')
    (zip ixs bs) (assign_log_messages parse (block_lines bs) ixs)"
proof -
  have "assign_log_messages parse logs ixs = assign_outer parse logs 0 ixs" for logs
    by (cases ixs) (auto simp: assign_log_messages_def find_from_def)
  then show ?thesis using assign_outer_logged [OF assms, of 0 "block_lines bs"] by simp
qed

subsection \<open>Splitting and direct lines\<close>

lemma split_loop_nested:
  fixes cs :: "'x instruction_update list" and n :: "'x instruction_update"
  shows "logs_body cs ls own \<Longrightarrow> 0 < d \<Longrightarrow>
      split_loop d current result (ls @ rest) = split_loop d (current @ ls) result rest"
    and "log_of n ls' own' \<Longrightarrow> 0 < d \<Longrightarrow>
      split_loop d current result (ls' @ rest) = split_loop d (current @ ls') result rest"
  by (induction arbitrary: d current result rest and d current result rest rule: logs_body_log_of.inducts) simp_all

text \<open>
  C20. \<open>split_logs_by_outer_ix\<close> recovers the blocks: the log of outer instructions, each a
  well-nested block that starts with an \<open>invoke [1]\<close> line, is split into exactly these blocks.
\<close>

theorem split_logs_roundtrip:
  fixes ixs :: "'x instruction_update list"
  assumes "list_all2 (\<lambda>ix b. (\<exists>own. log_of ix b own) \<and> is_outer_invoke (hd b)) ixs bs"
  shows "split_logs_by_outer_ix (concat bs) = bs"
proof -
  have "split_loop 0 current result (concat bs) = (if current \<noteq> [] then result @ [current] else result) @ bs"
    for current result
    using assms
  proof (induction ixs bs arbitrary: current result rule: list_all2_induct)
    case (Cons ix ixs b bs)
    from Cons(1) obtain own where "log_of ix b own" by blast
    then obtain i z m own' where b: "b = i # m @ [z]" "classify_log_line z = Close" "logs_body (ix_inner ix) m own'"
      by (auto elim: log_of.cases)
    have "split_loop 0 current result (concat (b # bs)) =
        split_loop 1 [i] (if current \<noteq> [] then result @ [current] else result) (m @ z # concat bs)"
      using Cons(1) b(1) by simp
    also have "\<dots> = split_loop 0 b (if current \<noteq> [] then result @ [current] else result) (concat bs)"
      using split_loop_nested(1) [OF b(3), of 1] b(1,2) by simp
    finally show ?case using Cons(3) [of b "if current \<noteq> [] then result @ [current] else result"] b(1) by simp
  qed simp
  from this [of "[]" "[]"] show ?thesis by (simp add: split_logs_by_outer_ix_def)
qed

lemma direct_lines_nested:
  fixes cs :: "'x instruction_update list" and n :: "'x instruction_update"
  shows "logs_body cs ls own \<Longrightarrow> direct_lines 1 (ls @ rest) = own @ direct_lines 1 rest \<and>
      (1 < d \<longrightarrow> direct_lines d (ls @ rest) = direct_lines d rest)"
    and "log_of n ls' own' \<Longrightarrow> 0 < d \<Longrightarrow> direct_lines d (ls' @ rest) = direct_lines d rest"
  by (induction arbitrary: d rest and d rest rule: logs_body_log_of.inducts) auto

text \<open>
  The direct log lines of an instruction are its invoke line, the lines of its own and its
  close line: the logs of the instructions it calls are skipped.
\<close>

theorem direct_log_messages_own:
  assumes "log_messages ix = (Ok ls :: ('e, string list) outcome)" and "log_of ix ls own"
  shows "direct_log_messages ix = (Ok own :: ('e, string list) outcome)"
proof -
  from assms(2) obtain i z m own' where
    b: "ls = i # m @ [z]" "own = i # own' @ [z]" "classify_log_line i = Invoke" "classify_log_line z = Close"
      "logs_body (ix_inner ix) m own'"
    by (auto elim: log_of.cases)
  with direct_lines_nested(1) [OF b(5), of "[z]"] assms(1) show ?thesis by (simp add: direct_log_messages_def)
qed


subsection \<open>An example log\<close>

definition demo_shared :: "nat instruction_shared" where
  "demo_shared =
     \<lparr>sh_slot = 1, sh_signature = [], sh_is_vote = False, sh_txn_index = 0, sh_err = None, sh_fee = 0,
      sh_pre_balances = [], sh_post_balances = [], sh_pre_token_balances = [], sh_post_token_balances = [],
      sh_log_messages = [''Program A invoke [1]'', ''Program log: B invoke [2]'', ''Program B invoke [2]'',
        ''Program B success'', ''Program A success''],
      sh_rewards = [], sh_compute_units_consumed = None, sh_recent_blockhash = [],
      sh_accounts = \<lparr>static_keys = [], dynamic_rw = [], dynamic_ro = []\<rparr>,
      sh_message_header = 0, sh_transaction_config = None\<rparr>"

definition demo_inner_ix :: "nat \<times> nat \<Rightarrow> nat instruction_update" where
  "demo_inner_ix r = InstructionUpdate (replicate 32 2) [] [] demo_shared [] [1, 0] r"

definition demo_ix :: "nat \<times> nat \<Rightarrow> nat \<times> nat \<Rightarrow> nat instruction_update" where
  "demo_ix r r' = InstructionUpdate (replicate 32 1) [] [] demo_shared [demo_inner_ix r'] [1] r"

definition demo_precompile :: "nat instruction_update" where
  "demo_precompile = InstructionUpdate (replicate 32 3) [] [] demo_shared [] [0] (0, 0)"

definition demo_parse :: "string \<Rightarrow> pubkey option" where
  "demo_parse s = (if s = ''A'' then Some (replicate 32 1) else if s = ''B'' then Some (replicate 32 2) else None)"

lemma demo_lines:
  "classify_log_line ''Program A invoke [1]'' = Invoke" "classify_log_line ''Program log: B invoke [2]'' = Other"
  "classify_log_line ''Program B invoke [2]'' = Invoke" "classify_log_line ''Program B success'' = Close"
  "classify_log_line ''Program A success'' = Close" "is_outer_invoke ''Program A invoke [1]''"
  "invoked_program demo_parse ''Program A invoke [1]'' = Some (replicate 32 1)"
  by code_simp+

lemma demo_log:
  "log_of (demo_ix r r') (sh_log_messages demo_shared)
    [''Program A invoke [1]'', ''Program log: B invoke [2]'', ''Program A success'']"
proof -
  have "log_of (demo_inner_ix r') (''Program B invoke [2]'' # [] @ [''Program B success''])
      (''Program B invoke [2]'' # [] @ [''Program B success''])"
    by (rule logs_body_log_of.log_of) (simp_all add: demo_lines demo_inner_ix_def logs_body_log_of.body_nil)
  from logs_body_log_of.body_child [OF this logs_body_log_of.body_nil]
  have "logs_body (ix_inner (demo_ix r r')) [''Program log: B invoke [2]'', ''Program B invoke [2]'', ''Program B success'']
      [''Program log: B invoke [2]'']"
    by (intro logs_body_log_of.body_other) (simp_all add: demo_lines demo_ix_def)
  from logs_body_log_of.log_of [OF demo_lines(1,5) this] show ?thesis by (simp add: demo_shared_def)
qed

lemma demo_txn_log:
  "txn_log demo_parse [demo_precompile, demo_ix (0, 0) (0, 0)] [None, Some (sh_log_messages demo_shared)]"
  using demo_log [of "(0, 0)" "(0, 0)"] demo_lines(6,7)
  by (auto simp: demo_shared_def demo_precompile_def demo_ix_def)

theorem assign_log_messages_exact_witness:
  "assign_log_messages demo_parse (sh_log_messages demo_shared) [demo_precompile, demo_ix (0, 0) (0, 0)] =
     [demo_precompile, demo_ix (0, 5) (2, 4)] \<and>
   logged (sh_log_messages demo_shared) (demo_ix (0, 5) (2, 4))"
proof -
  have eq: "assign_log_messages demo_parse (sh_log_messages demo_shared) [demo_precompile, demo_ix (0, 0) (0, 0)] =
      [demo_precompile, demo_ix (0, 5) (2, 4)]" by code_simp
  from assign_log_messages_exact [OF demo_txn_log] eq show ?thesis by simp
qed

theorem split_logs_roundtrip_witness:
  "split_logs_by_outer_ix (concat [sh_log_messages demo_shared, sh_log_messages demo_shared]) =
     [sh_log_messages demo_shared, sh_log_messages demo_shared]"
proof (rule split_logs_roundtrip)
  show "list_all2 (\<lambda>ix b. (\<exists>own. log_of ix b own) \<and> is_outer_invoke (hd b)) [demo_ix (0, 0) (0, 0), demo_ix (0, 0) (0, 0)]
      [sh_log_messages demo_shared, sh_log_messages demo_shared]"
  proof -
    have "\<exists>own. log_of (demo_ix (0, 0) (0, 0)) (sh_log_messages demo_shared) own" using demo_log by blast
    moreover have "is_outer_invoke (hd (sh_log_messages demo_shared))" by (simp add: demo_shared_def demo_lines)
    ultimately show ?thesis by simp
  qed
qed

theorem direct_log_messages_own_witness:
  "direct_log_messages (demo_ix (0, 5) (2, 4)) =
     (Ok [''Program A invoke [1]'', ''Program log: B invoke [2]'', ''Program A success''] :: (unit, string list) outcome)"
  by (rule direct_log_messages_own [OF _ demo_log])
     (simp add: log_messages_def demo_ix_def demo_shared_def)


end
