(* ===== verification/Instruction_Build.thy ===== *)
theory Instruction_Build
  imports Log_Messages
begin

text \<open>
  Building the instruction trees of a transaction (\<open>InstructionUpdate::build_from_txn\<close> and its
  helpers in \<open>crates/core/src/instruction.rs\<close>). The wire format is a set of records with the
  fields the code reads.
\<close>

subsection \<open>The wire format\<close>

record compiled_instruction =
  ci_program_id_index :: u32
  ci_accounts :: bytes
  ci_data :: bytes

record inner_instruction =
  ii_program_id_index :: u32
  ii_accounts :: bytes
  ii_data :: bytes
  ii_stack_height :: "u32 option"

record inner_instructions =
  iis_index :: u32
  iis_instructions :: "inner_instruction list"

record 'x message =
  msg_header :: "'x option"
  msg_account_keys :: "bytes list"
  msg_recent_blockhash :: bytes
  msg_instructions :: "compiled_instruction list"
  msg_versioned :: bool
  msg_address_table_lookups :: "'x list"
  msg_config :: "'x option"

record 'x transaction_status_meta =
  meta_err :: "'x option"
  meta_fee :: u64
  meta_pre_balances :: "u64 list"
  meta_post_balances :: "u64 list"
  meta_inner_instructions :: "inner_instructions list"
  meta_inner_instructions_none :: bool
  meta_log_messages :: "string list"
  meta_log_messages_none :: bool
  meta_pre_token_balances :: "'x list"
  meta_post_token_balances :: "'x list"
  meta_rewards :: "'x list"
  meta_loaded_writable_addresses :: "bytes list"
  meta_loaded_readonly_addresses :: "bytes list"
  meta_return_data :: "'x option"
  meta_return_data_none :: bool
  meta_compute_units_consumed :: "u64 option"
  meta_cost_units :: "u64 option"

record 'x proto_transaction =
  pt_signatures :: "bytes list"
  pt_message :: "'x message option"

record 'x transaction_info =
  info_signature :: bytes
  info_is_vote :: bool
  info_transaction :: "'x proto_transaction option"
  info_meta :: "'x transaction_status_meta option"
  info_index :: u64

record 'x transaction_update =
  txn_transaction :: "'x transaction_info option"
  txn_slot :: u64

datatype missing = TransactionInfo | Transaction | TransactionMeta | TransactionMessage | TransactionMessageHeader

fun missing_name :: "missing \<Rightarrow> string" where
  "missing_name TransactionInfo = ''transaction info''"
| "missing_name Transaction = ''transaction''"
| "missing_name TransactionMeta = ''transaction status and metadata''"
| "missing_name TransactionMessage = ''transaction message''"
| "missing_name TransactionMessageHeader = ''transaction message header''"

datatype parse_error =
    Missing missing
  | InvalidInnerInstructionIndex u32
  | AccountKey account_key_error

subsection \<open>Instructions\<close>

definition lift_key :: "(account_key_error, 'a) outcome \<Rightarrow> (parse_error, 'a) outcome" where
  "lift_key r = (case r of Ok x \<Rightarrow> Ok x | Err e \<Rightarrow> Err (AccountKey e) | Panic \<Rightarrow> Panic)"

definition build_instruction ::
  "'x instruction_shared \<Rightarrow> u32 \<Rightarrow> bytes \<Rightarrow> bytes \<Rightarrow> path \<Rightarrow> (parse_error, 'x instruction_update) outcome" where
  "build_instruction shared program_id_index accounts data path =
     bind_outcome (lift_key (account_keys_get (sh_accounts shared) (unat program_id_index))) (\<lambda>program.
     bind_outcome (lift_key (try_map (\<lambda>i. account_keys_get (sh_accounts shared) (unat i)) accounts)) (\<lambda>accs.
     Ok (InstructionUpdate program accs data shared [] path (0, 0))))"

definition build_outer_instruction ::
  "'x instruction_shared \<Rightarrow> compiled_instruction \<Rightarrow> path \<Rightarrow> (parse_error, 'x instruction_update) outcome" where
  "build_outer_instruction shared ins path =
     build_instruction shared (ci_program_id_index ins) (ci_accounts ins) (ci_data ins) path"

definition build_inner_instruction ::
  "'x instruction_shared \<Rightarrow> inner_instruction \<Rightarrow> path \<Rightarrow> (parse_error, 'x entry) outcome" where
  "build_inner_instruction shared ins path =
     bind_outcome (build_instruction shared (ii_program_id_index ins) (ii_accounts ins) (ii_data ins) path)
       (\<lambda>i. Ok (i, ii_stack_height ins))"

definition build_inner_list ::
  "'x instruction_shared \<Rightarrow> inner_instructions \<Rightarrow> (parse_error, 'x entry list) outcome" where
  "build_inner_list shared insn =
     (let heights = map ii_stack_height (iis_instructions insn);
          paths_at_index = derive_paths_from_stackheights heights (iis_index insn)
      in try_map (\<lambda>(ins, path). build_inner_instruction shared ins path)
           (zip (iis_instructions insn) paths_at_index))"

fun attach_inner_instructions ::
  "'x instruction_shared \<Rightarrow> inner_instructions list \<Rightarrow> 'x instruction_update list \<Rightarrow>
   (parse_error, 'x instruction_update list) outcome" where
  "attach_inner_instructions shared [] outer = Ok outer"
| "attach_inner_instructions shared (insn # insns) outer =
     (let i = unat (iis_index insn)
      in if length outer \<le> i then Err (InvalidInnerInstructionIndex (iis_index insn))
         else
           bind_outcome (build_inner_list shared insn) (\<lambda>inner.
             attach_inner_instructions shared insns
               (outer[i := with_inner (ix_inner (outer ! i) @ nest inner) (outer ! i)])))"

definition build_outer ::
  "'x instruction_shared \<Rightarrow> compiled_instruction list \<Rightarrow> (parse_error, 'x instruction_update list) outcome" where
  "build_outer shared instructions =
     try_map (\<lambda>(idx, i). build_outer_instruction shared i (new_single (of_nat idx)))
       (enumerate 0 instructions)"

definition ok_or :: "'a option \<Rightarrow> missing \<Rightarrow> (parse_error, 'a) outcome" where
  "ok_or x m = (case x of None \<Rightarrow> Err (Missing m) | Some y \<Rightarrow> Ok y)"

definition shared_of ::
  "u64 \<Rightarrow> 'x transaction_info \<Rightarrow> 'x transaction_status_meta \<Rightarrow> 'x message \<Rightarrow> 'x \<Rightarrow> 'x instruction_shared" where
  "shared_of slot info meta msg header =
     \<lparr>sh_slot = slot,
      sh_signature = info_signature info,
      sh_is_vote = info_is_vote info,
      sh_txn_index = info_index info,
      sh_err = meta_err meta,
      sh_fee = meta_fee meta,
      sh_pre_balances = meta_pre_balances meta,
      sh_post_balances = meta_post_balances meta,
      sh_pre_token_balances = meta_pre_token_balances meta,
      sh_post_token_balances = meta_post_token_balances meta,
      sh_log_messages = meta_log_messages meta,
      sh_rewards = meta_rewards meta,
      sh_compute_units_consumed = meta_compute_units_consumed meta,
      sh_recent_blockhash = msg_recent_blockhash msg,
      sh_accounts = \<lparr>static_keys = msg_account_keys msg,
                     dynamic_rw = meta_loaded_writable_addresses meta,
                     dynamic_ro = meta_loaded_readonly_addresses meta\<rparr>,
      sh_message_header = header,
      sh_transaction_config = msg_config msg\<rparr>"

definition build_from_txn ::
  "(string \<Rightarrow> pubkey option) \<Rightarrow> 'x transaction_update \<Rightarrow> (parse_error, 'x instruction_update list) outcome" where
  "build_from_txn parse txn =
     bind_outcome (ok_or (txn_transaction txn) TransactionInfo) (\<lambda>info.
     bind_outcome (ok_or (info_transaction info) Transaction) (\<lambda>transaction.
     bind_outcome (ok_or (info_meta info) TransactionMeta) (\<lambda>meta.
     bind_outcome (ok_or (pt_message transaction) TransactionMessage) (\<lambda>msg.
     bind_outcome (ok_or (msg_header msg) TransactionMessageHeader) (\<lambda>header.
     let shared = shared_of (txn_slot txn) info meta msg header in
     bind_outcome (build_outer shared (msg_instructions msg)) (\<lambda>outer.
     bind_outcome (attach_inner_instructions shared (meta_inner_instructions meta) outer) (\<lambda>outer'.
     Ok (assign_log_messages parse (sh_log_messages shared) outer'))))))))"

subsection \<open>Assigning logs keeps the tree\<close>

fun erase :: "'x instruction_update \<Rightarrow> 'x instruction_update" where
  "erase (InstructionUpdate p a d s xs q r) = InstructionUpdate p a d s (map erase xs) q (0, 0)"

lemma erase_unfold: "erase n = with_log_range (0, 0) (with_inner (map erase (ix_inner n)) n)"
  by (cases n) simp

lemma erase_fields [simp]:
  "ix_inner (erase n) = map erase (ix_inner n)" "ix_path (erase n) = ix_path n" "label (erase n) = label n"
  by (simp_all add: erase_unfold)

lemma preorder_erase: "preorder (erase n) = map erase (preorder n)"
  by (induction n rule: preorder.induct) (simp add: map_concat comp_def cong: map_cong)

lemma erase_labels: "erase n = erase m \<Longrightarrow> map label (preorder n) = map label (preorder m)"
proof -
  have "map label (preorder (erase k)) = map label (preorder k)" for k :: "'a instruction_update"
    by (simp add: preorder_erase comp_def)
  then show "erase n = erase m \<Longrightarrow> map label (preorder n) = map label (preorder m)" by metis
qed

lemma erase_children: "children_pathed (erase n) \<longleftrightarrow> children_pathed n"
  by (simp add: children_pathed_def preorder_erase)

lemma erase_assigned: "erase (with_log_range r (with_inner xs n)) = erase n \<longleftrightarrow> map erase xs = map erase (ix_inner n)"
  by (cases n) simp

lemma assign_logs_loop_erase:
  "map erase (snd (assign_logs_loop logs depth pos todo did)) = map erase (did @ todo)"
proof (induction logs depth pos todo did rule: assign_logs_loop.induct)
  case (1 logs depth pos todo did)
  show ?case
    using 1 by (subst assign_logs_loop.simps)
      (auto simp: erase_assigned split: log_line_kind.splits list.splits prod.splits)
qed

lemma assign_logs_recursive_erase: "erase (snd (assign_logs_recursive logs pos ix)) = erase ix"
  using assign_logs_loop_erase [of logs 1 "pos + 1" "ix_inner ix" "[]"]
  by (simp add: assign_logs_recursive_def erase_assigned split_beta)

lemma assign_outer_erase: "map erase (assign_outer parse logs cursor ixs) = map erase ixs"
proof (induction parse logs cursor ixs rule: assign_outer.induct)
  case (2 parse logs cursor ix ixs)
  then show ?case
    using assign_logs_recursive_erase [of logs _ ix] by (auto split: option.splits prod.splits) (metis snd_conv)
qed simp

lemma assign_log_messages_erase: "map erase (assign_log_messages parse logs ixs) = map erase ixs"
  by (simp add: assign_log_messages_def assign_outer_erase)

subsection \<open>What building yields\<close>

lemma lift_key_eq_Ok [simp]: "lift_key r = Ok x \<longleftrightarrow> r = Ok x"
  by (cases r) (simp_all add: lift_key_def)

lemma build_instruction_Ok:
  "build_instruction shared k accounts data path = Ok n \<longleftrightarrow>
    (\<exists>program accs. account_keys_get (sh_accounts shared) (unat k) = Ok program \<and>
       list_all2 (\<lambda>i acc. account_keys_get (sh_accounts shared) (unat i) = Ok acc) accounts accs \<and>
       n = InstructionUpdate program accs data shared [] path (0, 0))"
  by (auto simp: build_instruction_def bind_outcome_eq_Ok try_map_eq_Ok)

text \<open>What an instruction of the tree takes from an instruction of the wire format.\<close>

definition built_from ::
  "'x instruction_shared \<Rightarrow> u32 \<Rightarrow> bytes \<Rightarrow> bytes \<Rightarrow> pubkey \<times> pubkey list \<times> bytes \<times> 'x instruction_shared \<times> path \<Rightarrow> bool" where
  "built_from shared k accounts data = (\<lambda>(program, accs, data', shared', path).
     account_keys_get (sh_accounts shared) (unat k) = Ok program \<and>
     list_all2 (\<lambda>i acc. account_keys_get (sh_accounts shared) (unat i) = Ok acc) accounts accs \<and>
     data' = data \<and> shared' = shared)"

lemma length_derive_paths [simp]: "length (derive_paths_from_stackheights hs k) = length hs"
proof -
  have "length (derive_paths_loop prev cs p) = length cs" for prev cs p
    by (induction prev cs p rule: derive_paths_loop.induct) (simp_all add: Let_def)
  then show ?thesis by (cases hs) (simp_all add: derive_paths_from_stackheights_def Let_def)
qed

lemma build_inner_list_Ok:
  assumes "build_inner_list shared insn = Ok es"
  shows "map snd es = map ii_stack_height (iis_instructions insn)"
    and "map (ix_path \<circ> fst) es = derive_paths_from_stackheights (map snd es) (iis_index insn)"
    and "\<forall>x\<in>set es. ix_inner (fst x) = [] \<and> ix_log_range (fst x) = (0, 0)"
    and "list_all2 (\<lambda>ins e. built_from shared (ii_program_id_index ins) (ii_accounts ins) (ii_data ins) (label (fst e)))
          (iis_instructions insn) es"
proof -
  let ?ps = "derive_paths_from_stackheights (map ii_stack_height (iis_instructions insn)) (iis_index insn)"
  have len: "length ?ps = length (iis_instructions insn)" by simp
  have all: "list_all2 (\<lambda>(ins, path) e. build_inner_instruction shared ins path = Ok e) (zip (iis_instructions insn) ?ps) es"
    using assms by (auto simp: build_inner_list_def Let_def try_map_eq_Ok case_prod_beta')
  have one: "snd (es ! i) = ii_stack_height (iis_instructions insn ! i) \<and> ix_path (fst (es ! i)) = ?ps ! i \<and>
      ix_inner (fst (es ! i)) = [] \<and> ix_log_range (fst (es ! i)) = (0, 0) \<and>
      built_from shared (ii_program_id_index (iis_instructions insn ! i)) (ii_accounts (iis_instructions insn ! i))
        (ii_data (iis_instructions insn ! i)) (label (fst (es ! i)))"
    if "i < length (iis_instructions insn)" for i
    using list_all2_nthD [OF all, of i] that len
    by (cases "es ! i")
       (auto simp: build_inner_instruction_def bind_outcome_eq_Ok build_instruction_Ok built_from_def label_def)
  have n: "length es = length (iis_instructions insn)" using list_all2_lengthD [OF all] len by simp
  show hs: "map snd es = map ii_stack_height (iis_instructions insn)"
    using one n by (intro nth_equalityI) simp_all
  show "map (ix_path \<circ> fst) es = derive_paths_from_stackheights (map snd es) (iis_index insn)"
    unfolding hs using one n len by (intro nth_equalityI) simp_all
  show "\<forall>x\<in>set es. ix_inner (fst x) = [] \<and> ix_log_range (fst x) = (0, 0)"
    using one n by (metis in_set_conv_nth)
  show "list_all2 (\<lambda>ins e. built_from shared (ii_program_id_index ins) (ii_accounts ins) (ii_data ins) (label (fst e)))
      (iis_instructions insn) es"
    using one n by (simp add: list_all2_conv_all_nth)
qed


lemma attach_inner:
  assumes "attach_inner_instructions shared insns outer = Ok outer'" and "distinct (map iis_index insns)"
  shows "length outer' = length outer \<and>
    (\<forall>i<length outer.
       (\<forall>insn\<in>set insns. unat (iis_index insn) \<noteq> i) \<and> outer' ! i = outer ! i \<or>
       (\<exists>insn\<in>set insns. \<exists>es. unat (iis_index insn) = i \<and> build_inner_list shared insn = Ok es \<and>
          outer' ! i = with_inner (ix_inner (outer ! i) @ nest es) (outer ! i)))"
  using assms
proof (induction shared insns outer arbitrary: outer' rule: attach_inner_instructions.induct)
  case (1 shared outer)
  then show ?case by simp
next
  case (2 shared insn insns outer)
  let ?k = "unat (iis_index insn)"
  have k: "?k < length outer" using 2(2) by (auto simp: Let_def split: if_splits)
  obtain es where es: "build_inner_list shared insn = Ok es"
    and rest: "attach_inner_instructions shared insns
      (outer[?k := with_inner (ix_inner (outer ! ?k) @ nest es) (outer ! ?k)]) = Ok outer'"
    using 2(2) k by (auto simp: Let_def bind_outcome_eq_Ok split: if_splits)
  let ?mid = "outer[?k := with_inner (ix_inner (outer ! ?k) @ nest es) (outer ! ?k)]"
  have IH: "length outer' = length ?mid \<and>
    (\<forall>i<length ?mid.
       (\<forall>insn\<in>set insns. unat (iis_index insn) \<noteq> i) \<and> outer' ! i = ?mid ! i \<or>
       (\<exists>insn\<in>set insns. \<exists>es. unat (iis_index insn) = i \<and> build_inner_list shared insn = Ok es \<and>
          outer' ! i = with_inner (ix_inner (?mid ! i) @ nest es) (?mid ! i)))"
    using 2(1) [OF refl _ rest] k 2(3) by simp
  have other: "\<forall>j\<in>set insns. unat (iis_index j) \<noteq> ?k" using 2(3) by (auto simp flip: word_unat_eq_iff) (metis image_eqI)
  show ?case
  proof (intro conjI allI impI)
    show "length outer' = length outer" using IH by simp
    fix i assume i: "i < length outer"
    show "(\<forall>j\<in>set (insn # insns). unat (iis_index j) \<noteq> i) \<and> outer' ! i = outer ! i \<or>
       (\<exists>j\<in>set (insn # insns). \<exists>es. unat (iis_index j) = i \<and> build_inner_list shared j = Ok es \<and>
          outer' ! i = with_inner (ix_inner (outer ! i) @ nest es) (outer ! i))"
    proof (cases "i = ?k")
      case True
      with IH i other have "outer' ! i = ?mid ! i" by auto
      with True es k show ?thesis by auto
    next
      case False
      then have mid: "?mid ! i = outer ! i" by simp
      from IH i have "(\<forall>j\<in>set insns. unat (iis_index j) \<noteq> i) \<and> outer' ! i = ?mid ! i \<or>
         (\<exists>j\<in>set insns. \<exists>es. unat (iis_index j) = i \<and> build_inner_list shared j = Ok es \<and>
            outer' ! i = with_inner (ix_inner (?mid ! i) @ nest es) (?mid ! i))" by simp
      with False show ?thesis unfolding mid by auto
    qed
  qed
qed

lemma build_outer_Ok:
  assumes "build_outer shared instructions = Ok outer"
  shows "length outer = length instructions" and "i < length instructions \<Longrightarrow>
    ix_path (outer ! i) = [of_nat i] \<and> ix_inner (outer ! i) = [] \<and> ix_log_range (outer ! i) = (0, 0) \<and>
    built_from shared (ci_program_id_index (instructions ! i)) (ci_accounts (instructions ! i))
      (ci_data (instructions ! i)) (label (outer ! i))"
proof -
  have all: "list_all2 (\<lambda>(idx, ins) n. build_outer_instruction shared ins (new_single (of_nat idx)) = Ok n)
      (enumerate 0 instructions) outer"
    using assms by (auto simp: build_outer_def try_map_eq_Ok case_prod_beta')
  then show "length outer = length instructions" using list_all2_lengthD by fastforce
  show "i < length instructions \<Longrightarrow>
    ix_path (outer ! i) = [of_nat i] \<and> ix_inner (outer ! i) = [] \<and> ix_log_range (outer ! i) = (0, 0) \<and>
    built_from shared (ci_program_id_index (instructions ! i)) (ci_accounts (instructions ! i))
      (ci_data (instructions ! i)) (label (outer ! i))"
    using list_all2_nthD [OF all, of i]
    by (cases "outer ! i")
       (auto simp: nth_enumerate_eq build_outer_instruction_def build_instruction_Ok new_single_def built_from_def label_def)
qed

lemma ok_or_eq_Ok: "ok_or x m = Ok y \<longleftrightarrow> x = Some y"
  by (simp add: ok_or_def split: option.splits)

lemma sh_log_messages_shared_of: "sh_log_messages (shared_of sl info meta msg header) = meta_log_messages meta"
  by (simp add: shared_of_def)

lemma build_from_txn_Ok:
  "build_from_txn parse txn = Ok trees \<longleftrightarrow>
    (\<exists>info msg meta header outer outer'.
       txn_transaction txn = Some info \<and> Option.bind (info_transaction info) pt_message = Some msg \<and> info_meta info = Some meta \<and>
       msg_header msg = Some header \<and>
       build_outer (shared_of (txn_slot txn) info meta msg header) (msg_instructions msg) = Ok outer \<and>
       attach_inner_instructions (shared_of (txn_slot txn) info meta msg header) (meta_inner_instructions meta) outer =
         Ok outer' \<and>
       trees = assign_log_messages parse (meta_log_messages meta) outer')"
  by (auto simp: build_from_txn_def bind_outcome_eq_Ok ok_or_eq_Ok sh_log_messages_shared_of Let_def bind_eq_Some_conv)

lemma build_from_txn_parts:
  assumes "build_from_txn parse txn = Ok trees" and "txn_transaction txn = Some info" and "info_meta info = Some meta"
  obtains msg header outer outer' where "Option.bind (info_transaction info) pt_message = Some msg" "msg_header msg = Some header"
    "build_outer (shared_of (txn_slot txn) info meta msg header) (msg_instructions msg) = Ok outer"
    "attach_inner_instructions (shared_of (txn_slot txn) info meta msg header) (meta_inner_instructions meta) outer = Ok outer'"
    "trees = assign_log_messages parse (meta_log_messages meta) outer'"
proof -
  from assms(1) [unfolded build_from_txn_Ok] obtain info' msg meta' header outer outer' where
    p: "txn_transaction txn = Some info'" "Option.bind (info_transaction info') pt_message = Some msg" "info_meta info' = Some meta'"
      "msg_header msg = Some header"
      "build_outer (shared_of (txn_slot txn) info' meta' msg header) (msg_instructions msg) = Ok outer"
      "attach_inner_instructions (shared_of (txn_slot txn) info' meta' msg header) (meta_inner_instructions meta') outer = Ok outer'"
      "trees = assign_log_messages parse (meta_log_messages meta') outer'" by blast
  with assms(2,3) have "info' = info" "meta' = meta" by simp_all
  with p show thesis by (intro that) simp_all
qed

lemma attach_root_paths:
  "attach_inner_instructions shared insns outer = Ok outer' \<Longrightarrow> map ix_path outer' = map ix_path outer"
proof (induction shared insns outer rule: attach_inner_instructions.induct)
  case (2 shared insn insns outer)
  have "(map ix_path outer)[k := ix_path (outer ! k)] = map ix_path outer" for k
    by (cases "k < length outer") (simp_all add: list_update_same_conv list_update_beyond)
  with 2 show ?case by (auto simp: Let_def bind_outcome_eq_Ok map_update split: if_splits)
qed simp

lemma built_root_paths:
  assumes "build_from_txn parse txn = Ok trees"
  shows "map ix_path trees = map (\<lambda>i. [of_nat i]) [0..<length trees]"
proof -
  from assms obtain info msg meta header outer outer' where
    bo: "build_outer (shared_of (txn_slot txn) info meta msg header) (msg_instructions msg) = Ok outer" and
    at: "attach_inner_instructions (shared_of (txn_slot txn) info meta msg header) (meta_inner_instructions meta) outer = Ok outer'" and
    trees: "trees = assign_log_messages parse (meta_log_messages meta) outer'"
    unfolding build_from_txn_Ok by blast
  have "map ix_path trees = map ix_path (map erase trees)" by (simp add: comp_def)
  also have "\<dots> = map ix_path outer'" unfolding trees assign_log_messages_erase by (simp add: comp_def)
  finally have paths: "map ix_path trees = map ix_path outer" using attach_root_paths [OF at] by simp
  then have len: "length trees = length outer" by (metis length_map)
  show ?thesis
    unfolding paths len using build_outer_Ok [OF bo] by (intro nth_equalityI) simp_all
qed

subsection \<open>Properties of built trees\<close>

lemma unique_inner_list:
  assumes "distinct (map iis_index insns)"
  shows "filter (\<lambda>insn. unat (iis_index insn) = i) insns = [] \<or>
    (\<exists>insn\<in>set insns. unat (iis_index insn) = i \<and> filter (\<lambda>insn. unat (iis_index insn) = i) insns = [insn])"
  using assms
proof (induction insns)
  case (Cons insn insns)
  have "filter (\<lambda>j. unat (iis_index j) = i) insns = []" if "unat (iis_index insn) = i"
    using Cons.prems that by (auto simp: filter_empty_conv simp flip: word_unat_eq_iff) (metis image_eqI word_unat_eq_iff)
  with Cons show ?case by auto
qed simp

text \<open>The trees of a transaction, with the inner instructions each outer instruction has on the wire.\<close>

lemma built_tree:
  assumes "build_outer shared instructions = Ok outer" and "attach_inner_instructions shared insns outer = Ok outer'"
    and "distinct (map iis_index insns)" and "i < length instructions"
  obtains es inner where "ix_path (outer' ! i) = [of_nat i]" "ix_inner (outer' ! i) = nest es"
    and "map snd es = map ii_stack_height inner"
    and "map (ix_path \<circ> fst) es = derive_paths_from_stackheights (map snd es) (of_nat i)"
    and "\<forall>x\<in>set es. ix_inner (fst x) = [] \<and> ix_log_range (fst x) = (0, 0)"
    and "list_all2 (\<lambda>ins e. built_from shared (ii_program_id_index ins) (ii_accounts ins) (ii_data ins) (label (fst e))) inner es"
    and "inner = concat (map iis_instructions (filter (\<lambda>insn. unat (iis_index insn) = i) insns))"
    and "ix_log_range (outer' ! i) = (0, 0)" "label (outer' ! i) = label (outer ! i)"
proof -
  note o = build_outer_Ok [OF assms(1)]
  from attach_inner [OF assms(2,3)] assms(4) o(1) consider
    (none) "\<forall>insn\<in>set insns. unat (iis_index insn) \<noteq> i" "outer' ! i = outer ! i"
    | (some) insn es where "insn \<in> set insns" "unat (iis_index insn) = i" "build_inner_list shared insn = Ok es"
      "outer' ! i = with_inner (ix_inner (outer ! i) @ nest es) (outer ! i)" by auto
  then show thesis
  proof cases
    case none
    then have "filter (\<lambda>insn. unat (iis_index insn) = i) insns = []" by (simp add: filter_empty_conv)
    with none o(2) [OF assms(4)] show thesis
      by (intro that [of "[]" "[]"]) (simp_all add: nest_def derive_paths_from_stackheights_def)
  next
    case some
    have "filter (\<lambda>j. unat (iis_index j) = i) insns \<noteq> []" using some(1,2) by (auto simp: filter_empty_conv)
    then obtain j where j: "j \<in> set insns" "unat (iis_index j) = i" "filter (\<lambda>j. unat (iis_index j) = i) insns = [j]"
      using unique_inner_list [OF assms(3), of i] by blast
    have "insn \<in> set (filter (\<lambda>j. unat (iis_index j) = i) insns)" using some(1,2) by simp
    with j(3) have "filter (\<lambda>j. unat (iis_index j) = i) insns = [insn]" by simp
    moreover have "iis_index insn = of_nat i" by (simp flip: some(2))
    ultimately show thesis
      using build_inner_list_Ok [OF some(3)] o(2) [OF assms(4)] some(4)
      by (intro that [of es "iis_instructions insn"]) simp_all
  qed
qed

text \<open>
  C19. Paths are positions: in the trees built from a transaction whose inner lists belong to
  distinct outer instructions and have stack heights as a runtime produces them, the outer
  instruction number \<open>i\<close> has the path \<open>[i]\<close>, and at every instruction of its tree the child
  number \<open>j\<close> has the path of its parent extended by \<open>j\<close>.
\<close>

theorem build_from_txn_paths:
  assumes "build_from_txn parse txn = Ok trees" and "txn_transaction txn = Some info" and "info_meta info = Some meta"
    and "distinct (map iis_index (meta_inner_instructions meta))"
    and "list_all (\<lambda>insn. heights_wf 1 (map ii_stack_height (iis_instructions insn))) (meta_inner_instructions meta)"
    and "i < length trees"
  shows "ix_path (trees ! i) = [of_nat i] \<and> children_pathed (trees ! i)"
proof -
  obtain msg header outer outer' where
    bo: "build_outer (shared_of (txn_slot txn) info meta msg header) (msg_instructions msg) = Ok outer" and
    at: "attach_inner_instructions (shared_of (txn_slot txn) info meta msg header) (meta_inner_instructions meta) outer = Ok outer'" and
    tr: "trees = assign_log_messages parse (meta_log_messages meta) outer'"
    using build_from_txn_parts [OF assms(1-3)] by metis
  have er: "map erase trees = map erase outer'" by (simp add: tr assign_log_messages_erase)
  have len: "length trees = length outer'" using arg_cong [OF er, of length] by simp
  have "length outer' = length (msg_instructions msg)"
    using attach_inner [OF at assms(4)] build_outer_Ok(1) [OF bo] by simp
  with len assms(6) have i: "i < length (msg_instructions msg)" by simp
  obtain es inner where t: "ix_path (outer' ! i) = [of_nat i]" "ix_inner (outer' ! i) = nest es"
    "map snd es = map ii_stack_height inner"
    "map (ix_path \<circ> fst) es = derive_paths_from_stackheights (map snd es) (of_nat i)"
    "\<forall>x\<in>set es. ix_inner (fst x) = [] \<and> ix_log_range (fst x) = (0, 0)"
    "inner = concat (map iis_instructions (filter (\<lambda>insn. unat (iis_index insn) = i) (meta_inner_instructions meta)))"
    by (rule built_tree [OF bo at assms(4) i]) (rule that, assumption+)
  have "heights_wf 1 (map ii_stack_height inner)"
    using unique_inner_list [OF assms(4), of i] t(6) assms(5) by (auto simp: list_all_iff)
  then have nested: "ix_path (nest es ! j) = [of_nat i, of_nat j] \<and> children_pathed (nest es ! j)" if "j < length (nest es)" for j
    using nest_paths [OF t(4) _ _ that] t(3,5) by simp
  have "children_pathed (outer' ! i)"
    using nested t(1,2) by (subst children_pathed_unfold) (simp add: push_clone_def)
  moreover have "erase (trees ! i) = erase (outer' ! i)"
    using er assms(6) len by (metis nth_map)
  ultimately show ?thesis using t(1) erase_children erase_fields(2) by metis
qed


lemma flat_indices_inner:
  "flat_indices (Some k) True j ixs = zip ixs (map (\<lambda>m. [k, j + of_nat m]) [0..<length ixs])"
  by (induction ixs arbitrary: j)
     (simp_all add: upt_conv_Cons map_Suc_upt [symmetric] comp_def algebra_simps del: upt_Suc)

lemma flat_indices_tree:
  "ix_path n = [k] \<Longrightarrow>
    visit_all_with_flat_indices n =
      (n, [k]) # zip (tl (preorder n)) (map (\<lambda>m. [k, of_nat m]) [0..<length (tl (preorder n))])"
  by (subst preorder_unfold)
     (simp add: visit_all_with_flat_indices_def visit_all_preorder preorder_unfold [of n] flat_indices_inner)

text \<open>
  C15. Nesting loses nothing: whatever the stack heights are, visiting the tree of outer
  instruction \<open>i\<close> with flat indices yields, after the instruction itself, the inner
  instructions of the wire format in their order, the one at position \<open>k\<close> of the list under
  the index \<open>[i, k]\<close>, each with its data and with its account indices resolved.
\<close>

theorem build_from_txn_flat_indices:
  assumes "build_from_txn parse txn = Ok trees" and "txn_transaction txn = Some info" and "info_meta info = Some meta"
    and "distinct (map iis_index (meta_inner_instructions meta))" and "i < length trees"
  shows "list_all2 (\<lambda>(k, ins) (n, p). p = [of_nat i, of_nat k] \<and>
      built_from (ix_shared (trees ! i)) (ii_program_id_index ins) (ii_accounts ins) (ii_data ins) (label n))
    (enumerate 0 (concat (map iis_instructions (filter (\<lambda>insn. unat (iis_index insn) = i) (meta_inner_instructions meta)))))
    (tl (visit_all_with_flat_indices (trees ! i)))"
proof -
  obtain msg header outer outer' where
    bo: "build_outer (shared_of (txn_slot txn) info meta msg header) (msg_instructions msg) = Ok outer" and
    at: "attach_inner_instructions (shared_of (txn_slot txn) info meta msg header) (meta_inner_instructions meta) outer = Ok outer'" and
    tr: "trees = assign_log_messages parse (meta_log_messages meta) outer'"
    using build_from_txn_parts [OF assms(1-3)] by metis
  let ?sh = "shared_of (txn_slot txn) info meta msg header"
  have er: "map erase trees = map erase outer'" by (simp add: tr assign_log_messages_erase)
  have len: "length trees = length outer'" using arg_cong [OF er, of length] by simp
  have "length outer' = length (msg_instructions msg)"
    using attach_inner [OF at assms(4)] build_outer_Ok(1) [OF bo] by simp
  with len assms(5) have i: "i < length (msg_instructions msg)" by simp
  obtain es inner where t: "ix_path (outer' ! i) = [of_nat i]" "ix_inner (outer' ! i) = nest es"
    "\<forall>x\<in>set es. ix_inner (fst x) = [] \<and> ix_log_range (fst x) = (0, 0)"
    "list_all2 (\<lambda>ins e. built_from ?sh (ii_program_id_index ins) (ii_accounts ins) (ii_data ins) (label (fst e))) inner es"
    "inner = concat (map iis_instructions (filter (\<lambda>insn. unat (iis_index insn) = i) (meta_inner_instructions meta)))"
    "label (outer' ! i) = label (outer ! i)"
    by (rule built_tree [OF bo at assms(4) i]) (rule that, assumption+)
  have e: "erase (trees ! i) = erase (outer' ! i)" using er assms(5) len by (metis nth_map)
  have labels: "map label (preorder (trees ! i)) = label (outer' ! i) # map (label \<circ> fst) es"
    using erase_labels [OF e] t(2,3) nest_flat [of label es] by (simp add: preorder_unfold [of "outer' ! i"])
  have lab: "label (trees ! i) = label (outer' ! i)" and rest: "map label (tl (preorder (trees ! i))) = map (label \<circ> fst) es"
    using labels by (simp_all add: preorder_unfold [of "trees ! i"])
  have path: "ix_path (trees ! i) = [of_nat i]" and sh: "ix_shared (trees ! i) = ?sh"
    using lab t(1,6) build_outer_Ok(2) [OF bo i] by (auto simp: label_def built_from_def)
  have "length (tl (preorder (trees ! i))) = length inner"
    using arg_cong [OF rest, of length] list_all2_lengthD [OF t(4)] by simp
  moreover have "built_from ?sh (ii_program_id_index (inner ! k)) (ii_accounts (inner ! k)) (ii_data (inner ! k))
      (label (tl (preorder (trees ! i)) ! k))" if "k < length inner" for k
    using list_all2_nthD [OF t(4) that] arg_cong [OF rest, of "\<lambda>xs. xs ! k"] that calculation list_all2_lengthD [OF t(4)]
    by simp
  ultimately show ?thesis
    unfolding flat_indices_tree [OF path] sh t(5) [symmetric]
    by (auto simp: list_all2_conv_all_nth nth_enumerate_eq)
qed

lemma build_no_panic:
  "build_instruction shared k accounts data path \<noteq> Panic" "build_inner_list shared insn \<noteq> Panic"
  "build_outer shared instructions \<noteq> Panic" "attach_inner_instructions shared insns outer \<noteq> Panic"
proof -
  have get: "account_keys_get ks j \<noteq> Panic" for ks j
    by (simp add: account_keys_get_def split: option.splits)
  have lift: "r \<noteq> Panic \<Longrightarrow> lift_key r \<noteq> Panic" for r :: "(account_key_error, 'b) outcome"
    by (cases r) (simp_all add: lift_key_def)
  show one: "build_instruction shared k accounts data path \<noteq> Panic" for k accounts data path
    unfolding build_instruction_def by (intro bind_no_panic lift get try_map_no_panic) simp
  show inner: "build_inner_list shared insn \<noteq> Panic" for insn
    unfolding build_inner_list_def Let_def
    by (rule try_map_no_panic) (simp add: build_inner_instruction_def bind_no_panic one split: prod.splits)
  show "build_outer shared instructions \<noteq> Panic"
    unfolding build_outer_def
    by (rule try_map_no_panic) (auto simp: build_outer_instruction_def one split: prod.splits)
  show "attach_inner_instructions shared insns outer \<noteq> Panic"
    by (induction insns arbitrary: outer) (simp_all add: Let_def bind_no_panic inner)
qed


lemma build_from_txn_no_panic: "build_from_txn parse txn \<noteq> Panic"
  unfolding build_from_txn_def Let_def
  by (intro bind_no_panic build_no_panic) (simp_all add: ok_or_def split: option.splits)

lemma attach_fresh:
  "attach_inner_instructions shared insns outer = Ok outer' \<Longrightarrow>
    list_all (\<lambda>n. \<forall>m\<in>set (preorder n). ix_log_range m = (0, 0) \<and> ix_shared m = shared) outer \<Longrightarrow>
    list_all (\<lambda>n. \<forall>m\<in>set (preorder n). ix_log_range m = (0, 0) \<and> ix_shared m = shared) outer'"
proof (induction shared insns outer rule: attach_inner_instructions.induct)
  case (2 shared insn insns outer)
  let ?k = "unat (iis_index insn)"
  let ?fresh = "\<lambda>n. \<forall>m\<in>set (preorder n). ix_log_range m = (0, 0) \<and> ix_shared m = shared"
  have k: "?k < length outer" using 2(2) by (auto simp: Let_def split: if_splits)
  obtain es where es: "build_inner_list shared insn = Ok es"
    and rest: "attach_inner_instructions shared insns
      (outer[?k := with_inner (ix_inner (outer ! ?k) @ nest es) (outer ! ?k)]) = Ok outer'"
    using 2(2) k by (auto simp: Let_def bind_outcome_eq_Ok split: if_splits)
  note b = build_inner_list_Ok [OF es]
  have "ix_shared (fst (es ! i)) = shared" if "i < length es" for i
    using list_all2_nthD2 [OF b(4) that] by (simp add: built_from_def label_def)
  then have e: "\<forall>e\<in>set es. ix_log_range (fst e) = (0, 0) \<and> ix_shared (fst e) = shared"
    using b(3) by (metis in_set_conv_nth)
  let ?g = "\<lambda>m. (ix_log_range m, ix_shared m)"
  have "map ?g (concat (map preorder (nest es))) = map (?g \<circ> fst) es"
    using b(3) by (intro nest_flat) simp_all
  moreover have "\<forall>y\<in>set (map (?g \<circ> fst) es). y = ((0, 0), shared)" using e by auto
  ultimately have "\<forall>y\<in>set (map ?g (concat (map preorder (nest es)))). y = ((0, 0), shared)" by (simp only:)
  then have n: "\<forall>m\<in>set (concat (map preorder (nest es))). ix_log_range m = (0, 0) \<and> ix_shared m = shared" by simp
  have old: "?fresh (outer ! ?k)" using 2(3) k by (simp add: list_all_length)
  have "?fresh (with_inner (ix_inner (outer ! ?k) @ nest es) (outer ! ?k))"
    using old n by (auto simp: preorder_unfold [of "with_inner _ _"] preorder_unfold [of "outer ! ?k"])
  with 2(3) k have "list_all ?fresh (outer[?k := with_inner (ix_inner (outer ! ?k) @ nest es) (outer ! ?k)])"
    by (auto simp: list_all_length nth_list_update)
  from 2(1) [OF refl _ rest this] k show ?case by simp
qed simp



subsection \<open>An example transaction\<close>

definition demo_meta :: "nat transaction_status_meta" where
  "demo_meta =
     \<lparr>meta_err = None, meta_fee = 5, meta_pre_balances = [], meta_post_balances = [],
      meta_inner_instructions =
        [\<lparr>iis_index = 0, iis_instructions =
           [\<lparr>ii_program_id_index = 1, ii_accounts = [0], ii_data = [7], ii_stack_height = Some 2\<rparr>,
            \<lparr>ii_program_id_index = 2, ii_accounts = [], ii_data = [8], ii_stack_height = Some 3\<rparr>,
            \<lparr>ii_program_id_index = 1, ii_accounts = [], ii_data = [9], ii_stack_height = Some 2\<rparr>]\<rparr>],
      meta_inner_instructions_none = False, meta_log_messages = sh_log_messages demo_shared,
      meta_log_messages_none = False,
      meta_pre_token_balances = [], meta_post_token_balances = [], meta_rewards = [],
      meta_loaded_writable_addresses = [], meta_loaded_readonly_addresses = [replicate 32 3],
      meta_return_data = None, meta_return_data_none = True,
      meta_compute_units_consumed = None, meta_cost_units = None\<rparr>"

definition demo_info :: "nat transaction_info" where
  "demo_info =
     \<lparr>info_signature = [], info_is_vote = False,
      info_transaction = Some \<lparr>pt_signatures = [], pt_message = Some
        \<lparr>msg_header = Some 0, msg_account_keys = [replicate 32 1, replicate 32 2], msg_recent_blockhash = [],
         msg_instructions = [\<lparr>ci_program_id_index = 0, ci_accounts = [1, 2], ci_data = [6]\<rparr>],
         msg_versioned = True, msg_address_table_lookups = [], msg_config = None\<rparr>\<rparr>,
      info_meta = Some demo_meta, info_index = 4\<rparr>"

definition demo_txn :: "nat transaction_update" where
  "demo_txn = \<lparr>txn_transaction = Some demo_info, txn_slot = 9\<rparr>"

definition demo_trees :: "nat instruction_update list" where
  "demo_trees = (case build_from_txn demo_parse demo_txn of Ok trees \<Rightarrow> trees | _ \<Rightarrow> [])"

lemma demo_build: "build_from_txn demo_parse demo_txn = Ok demo_trees"
  by code_simp

lemma demo_txn_parts: "txn_transaction demo_txn = Some demo_info" "info_meta demo_info = Some demo_meta"
  by (simp_all add: demo_txn_def demo_info_def)

lemma demo_meta_wf:
  "distinct (map iis_index (meta_inner_instructions demo_meta))"
  "list_all (\<lambda>insn. heights_wf 1 (map ii_stack_height (iis_instructions insn))) (meta_inner_instructions demo_meta)"
  "length demo_trees = 1"
  by code_simp+

theorem build_from_txn_paths_witness:
  "ix_path (demo_trees ! 0) = [0] \<and> children_pathed (demo_trees ! 0) \<and>
   map ix_path (visit_all (demo_trees ! 0)) = [[0], [0, 0], [0, 0, 0], [0, 1]]"
proof -
  have "map ix_path (preorder (demo_trees ! 0)) = [[0], [0, 0], [0, 0, 0], [0, 1]]" by code_simp
  with build_from_txn_paths [OF demo_build demo_txn_parts demo_meta_wf(1,2), of 0] demo_meta_wf(3) show ?thesis
    by (simp add: visit_all_preorder)
qed

theorem build_from_txn_flat_indices_witness:
  "list_all2 (\<lambda>(k, ins) (n, p). p = [0, of_nat k] \<and>
      built_from (ix_shared (demo_trees ! 0)) (ii_program_id_index ins) (ii_accounts ins) (ii_data ins) (label n))
    (enumerate 0 (concat (map iis_instructions (filter (\<lambda>insn. unat (iis_index insn) = 0) (meta_inner_instructions demo_meta)))))
    (tl (visit_all_with_flat_indices (demo_trees ! 0)))"
  using build_from_txn_flat_indices [OF demo_build demo_txn_parts demo_meta_wf(1), of 0] demo_meta_wf(3) by simp



end
