(* ===== verification/Preconf_Convert.thy ===== *)
theory Preconf_Convert
  imports Instruction_Build
begin

text \<open>
  From the transactions of the preconfirmation feed to the proto shape the runtime reads
  (\<open>crates/preconf-source/src/convert.rs\<close>). Decoding the bytes (\<open>wincode\<close>) and the vote check
  (\<open>solana_transaction\<close>) are code of other packages and arguments where they are used; the
  message types of \<open>solana_message\<close> are data with their public fields. The proto types are
  those of \<open>Instruction_Build\<close>; the values that it only passes on are \<open>proto_value\<close>s here.
\<close>

subsection \<open>Decoded transactions\<close>

record message_header =
  num_required_signatures :: u8
  num_readonly_signed_accounts :: u8
  num_readonly_unsigned_accounts :: u8

record sol_instruction =
  si_program_id_index :: u8
  si_accounts :: bytes
  si_data :: bytes

record table_lookup =
  tl_account_key :: pubkey
  tl_writable_indexes :: bytes
  tl_readonly_indexes :: bytes

record v1_config =
  v1_priority_fee :: "u64 option"
  v1_compute_unit_limit :: "u32 option"
  v1_loaded_accounts_data_size_limit :: "u32 option"
  v1_heap_size :: "u32 option"

record sol_message =
  sm_header :: message_header
  sm_account_keys :: "pubkey list"
  sm_lifetime :: bytes
  sm_instructions :: "sol_instruction list"

text \<open>The fields all versions share, and what each version adds.\<close>

datatype versioned_message =
    Legacy sol_message
  | V0 sol_message "table_lookup list"
  | V1 sol_message v1_config

fun message_of :: "versioned_message \<Rightarrow> sol_message" where
  "message_of (Legacy m) = m"
| "message_of (V0 m _) = m"
| "message_of (V1 m _) = m"

record versioned_transaction =
  vt_signatures :: "bytes list"
  vt_message :: versioned_message

subsection \<open>Conversion\<close>

datatype proto_value =
    ProtoHeader u32 u32 u32
  | ProtoLookup bytes bytes bytes
  | ProtoConfig "u64 option" "u32 option" "u32 option" "u32 option"
  | ProtoError bytes

record message_parts =
  mp_header :: message_header
  mp_account_keys :: "pubkey list"
  mp_lifetime :: bytes
  mp_instructions :: "sol_instruction list"
  mp_versioned :: bool
  mp_address_table_lookups :: "proto_value list"
  mp_config :: "proto_value option"

fun parts_of :: "versioned_message \<Rightarrow> message_parts" where
  "parts_of (Legacy msg) =
     \<lparr>mp_header = sm_header msg, mp_account_keys = sm_account_keys msg, mp_lifetime = sm_lifetime msg,
      mp_instructions = sm_instructions msg, mp_versioned = False, mp_address_table_lookups = [],
      mp_config = None\<rparr>"
| "parts_of (V0 msg lookups) =
     \<lparr>mp_header = sm_header msg, mp_account_keys = sm_account_keys msg, mp_lifetime = sm_lifetime msg,
      mp_instructions = sm_instructions msg, mp_versioned = True,
      mp_address_table_lookups =
        map (\<lambda>l. ProtoLookup (tl_account_key l) (tl_writable_indexes l) (tl_readonly_indexes l)) lookups,
      mp_config = None\<rparr>"
| "parts_of (V1 msg config) =
     \<lparr>mp_header = sm_header msg, mp_account_keys = sm_account_keys msg, mp_lifetime = sm_lifetime msg,
      mp_instructions = sm_instructions msg, mp_versioned = True, mp_address_table_lookups = [],
      mp_config = Some (ProtoConfig (v1_priority_fee config) (v1_compute_unit_limit config)
        (v1_loaded_accounts_data_size_limit config) (v1_heap_size config))\<rparr>"

definition convert_transaction :: "versioned_transaction \<Rightarrow> proto_value proto_transaction" where
  "convert_transaction tx =
     (let parts = parts_of (vt_message tx)
      in \<lparr>pt_signatures = vt_signatures tx,
          pt_message = Some
            \<lparr>msg_header = Some (ProtoHeader
               (ucast (num_required_signatures (mp_header parts)))
               (ucast (num_readonly_signed_accounts (mp_header parts)))
               (ucast (num_readonly_unsigned_accounts (mp_header parts)))),
             msg_account_keys = mp_account_keys parts,
             msg_recent_blockhash = mp_lifetime parts,
             msg_instructions =
               map (\<lambda>ix. \<lparr>ci_program_id_index = ucast (si_program_id_index ix),
                           ci_accounts = si_accounts ix, ci_data = si_data ix\<rparr>) (mp_instructions parts),
             msg_versioned = mp_versioned parts,
             msg_address_table_lookups = mp_address_table_lookups parts,
             msg_config = mp_config parts\<rparr>\<rparr>)"

definition convert_meta :: "bool \<Rightarrow> proto_value transaction_status_meta" where
  "convert_meta failed =
     \<lparr>meta_err = then_some failed (ProtoError []), meta_fee = 0, meta_pre_balances = [],
      meta_post_balances = [], meta_inner_instructions = [], meta_inner_instructions_none = True,
      meta_log_messages = [], meta_log_messages_none = True, meta_pre_token_balances = [],
      meta_post_token_balances = [], meta_rewards = [], meta_loaded_writable_addresses = [],
      meta_loaded_readonly_addresses = [], meta_return_data = None, meta_return_data_none = True,
      meta_compute_units_consumed = None, meta_cost_units = None\<rparr>"

text \<open>The programs of the instructions; an index outside the static keys is skipped.\<close>

definition convert_is_vote ::
  "(bytes list \<Rightarrow> bool \<Rightarrow> pubkey list \<Rightarrow> bool) \<Rightarrow> versioned_transaction \<Rightarrow> bool" where
  "convert_is_vote simple_vote tx =
     (let keys = sm_account_keys (message_of (vt_message tx));
          programs = List.map_filter
            (\<lambda>ix. let i = unat (si_program_id_index ix) in if i < length keys then Some (keys ! i) else None)
            (sm_instructions (message_of (vt_message tx)))
      in simple_vote (vt_signatures tx)
           (case vt_message tx of Legacy _ \<Rightarrow> True | _ \<Rightarrow> False) programs)"

subsection \<open>Nothing is lost\<close>

lemma unat_ucast_u8_u32: "unat (ucast (a :: u8) :: u32) = unat a"
proof -
  have "unat a < 2 ^ 32" using unat_bound [of a] by simp
  then show ?thesis by (simp add: unsigned_ucast_eq take_bit_nat_eq_self)
qed

lemma ucast_u8_u32_inj: "(ucast (a :: u8) :: u32) = ucast b \<longleftrightarrow> a = b"
  by (metis unat_ucast_u8_u32 word_unat_eq_iff)

text \<open>
  Conversion keeps the whole transaction: different transactions convert to different proto
  messages, across the three versions, so the runtime can tell legacy, v0 and v1 apart.
\<close>

lemma convert_transaction_inj: "inj convert_transaction"
proof (rule injI)
  fix x y :: versioned_transaction
  assume eq: "convert_transaction x = convert_transaction y"
  have ix: "ixs = ixs'" if "map (\<lambda>ix. \<lparr>ci_program_id_index = ucast (si_program_id_index ix),
        ci_accounts = si_accounts ix, ci_data = si_data ix\<rparr> :: compiled_instruction) ixs =
      map (\<lambda>ix. \<lparr>ci_program_id_index = ucast (si_program_id_index ix),
        ci_accounts = si_accounts ix, ci_data = si_data ix\<rparr>) ixs'" for ixs ixs' :: "sol_instruction list"
    by (rule map_inj_on [OF that]) (auto intro!: inj_onI sol_instruction.equality simp: ucast_u8_u32_inj)
  have lk: "ls = ls'" if "map (\<lambda>l. ProtoLookup (tl_account_key l) (tl_writable_indexes l) (tl_readonly_indexes l)) ls =
      map (\<lambda>l. ProtoLookup (tl_account_key l) (tl_writable_indexes l) (tl_readonly_indexes l)) ls'" for ls ls' :: "table_lookup list"
    by (rule map_inj_on [OF that]) (auto intro!: inj_onI table_lookup.equality)
  have "vt_message x = vt_message y"
    using eq
    by (cases "vt_message x"; cases "vt_message y")
       (auto simp: convert_transaction_def ucast_u8_u32_inj
         intro!: sol_message.equality message_header.equality v1_config.equality dest: ix lk)
  moreover have "vt_signatures x = vt_signatures y" using eq by (simp add: convert_transaction_def Let_def)
  ultimately show "x = y" by simp
qed

end
