(* ===== verification/Preconf_Framer.thy ===== *)
theory Preconf_Framer
  imports Preconf_Filter Preconf_Convert Ordered_Map
begin

text \<open>
  The state machine of one preconfirmation stream (\<open>crates/preconf-source/src/framer.rs\<close>): feed
  updates in, at most one runtime update out for each. It numbers the transactions of every
  slot in arrival order, forgets slots that are gone for good, applies the vote rules and
  counts what it drops. Decoding and the vote check are arguments (\<open>framer_env\<close>). The counters
  are 64-bit words and wrap.
\<close>

subsection \<open>Updates\<close>

datatype harmonic_payload =
    HarmonicTransaction slot "execution_result option" bytes
  | SlotStart slot
  | SlotEnd slot
  | HarmonicClip u64
  | HarmonicPing

datatype bam_payload =
    BamTransaction slot "execution_result option" bytes
  | BamClip u64
  | BamPing

datatype feed_message =
    HarmonicUpdate "string list" "harmonic_payload option"
  | BamUpdate "string list" "bam_payload option"

fun is_progress :: "feed_message \<Rightarrow> bool" where
  "is_progress (HarmonicUpdate _ payload) =
     (case payload of Some (HarmonicTransaction _ _ _) \<Rightarrow> True | Some (SlotStart _) \<Rightarrow> True | _ \<Rightarrow> False)"
| "is_progress (BamUpdate _ payload) = (case payload of Some (BamTransaction _ _ _) \<Rightarrow> True | _ \<Rightarrow> False)"

record preconf_update =
  pu_filters :: "string list"
  pu_transaction :: "proto_value transaction_update"

subsection \<open>State\<close>

definition SLOT_RETENTION :: u64 where "SLOT_RETENTION = 64"
definition MAX_FRAMES :: nat where "MAX_FRAMES = 4 * unat SLOT_RETENTION"

record counts =
  n_delivered :: u64
  n_unknown_result :: u64
  n_vote_rule_dropped :: u64
  n_undecodable :: u64
  n_out_of_frame :: u64
  n_clipped :: u64
  n_restarts :: u64
  n_unknown_payload :: u64
  n_reconnects :: u64

record slot_frame =
  sf_next :: u64
  sf_open :: bool
  sf_ended :: bool

definition default_frame :: slot_frame where
  "default_frame = \<lparr>sf_next = 0, sf_open = False, sf_ended = False\<rparr>"

record framer =
  fr_feed :: feed
  fr_vote_rules :: "string \<rightharpoonup> bool"
  fr_frames :: "(u64, slot_frame) btree_map"
  fr_frontier :: "u64 option"
  fr_warned_unknown_result :: bool
  fr_counts :: counts

record framer_env =
  decode_transaction :: "bytes \<Rightarrow> versioned_transaction option"
  simple_vote :: "bytes list \<Rightarrow> bool \<Rightarrow> pubkey list \<Rightarrow> bool"

definition new_framer :: "feed \<Rightarrow> (string \<rightharpoonup> bool) \<Rightarrow> framer" where
  "new_framer feed rules =
     \<lparr>fr_feed = feed, fr_vote_rules = rules, fr_frames = [], fr_frontier = None,
      fr_warned_unknown_result = False,
      fr_counts = \<lparr>n_delivered = 0, n_unknown_result = 0, n_vote_rule_dropped = 0, n_undecodable = 0,
        n_out_of_frame = 0, n_clipped = 0, n_restarts = 0, n_unknown_payload = 0, n_reconnects = 0\<rparr>\<rparr>"

subsection \<open>Operations\<close>

abbreviation with_counts :: "(counts \<Rightarrow> counts) \<Rightarrow> framer \<Rightarrow> framer" where
  "with_counts f fr \<equiv> fr\<lparr>fr_counts := f (fr_counts fr)\<rparr>"

definition unknown_payload :: "framer \<Rightarrow> framer" where
  "unknown_payload fr = with_counts (\<lambda>c. c\<lparr>n_unknown_payload := n_unknown_payload c + 1\<rparr>) fr"

definition framer_clip :: "u64 \<Rightarrow> framer \<Rightarrow> framer" where
  "framer_clip withheld fr = with_counts (\<lambda>c. c\<lparr>n_clipped := saturating_add (n_clipped c) withheld\<rparr>) fr"

definition advance :: "slot \<Rightarrow> framer \<Rightarrow> framer" where
  "advance sl fr =
     (if is_some_and (fr_frontier fr) (\<lambda>frontier. sl \<le> frontier) then fr
      else fr\<lparr>fr_frontier := Some sl,
              fr_frames := bt_retain (\<lambda>k _. saturating_sub sl SLOT_RETENTION \<le> k) (fr_frames fr)\<rparr>)"

definition next_index :: "slot \<Rightarrow> framer \<Rightarrow> framer \<times> u64" where
  "next_index sl fr =
     (let f = unwrap_or (bt_get (fr_frames fr) sl) default_frame;
          fr1 = (if \<not> sf_open f then with_counts (\<lambda>c. c\<lparr>n_out_of_frame := n_out_of_frame c + 1\<rparr>) fr else fr)
      in (fr1\<lparr>fr_frames := bt_insert sl (f\<lparr>sf_next := sf_next f + 1\<rparr>) (fr_frames fr)\<rparr>, sf_next f))"

definition framer_transaction ::
  "framer_env \<Rightarrow> string list \<Rightarrow> slot \<Rightarrow> execution_result option \<Rightarrow> bytes \<Rightarrow> framer \<Rightarrow>
   framer \<times> preconf_update option" where
  "framer_transaction env filters sl result body fr =
     (case result of
        None \<Rightarrow>
          (with_counts (\<lambda>c. c\<lparr>n_unknown_result := n_unknown_result c + 1\<rparr>) fr
             \<lparr>fr_warned_unknown_result := True\<rparr>, None)
      | Some outcome \<Rightarrow>
          (case decode_transaction env body of
             None \<Rightarrow> (with_counts (\<lambda>c. c\<lparr>n_undecodable := n_undecodable c + 1\<rparr>) fr, None)
           | Some decoded \<Rightarrow>
               (case vt_signatures decoded of
                  [] \<Rightarrow> (with_counts (\<lambda>c. c\<lparr>n_undecodable := n_undecodable c + 1\<rparr>) fr, None)
                | signature # _ \<Rightarrow>
                    let is_vote = convert_is_vote (simple_vote env) decoded
                    in if filters = [] then (unknown_payload fr, None)
                       else
                         let kept = filter (\<lambda>name. is_none_or (fr_vote_rules fr name) (\<lambda>wanted. wanted = is_vote)) filters
                         in if kept = []
                            then (with_counts (\<lambda>c. c\<lparr>n_vote_rule_dropped := n_vote_rule_dropped c + 1\<rparr>) fr, None)
                            else
                              (case next_index sl fr of
                                 (fr1, index) \<Rightarrow>
                                   (fr1, Some
                                     \<lparr>pu_filters = kept,
                                      pu_transaction =
                                        \<lparr>txn_transaction = Some
                                           \<lparr>info_signature = signature, info_is_vote = is_vote,
                                            info_transaction = Some (convert_transaction decoded),
                                            info_meta = Some (convert_meta (outcome \<noteq> Success)),
                                            info_index = index\<rparr>,
                                         txn_slot = sl\<rparr>\<rparr>)))))"

fun framer_harmonic ::
  "framer_env \<Rightarrow> string list \<Rightarrow> harmonic_payload option \<Rightarrow> framer \<Rightarrow> framer \<times> preconf_update option" where
  "framer_harmonic env filters (Some (HarmonicTransaction sl result body)) fr =
     framer_transaction env filters sl result body fr"
| "framer_harmonic env filters (Some (SlotStart sl)) fr =
     (let f = unwrap_or (bt_get (fr_frames fr) sl) default_frame;
          fr1 = (if sf_ended f then with_counts (\<lambda>c. c\<lparr>n_restarts := n_restarts c + 1\<rparr>) fr else fr)
      in (fr1\<lparr>fr_frames := bt_insert sl (f\<lparr>sf_open := True, sf_ended := False\<rparr>) (fr_frames fr)\<rparr>, None))"
| "framer_harmonic env filters (Some (SlotEnd sl)) fr =
     (advance sl (fr\<lparr>fr_frames :=
        bt_upsert sl default_frame (\<lambda>f. f\<lparr>sf_open := False, sf_ended := True\<rparr>) (fr_frames fr)\<rparr>), None)"
| "framer_harmonic env filters (Some (HarmonicClip withheld)) fr = (framer_clip withheld fr, None)"
| "framer_harmonic env filters (Some HarmonicPing) fr = (fr, None)"
| "framer_harmonic env filters None fr = (unknown_payload fr, None)"

fun framer_bam ::
  "framer_env \<Rightarrow> string list \<Rightarrow> bam_payload option \<Rightarrow> framer \<Rightarrow> framer \<times> preconf_update option" where
  "framer_bam env filters (Some (BamTransaction sl result body)) fr =
     (case framer_transaction env filters sl result body
             (fr\<lparr>fr_frames := bt_upsert sl default_frame (\<lambda>f. f\<lparr>sf_open := True\<rparr>) (fr_frames fr)\<rparr>) of
        (fr1, update) \<Rightarrow> (advance sl fr1, update))"
| "framer_bam env filters (Some (BamClip withheld)) fr = (framer_clip withheld fr, None)"
| "framer_bam env filters (Some BamPing) fr = (fr, None)"
| "framer_bam env filters None fr = (unknown_payload fr, None)"

text \<open>\<open>while self.frames.len() > MAX_FRAMES { self.frames.pop_first(); }\<close>\<close>

fun pop_frames :: "(u64, slot_frame) btree_map \<Rightarrow> (u64, slot_frame) btree_map" where
  "pop_frames [] = []"
| "pop_frames (p # m) = (if MAX_FRAMES < length (p # m) then pop_frames m else p # m)"

definition framer_apply :: "framer_env \<Rightarrow> feed_message \<Rightarrow> framer \<Rightarrow> framer \<times> preconf_update option" where
  "framer_apply env u fr =
     (case (case u of
              HarmonicUpdate filters payload \<Rightarrow> framer_harmonic env filters payload fr
            | BamUpdate filters payload \<Rightarrow> framer_bam env filters payload fr) of
        (fr1, update) \<Rightarrow> (fr1\<lparr>fr_frames := pop_frames (fr_frames fr1)\<rparr>, update))"

definition framer_reconnected :: "framer \<Rightarrow> framer" where
  "framer_reconnected fr =
     with_counts (\<lambda>c. c\<lparr>n_reconnects := n_reconnects c + 1\<rparr>)
       (fr\<lparr>fr_frames := map (\<lambda>(k, f). (k, f\<lparr>sf_ended := sf_open f \<or> sf_ended f, sf_open := False\<rparr>)) (fr_frames fr)\<rparr>)"

subsection \<open>Runs\<close>

text \<open>What happens to a framer: feed updates, and its stream subscribing again.\<close>

datatype framer_op = Feed feed_message | Reconnect

fun framer_run :: "framer_env \<Rightarrow> framer_op list \<Rightarrow> framer \<Rightarrow> framer \<times> preconf_update list" where
  "framer_run env [] fr = (fr, [])"
| "framer_run env (Feed u # ops) fr =
     (case framer_apply env u fr of
        (fr1, update) \<Rightarrow>
          (case framer_run env ops fr1 of
             (fr2, updates) \<Rightarrow> (fr2, (case update of None \<Rightarrow> updates | Some x \<Rightarrow> x # updates))))"
| "framer_run env (Reconnect # ops) fr = framer_run env ops (framer_reconnected fr)"

fun op_slots :: "framer_op \<Rightarrow> slot list" where
  "op_slots (Feed (HarmonicUpdate _ (Some (HarmonicTransaction sl _ _)))) = [sl]"
| "op_slots (Feed (HarmonicUpdate _ (Some (SlotStart sl)))) = [sl]"
| "op_slots (Feed (HarmonicUpdate _ (Some (SlotEnd sl)))) = [sl]"
| "op_slots (Feed (BamUpdate _ (Some (BamTransaction sl _ _)))) = [sl]"
| "op_slots _ = []"

definition named_slots :: "framer_op list \<Rightarrow> slot set" where
  "named_slots ops = set (concat (map op_slots ops))"

text \<open>The indices under which the transactions of a slot were delivered, in order.\<close>

fun slot_indices :: "slot \<Rightarrow> preconf_update list \<Rightarrow> u64 list" where
  "slot_indices sl [] = []"
| "slot_indices sl (u # us) =
     (if txn_slot (pu_transaction u) = sl
      then (case txn_transaction (pu_transaction u) of Some info \<Rightarrow> [info_index info] | None \<Rightarrow> [])
      else []) @ slot_indices sl us"

subsection \<open>Indices\<close>

type_synonym slot_frames = "(u64, slot_frame) btree_map"

definition next_of :: "slot_frames \<Rightarrow> slot \<Rightarrow> u64" where
  "next_of m sl = sf_next (unwrap_or (bt_get m sl) default_frame)"

definition frames_in :: "slot set \<Rightarrow> slot_frames \<Rightarrow> bool" where
  "frames_in N m \<longleftrightarrow> bt_ok m \<and> set (bt_keys m) \<subseteq> N"

definition option_list :: "'a option \<Rightarrow> 'a list" where
  "option_list x = (case x of None \<Rightarrow> [] | Some y \<Rightarrow> [y])"

lemma option_list_simps [simp]: "option_list None = []" "option_list (Some x) = [x]"
  by (simp_all add: option_list_def)

text \<open>A step numbers what it delivers for a slot with the slot's next index.\<close>

definition numbers :: "slot set \<Rightarrow> slot \<Rightarrow> slot_frames \<Rightarrow> slot_frames \<Rightarrow> preconf_update list \<Rightarrow> bool" where
  "numbers N sl m m' out \<longleftrightarrow> frames_in N m' \<and>
     (slot_indices sl out = [] \<and> next_of m' sl = next_of m sl \<or>
      slot_indices sl out = [next_of m sl] \<and> next_of m' sl = next_of m sl + 1)"

lemma frames_in_insert: "frames_in N m \<Longrightarrow> k \<in> N \<Longrightarrow> frames_in N (bt_insert k f m)"
  using bt_insert_keys [of k f m] by (auto simp: frames_in_def bt.ok_insert)

lemma frames_in_retain: "frames_in N m \<Longrightarrow> frames_in N (bt_retain P m)"
  using bt_retain_ok [of m P] by (auto simp: frames_in_def bt_retain_def)

lemma next_of_insert:
  "frames_in N m \<Longrightarrow> next_of (bt_insert k f m) sl = (if sl = k then sf_next f else next_of m sl)"
  by (simp add: next_of_def bt.lookup_insert frames_in_def)

lemma next_of_retain: "frames_in N m \<Longrightarrow> (\<And>v. P sl v) \<Longrightarrow> next_of (bt_retain P m) sl = next_of m sl"
  by (simp add: next_of_def frames_in_def bt_get_retain split: option.splits)

text \<open>Writing a frame that keeps its index, as a slot's start, end and first transaction do.\<close>

lemma numbers_touch:
  assumes "frames_in N m" and "k \<in> N" and "sf_next f = next_of m k"
  shows "numbers N sl m (bt_insert k f m) []"
  using frames_in_insert [OF assms(1,2)] next_of_insert [OF assms(1)] assms(3) by (simp add: numbers_def)

lemma numbers_same: "frames_in N m \<Longrightarrow> numbers N sl m m []"
  by (simp add: numbers_def)

lemma numbers_trans:
  "numbers N sl m m1 [] \<Longrightarrow> numbers N sl m1 m2 out \<Longrightarrow> numbers N sl m m2 out"
  "numbers N sl m m1 out \<Longrightarrow> numbers N sl m1 m2 [] \<Longrightarrow> numbers N sl m m2 out"
  by (auto simp: numbers_def)

lemma numbers_frames_in: "numbers N sl m m' out \<Longrightarrow> frames_in N m'"
  by (simp add: numbers_def)

lemma advance_numbers:
  assumes "frames_in N (fr_frames fr)" and "unat k \<le> unat sl + 64"
  shows "numbers N sl (fr_frames fr) (fr_frames (advance k fr)) []"
proof -
  have "saturating_sub k SLOT_RETENTION \<le> sl"
    using assms(2) by (simp add: word_le_nat_alt unat_saturating_sub SLOT_RETENTION_def)
  then show ?thesis
    using assms(1) by (simp add: advance_def numbers_def frames_in_retain next_of_retain [OF assms(1)])
qed

lemma next_index_frames:
  "next_index k fr = (fr1, i) \<Longrightarrow> i = next_of (fr_frames fr) k \<and> (\<exists>f. fr_frames fr1 = bt_insert k f (fr_frames fr) \<and>
     sf_next f = next_of (fr_frames fr) k + 1)"
  by (auto simp: next_index_def Let_def next_of_def)

lemma transaction_numbers:
  assumes "frames_in N (fr_frames fr)" and "k \<in> N" and "framer_transaction env fs k result body fr = (fr', out)"
  shows "numbers N sl (fr_frames fr) (fr_frames fr') (option_list out)"
proof -
  obtain fr1 i where ni: "next_index k fr = (fr1, i)" by fastforce
  obtain f where f: "i = next_of (fr_frames fr) k" "fr_frames fr1 = bt_insert k f (fr_frames fr)"
    "sf_next f = next_of (fr_frames fr) k + 1" using next_index_frames [OF ni] by blast
  have same: "numbers N sl (fr_frames fr) (fr_frames fr) []" by (rule numbers_same [OF assms(1)])
  have ins: "frames_in N (fr_frames fr1)" "next_of (fr_frames fr1) sl = (if sl = k then sf_next f else next_of (fr_frames fr) sl)"
    using frames_in_insert [OF assms(1,2)] next_of_insert [OF assms(1)] by (simp_all add: f(2))
  show ?thesis
    using assms(3) same ins f(1,3)
    by (auto simp: framer_transaction_def unknown_payload_def Let_def ni numbers_def
        split: option.splits list.splits if_splits)
qed

lemma harmonic_numbers:
  assumes "frames_in N (fr_frames fr)" and "set (op_slots (Feed (HarmonicUpdate fs payload))) \<subseteq> N"
    and "\<And>k. k \<in> N \<Longrightarrow> unat k \<le> unat sl + 64" and "framer_harmonic env fs payload fr = (fr', out)"
  shows "numbers N sl (fr_frames fr) (fr_frames fr') (option_list out)"
proof (cases payload)
  case None
  with assms(1,4) show ?thesis by (auto simp: unknown_payload_def numbers_same)
next
  case (Some pl)
  then show ?thesis
  proof (cases pl)
    case (HarmonicTransaction k result body)
    with Some assms show ?thesis by (auto intro: transaction_numbers)
  next
    case (SlotStart k)
    with Some assms show ?thesis
      by (auto simp: Let_def next_of_def intro!: numbers_touch)
  next
    case (SlotEnd k)
    let ?fr = "fr\<lparr>fr_frames := bt_upsert k default_frame (\<lambda>f. f\<lparr>sf_open := False, sf_ended := True\<rparr>) (fr_frames fr)\<rparr>"
    have k: "k \<in> N" using SlotEnd Some assms(2) by simp
    have "numbers N sl (fr_frames fr) (fr_frames ?fr) []"
      using numbers_touch [OF assms(1) k] by (simp add: bt_upsert_def next_of_def)
    from numbers_trans(1) [OF this advance_numbers [OF numbers_frames_in [OF this] assms(3) [OF k]]]
    show ?thesis using assms(4) Some SlotEnd by auto
  qed (use assms(1,4) in \<open>auto simp: framer_clip_def numbers_same\<close>)
qed

lemma bam_numbers:
  assumes "frames_in N (fr_frames fr)" and "set (op_slots (Feed (BamUpdate fs payload))) \<subseteq> N"
    and "\<And>k. k \<in> N \<Longrightarrow> unat k \<le> unat sl + 64" and "framer_bam env fs payload fr = (fr', out)"
  shows "numbers N sl (fr_frames fr) (fr_frames fr') (option_list out)"
proof (cases payload)
  case None
  with assms(1,4) show ?thesis by (auto simp: unknown_payload_def numbers_same)
next
  case (Some pl)
  then show ?thesis
  proof (cases pl)
    case (BamTransaction k result body)
    let ?fr = "fr\<lparr>fr_frames := bt_upsert k default_frame (\<lambda>f. f\<lparr>sf_open := True\<rparr>) (fr_frames fr)\<rparr>"
    have k: "k \<in> N" using BamTransaction Some assms(2) by simp
    have open_frame: "numbers N sl (fr_frames fr) (fr_frames ?fr) []"
      using numbers_touch [OF assms(1) k] by (simp add: bt_upsert_def next_of_def)
    obtain fr1 out1 where tx: "framer_transaction env fs k result body ?fr = (fr1, out1)" by fastforce
    have "numbers N sl (fr_frames fr) (fr_frames fr1) (option_list out1)"
      by (rule numbers_trans(1) [OF open_frame transaction_numbers [OF numbers_frames_in [OF open_frame] k tx]])
    from numbers_trans(2) [OF this advance_numbers [OF numbers_frames_in [OF this] assms(3) [OF k]]]
    show ?thesis using assms(4) Some BamTransaction tx by simp
  qed (use assms(1,4) in \<open>auto simp: framer_clip_def numbers_same\<close>)
qed

lemma MAX_FRAMES_eq [simp]: "MAX_FRAMES = 256"
  by (simp add: MAX_FRAMES_def SLOT_RETENTION_def)

lemma pop_frames_id: "length m \<le> 256 \<Longrightarrow> pop_frames m = m"
  by (cases m) simp_all

lemma pop_frames_length: "length (pop_frames m) \<le> 256"
  by (induction m) simp_all

lemma frames_in_length: "frames_in N m \<Longrightarrow> finite N \<Longrightarrow> length m \<le> card N"
  using card_mono [of N "set (bt_keys m)"] distinct_card [OF ascending_distinct, of "bt_keys m"]
  by (auto simp: frames_in_def bt_ok_def)

lemma apply_numbers:
  assumes "frames_in N (fr_frames fr)" and "set (op_slots (Feed u)) \<subseteq> N" and "\<And>k. k \<in> N \<Longrightarrow> unat k \<le> unat sl + 64"
    and "finite N" and "card N \<le> 256" and "framer_apply env u fr = (fr', out)"
  shows "numbers N sl (fr_frames fr) (fr_frames fr') (option_list out)"
proof -
  obtain fr1 where fr1: "fr' = fr1\<lparr>fr_frames := pop_frames (fr_frames fr1)\<rparr>"
    and n: "numbers N sl (fr_frames fr) (fr_frames fr1) (option_list out)"
    using assms(6) harmonic_numbers [OF assms(1) _ assms(3)] bam_numbers [OF assms(1) _ assms(3)] assms(2)
    by (cases u) (auto simp: framer_apply_def split: prod.splits)
  from frames_in_length [OF numbers_frames_in [OF n] assms(4)] assms(5) pop_frames_id fr1 n show ?thesis by simp
qed

lemma map_of_map_frames: "map_of (map (\<lambda>(k, f). (k, g f)) m) k = map_option g (map_of m k)"
  by (induction m) auto

lemma reconnected_numbers:
  assumes "frames_in N (fr_frames fr)"
  shows "numbers N sl (fr_frames fr) (fr_frames (framer_reconnected fr)) []"
  using assms
  by (cases "bt_get (fr_frames fr) sl")
     (auto simp: framer_reconnected_def numbers_def frames_in_def next_of_def map_of_map_frames bt_ok_def
       comp_def case_prod_beta)

lemma slot_indices_append: "slot_indices sl (xs @ ys) = slot_indices sl xs @ slot_indices sl ys"
  by (induction xs) simp_all

lemma run_numbers:
  assumes "finite N" and "card N \<le> 256" and "\<And>k. k \<in> N \<Longrightarrow> unat k \<le> unat sl + 64"
  shows "frames_in N (fr_frames fr) \<Longrightarrow> named_slots ops \<subseteq> N \<Longrightarrow> framer_run env ops fr = (fr', outs) \<Longrightarrow>
    slot_indices sl outs = map (\<lambda>i. next_of (fr_frames fr) sl + of_nat i) [0..<length (slot_indices sl outs)]"
proof (induction env ops fr arbitrary: outs rule: framer_run.induct)
  case (2 env u ops fr)
  obtain fr1 out where ap: "framer_apply env u fr = (fr1, out)" by fastforce
  obtain outs1 where outs: "framer_run env ops fr1 = (fr', outs1)" "outs = option_list out @ outs1"
    using "2.prems"(3) ap by (auto simp: option_list_def split: prod.splits option.splits)
  have "set (op_slots (Feed u)) \<subseteq> N" "named_slots ops \<subseteq> N" using "2.prems"(2) by (auto simp: named_slots_def)
  have n: "numbers N sl (fr_frames fr) (fr_frames fr1) (option_list out)"
    by (rule apply_numbers [OF "2.prems"(1) \<open>set (op_slots (Feed u)) \<subseteq> N\<close> _ assms(1,2) ap]) (rule assms(3))
  have ih: "slot_indices sl outs1 =
      map (\<lambda>i. next_of (fr_frames fr1) sl + of_nat i) [0..<length (slot_indices sl outs1)]"
    by (rule "2.IH" [OF ap [symmetric] numbers_frames_in [OF n] \<open>named_slots ops \<subseteq> N\<close> outs(1)])
  have shift: "map (\<lambda>i. a + 1 + of_nat i) [0..<n] = map (\<lambda>i. a + of_nat i :: u64) [Suc 0..<Suc n]" for a n
    by (simp add: map_Suc_upt [symmetric] del: upt_Suc)
  from n show ?case
    unfolding numbers_def slot_indices_append outs(2)
  proof (elim conjE disjE)
    assume "slot_indices sl (option_list out) = [next_of (fr_frames fr) sl]" "next_of (fr_frames fr1) sl = next_of (fr_frames fr) sl + 1"
    with ih show "slot_indices sl (option_list out) @ slot_indices sl outs1 = map (\<lambda>i. next_of (fr_frames fr) sl + of_nat i)
        [0..<length (slot_indices sl (option_list out) @ slot_indices sl outs1)]"
      by (simp add: shift upt_conv_Cons del: upt_Suc)
  qed (use ih in simp)
next
  case (3 env ops fr)
  have "named_slots ops \<subseteq> N" using "3.prems"(2) by (auto simp: named_slots_def)
  with reconnected_numbers [OF "3.prems"(1), of sl] "3.IH" "3.prems"(3) show ?case
    by (auto simp: numbers_def)
qed simp


text \<open>A feed whose bytes are a signature, and a run with a restart, a resubscribe and a late start.\<close>

definition demo_framer_env :: framer_env where
  "demo_framer_env =
     \<lparr>decode_transaction = (\<lambda>body. if body = [] then None else Some \<lparr>vt_signatures = [body],
        vt_message = Legacy \<lparr>sm_header = \<lparr>num_required_signatures = 1, num_readonly_signed_accounts = 0,
          num_readonly_unsigned_accounts = 0\<rparr>, sm_account_keys = [], sm_lifetime = [], sm_instructions = []\<rparr>\<rparr>),
      simple_vote = (\<lambda>_ _ _. False)\<rparr>"

definition demo_ops :: "framer_op list" where
  "demo_ops =
     [Feed (HarmonicUpdate [] (Some (SlotStart 7))),
      Feed (HarmonicUpdate [''a''] (Some (HarmonicTransaction 7 (Some Success) [1]))),
      Feed (HarmonicUpdate [] (Some (SlotEnd 7))),
      Feed (HarmonicUpdate [] (Some (SlotStart 7))),
      Feed (HarmonicUpdate [''a''] (Some (HarmonicTransaction 7 (Some FeesOnly) [2]))),
      Reconnect,
      Feed (HarmonicUpdate [''a''] (Some (HarmonicTransaction 70 (Some Success) [3]))),
      Feed (HarmonicUpdate [] (Some (SlotEnd 70))),
      Feed (HarmonicUpdate [''a''] (Some (HarmonicTransaction 7 (Some Success) [4]))),
      Feed (HarmonicUpdate [''a''] (Some (HarmonicTransaction 7 None [5])))]"


subsection \<open>Accounting\<close>

text \<open>Updates that should deliver a transaction or cannot be read, and what the drop counters add up to.\<close>

fun expects_delivery :: "framer_op \<Rightarrow> bool" where
  "expects_delivery (Feed (HarmonicUpdate _ payload)) =
     (case payload of None \<Rightarrow> True | Some (HarmonicTransaction _ _ _) \<Rightarrow> True | _ \<Rightarrow> False)"
| "expects_delivery (Feed (BamUpdate _ payload)) =
     (case payload of None \<Rightarrow> True | Some (BamTransaction _ _ _) \<Rightarrow> True | _ \<Rightarrow> False)"
| "expects_delivery Reconnect = False"

definition dropped :: "counts \<Rightarrow> u64" where
  "dropped c = n_unknown_result c + n_undecodable c + n_vote_rule_dropped c + n_unknown_payload c"

definition wanted_by_all :: "(string \<rightharpoonup> bool) \<Rightarrow> preconf_update \<Rightarrow> bool" where
  "wanted_by_all rules u \<longleftrightarrow> pu_filters u \<noteq> [] \<and>
     is_some_and (txn_transaction (pu_transaction u))
       (\<lambda>info. \<forall>name\<in>set (pu_filters u). is_none_or (rules name) (\<lambda>wanted. wanted = info_is_vote info))"

definition accounts_for :: "bool \<Rightarrow> framer \<Rightarrow> framer \<times> preconf_update option \<Rightarrow> bool" where
  "accounts_for expected fr step \<longleftrightarrow>
     dropped (fr_counts (fst step)) + of_nat (length (option_list (snd step))) =
       dropped (fr_counts fr) + (if expected then 1 else 0) \<and>
     fr_vote_rules (fst step) = fr_vote_rules fr \<and>
     (\<forall>u\<in>set (option_list (snd step)). wanted_by_all (fr_vote_rules fr) u)"

lemma advance_counts [simp]: "fr_counts (advance sl fr) = fr_counts fr" "fr_vote_rules (advance sl fr) = fr_vote_rules fr"
  by (simp_all add: advance_def)

lemma next_index_counts:
  "next_index sl fr = (fr1, i) \<Longrightarrow> dropped (fr_counts fr1) = dropped (fr_counts fr) \<and> fr_vote_rules fr1 = fr_vote_rules fr"
  by (auto simp: next_index_def Let_def dropped_def)

lemma transaction_accounts: "accounts_for True fr (framer_transaction env fs sl result body fr)"
proof -
  obtain fr1 i where ni: "next_index sl fr = (fr1, i)" by fastforce
  from next_index_counts [OF ni] show ?thesis
    by (auto simp: framer_transaction_def accounts_for_def unknown_payload_def wanted_by_all_def Let_def ni dropped_def
        split: option.splits list.splits)
qed

lemma apply_accounts: "accounts_for (expects_delivery (Feed u)) fr (framer_apply env u fr)"
proof (cases u)
  case (HarmonicUpdate fs payload)
  show ?thesis
  proof (cases "(env, fs, payload, fr)" rule: framer_harmonic.cases)
    case (1 env' fs' sl result body fr')
    with transaction_accounts [of fr env fs sl result body] HarmonicUpdate show ?thesis
      by (auto simp: framer_apply_def accounts_for_def dropped_def split: prod.splits)
  qed (use HarmonicUpdate in \<open>auto simp: framer_apply_def accounts_for_def dropped_def unknown_payload_def
      framer_clip_def Let_def\<close>)
next
  case (BamUpdate fs payload)
  show ?thesis
  proof (cases "(env, fs, payload, fr)" rule: framer_bam.cases)
    case (1 env' fs' sl result body fr')
    with transaction_accounts [of "fr\<lparr>fr_frames := bt_upsert sl default_frame (\<lambda>f. f\<lparr>sf_open := True\<rparr>) (fr_frames fr)\<rparr>"
        env fs sl result body] BamUpdate show ?thesis
      by (auto simp: framer_apply_def accounts_for_def dropped_def split: prod.splits)
  qed (use BamUpdate in \<open>auto simp: framer_apply_def accounts_for_def dropped_def unknown_payload_def framer_clip_def\<close>)
qed

lemma apply_frames_bound: "length (fr_frames (fst (framer_apply env u fr))) \<le> 256"
  by (simp add: framer_apply_def pop_frames_length split: prod.splits)

lemma balance: "d1 + x = d + e \<Longrightarrow> f + d1 = y + d' \<Longrightarrow> e + f + d = x + y + d'" for d :: "'a::comm_monoid_add"
  by (metis add.assoc add.commute)

lemma run_accounts:
  "framer_run env ops fr = (fr', outs) \<Longrightarrow> length (fr_frames fr) \<le> 256 \<Longrightarrow>
    of_nat (length (filter expects_delivery ops)) + dropped (fr_counts fr) = of_nat (length outs) + dropped (fr_counts fr') \<and>
    length (fr_frames fr') \<le> 256 \<and> (\<forall>u\<in>set outs. wanted_by_all (fr_vote_rules fr) u)"
proof (induction env ops fr arbitrary: outs rule: framer_run.induct)
  case (2 env u ops fr)
  obtain fr1 out where ap: "framer_apply env u fr = (fr1, out)" by fastforce
  obtain outs1 where outs: "framer_run env ops fr1 = (fr', outs1)" "outs = option_list out @ outs1"
    using "2.prems"(1) ap by (auto simp: option_list_def split: prod.splits option.splits)
  have len: "length (fr_frames fr1) \<le> 256" using apply_frames_bound [of env u fr] ap by simp
  from apply_accounts [of u fr env] ap have ac: "dropped (fr_counts fr1) + of_nat (length (option_list out)) =
      dropped (fr_counts fr) + (if expects_delivery (Feed u) then 1 else 0)" "fr_vote_rules fr1 = fr_vote_rules fr"
    "\<forall>u\<in>set (option_list out). wanted_by_all (fr_vote_rules fr) u"
    by (simp_all add: accounts_for_def del: expects_delivery.simps)
  note ih = "2.IH" [OF ap [symmetric] outs(1) len]
  have "of_nat (length (filter expects_delivery (Feed u # ops))) + dropped (fr_counts fr) =
      of_nat (length outs) + dropped (fr_counts fr')"
    using balance [OF ac(1) conjunct1 [OF ih]]
    by (cases "expects_delivery (Feed u)") (simp_all add: outs(2) del: expects_delivery.simps)
  with ih ac(2,3) show ?case by (auto simp: outs(2) simp del: expects_delivery.simps)
next
  case (3 env ops fr)
  from "3.IH" "3.prems" show ?case by (simp add: framer_reconnected_def dropped_def)
qed simp

text \<open>
  No transaction is lost without a trace: every transaction or unknown payload of the feed is
  delivered or counted under exactly one of the drop counters; every delivered transaction
  names at least one parser, and each parser it names asked for no vote rule or for this kind
  of transaction; and the index map never holds more than 256 slots.
\<close>

theorem framer_accounts:
  assumes "framer_run env ops (new_framer feed rules) = (fr, outs)"
  shows "of_nat (length (filter expects_delivery ops)) = of_nat (length outs) + dropped (fr_counts fr) \<and>
    (\<forall>u\<in>set outs. wanted_by_all rules u) \<and> length (fr_frames fr) \<le> 256"
  using run_accounts [OF assms] by (simp add: new_framer_def dropped_def)

theorem framer_accounts_witness:
  "dropped (fr_counts (fst (framer_run demo_framer_env demo_ops (new_framer (Harmonic H_Fra) Map.empty)))) = 1"
proof -
  let ?run = "framer_run demo_framer_env demo_ops (new_framer (Harmonic H_Fra) Map.empty)"
  have "length (snd ?run) = 4" by code_simp
  moreover have "length (filter expects_delivery demo_ops) = 5" by code_simp
  ultimately show ?thesis
    using framer_accounts [of demo_framer_env demo_ops "Harmonic H_Fra" Map.empty "fst ?run" "snd ?run"] by simp
qed

end
