(* ===== verification/Preconf_Reconnect.thy ===== *)
theory Preconf_Reconnect
  imports Preconf_Framer
begin

text \<open>
  Resubscribing one feed stream (\<open>crates/preconf-source/src/reconnect.rs\<close>). The stream, the
  subscribe call, the clock and the timer are the world around it: \<open>feed_io\<close> has a function on
  the state of the world for each, an argument of the definitions. A subscribe that does not
  answer within its timeout is \<open>None\<close>. Durations are milliseconds. The loop of \<open>next\<close> may retry
  forever, so it is a partial function whose \<open>None\<close> is not returning.
\<close>

subsection \<open>Policy and waits\<close>

definition INITIAL_WAIT :: nat where "INITIAL_WAIT = 100"
definition MAX_WAIT :: nat where "MAX_WAIT = 10000"
definition STABLE :: nat where "STABLE = 60000"

record policy =
  enabled :: bool
  max_retries :: "u32 option"

definition retryable :: "grpc_code \<Rightarrow> bool" where
  "retryable code \<longleftrightarrow>
     code \<in> {Unavailable, DataLoss, ResourceExhausted, Internal, Unknown, Aborted, Cancelled, DeadlineExceeded}"

definition policy_retries :: "policy \<Rightarrow> u32 \<Rightarrow> grpc_code option \<Rightarrow> bool" where
  "policy_retries p attempt code \<longleftrightarrow>
     enabled p \<and> is_none_or code retryable \<and> is_none_or (max_retries p) (\<lambda>max. attempt \<le> max)"

text \<open>\<open>2u32.saturating_pow(n)\<close>, and the product with a duration, which cannot overflow.\<close>

definition saturating_pow2 :: "u32 \<Rightarrow> nat" where
  "saturating_pow2 n = min (2 ^ unat n) (2 ^ 32 - 1)"

definition wait :: "u32 \<Rightarrow> nat" where
  "wait attempt = min (INITIAL_WAIT * saturating_pow2 (saturating_sub attempt 1)) MAX_WAIT"

subsection \<open>The resubscriber\<close>

datatype item = Update "(grpc_status, feed_message) outcome" | Reconnected | Ended

record 'e feed_io =
  stream_next :: "'e \<Rightarrow> 'e \<times> (grpc_status, feed_message) outcome option"
  open_stream :: "'e \<Rightarrow> 'e \<times> (grpc_status, unit) outcome option"
  sleep :: "nat \<Rightarrow> 'e \<Rightarrow> 'e"
  now :: "'e \<Rightarrow> nat"

record resubscriber =
  rs_stream :: bool
  rs_policy :: policy
  rs_attempt :: u32
  rs_done :: bool
  rs_since :: nat

definition resubscribing :: "policy \<Rightarrow> nat \<Rightarrow> resubscriber" where
  "resubscribing p start =
     \<lparr>rs_stream = True, rs_policy = p, rs_attempt = 0, rs_done = False, rs_since = start\<rparr>"

definition bounded :: "(grpc_status, unit) outcome option \<Rightarrow> (grpc_status, unit) outcome" where
  "bounded answer =
     (case answer of
        None \<Rightarrow> Err \<lparr>status_code = DeadlineExceeded, status_message = ''subscribe did not answer''\<rparr>
      | Some r \<Rightarrow> r)"

definition resubscribe :: "'e feed_io \<Rightarrow> 'e \<Rightarrow> resubscriber \<Rightarrow> 'e \<times> resubscriber \<times> (grpc_status, unit) outcome" where
  "resubscribe io e r =
     (case open_stream io (sleep io (wait (rs_attempt r)) e) of
        (e1, answer) \<Rightarrow>
          (case bounded answer of
             Ok _ \<Rightarrow> (e1, r\<lparr>rs_stream := True, rs_since := now io e1\<rparr>, Ok ())
           | Err status \<Rightarrow> (e1, r, Err status)
           | Panic \<Rightarrow> (e1, r, Panic)))"

definition resub_failed :: "nat \<Rightarrow> grpc_status option \<Rightarrow> resubscriber \<Rightarrow> resubscriber \<times> item option" where
  "resub_failed time status r =
     (let r0 = (if rs_stream r \<and> STABLE \<le> time - rs_since r then r\<lparr>rs_attempt := 0\<rparr> else r);
          attempt = saturating_add (rs_attempt r0) 1;
          code = map_option status_code status
      in if policy_retries (rs_policy r0) attempt code
         then (r0\<lparr>rs_attempt := attempt, rs_stream := False\<rparr>, None)
         else (r0\<lparr>rs_done := True\<rparr>,
               Some (case status of None \<Rightarrow> Ended | Some s \<Rightarrow> Update (Err s))))"

text \<open>
  One round of the loop: the item that ends it, or nothing and the loop goes on. A panic of the
  stream or the subscribe call stays a panic.
\<close>

definition resub_round ::
  "'e feed_io \<Rightarrow> 'e \<Rightarrow> resubscriber \<Rightarrow> 'e \<times> resubscriber \<times> (unit, item option) outcome" where
  "resub_round io e r =
     (let fail = (\<lambda>e' r' status. case resub_failed (now io e') status r' of (r'', i) \<Rightarrow> (e', r'', Ok i))
      in if \<not> rs_stream r then
           (case resubscribe io e r of
              (e1, r1, Ok _) \<Rightarrow> (e1, r1, Ok (Some Reconnected))
            | (e1, r1, Err status) \<Rightarrow> fail e1 r1 (Some status)
            | (e1, r1, Panic) \<Rightarrow> (e1, r1, Panic))
         else
           (case stream_next io e of
              (e1, Some (Ok u)) \<Rightarrow>
                (e1, if is_progress u then r\<lparr>rs_attempt := 0\<rparr> else r, Ok (Some (Update (Ok u))))
            | (e1, Some (Err status)) \<Rightarrow> fail e1 r (Some status)
            | (e1, None) \<Rightarrow> fail e1 r None
            | (e1, Some Panic) \<Rightarrow> (e1, r, Panic)))"

partial_function (option) resub_loop ::
  "'e feed_io \<Rightarrow> 'e \<Rightarrow> resubscriber \<Rightarrow> ('e \<times> resubscriber \<times> (unit, item) outcome) option" where
  "resub_loop io e r =
     (case resub_round io e r of
        (e1, r1, Ok None) \<Rightarrow> resub_loop io e1 r1
      | (e1, r1, Ok (Some i)) \<Rightarrow> Some (e1, r1, Ok i)
      | (e1, r1, Err x) \<Rightarrow> Some (e1, r1, Err x)
      | (e1, r1, Panic) \<Rightarrow> Some (e1, r1, Panic))"

definition resub_next ::
  "'e feed_io \<Rightarrow> 'e \<Rightarrow> resubscriber \<Rightarrow> ('e \<times> resubscriber \<times> (unit, item) outcome option) option" where
  "resub_next io e r =
     (if rs_done r then Some (e, r, None)
      else map_option (\<lambda>(e', r', i). (e', r', Some i)) (resub_loop io e r))"

subsection \<open>The schedule\<close>

lemma wait_exact: "wait a = min (100 * 2 ^ (unat a - 1)) 10000"
proof (cases "unat a - 1 < 32")
  case True
  then have "(2::nat) ^ (unat a - 1) \<le> 2 ^ 31" by (intro power_increasing) auto
  then show ?thesis
    by (simp add: wait_def INITIAL_WAIT_def MAX_WAIT_def saturating_pow2_def unat_saturating_sub min_def)
next
  case False
  then have "(2::nat) ^ 32 \<le> 2 ^ (unat a - 1)" by (intro power_increasing) auto
  then show ?thesis
    by (simp add: wait_def INITIAL_WAIT_def MAX_WAIT_def saturating_pow2_def unat_saturating_sub min_def)
qed

text \<open>
  C30. The wait before attempt \<open>n\<close> is exactly 100 ms doubled \<open>n - 1\<close> times and cut at 10 s, for
  every 32-bit attempt number: saturation never shows. Eleven waits in a row are 52.7 s, inside
  a 60 s cooloff, and twelve are past it.
\<close>

theorem wait_schedule:
  "wait attempt = min (100 * 2 ^ (unat attempt - 1)) 10000 \<and>
   sum_list (map (\<lambda>n. wait (of_nat n)) [1..<12]) = 52700 \<and> 60000 < sum_list (map (\<lambda>n. wait (of_nat n)) [1..<13])"
  by (simp add: wait_exact upt_rec)

subsection \<open>Giving up\<close>

lemma failed_cases:
  assumes "resub_failed time status r = (r1, i)"
  obtains (again) "i = None" "rs_stream r1 = False" "rs_policy r1 = rs_policy r" "rs_done r1 = rs_done r"
      "policy_retries (rs_policy r) (rs_attempt r1) (map_option status_code status)"
      "\<not> rs_stream r \<Longrightarrow> rs_attempt r1 = saturating_add (rs_attempt r) 1"
    | (final) "i = Some (case status of None \<Rightarrow> Ended | Some s \<Rightarrow> Update (Err s))" "rs_done r1"
  using assms by (auto simp: resub_failed_def Let_def split: if_splits)

lemma round_again:
  assumes "resub_round io e r = (e1, r1, Ok None)"
  shows "\<not> rs_stream r1 \<and> rs_done r1 = rs_done r \<and> rs_policy r1 = rs_policy r \<and> is_none_or (max_retries (rs_policy r)) (\<lambda>max. rs_attempt r1 \<le> max) \<and>
    (\<not> rs_stream r \<longrightarrow> rs_attempt r1 = saturating_add (rs_attempt r) 1)"
proof -
  obtain e' status r0 where f: "resub_failed (now io e') status r0 = (r1, None)"
    and r0: "rs_stream r0 = rs_stream r" "rs_done r0 = rs_done r" "rs_policy r0 = rs_policy r" "rs_attempt r0 = rs_attempt r"
    using assms
    by (auto simp: resub_round_def resubscribe_def Let_def split: if_splits prod.splits outcome.splits option.splits)
  from f show ?thesis by (cases rule: failed_cases) (auto simp: r0 policy_retries_def)
qed

fun final_item :: "item \<Rightarrow> bool" where
  "final_item (Update r) = (case r of Ok _ \<Rightarrow> False | _ \<Rightarrow> True)"
| "final_item Reconnected = False"
| "final_item Ended = True"

lemma round_item:
  assumes "resub_round io e r = (e1, r1, Ok (Some i))" and "\<not> rs_done r"
  shows "rs_done r1 \<longleftrightarrow> final_item i"
proof -
  consider (failed) e' status r0 where "resub_failed (now io e') status r0 = (r1, Some i)"
    | (ok) "\<not> rs_done r1" "\<not> final_item i"
    using assms
    by (auto simp: resub_round_def resubscribe_def Let_def split: if_splits prod.splits outcome.splits option.splits)
  then show ?thesis
  proof cases
    case failed
    then show ?thesis by (cases rule: failed_cases) (auto split: option.splits)
  qed simp
qed

lemma saturating_add_1: "a \<noteq> - 1 \<Longrightarrow> unat (saturating_add a 1) = unat a + 1" for a :: u32
proof -
  assume "a \<noteq> - 1"
  then have "unat a \<noteq> unat (- 1 :: u32)" by (metis word_unat_eq_iff)
  with unat_bound [of a] show ?thesis
    by (simp add: unat_saturating_add unsigned_minus_1_eq_mask mask_eq_exp_minus_1)
qed

lemma loop_returns_closed:
  assumes "max_retries (rs_policy r) = Some n" and "n \<noteq> - 1" and "\<not> rs_stream r"
  shows "\<exists>x. resub_loop io e r = Some x"
  using assms
proof (induction "unat n - unat (rs_attempt r)" arbitrary: e r rule: less_induct)
  case less
  obtain e1 r1 res where rd: "resub_round io e r = (e1, r1, res)" by (metis prod_cases3)
  show ?case
  proof (cases "res = Ok None")
    case True
    note ra = round_again [OF rd [unfolded True]]
    with less.prems have le: "rs_attempt r1 \<le> n" and eq: "rs_attempt r1 = saturating_add (rs_attempt r) 1" by auto
    have "rs_attempt r \<noteq> - 1"
    proof
      assume "rs_attempt r = - 1"
      then have "rs_attempt r1 = - 1" by (simp add: eq saturating_add_def unsigned_minus_1_eq_mask mask_eq_exp_minus_1)
      with le less.prems(2) show False by (simp add: word_order.extremum_unique)
    qed
    then have "unat (rs_attempt r1) = unat (rs_attempt r) + 1" by (simp add: eq saturating_add_1)
    moreover have "unat (rs_attempt r1) \<le> unat n" using le by (simp add: word_le_nat_alt)
    ultimately have "\<exists>x. resub_loop io e1 r1 = Some x"
      using ra less.prems(1,2) by (intro less.hyps) auto
    with rd True show ?thesis by (subst resub_loop.simps) simp
  next
    case False
    then show ?thesis by (subst resub_loop.simps) (auto simp: rd split: outcome.splits option.splits)
  qed
qed

lemma loop_returns:
  assumes "max_retries (rs_policy r) = Some n" and "n \<noteq> - 1"
  shows "\<exists>x. resub_loop io e r = Some x"
proof -
  obtain e1 r1 res where rd: "resub_round io e r = (e1, r1, res)" by (metis prod_cases3)
  show ?thesis
  proof (cases "res = Ok None")
    case True
    with round_again [of io e r e1 r1] rd assms have "\<exists>x. resub_loop io e1 r1 = Some x"
      by (intro loop_returns_closed) auto
    with rd True show ?thesis by (subst resub_loop.simps) simp
  next
    case False
    then show ?thesis by (subst resub_loop.simps) (auto simp: rd split: outcome.splits option.splits)
  qed
qed

lemma loop_item_step:
  assumes ih: "\<And>io e r x. loop io e r = Some x \<Longrightarrow>
      \<forall>e' r' i. x = (e', r', Ok i) \<longrightarrow> \<not> rs_done r \<longrightarrow> (rs_done r' \<longleftrightarrow> final_item i)"
    and step: "(case resub_round io e r of
        (e1, r1, Ok None) \<Rightarrow> loop io e1 r1
      | (e1, r1, Ok (Some i)) \<Rightarrow> Some (e1, r1, Ok i)
      | (e1, r1, Err x) \<Rightarrow> Some (e1, r1, Err x)
      | (e1, r1, Panic) \<Rightarrow> Some (e1, r1, Panic)) = Some x"
    and x: "x = (e', r', Ok i)" and r: "\<not> rs_done r"
  shows "rs_done r' \<longleftrightarrow> final_item i"
proof -
  obtain e1 r1 res where rd: "resub_round io e r = (e1, r1, res)" by (metis prod_cases3)
  show ?thesis
  proof (cases "res = Ok None")
    case True
    with step rd have "loop io e1 r1 = Some x" by simp
    from ih [OF this] x r round_again [OF rd [unfolded True]] show ?thesis by simp
  next
    case False
    with step x rd have "res = Ok (Some i)" "r1 = r'"
      by (auto split: outcome.splits option.splits)
    with round_item [of io e r e1 r1 i] rd r show ?thesis by simp
  qed
qed

lemma loop_item:
  assumes "resub_loop io e r = Some (e', r', Ok i)" and "\<not> rs_done r"
  shows "rs_done r' \<longleftrightarrow> final_item i"
proof -
  have "\<forall>e' r' i. x = (e', r', Ok i) \<longrightarrow> \<not> rs_done r \<longrightarrow> (rs_done r' \<longleftrightarrow> final_item i)" if "resub_loop io e r = Some x" for x
    by (rule resub_loop.raw_induct [OF _ that]) (intro allI impI; rule loop_item_step)
  with assms show ?thesis by blast
qed

text \<open>
  C27. With a retry limit (below the largest \<open>u32\<close>) the stream never hangs in its retry loop: the
  next item always comes, whatever the server answers. An error or the end is final, so
  nothing comes after it, and any other item leaves the stream running.
\<close>

theorem resubscriber_returns:
  assumes "max_retries (rs_policy r) = Some n" and "n \<noteq> - 1" and "\<not> rs_done r"
  shows "\<exists>e' r' res. resub_next io e r = Some (e', r', Some res) \<and>
    (\<forall>i. res = Ok i \<longrightarrow> (if final_item i then \<forall>e''. resub_next io e'' r' = Some (e'', r', None) else \<not> rs_done r'))"
proof -
  from loop_returns [OF assms(1,2)] obtain e' r' res where l: "resub_loop io e r = Some (e', r', res)"
    by (metis prod_cases3)
  have "if final_item i then \<forall>e''. resub_next io e'' r' = Some (e'', r', None) else \<not> rs_done r'" if "res = Ok i" for i
    using loop_item [OF l [unfolded that] assms(3)] by (simp add: resub_next_def)
  moreover have "resub_next io e r = Some (e', r', Some res)" using l assms(3) by (simp add: resub_next_def)
  ultimately show ?thesis by blast
qed

text \<open>A server that is gone for good, in a world that records the waits.\<close>

definition dead_status :: "grpc_code \<Rightarrow> grpc_status" where
  "dead_status code = \<lparr>status_code = code, status_message = ''gone''\<rparr>"

definition dead_server :: "grpc_code \<Rightarrow> nat list feed_io" where
  "dead_server code =
     \<lparr>stream_next = (\<lambda>e. (e, None)), open_stream = (\<lambda>e. (e, Some (Err (dead_status code)))),
      sleep = (\<lambda>d e. e @ [d]), now = (\<lambda>_. 0)\<rparr>"

theorem resubscriber_returns_witness:
  "\<exists>e' r' res. resub_next (dead_server Unavailable) [] (resubscribing \<lparr>enabled = True, max_retries = Some 3\<rparr> 0) =
     Some (e', r', Some res)"
  using resubscriber_returns [of "resubscribing \<lparr>enabled = True, max_retries = Some 3\<rparr> 0" 3 "dead_server Unavailable" "[]"]
  by (auto simp: resubscribing_def)

lemma dead_loop:
  assumes "retryable code" and "enabled (rs_policy r)" and "max_retries (rs_policy r) = Some n" and "n \<noteq> - 1"
    and "\<not> rs_stream r" and "rs_attempt r \<le> n"
  shows "\<exists>r'. resub_loop (dead_server code) e r =
    Some (e @ map (\<lambda>i. wait (of_nat i)) [unat (rs_attempt r)..<Suc (unat n)], r', Ok (Update (Err (dead_status code))))"
  using assms(2-)
proof (induction "unat n - unat (rs_attempt r)" arbitrary: e r rule: less_induct)
  case less
  let ?e = "e @ [wait (rs_attempt r)]"
  let ?a = "saturating_add (rs_attempt r) 1"
  have ne: "rs_attempt r \<noteq> - 1" using less.prems(3,5) by (metis word_order.extremum_unique)
  have a: "unat ?a = unat (rs_attempt r) + 1" by (rule saturating_add_1 [OF ne])
  have le: "unat (rs_attempt r) \<le> unat n" using less.prems(5) by (simp add: word_le_nat_alt)
  have rd: "resub_round (dead_server code) e r =
      (if ?a \<le> n then (?e, r\<lparr>rs_attempt := ?a, rs_stream := False\<rparr>, Ok None)
       else (?e, r\<lparr>rs_done := True\<rparr>, Ok (Some (Update (Err (dead_status code))))))"
    using less.prems(1,2,4) assms(1)
    by (simp add: resub_round_def resubscribe_def dead_server_def dead_status_def bounded_def resub_failed_def
        policy_retries_def Let_def)
  show ?case
  proof (cases "?a \<le> n")
    case True
    let ?r = "r\<lparr>rs_attempt := ?a, rs_stream := False\<rparr>"
    have "unat n - unat (rs_attempt ?r) < unat n - unat (rs_attempt r)" using True a by (simp add: word_le_nat_alt)
    from less.hyps [OF this, of ?e] True less.prems(1-3) obtain r' where
      "resub_loop (dead_server code) ?e ?r =
        Some (?e @ map (\<lambda>i. wait (of_nat i)) [unat ?a..<Suc (unat n)], r', Ok (Update (Err (dead_status code))))" by auto
    with rd True a le show ?thesis by (subst resub_loop.simps) (simp add: upt_conv_Cons del: upt_Suc)
  next
    case False
    then have "unat n = unat (rs_attempt r)" using a le by (simp add: word_le_nat_alt)
    with rd False show ?thesis by (subst resub_loop.simps) simp
  qed
qed

text \<open>
  C1. Against a server that is gone, a stream with a retry limit of \<open>n\<close> waits the whole schedule,
  attempt 1 to attempt \<open>n\<close> in order, subscribes once after each wait and then stops with the
  server's status: not one retry more or less.
\<close>

theorem resubscriber_schedule:
  assumes "retryable code" and "n \<noteq> - 1" and "0 < n"
  shows "\<exists>r'. resub_next (dead_server code) e (resubscribing \<lparr>enabled = True, max_retries = Some n\<rparr> 0) =
    Some (e @ map (\<lambda>i. wait (of_nat i)) [1..<Suc (unat n)], r', Some (Ok (Update (Err (dead_status code)))))"
proof -
  let ?r = "resubscribing \<lparr>enabled = True, max_retries = Some n\<rparr> 0"
  let ?r1 = "?r\<lparr>rs_attempt := 1, rs_stream := False\<rparr>"
  have one: "saturating_add 0 1 = (1 :: u32)" by (simp add: saturating_add_def)
  have le: "(1 :: u32) \<le> n" using assms(3) by (simp add: word_le_nat_alt word_less_nat_alt)
  have rd: "resub_round (dead_server code) e ?r = (e, ?r1, Ok None)"
    using le by (simp add: resub_round_def dead_server_def resub_failed_def policy_retries_def resubscribing_def
        STABLE_def one Let_def)
  have "\<not> rs_done ?r" by (simp add: resubscribing_def)
  moreover obtain r' where "resub_loop (dead_server code) e ?r1 =
      Some (e @ map (\<lambda>i. wait (of_nat i)) [1..<Suc (unat n)], r', Ok (Update (Err (dead_status code))))"
    using dead_loop [OF assms(1), of ?r1 n e] assms(2) le by (auto simp: resubscribing_def)
  moreover have "resub_loop (dead_server code) e ?r = resub_loop (dead_server code) e ?r1"
    by (subst resub_loop.simps) (simp add: rd)
  ultimately show ?thesis by (simp add: resub_next_def del: upt_Suc)
qed

theorem resubscriber_schedule_witness:
  "\<exists>r'. resub_next (dead_server Unavailable) [] (resubscribing \<lparr>enabled = True, max_retries = Some 3\<rparr> 0) =
    Some ([100, 200, 400], r', Some (Ok (Update (Err (dead_status Unavailable)))))"
proof -
  have waits: "map (\<lambda>i. wait (of_nat i)) [1..<Suc (unat (3 :: u32))] = [100, 200, 400]"
    by (simp add: wait_exact upt_rec)
  have "\<exists>r'. resub_next (dead_server Unavailable) [] (resubscribing \<lparr>enabled = True, max_retries = Some 3\<rparr> 0) =
      Some ([] @ map (\<lambda>i. wait (of_nat i)) [1..<Suc (unat (3 :: u32))], r', Some (Ok (Update (Err (dead_status Unavailable)))))"
    by (rule resubscriber_schedule) (simp_all add: retryable_def)
  then show ?thesis by (simp only: append_Nil waits)
qed

end
