(* ===== verification/Preconf_Source.thy ===== *)
theory Preconf_Source
  imports Preconf_Reconnect "HOL-Library.Sublist" "HOL-Library.Multiset"
begin

text \<open>
  The preconfirmation source (\<open>crates/preconf-source/src/lib.rs\<close>, \<open>connect.rs\<close> and the config of
  \<open>config.rs\<close>): one stream per region, each with its framer, merged into the channel of the
  runtime. The gRPC client is an argument: parsing the endpoint and the token, dialling, and the
  first subscribe of each stream. The merged streams are a sequence of tagged items in the order
  \<open>select_all\<close> yields them.
\<close>

subsection \<open>Configuration and connection\<close>

record preconf_config =
  endpoint :: string
  x_token :: "string option"
  harmonic_regions :: "harmonic_region list"
  bam_regions :: "bam_region list"
  timeout :: u64
  auto_reconnect :: bool
  reconnect_max_retries :: "u32 option"

definition default_preconf_config :: preconf_config where
  "default_preconf_config =
     \<lparr>endpoint = ''https://preconfs.rpcpool.com'', x_token = None, harmonic_regions = [], bam_regions = [],
      timeout = 10, auto_reconnect = True, reconnect_max_retries = None\<rparr>"

datatype connect_error = NoRegion | Scheme "string option" | PlainTextToken | Token | Transport

datatype preconf_error = ConnectFailed connect_error | FilterFailed filter_error

record uri =
  uri_scheme :: "string option"
  uri_host :: "string option"

record grpc_client =
  parse_token :: "string \<Rightarrow> bool"
  parse_uri :: "string \<Rightarrow> uri option"
  dial :: "string \<Rightarrow> bool \<Rightarrow> bool"
  first_subscribe :: "feed \<Rightarrow> feed_request \<Rightarrow> (grpc_status, unit) outcome option"

text \<open>The token goes on every request, so its check is that a header can carry it.\<close>

definition token_interceptor :: "grpc_client \<Rightarrow> string option \<Rightarrow> (connect_error, string option) outcome" where
  "token_interceptor client token =
     (case token of
        None \<Rightarrow> Ok None
      | Some t \<Rightarrow> if parse_token client t then Ok (Some t) else Err Token)"

definition preconf_channel :: "grpc_client \<Rightarrow> string \<Rightarrow> bool \<Rightarrow> (connect_error, bool) outcome" where
  "preconf_channel client ep with_token =
     (if take 5 ep = ''unix:'' then Err (Scheme (Some ''unix''))
      else
        (case parse_uri client ep of
           None \<Rightarrow> Err Transport
         | Some u \<Rightarrow>
             bind_outcome
               (if uri_scheme u = Some ''https'' then Ok True
                else if uri_scheme u = Some ''http'' then Ok False
                else Err (Scheme (uri_scheme u)))
               (\<lambda>tls.
                 let loopback = uri_host u \<in> {Some ''127.0.0.1'', Some ''localhost'', Some ''[::1]''}
                 in if with_token \<and> \<not> tls \<and> \<not> loopback then Err PlainTextToken
                    else if dial client ep tls then Ok tls else Err Transport)))"

subsection \<open>The merged streams\<close>

text \<open>
  What the loop meets: an item of a stream, with whether the receiver stays while it is
  handled, and the receiver found gone while waiting.
\<close>

datatype merged_event = Merged nat item bool | ReceiverGone

text \<open>One item: \<open>Ok\<close> goes on, \<open>Err\<close> breaks with an exit status.\<close>

fun preconf_item ::
  "framer_env \<Rightarrow> item \<Rightarrow> framer \<Rightarrow> preconf_update runtime_item mpsc \<Rightarrow>
   framer \<times> preconf_update runtime_item mpsc \<times> (source_exit_status, unit) outcome" where
  "preconf_item env Ended fr tx = (fr, tx, Err StreamEnded)"
| "preconf_item env Reconnected fr tx = (framer_reconnected fr, tx, Ok ())"
| "preconf_item env (Update (Ok u)) fr tx =
     (case framer_apply env u fr of
        (fr1, None) \<Rightarrow> (fr1, tx, Ok ())
      | (fr1, Some x) \<Rightarrow>
          (case mpsc_send (Ok x) tx of
             (tx1, Ok _) \<Rightarrow> (with_counts (\<lambda>c. c\<lparr>n_delivered := n_delivered c + 1\<rparr>) fr1, tx1, Ok ())
           | (tx1, _) \<Rightarrow> (fr1, tx1, Err ReceiverDropped)))"
| "preconf_item env (Update (Err status)) fr tx =
     (fr, fst (mpsc_send (Err status) tx), Err (StreamError (status_code status) (status_message status)))"
| "preconf_item env (Update Panic) fr tx = (fr, tx, Panic)"

fun preconf_run ::
  "framer_env \<Rightarrow> merged_event list \<Rightarrow> framer list \<Rightarrow> preconf_update runtime_item mpsc \<Rightarrow>
   framer list \<times> preconf_update runtime_item mpsc \<times> (unit, source_exit_status) outcome" where
  "preconf_run env [] framers tx = (framers, tx, Ok StreamEnded)"
| "preconf_run env (ReceiverGone # events) framers tx = (framers, tx\<lparr>closed := True\<rparr>, Ok ReceiverDropped)"
| "preconf_run env (Merged index i stays # events) framers tx =
     (if length framers \<le> index then (framers, tx, Ok (SourceError (''no framer for stream '' @ decimal index)))
      else
        (case preconf_item env i (framers ! index) (if stays then tx else tx\<lparr>closed := True\<rparr>) of
           (fr, tx1, Ok _) \<Rightarrow> preconf_run env events (framers[index := fr]) tx1
         | (fr, tx1, Err status) \<Rightarrow> (framers[index := fr], tx1, Ok status)
         | (fr, tx1, Panic) \<Rightarrow> (framers[index := fr], tx1, Panic)))"

subsection \<open>Connecting\<close>

definition feeds_of :: "preconf_config \<Rightarrow> feed list" where
  "feeds_of config = map Harmonic (dedup (harmonic_regions config)) @ map Bam (dedup (bam_regions config))"

text \<open>The first subscribe of each stream in turn; its failure stops the source.\<close>

fun subscribe_all ::
  "grpc_client \<Rightarrow> (string \<rightharpoonup> feed_transaction_filter) \<Rightarrow> feed list \<Rightarrow> (preconf_error shipstern_error, unit) outcome" where
  "subscribe_all client transactions [] = Ok ()"
| "subscribe_all client transactions (feed # feeds) =
     (case bounded (first_subscribe client feed (feed_request_for transactions (feed_region feed))) of
        Ok _ \<Rightarrow> subscribe_all client transactions feeds
      | Err status \<Rightarrow> Err (YellowstoneStatus status)
      | Panic \<Rightarrow> Panic)"

definition lift_connect :: "(connect_error, 'a) outcome \<Rightarrow> (preconf_error shipstern_error, 'a) outcome" where
  "lift_connect r = (case r of Ok x \<Rightarrow> Ok x | Err e \<Rightarrow> Err (OtherError (ConnectFailed e)) | Panic \<Rightarrow> Panic)"

definition lift_filter :: "(filter_error, 'a) outcome \<Rightarrow> (preconf_error shipstern_error, 'a) outcome" where
  "lift_filter r = (case r of Ok x \<Rightarrow> Ok x | Err e \<Rightarrow> Err (OtherError (FilterFailed e)) | Panic \<Rightarrow> Panic)"

definition preconf_connect ::
  "framer_env \<Rightarrow> grpc_client \<Rightarrow> (pubkey \<Rightarrow> string) \<Rightarrow> string list \<Rightarrow> preconf_config \<Rightarrow> filters \<Rightarrow>
   merged_event list \<Rightarrow> preconf_update runtime_item mpsc \<Rightarrow>
   (preconf_error shipstern_error,
    framer list \<times> preconf_update runtime_item mpsc \<times> (unit, source_exit_status) outcome) outcome" where
  "preconf_connect env client text_of order config fs events tx =
     (let feeds = feeds_of config
      in if feeds = [] then Err (OtherError (ConnectFailed NoRegion))
         else
           bind_outcome (lift_filter (feed_transactions text_of order fs)) (\<lambda>transactions.
           bind_outcome (lift_connect (token_interceptor client (x_token config))) (\<lambda>_.
           bind_outcome (lift_connect (preconf_channel client (endpoint config) (x_token config \<noteq> None))) (\<lambda>_.
           bind_outcome (subscribe_all client transactions feeds) (\<lambda>_.
           Ok (preconf_run env events (map (\<lambda>feed. new_framer feed (vote_rules_of fs)) feeds) tx))))))"

text \<open>The policy each stream is resubscribed with.\<close>

definition preconf_policy :: "preconf_config \<Rightarrow> policy" where
  "preconf_policy config = \<lparr>enabled = auto_reconnect config, max_retries = reconnect_max_retries config\<rparr>"

subsection \<open>Independence of the streams\<close>

text \<open>What a stream's own framer sees of the merged events, and events that end nothing.\<close>

fun stream_ops :: "nat \<Rightarrow> merged_event list \<Rightarrow> framer_op list" where
  "stream_ops k [] = []"
| "stream_ops k (Merged index (Update (Ok u)) _ # events) = (if index = k then [Feed u] else []) @ stream_ops k events"
| "stream_ops k (Merged index Reconnected _ # events) = (if index = k then [Reconnect] else []) @ stream_ops k events"
| "stream_ops k (_ # events) = stream_ops k events"

fun uneventful :: "nat \<Rightarrow> merged_event \<Rightarrow> bool" where
  "uneventful n (Merged index i stays) = (index < n \<and> stays \<and> \<not> final_item i)"
| "uneventful n ReceiverGone = False"

definition deliver :: "u64 \<Rightarrow> framer \<Rightarrow> framer" where
  "deliver k fr = with_counts (\<lambda>c. c\<lparr>n_delivered := n_delivered c + k\<rparr>) fr"

lemma deliver_fields [simp]:
  "fr_frames (deliver k fr) = fr_frames fr" "fr_vote_rules (deliver k fr) = fr_vote_rules fr"
  "fr_frontier (deliver k fr) = fr_frontier fr" "deliver 0 fr = fr" "deliver k (deliver l fr) = deliver (l + k) fr"
  by (simp_all add: deliver_def add.assoc)

text \<open>Framing does not read the delivery counter.\<close>

definition unseen :: "(framer \<Rightarrow> framer \<times> 'a) \<Rightarrow> bool" where
  "unseen f \<longleftrightarrow> (\<forall>k fr. f (deliver k fr) = (deliver k (fst (f fr)), snd (f fr)))"

lemma unseenI: "(\<And>k fr. f (deliver k fr) = (deliver k (fst (f fr)), snd (f fr))) \<Longrightarrow> unseen f"
  by (simp add: unseen_def)

lemma unseenD: "unseen f \<Longrightarrow> f fr = (fr', x) \<Longrightarrow> f (deliver k fr) = (deliver k fr', x)"
  by (simp add: unseen_def)

lemma advance_deliver: "advance sl (deliver k fr) = deliver k (advance sl fr)"
  by (simp add: advance_def) (simp add: deliver_def)

lemma frames_deliver: "deliver k fr\<lparr>fr_frames := m\<rparr> = deliver k (fr\<lparr>fr_frames := m\<rparr>)"
  by (simp add: deliver_def)

lemma next_index_unseen: "unseen (next_index sl)"
  by (rule unseenI) (simp add: next_index_def Let_def, simp add: deliver_def)

lemma transaction_unseen: "unseen (framer_transaction env fs sl result body)"
proof (rule unseenI)
  fix k fr
  obtain fr1 i where ni: "next_index sl fr = (fr1, i)" by fastforce
  note nd = unseenD [OF next_index_unseen ni, of k]
  show "framer_transaction env fs sl result body (deliver k fr) =
    (deliver k (fst (framer_transaction env fs sl result body fr)), snd (framer_transaction env fs sl result body fr))"
    by (simp add: framer_transaction_def Let_def nd ni split: option.splits list.splits)
       (auto simp: deliver_def unknown_payload_def)
qed

lemma harmonic_unseen: "unseen (framer_harmonic env fs payload)"
proof (rule unseenI)
  fix k fr
  show "framer_harmonic env fs payload (deliver k fr) =
    (deliver k (fst (framer_harmonic env fs payload fr)), snd (framer_harmonic env fs payload fr))"
    using transaction_unseen
    by (cases "(env, fs, payload, fr)" rule: framer_harmonic.cases)
       (auto simp: Let_def unseen_def advance_deliver frames_deliver, auto simp: deliver_def unknown_payload_def framer_clip_def)
qed

lemma bam_unseen: "unseen (framer_bam env fs payload)"
proof (rule unseenI)
  fix k fr
  show "framer_bam env fs payload (deliver k fr) =
    (deliver k (fst (framer_bam env fs payload fr)), snd (framer_bam env fs payload fr))"
    using transaction_unseen
    by (cases "(env, fs, payload, fr)" rule: framer_bam.cases)
       (auto simp: unseen_def advance_deliver frames_deliver split: prod.splits,
        auto simp: deliver_def unknown_payload_def framer_clip_def)
qed

lemma apply_unseen: "unseen (framer_apply env u)"
  using harmonic_unseen bam_unseen
  by (cases u) (auto simp: unseen_def framer_apply_def frames_deliver split: prod.splits)

lemma reconnected_deliver: "framer_reconnected (deliver k fr) = deliver k (framer_reconnected fr)"
  by (simp add: framer_reconnected_def deliver_def)

lemma run_unseen: "unseen (framer_run env ops)"
proof (rule unseenI)
  fix k fr
  show "framer_run env ops (deliver k fr) = (deliver k (fst (framer_run env ops fr)), snd (framer_run env ops fr))"
  proof (induction env ops fr rule: framer_run.induct)
    case (2 env u ops fr)
    obtain fr1 out where ap: "framer_apply env u fr = (fr1, out)" by fastforce
    from unseenD [OF apply_unseen ap, of k] "2.IH" [OF ap [symmetric]] ap show ?case
      by (cases out) (auto split: prod.splits)
  qed (simp_all add: reconnected_deliver)
qed

text \<open>
  The outcome of a run: each framer ran on its own stream only, and what was sent is an
  interleaving of what the framers delivered.
\<close>

definition interleaves :: "framer_env \<Rightarrow> merged_event list \<Rightarrow> framer list \<Rightarrow> framer list \<Rightarrow> preconf_update list \<Rightarrow> bool" where
  "interleaves env events framers framers' q \<longleftrightarrow> length framers' = length framers \<and>
     (\<forall>k<length framers. case framer_run env (stream_ops k events) (framers ! k) of
        (fr, outs) \<Rightarrow> framers' ! k = deliver (of_nat (length outs)) fr \<and> subseq outs q) \<and>
     mset q = (\<Sum>k<length framers. mset (snd (framer_run env (stream_ops k events) (framers ! k))))"

lemma framer_run_Feed:
  "framer_apply env u fr = (fr1, out) \<Longrightarrow> framer_run env ops fr1 = (fr2, outs) \<Longrightarrow>
   framer_run env (Feed u # ops) fr = (fr2, option_list out @ outs)"
  by (simp add: option_list_def split: option.splits)

lemma interleaves_step:
  assumes index: "index < length framers"
    and run: "\<And>ops fr2 outs. framer_run env ops fr1 = (fr2, outs) \<Longrightarrow>
      framer_run env (op # ops) (framers ! index) = (fr2, option_list out @ outs)"
    and ops: "stream_ops index (ev # events) = op # stream_ops index events"
    and others: "\<And>k. k \<noteq> index \<Longrightarrow> stream_ops k (ev # events) = stream_ops k events"
    and rest: "interleaves env events (framers[index := deliver (of_nat (length (option_list out))) fr1]) framers' q"
  shows "interleaves env (ev # events) framers framers' (option_list out @ q)"
proof -
  let ?n = "of_nat (length (option_list out)) :: u64"
  let ?framers = "framers[index := deliver ?n fr1]"
  let ?run = "\<lambda>k fs. framer_run env (stream_ops k events) (fs ! k)"
  obtain fr2 outs where r1: "framer_run env (stream_ops index events) fr1 = (fr2, outs)" by fastforce
  have own: "framer_run env (stream_ops index (ev # events)) (framers ! index) = (fr2, option_list out @ outs)"
    using run [OF r1] ops by simp
  have own': "?run index ?framers = (deliver ?n fr2, outs)"
    using unseenD [OF run_unseen r1, of ?n] index by simp
  have other: "framer_run env (stream_ops k (ev # events)) (framers ! k) = ?run k ?framers" if "k \<noteq> index" for k
    using others [OF that] that by simp
  have r: "length framers' = length framers"
    "\<And>k. k < length framers \<Longrightarrow> case ?run k ?framers of
      (fr, os) \<Rightarrow> framers' ! k = deliver (of_nat (length os)) fr \<and> subseq os q"
    "mset q = (\<Sum>k<length framers. mset (snd (?run k ?framers)))"
    using rest by (simp_all add: interleaves_def)
  have own_q: "framers' ! index = deliver (of_nat (length outs)) (deliver ?n fr2)" "subseq outs q"
    using r(2) [OF index] own' by simp_all
  have each: "case framer_run env (stream_ops k (ev # events)) (framers ! k) of
      (fr, os) \<Rightarrow> framers' ! k = deliver (of_nat (length os)) fr \<and> subseq os (option_list out @ q)"
    if "k < length framers" for k
  proof (cases "k = index")
    case True
    with own own_q show ?thesis by (simp add: list_emb_append_mono)
  next
    case False
    with r(2) [OF that] other [OF False] show ?thesis by (auto intro: list_emb_append2 split: prod.splits)
  qed
  have "(\<Sum>k<length framers. mset (snd (framer_run env (stream_ops k (ev # events)) (framers ! k)))) =
      mset (option_list out @ outs) + (\<Sum>k\<in>{..<length framers} - {index}. mset (snd (?run k ?framers)))"
    using index own other by (subst sum.remove [of _ index]) (auto intro!: sum.cong)
  moreover have "mset q = mset outs + (\<Sum>k\<in>{..<length framers} - {index}. mset (snd (?run k ?framers)))"
    using index own' unfolding r(3) by (subst sum.remove [of _ index]) auto
  ultimately show ?thesis using each r(1) by (simp add: interleaves_def)
qed

lemma preconf_run_streams:
  "list_all (uneventful (length framers)) events \<Longrightarrow> \<not> closed tx \<Longrightarrow>
    \<exists>framers' q. preconf_run env events framers tx = (framers', tx\<lparr>queue := queue tx @ map Ok q\<rparr>, Ok StreamEnded) \<and>
      interleaves env events framers framers' q"
proof (induction events arbitrary: framers tx)
  case Nil
  show ?case by (intro exI [of _ framers] exI [of _ "[]"]) (simp add: interleaves_def)
next
  case (Cons ev events)
  then obtain index i where ev: "ev = Merged index i True" "index < length framers" "\<not> final_item i"
    by (cases ev) auto
  have later: "list_all (uneventful (length framers)) events" using Cons.prems(1) by simp
  show ?case
  proof (cases "i = Reconnected")
    case True
    let ?framers = "framers[index := framer_reconnected (framers ! index)]"
    obtain framers' q where ih: "preconf_run env events ?framers tx = (framers', tx\<lparr>queue := queue tx @ map Ok q\<rparr>, Ok StreamEnded)"
      "interleaves env events ?framers framers' q" using Cons.IH [of ?framers tx] later Cons.prems(2) by auto
    have "interleaves env (ev # events) framers framers' (option_list None @ q)"
      by (rule interleaves_step [OF ev(2)]) (use ih(2) True in \<open>auto simp: ev(1)\<close>)
    with ih(1) True ev show ?thesis by auto
  next
    case False
    with ev(3) obtain u where u: "i = Update (Ok u)" by (cases i) (auto split: outcome.splits)
    obtain fr1 out where ap: "framer_apply env u (framers ! index) = (fr1, out)" by fastforce
    let ?framers = "framers[index := deliver (of_nat (length (option_list out))) fr1]"
    let ?tx = "tx\<lparr>queue := queue tx @ map Ok (option_list out)\<rparr>"
    have step: "preconf_run env (ev # events) framers tx = preconf_run env events ?framers ?tx"
      using ev(1,2) u ap Cons.prems(2) by (cases out) (simp_all add: mpsc_send_def deliver_def)
    obtain framers' q where ih: "preconf_run env events ?framers ?tx = (framers', ?tx\<lparr>queue := queue ?tx @ map Ok q\<rparr>, Ok StreamEnded)"
      "interleaves env events ?framers framers' q" using Cons.IH [of ?framers ?tx] later Cons.prems(2) by auto
    have "interleaves env (ev # events) framers framers' (option_list out @ q)"
      by (rule interleaves_step [OF ev(2) framer_run_Feed [OF ap]]) (use ih(2) in \<open>auto simp: ev(1) u\<close>)
    with ih(1) step show ?thesis by (intro exI [of _ framers'] exI [of _ "option_list out @ q"]) simp
  qed
qed

text \<open>
  C26. The streams of the source are independent: while none ends or fails and the receiver stays,
  the runtime gets an interleaving of what each stream's framer delivers from that stream's
  updates alone, each stream in its own order, nothing added, nothing lost; and each framer's
  delivery counter counts exactly its part.
\<close>

theorem preconf_streams_independent:
  assumes "list_all (uneventful (length framers)) events" and "\<not> closed tx"
  shows "\<exists>framers' q. preconf_run env events framers tx = (framers', tx\<lparr>queue := queue tx @ map Ok q\<rparr>, Ok StreamEnded) \<and>
      length framers' = length framers \<and>
      (\<forall>k<length framers. case framer_run env (stream_ops k events) (framers ! k) of
         (fr, outs) \<Rightarrow> framers' ! k = deliver (of_nat (length outs)) fr \<and> subseq outs q) \<and>
      mset q = (\<Sum>k<length framers. mset (snd (framer_run env (stream_ops k events) (framers ! k))))"
  using preconf_run_streams [OF assms] by (simp add: interleaves_def)

definition demo_framers :: "framer list" where
  "demo_framers = [new_framer (Harmonic H_Fra) Map.empty, new_framer (Bam B_Tyo) Map.empty]"

definition demo_merged :: "merged_event list" where
  "demo_merged =
     [Merged 0 (Update (Ok (HarmonicUpdate [] (Some (SlotStart 7))))) True,
      Merged 1 (Update (Ok (BamUpdate [''b''] (Some (BamTransaction 7 (Some Success) [1]))))) True,
      Merged 0 (Update (Ok (HarmonicUpdate [''a''] (Some (HarmonicTransaction 7 (Some Success) [2]))))) True,
      Merged 1 Reconnected True,
      Merged 1 (Update (Ok (BamUpdate [''b''] (Some (BamTransaction 7 None [3]))))) True]"

theorem preconf_streams_independent_witness:
  "\<exists>framers' q. preconf_run demo_framer_env demo_merged demo_framers \<lparr>queue = [], closed = False\<rparr> =
     (framers', \<lparr>queue = map Ok q, closed = False\<rparr>, Ok StreamEnded) \<and> length framers' = 2"
  using preconf_streams_independent [of demo_framers demo_merged "\<lparr>queue = [], closed = False\<rparr>" demo_framer_env]
  by (auto simp: demo_framers_def demo_merged_def)

end
