(* ===== verification/Preconf_Instructions.thy ===== *)
theory Preconf_Instructions
  imports Preconf_Source
begin

text \<open>
  A preconfirmation as the instruction parsers see it: the updates of the preconfirmation source
  (\<open>crates/preconf-source\<close>) read by the tree builder of the core
  (\<open>InstructionUpdate::build_from_txn\<close> in \<open>crates/core/src/instruction.rs\<close>).
\<close>

definition keys_of :: "versioned_transaction \<Rightarrow> pubkey list" where
  "keys_of tx = sm_account_keys (message_of (vt_message tx))"

definition instructions_of :: "versioned_transaction \<Rightarrow> sol_instruction list" where
  "instructions_of tx = sm_instructions (message_of (vt_message tx))"

text \<open>Every account an instruction uses is one of the message's own keys, not of a lookup table.\<close>

definition resolvable :: "versioned_transaction \<Rightarrow> bool" where
  "resolvable tx \<longleftrightarrow>
     (\<forall>ix\<in>set (instructions_of tx). \<forall>k\<in>set (si_program_id_index ix # si_accounts ix). unat k < length (keys_of tx))"

lemma convert_message:
  obtains msg header where "pt_message (convert_transaction tx) = Some msg" "msg_header msg = Some header"
    "msg_account_keys msg = keys_of tx"
    "msg_instructions msg = map (\<lambda>ix. \<lparr>ci_program_id_index = ucast (si_program_id_index ix),
       ci_accounts = si_accounts ix, ci_data = si_data ix\<rparr>) (instructions_of tx)"
proof -
  have "mp_account_keys (parts_of m) = sm_account_keys (message_of m)" "mp_instructions (parts_of m) = sm_instructions (message_of m)" for m
    by (cases m; simp)+
  then show thesis
    by (intro that [of _ "ProtoHeader _ _ _"])
       (auto simp: convert_transaction_def Let_def keys_of_def instructions_of_def)
qed

lemma build_instruction_resolves:
  assumes "sh_accounts shared = \<lparr>static_keys = ks, dynamic_rw = [], dynamic_ro = []\<rparr>" and "\<forall>k\<in>set ks. length k = 32"
  shows "(\<exists>n. build_instruction shared p accs d path = Ok n) \<longleftrightarrow>
    unat p < length ks \<and> (\<forall>a\<in>set accs. unat a < length ks)"
proof -
  have get: "(\<exists>x. account_keys_get (sh_accounts shared) i = Ok x) \<longleftrightarrow> i < length ks" for i
    using assms(2) by (auto simp: assms(1) account_keys_get_spec)
  have accs: "(\<exists>xs. list_all2 (\<lambda>i acc. account_keys_get (sh_accounts shared) (unat i) = Ok acc) accs xs) \<longleftrightarrow>
      (\<forall>a\<in>set accs. unat a < length ks)"
    by (induction accs) (auto simp: list_all2_Cons1 get [symmetric])
  have "(\<exists>n. build_instruction shared p accs d path = Ok n) \<longleftrightarrow>
      (\<exists>x. account_keys_get (sh_accounts shared) (unat p) = Ok x) \<and>
      (\<exists>xs. list_all2 (\<lambda>i acc. account_keys_get (sh_accounts shared) (unat i) = Ok acc) accs xs)"
    by (auto simp: build_instruction_Ok)
  then show ?thesis by (simp only: get accs)
qed

lemma try_map_ex: "(\<exists>ys. try_map f xs = Ok ys) \<longleftrightarrow> (\<forall>x\<in>set xs. \<exists>y. f x = Ok y)"
  by (induction xs) (auto simp: bind_outcome_eq_Ok)

definition delivered_by :: "framer_env \<Rightarrow> preconf_update \<Rightarrow> bool" where
  "delivered_by env x \<longleftrightarrow> (\<exists>fs sl result body fr. snd (framer_transaction env fs sl result body fr) = Some x)"

lemma delivered_byI: "framer_transaction env fs sl result body fr = (fr1, Some x) \<Longrightarrow> delivered_by env x"
  unfolding delivered_by_def by (metis snd_conv)

lemma harmonic_output: "framer_harmonic env fs payload fr = (fr1, Some x) \<Longrightarrow> delivered_by env x"
  by (cases "(env, fs, payload, fr)" rule: framer_harmonic.cases) (auto simp: Let_def intro: delivered_byI)

lemma bam_output: "framer_bam env fs payload fr = (fr1, Some x) \<Longrightarrow> delivered_by env x"
  by (cases "(env, fs, payload, fr)" rule: framer_bam.cases) (auto split: prod.splits intro: delivered_byI)

lemma framer_apply_output: "framer_apply env u fr = (fr', Some x) \<Longrightarrow> delivered_by env x"
  by (cases u) (auto simp: framer_apply_def split: prod.splits dest: harmonic_output bam_output)

lemma delivered_by_parts:
  assumes "delivered_by env x"
  obtains body tx failed info where "decode_transaction env body = Some tx" "txn_transaction (pu_transaction x) = Some info"
    "info_transaction info = Some (convert_transaction tx)" "info_meta info = Some (convert_meta failed)"
proof -
  obtain fs sl result body fr where "snd (framer_transaction env fs sl result body fr) = Some x"
    using assms by (auto simp: delivered_by_def)
  then have "\<exists>tx failed info. decode_transaction env body = Some tx \<and> txn_transaction (pu_transaction x) = Some info \<and>
      info_transaction info = Some (convert_transaction tx) \<and> info_meta info = Some (convert_meta failed)"
    by (auto simp: framer_transaction_def Let_def split: option.split_asm list.split_asm if_split_asm prod.split_asm)
  then show thesis using that by blast
qed

lemma build_outer_resolves:
  assumes "sh_accounts shared = \<lparr>static_keys = ks, dynamic_rw = [], dynamic_ro = []\<rparr>" and "\<forall>k\<in>set ks. length k = 32"
  shows "(\<exists>outer. build_outer shared ixs = Ok outer) \<longleftrightarrow>
    (\<forall>ix\<in>set ixs. unat (ci_program_id_index ix) < length ks \<and> (\<forall>a\<in>set (ci_accounts ix). unat a < length ks))"
proof -
  let ?f = "\<lambda>(idx, i). build_outer_instruction shared i (new_single (of_nat idx))"
  let ?ok = "\<lambda>ix. unat (ci_program_id_index ix) < length ks \<and> (\<forall>a\<in>set (ci_accounts ix). unat a < length ks)"
  have f: "(\<exists>n. ?f p = Ok n) \<longleftrightarrow> ?ok (snd p)" for p
    by (cases p) (simp add: build_outer_instruction_def build_instruction_resolves [OF assms])
  have "set ixs = snd ` set (enumerate 0 ixs)" by (metis map_snd_enumerate set_map)
  then have "(\<forall>ix\<in>set ixs. ?ok ix) \<longleftrightarrow> (\<forall>p\<in>set (enumerate 0 ixs). ?ok (snd p))" by (simp only: ball_simps)
  then show ?thesis by (simp only: build_outer_def try_map_ex f)
qed

lemma convert_meta_fields:
  "meta_inner_instructions (convert_meta failed) = []" "meta_log_messages (convert_meta failed) = []"
  "meta_loaded_writable_addresses (convert_meta failed) = []" "meta_loaded_readonly_addresses (convert_meta failed) = []"
  by (simp_all add: convert_meta_def)

text \<open>
  Instructions of a preconfirmation: a delivered transaction builds exactly when its
  instructions use only the message's own keys; a transaction that takes an account from a
  lookup table fails, for the feed resolves none. What builds has one instruction per outer
  instruction of the message, without inner instructions and without logs.
\<close>

theorem preconf_instructions:
  assumes "framer_apply env u fr = (fr', Some x)"
    and "\<And>body tx k. decode_transaction env body = Some tx \<Longrightarrow> k \<in> set (keys_of tx) \<Longrightarrow> length k = 32"
  shows "\<exists>tx info. txn_transaction (pu_transaction x) = Some info \<and> info_transaction info = Some (convert_transaction tx) \<and>
    ((\<exists>trees. build_from_txn parse (pu_transaction x) = Ok trees) \<longleftrightarrow> resolvable tx) \<and>
    (\<forall>trees. build_from_txn parse (pu_transaction x) = Ok trees \<longrightarrow>
       length trees = length (instructions_of tx) \<and> (\<forall>t\<in>set trees. ix_inner t = [] \<and> ix_log_range t = (0, 0)))"
proof -
  obtain body tx failed info where tx: "decode_transaction env body = Some tx" "txn_transaction (pu_transaction x) = Some info"
    "info_transaction info = Some (convert_transaction tx)" "info_meta info = Some (convert_meta failed)"
    by (rule delivered_by_parts [OF framer_apply_output [OF assms(1)]])
  obtain msg header where msg: "pt_message (convert_transaction tx) = Some msg" "msg_header msg = Some header"
    "msg_account_keys msg = keys_of tx"
    "msg_instructions msg = map (\<lambda>ix. \<lparr>ci_program_id_index = ucast (si_program_id_index ix),
       ci_accounts = si_accounts ix, ci_data = si_data ix\<rparr>) (instructions_of tx)" by (rule convert_message)
  let ?shared = "shared_of (txn_slot (pu_transaction x)) info (convert_meta failed) msg header"
  have build: "build_from_txn parse (pu_transaction x) = build_outer ?shared (msg_instructions msg)"
    by (cases "build_outer ?shared (msg_instructions msg)")
       (simp_all add: build_from_txn_def ok_or_def tx msg(1,2) Let_def sh_log_messages_shared_of assign_log_messages_def
         convert_meta_fields)
  have "sh_accounts ?shared = \<lparr>static_keys = keys_of tx, dynamic_rw = [], dynamic_ro = []\<rparr>"
    by (simp add: shared_of_def convert_meta_fields msg(3))
  from build_outer_resolves [OF this, of "msg_instructions msg"] assms(2) [OF tx(1)]
  have "(\<exists>trees. build_from_txn parse (pu_transaction x) = Ok trees) \<longleftrightarrow> resolvable tx"
    by (auto simp: build msg(4) resolvable_def unat_ucast_u8_u32)
  moreover have "length trees = length (instructions_of tx) \<and> (\<forall>t\<in>set trees. ix_inner t = [] \<and> ix_log_range t = (0, 0))"
    if "build_from_txn parse (pu_transaction x) = Ok trees" for trees
    using build_outer_Ok [OF that [unfolded build]] by (auto simp: msg(4) in_set_conv_nth)
  ultimately show ?thesis using tx(2,3) by blast
qed

text \<open>A v0 transaction whose only instruction uses an account of a lookup table.\<close>

definition lookup_env :: framer_env where
  "lookup_env =
     \<lparr>decode_transaction = (\<lambda>_. Some \<lparr>vt_signatures = [[1]], vt_message = V0
        \<lparr>sm_header = \<lparr>num_required_signatures = 1, num_readonly_signed_accounts = 0, num_readonly_unsigned_accounts = 0\<rparr>,
         sm_account_keys = [replicate 32 1], sm_lifetime = [],
         sm_instructions = [\<lparr>si_program_id_index = 0, si_accounts = [1], si_data = []\<rparr>]\<rparr>
        [\<lparr>tl_account_key = replicate 32 9, tl_writable_indexes = [0], tl_readonly_indexes = []\<rparr>]\<rparr>),
      simple_vote = (\<lambda>_ _ _. False)\<rparr>"

theorem preconf_instructions_witness:
  "\<exists>fr x. framer_apply lookup_env (BamUpdate [''a''] (Some (BamTransaction 7 (Some Success) [])))
      (new_framer (Bam B_Fra) Map.empty) = (fr, Some x) \<and>
    \<not> (\<exists>trees. build_from_txn (\<lambda>_. None) (pu_transaction x) = Ok trees)"
proof -
  let ?step = "framer_apply lookup_env (BamUpdate [''a''] (Some (BamTransaction 7 (Some Success) [])))
      (new_framer (Bam B_Fra) Map.empty)"
  obtain fr x where x: "?step = (fr, Some x)" and only: "\<And>tx. decode_transaction lookup_env [] = Some tx \<Longrightarrow>
      \<exists>info. txn_transaction (pu_transaction x) = Some info \<and> info_transaction info = Some (convert_transaction tx)"
    by (auto simp: framer_apply_def framer_transaction_def lookup_env_def new_framer_def next_index_def Let_def
        split: prod.splits)
  have keys: "length k = 32" if "decode_transaction lookup_env body = Some tx" "k \<in> set (keys_of tx)" for body tx k
    using that by (auto simp: lookup_env_def keys_of_def)
  obtain tx where tx: "decode_transaction lookup_env [] = Some tx" "\<not> resolvable tx"
    by (auto simp: lookup_env_def resolvable_def keys_of_def instructions_of_def)
  have "\<exists>tx info. txn_transaction (pu_transaction x) = Some info \<and> info_transaction info = Some (convert_transaction tx) \<and>
    ((\<exists>trees. build_from_txn (\<lambda>_. None) (pu_transaction x) = Ok trees) \<longleftrightarrow> resolvable tx) \<and>
    (\<forall>trees. build_from_txn (\<lambda>_. None) (pu_transaction x) = Ok trees \<longrightarrow>
       length trees = length (instructions_of tx) \<and> (\<forall>t\<in>set trees. ix_inner t = [] \<and> ix_log_range t = (0, 0)))"
    by (rule preconf_instructions [OF x]) (rule keys)
  with only [OF tx(1)] tx(2) convert_transaction_inj show ?thesis using x by (auto dest: injD)
qed

end
