(* ===== verification/Runtime_Buffer.thy ===== *)
theory Runtime_Buffer
  imports Sources "HOL-Library.Multiset"
begin

text \<open>
  The runtime's job buffer (\<open>Buffer::run_yellowstone\<close> and \<open>drain_in_flight\<close> of
  \<open>crates/runtime/src/buffer.rs\<close>) as a step relation: the producer task that takes updates from
  the source's channel and a permit for each, the bridge thread that spawns a job per update,
  the jobs themselves and the shutdown. Every rule is one atomic action of one of them; a job
  ends by returning or by panicking, and its permit is dropped either way. The sets of updates
  that were started, finished and discarded are kept beside the state as its history.
\<close>

subsection \<open>Relations with an invariant and a weight\<close>

locale invariant_steps =
  fixes step :: "'s \<Rightarrow> 's \<Rightarrow> bool" and inv :: "'s \<Rightarrow> bool"
  assumes step_keeps: "step s t \<Longrightarrow> inv s \<Longrightarrow> inv t"
begin

lemma reach_keeps: "step\<^sup>*\<^sup>* s t \<Longrightarrow> inv s \<Longrightarrow> inv t"
  by (induction rule: rtranclp_induct) (auto intro: step_keeps)

end

locale weighted_steps =
  fixes step :: "'s \<Rightarrow> 's \<Rightarrow> bool" and weight :: "'s \<Rightarrow> nat"
  assumes step_weight: "step s t \<Longrightarrow> weight t < weight s"
begin

lemma run_bounded: "(step ^^ n) s t \<Longrightarrow> n + weight t \<le> weight s"
proof (induction n arbitrary: t)
  case (Suc n)
  then obtain u where "(step ^^ n) s u" "step u t" by auto
  with Suc.IH [of u] step_weight [of u t] show ?case by auto
qed simp

lemma run_ends: "\<exists>t. step\<^sup>*\<^sup>* s t \<and> (\<nexists>t'. step t t')"
proof (induction "weight s" arbitrary: s rule: less_induct)
  case less
  show ?case
  proof (cases "\<exists>t. step s t")
    case True
    then obtain t where "step s t" ..
    with less [of t] step_weight [of s t] show ?thesis by (meson converse_rtranclp_into_rtranclp)
  qed auto
qed

end

subsection \<open>The state\<close>

text \<open>The result of the task: a stop code is a unit.\<close>

type_synonym 'o stop_result = "('o shipstern_error, unit) outcome"

datatype ('u, 'o) producer =
    Receiving
  | Acquiring 'u
  | Sending 'u
  | Stopping "'o stop_result" bool
  | Closing "'o stop_result"
  | Draining "'o stop_result"
  | Joining "'o stop_result"
  | Done "'o stop_result"

datatype 'u bridge_thread = Waiting | Checking 'u | Exited

record ('u, 'o) buffer_state =
  stream :: "'u runtime_item list"
  stream_closes :: bool
  stop_requested :: bool
  permits :: nat
  producer :: "('u, 'o) producer"
  queued :: "'u list"
  tx_open :: bool
  abort :: bool
  bridge :: "'u bridge_thread"
  running :: "'u list"
  started :: "'u list"
  finished :: "'u list"
  discarded :: "'u list"
  bridge_panicked :: bool
  drain_timed_out :: bool

text \<open>\<open>Semaphore::MAX_PERMITS\<close> is \<open>usize::MAX >> 3\<close>; without a setting the machine's parallelism counts.\<close>

definition MAX_PERMITS :: nat where "MAX_PERMITS = 2 ^ 61 - 1"

definition buffer_jobs :: "nat option \<Rightarrow> nat option \<Rightarrow> nat" where
  "buffer_jobs jobs parallelism = max 1 (min (unwrap_or jobs (unwrap_or parallelism 1)) MAX_PERMITS)"

definition run_yellowstone :: "nat \<Rightarrow> 'u runtime_item list \<Rightarrow> bool \<Rightarrow> ('u, 'o) buffer_state" where
  "run_yellowstone jobs items closes =
     \<lparr>stream = items, stream_closes = closes, stop_requested = False, permits = jobs, producer = Receiving,
      queued = [], tx_open = True, abort = False, bridge = Waiting, running = [], started = [], finished = [],
      discarded = [], bridge_panicked = False, drain_timed_out = False\<rparr>"

text \<open>\<open>u32::try_from(jobs).unwrap_or(u32::MAX)\<close>\<close>

definition all_permits :: "nat \<Rightarrow> nat" where
  "all_permits jobs = (if jobs < 2 ^ 32 then jobs else 2 ^ 32 - 1)"

fun in_check :: "'u bridge_thread \<Rightarrow> 'u list" where
  "in_check (Checking u) = [u]"
| "in_check _ = []"

subsection \<open>The steps\<close>

inductive buffer_step :: "nat \<Rightarrow> ('u, 'o) buffer_state \<Rightarrow> ('u, 'o) buffer_state \<Rightarrow> bool" for jobs where
  recv_update: "producer s = Receiving \<Longrightarrow> stream s = Ok u # rest \<Longrightarrow>
    buffer_step jobs s (s\<lparr>producer := Acquiring u, stream := rest\<rparr>)"
| recv_status: "producer s = Receiving \<Longrightarrow> stream s = Err e # rest \<Longrightarrow>
    buffer_step jobs s (s\<lparr>producer := Stopping (Err (YellowstoneStatus e)) False, stream := rest\<rparr>)"
| recv_closed: "producer s = Receiving \<Longrightarrow> stream s = [] \<Longrightarrow> stream_closes s \<Longrightarrow>
    buffer_step jobs s (s\<lparr>producer := Stopping (Ok ()) True\<rparr>)"
| stop_receiving: "producer s = Receiving \<Longrightarrow> stop_requested s \<Longrightarrow>
    buffer_step jobs s (s\<lparr>producer := Stopping (Ok ()) False\<rparr>)"
| acquire: "producer s = Acquiring u \<Longrightarrow> permits s = Suc n \<Longrightarrow>
    buffer_step jobs s (s\<lparr>producer := Sending u, permits := n\<rparr>)"
| stop_acquiring: "producer s = Acquiring u \<Longrightarrow> stop_requested s \<Longrightarrow>
    buffer_step jobs s (s\<lparr>producer := Stopping (Ok ()) False, discarded := discarded s @ [u]\<rparr>)"
| send: "producer s = Sending u \<Longrightarrow> bridge s \<noteq> Exited \<Longrightarrow>
    buffer_step jobs s (s\<lparr>producer := Receiving, queued := queued s @ [u]\<rparr>)"
| send_failed: "producer s = Sending u \<Longrightarrow> bridge s = Exited \<Longrightarrow>
    buffer_step jobs s (s\<lparr>producer := Stopping (Ok ()) False, permits := Suc (permits s), discarded := discarded s @ [u]\<rparr>)"
| store_abort: "producer s = Stopping r drain \<Longrightarrow>
    buffer_step jobs s (s\<lparr>producer := Closing r, abort := (abort s \<or> \<not> drain)\<rparr>)"
| drop_tx: "producer s = Closing r \<Longrightarrow> buffer_step jobs s (s\<lparr>producer := Draining r, tx_open := False\<rparr>)"
| drained: "producer s = Draining r \<Longrightarrow> all_permits jobs \<le> permits s \<Longrightarrow>
    buffer_step jobs s (s\<lparr>producer := Joining r\<rparr>)"
| drain_timeout: "producer s = Draining r \<Longrightarrow>
    buffer_step jobs s (s\<lparr>producer := Joining r, drain_timed_out := True\<rparr>)"
| join: "producer s = Joining r \<Longrightarrow> bridge s = Exited \<Longrightarrow> buffer_step jobs s (s\<lparr>producer := Done r\<rparr>)"
| bridge_recv: "bridge s = Waiting \<Longrightarrow> queued s = u # us \<Longrightarrow>
    buffer_step jobs s (s\<lparr>bridge := Checking u, queued := us\<rparr>)"
| bridge_spawn: "bridge s = Checking u \<Longrightarrow> \<not> abort s \<Longrightarrow>
    buffer_step jobs s (s\<lparr>bridge := Waiting, running := running s @ [u], started := started s @ [u]\<rparr>)"
| bridge_discard: "bridge s = Checking u \<Longrightarrow> abort s \<Longrightarrow>
    buffer_step jobs s (s\<lparr>bridge := Waiting, permits := Suc (permits s), discarded := discarded s @ [u]\<rparr>)"
| bridge_exit: "bridge s = Waiting \<Longrightarrow> queued s = [] \<Longrightarrow> \<not> tx_open s \<Longrightarrow> buffer_step jobs s (s\<lparr>bridge := Exited\<rparr>)"
| bridge_panic: "bridge s \<noteq> Exited \<Longrightarrow>
    buffer_step jobs s (s\<lparr>bridge := Exited, bridge_panicked := True, queued := [],
      permits := permits s + length (in_check (bridge s) @ queued s),
      discarded := discarded s @ in_check (bridge s) @ queued s\<rparr>)"
| job_ends: "running s = us @ u # vs \<Longrightarrow>
    buffer_step jobs s (s\<lparr>running := us @ vs, finished := finished s @ [u], permits := Suc (permits s)\<rparr>)"
| request_stop: "\<not> stop_requested s \<Longrightarrow> buffer_step jobs s (s\<lparr>stop_requested := True\<rparr>)"

subsection \<open>Permits\<close>

fun in_hand :: "('u, 'o) producer \<Rightarrow> 'u list" where
  "in_hand (Acquiring u) = [u]"
| "in_hand (Sending u) = [u]"
| "in_hand _ = []"

fun sending :: "('u, 'o) producer \<Rightarrow> 'u list" where
  "sending (Sending u) = [u]"
| "sending _ = []"

text \<open>The updates that hold a permit.\<close>

definition in_flight :: "('u, 'o) buffer_state \<Rightarrow> 'u list" where
  "in_flight s = running s @ in_check (bridge s) @ queued s @ sending (producer s)"

definition permits_conserved :: "nat \<Rightarrow> ('u, 'o) buffer_state \<Rightarrow> bool" where
  "permits_conserved jobs s \<longleftrightarrow> permits s + length (in_flight s) = jobs"

lemma permits_step: "buffer_step jobs s t \<Longrightarrow> permits_conserved jobs s \<Longrightarrow> permits_conserved jobs t"
  by (induction rule: buffer_step.induct) (auto simp: permits_conserved_def in_flight_def)

interpretation permits: invariant_steps "buffer_step jobs" "permits_conserved jobs"
  by unfold_locales (rule permits_step)

subsection \<open>Termination\<close>

fun producer_weight :: "('u, 'o) producer \<Rightarrow> nat" where
  "producer_weight Receiving = 5"
| "producer_weight (Acquiring u) = 12"
| "producer_weight (Sending u) = 11"
| "producer_weight (Stopping r drain) = 4"
| "producer_weight (Closing r) = 3"
| "producer_weight (Draining r) = 2"
| "producer_weight (Joining r) = 1"
| "producer_weight (Done r) = 0"

fun bridge_weight :: "'u bridge_thread \<Rightarrow> nat" where
  "bridge_weight Waiting = 1"
| "bridge_weight (Checking u) = 4"
| "bridge_weight Exited = 0"

lemma bridge_weight_pos: "b \<noteq> Exited \<Longrightarrow> 0 < bridge_weight b"
  by (cases b) auto

definition buffer_weight :: "('u, 'o) buffer_state \<Rightarrow> nat" where
  "buffer_weight s =
     8 * length (stream s) + producer_weight (producer s) + 4 * length (queued s) + length (running s) +
     bridge_weight (bridge s) + of_bool (\<not> stop_requested s)"

lemma weight_step: "buffer_step jobs s t \<Longrightarrow> buffer_weight t < buffer_weight s"
  by (induction rule: buffer_step.induct) (simp_all add: buffer_weight_def bridge_weight_pos)

interpretation weight: weighted_steps "buffer_step jobs" buffer_weight
  by unfold_locales (rule weight_step)

subsection \<open>The buffer's own steps\<close>

text \<open>
  One way to go on without a new stop request, a panic of the bridge or a timeout: jobs end first,
  then the bridge moves, then the producer.
\<close>

fun producer_next :: "nat \<Rightarrow> ('u, 'o) producer \<Rightarrow> ('u, 'o) buffer_state \<Rightarrow> ('u, 'o) buffer_state option" where
  "producer_next jobs Receiving s =
     (case stream s of
        Ok u # rest \<Rightarrow> Some (s\<lparr>producer := Acquiring u, stream := rest\<rparr>)
      | Err e # rest \<Rightarrow> Some (s\<lparr>producer := Stopping (Err (YellowstoneStatus e)) False, stream := rest\<rparr>)
      | _ \<Rightarrow> if stop_requested s then Some (s\<lparr>producer := Stopping (Ok ()) False\<rparr>)
             else if stream s = [] \<and> stream_closes s then Some (s\<lparr>producer := Stopping (Ok ()) True\<rparr>) else None)"
| "producer_next jobs (Acquiring u) s =
     (if permits s > 0 then Some (s\<lparr>producer := Sending u, permits := permits s - 1\<rparr>) else None)"
| "producer_next jobs (Sending u) s =
     (if bridge s = Exited
      then Some (s\<lparr>producer := Stopping (Ok ()) False, permits := Suc (permits s), discarded := discarded s @ [u]\<rparr>)
      else Some (s\<lparr>producer := Receiving, queued := queued s @ [u]\<rparr>))"
| "producer_next jobs (Stopping r drain) s = Some (s\<lparr>producer := Closing r, abort := (abort s \<or> \<not> drain)\<rparr>)"
| "producer_next jobs (Closing r) s = Some (s\<lparr>producer := Draining r, tx_open := False\<rparr>)"
| "producer_next jobs (Draining r) s =
     (if all_permits jobs \<le> permits s then Some (s\<lparr>producer := Joining r\<rparr>) else None)"
| "producer_next jobs (Joining r) s = (if bridge s = Exited then Some (s\<lparr>producer := Done r\<rparr>) else None)"
| "producer_next jobs (Done r) s = None"

fun bridge_next :: "'u bridge_thread \<Rightarrow> ('u, 'o) buffer_state \<Rightarrow> ('u, 'o) buffer_state option" where
  "bridge_next (Checking u) s =
     (if abort s then Some (s\<lparr>bridge := Waiting, permits := Suc (permits s), discarded := discarded s @ [u]\<rparr>)
      else Some (s\<lparr>bridge := Waiting, running := running s @ [u], started := started s @ [u]\<rparr>))"
| "bridge_next Waiting s =
     (case queued s of
        u # us \<Rightarrow> Some (s\<lparr>bridge := Checking u, queued := us\<rparr>)
      | [] \<Rightarrow> if tx_open s then None else Some (s\<lparr>bridge := Exited\<rparr>))"
| "bridge_next Exited s = None"

definition own_step :: "nat \<Rightarrow> ('u, 'o) buffer_state \<Rightarrow> ('u, 'o) buffer_state option" where
  "own_step jobs s =
     (case running s of
        u # us \<Rightarrow> Some (s\<lparr>running := us, finished := finished s @ [u], permits := Suc (permits s)\<rparr>)
      | [] \<Rightarrow> (case bridge_next (bridge s) s of Some t \<Rightarrow> Some t | None \<Rightarrow> producer_next jobs (producer s) s))"

lemma producer_next_sound: "producer_next jobs (producer s) s = Some t \<Longrightarrow> buffer_step jobs s t"
  by (cases "producer s"; cases "stream s"; cases "hd (stream s)")
     (auto split: if_splits intro: buffer_step.intros)

lemma bridge_next_sound: "bridge_next (bridge s) s = Some t \<Longrightarrow> buffer_step jobs s t"
  by (cases "bridge s") (auto split: if_splits list.splits intro: buffer_step.intros)

lemma own_step_sound: "own_step jobs s = Some t \<Longrightarrow> buffer_step jobs s t"
  using job_ends [of s "[]"]
  by (auto simp: own_step_def intro: producer_next_sound bridge_next_sound split: list.splits option.splits)

subsection \<open>The shape of a run\<close>

fun before_close :: "('u, 'o) producer \<Rightarrow> bool" where
  "before_close (Draining r) = False"
| "before_close (Joining r) = False"
| "before_close (Done r) = False"
| "before_close _ = True"

fun stop_result :: "('u, 'o) producer \<Rightarrow> 'o stop_result option" where
  "stop_result (Stopping r drain) = Some r"
| "stop_result (Closing r) = Some r"
| "stop_result (Draining r) = Some r"
| "stop_result (Joining r) = Some r"
| "stop_result (Done r) = Some r"
| "stop_result _ = None"

definition bridge_shape :: "('u, 'o) buffer_state \<Rightarrow> bool" where
  "bridge_shape s \<longleftrightarrow>
     tx_open s = before_close (producer s) \<and>
     (bridge s = Exited \<longrightarrow> queued s = [] \<and> (bridge_panicked s \<or> \<not> tx_open s))"

lemma bridge_shape_step: "buffer_step jobs s t \<Longrightarrow> bridge_shape s \<Longrightarrow> bridge_shape t"
  by (induction rule: buffer_step.induct) (auto simp: bridge_shape_def)

text \<open>Why a run stops early: a stop was requested, the bridge died, or the stream ended with a status.\<close>

definition cut_short :: "('u, 'o) buffer_state \<Rightarrow> bool" where
  "cut_short s \<longleftrightarrow>
     stop_requested s \<or> bridge_panicked s \<or> (\<exists>e. stop_result (producer s) = Some (Err (YellowstoneStatus e)))"

definition stop_shape :: "('u, 'o) buffer_state \<Rightarrow> bool" where
  "stop_shape s \<longleftrightarrow>
     (abort s \<or> (\<exists>r. producer s = Stopping r False) \<or> discarded s \<noteq> [] \<longrightarrow> cut_short s) \<and>
     (stop_result (producer s) \<noteq> None \<longrightarrow> cut_short s \<or> (stop_result (producer s) = Some (Ok ()) \<and> stream s = []))"

lemma stop_shape_step: "buffer_step jobs s t \<Longrightarrow> bridge_shape s \<Longrightarrow> stop_shape s \<Longrightarrow> stop_shape t"
  by (induction rule: buffer_step.induct) (auto simp: bridge_shape_def stop_shape_def cut_short_def)

text \<open>Past a drain that did not time out nothing holds a permit any more.\<close>

definition drain_shape :: "nat \<Rightarrow> ('u, 'o) buffer_state \<Rightarrow> bool" where
  "drain_shape jobs s \<longleftrightarrow>
     ((\<exists>r. producer s = Joining r \<or> producer s = Done r) \<longrightarrow> drain_timed_out s \<or> in_flight s = [])"

lemma drain_shape_step:
  "buffer_step jobs s t \<Longrightarrow> jobs < 2 ^ 32 \<Longrightarrow> permits_conserved jobs s \<Longrightarrow> drain_shape jobs s \<Longrightarrow> drain_shape jobs t"
  by (induction rule: buffer_step.induct)
     (auto simp: drain_shape_def permits_conserved_def in_flight_def all_permits_def)

text \<open>Every update taken from the stream is in one place; while none is discarded they stay in order.\<close>

definition placed :: "'u list \<Rightarrow> ('u, 'o) buffer_state \<Rightarrow> bool" where
  "placed taken s \<longleftrightarrow>
     mset taken = mset (started s) + mset (in_check (bridge s)) + mset (queued s) + mset (in_hand (producer s)) +
       mset (discarded s) \<and>
     (discarded s = [] \<longrightarrow> taken = started s @ in_check (bridge s) @ queued s @ in_hand (producer s)) \<and>
     mset (started s) = mset (running s) + mset (finished s)"

definition accounted :: "'u runtime_item list \<Rightarrow> ('u, 'o) buffer_state \<Rightarrow> bool" where
  "accounted items s \<longleftrightarrow>
     (\<exists>taken ended. items = map Ok taken @ map Err ended @ stream s \<and>
        (stop_result (producer s) = None \<longrightarrow> ended = []) \<and>
        (\<forall>e. stop_result (producer s) = Some (Err (YellowstoneStatus e)) \<longrightarrow> ended = [e]) \<and> placed taken s)"

text \<open>One step moves an update, or takes the next one from the stream.\<close>

lemma placed_step:
  "buffer_step jobs s t \<Longrightarrow> placed taken s \<Longrightarrow>
    (placed taken t \<and> stream t = stream s \<and>
       (stop_result (producer t) = stop_result (producer s) \<or> stop_result (producer t) = Some (Ok ()))) \<or>
    (\<exists>u. placed (taken @ [u]) t \<and> stream s = Ok u # stream t \<and> stop_result (producer s) = None \<and>
       stop_result (producer t) = None) \<or>
    (\<exists>e. placed taken t \<and> stream s = Err e # stream t \<and> stop_result (producer s) = None \<and>
       stop_result (producer t) = Some (Err (YellowstoneStatus e)))"
  by (induction rule: buffer_step.induct) (auto simp: placed_def)

lemma accounted_step:
  assumes "buffer_step jobs s t" and "accounted items s"
  shows "accounted items t"
proof -
  obtain taken ended where *: "items = map Ok taken @ map Err ended @ stream s"
    "stop_result (producer s) = None \<Longrightarrow> ended = []"
    "\<And>e. stop_result (producer s) = Some (Err (YellowstoneStatus e)) \<Longrightarrow> ended = [e]" "placed taken s"
    using assms(2) by (auto simp: accounted_def)
  from placed_step [OF assms(1) *(4)] consider
      "placed taken t" "stream t = stream s"
      "stop_result (producer t) = stop_result (producer s) \<or> stop_result (producer t) = Some (Ok ())"
    | u where "placed (taken @ [u]) t" "stream s = Ok u # stream t" "stop_result (producer s) = None" "stop_result (producer t) = None"
    | e where "placed taken t" "stream s = Err e # stream t" "stop_result (producer s) = None"
        "stop_result (producer t) = Some (Err (YellowstoneStatus e))"
    by blast
  then show ?thesis
  proof cases
    case 1
    with * show ?thesis unfolding accounted_def by (intro exI [of _ taken] exI [of _ ended]) auto
  next
    case (2 u)
    with * show ?thesis unfolding accounted_def by (intro exI [of _ "taken @ [u]"] exI [of _ "[]"]) auto
  next
    case (3 e)
    with * show ?thesis unfolding accounted_def by (intro exI [of _ taken] exI [of _ "[e]"]) auto
  qed
qed

subsection \<open>The properties\<close>

definition buffer_inv :: "nat \<Rightarrow> 'u runtime_item list \<Rightarrow> ('u, 'o) buffer_state \<Rightarrow> bool" where
  "buffer_inv jobs items s \<longleftrightarrow>
     permits_conserved jobs s \<and> bridge_shape s \<and> stop_shape s \<and> accounted items s"

interpretation buffer: invariant_steps "buffer_step jobs" "buffer_inv jobs items"
  by unfold_locales
     (auto simp: buffer_inv_def intro: permits_step bridge_shape_step stop_shape_step accounted_step)

lemma run_yellowstone_inv: "buffer_inv jobs items (run_yellowstone jobs items closes)"
  by (auto simp: buffer_inv_def run_yellowstone_def permits_conserved_def in_flight_def bridge_shape_def stop_shape_def
      cut_short_def accounted_def placed_def)

abbreviation buffer_reach ::
  "nat \<Rightarrow> 'u runtime_item list \<Rightarrow> bool \<Rightarrow> ('u, 'o) buffer_state \<Rightarrow> bool" where
  "buffer_reach jobs items closes s \<equiv> (buffer_step jobs)\<^sup>*\<^sup>* (run_yellowstone jobs items closes) s"

lemma reach_inv: "buffer_reach jobs items closes s \<Longrightarrow> buffer_inv jobs items s"
  by (erule buffer.reach_keeps) (rule run_yellowstone_inv)

text \<open>
  C31. The buffer never runs more jobs than configured and never loses or repeats an update: permits
  and updates in flight add up to the number of jobs; every update taken from the stream has either
  been started, once, or waits, or was discarded, which happens only after a stop request, a dead
  bridge or an error status; and what was started runs or has finished.
\<close>

theorem buffer_bounded:
  assumes "buffer_reach (buffer_jobs cfg parallelism) items closes s"
  shows "permits s + length (in_flight s) = buffer_jobs cfg parallelism \<and>
    length (running s) \<le> buffer_jobs cfg parallelism \<and> buffer_jobs cfg parallelism \<in> {1..MAX_PERMITS} \<and>
    (\<exists>taken ended. items = map Ok taken @ map Err ended @ stream s \<and>
       mset taken = mset (started s) + mset (in_check (bridge s)) + mset (queued s) + mset (in_hand (producer s)) +
         mset (discarded s)) \<and>
    mset (started s) = mset (running s) + mset (finished s) \<and>
    (discarded s \<noteq> [] \<longrightarrow> cut_short s)"
proof -
  have inv: "buffer_inv (buffer_jobs cfg parallelism) items s" by (rule reach_inv [OF assms])
  then have "permits s + length (in_flight s) = buffer_jobs cfg parallelism" "discarded s \<noteq> [] \<longrightarrow> cut_short s"
    by (auto simp: buffer_inv_def permits_conserved_def stop_shape_def)
  moreover have "length (running s) \<le> length (in_flight s)" by (simp add: in_flight_def)
  moreover have "buffer_jobs cfg parallelism \<in> {1..MAX_PERMITS}" by (auto simp: buffer_jobs_def MAX_PERMITS_def)
  moreover have "(\<exists>taken ended. items = map Ok taken @ map Err ended @ stream s \<and>
       mset taken = mset (started s) + mset (in_check (bridge s)) + mset (queued s) + mset (in_hand (producer s)) +
         mset (discarded s)) \<and> mset (started s) = mset (running s) + mset (finished s)"
    using inv unfolding buffer_inv_def accounted_def placed_def by blast
  ultimately show ?thesis by (metis le_add2 le_trans)
qed

subsection \<open>Shutdown\<close>

text \<open>A channel carries updates and statuses.\<close>

definition proper_items :: "'u runtime_item list \<Rightarrow> bool" where
  "proper_items items \<longleftrightarrow> Panic \<notin> set items"

definition will_close :: "('u, 'o) buffer_state \<Rightarrow> bool" where
  "will_close s \<longleftrightarrow> stream_closes s \<or> stop_requested s"

lemma will_close_step: "buffer_step jobs s t \<Longrightarrow> will_close s \<Longrightarrow> will_close t"
  by (induction rule: buffer_step.induct) (auto simp: will_close_def)

interpretation closing: invariant_steps "buffer_step jobs" will_close
  by unfold_locales (rule will_close_step)

lemma own_step_progress:
  assumes "buffer_inv jobs items s" and "0 < jobs" and "proper_items items" and "will_close s" and "own_step jobs s = None"
  shows "\<exists>r. producer s = Done r"
proof -
  have idle: "running s = []" "bridge_next (bridge s) s = None" "producer_next jobs (producer s) s = None"
    using assms(5) by (auto simp: own_step_def split: list.splits option.splits)
  have shape: "bridge_shape s" "permits_conserved jobs s" "accounted items s" using assms(1) by (auto simp: buffer_inv_def)
  then have bridge: "in_check (bridge s) = []" "queued s = []" "tx_open s = before_close (producer s)"
      "bridge s = Waiting \<Longrightarrow> tx_open s" "bridge s \<noteq> Exited \<Longrightarrow> bridge s = Waiting"
    using idle(2) by (cases "bridge s"; auto simp: bridge_shape_def split: list.splits if_splits)+
  have permits: "permits s + length (sending (producer s)) = jobs"
    using shape(2) idle(1) bridge(1,2) by (simp add: permits_conserved_def in_flight_def)
  have stream: "Panic \<notin> set (stream s)"
    using shape(3) assms(3) by (auto simp: accounted_def proper_items_def)
  show ?thesis
  proof (cases "producer s")
    case Receiving
    with idle(3) stream assms(4) show ?thesis
      by (cases "stream s"; cases "hd (stream s)") (auto simp: will_close_def split: if_splits)
  next
    case (Joining r)
    with idle(3) bridge show ?thesis by (auto split: if_splits)
  qed (use idle(3) permits assms(2) in \<open>auto simp: all_permits_def split: if_splits\<close>)
qed

interpretation own: weighted_steps "\<lambda>s t. own_step jobs s = Some t" buffer_weight
  by unfold_locales (rule weight_step [OF own_step_sound])

lemma own_run: "(\<lambda>s t. own_step jobs s = Some t)\<^sup>*\<^sup>* s t \<Longrightarrow> (buffer_step jobs)\<^sup>*\<^sup>* s t"
  by (rule rtranclp_mono [THEN predicate2D]) (auto intro: own_step_sound)


definition drain_inv :: "nat \<Rightarrow> ('u, 'o) buffer_state \<Rightarrow> bool" where
  "drain_inv jobs s \<longleftrightarrow> permits_conserved jobs s \<and> (jobs < 2 ^ 32 \<longrightarrow> drain_shape jobs s)"

interpretation drain: invariant_steps "buffer_step jobs" "drain_inv jobs"
  by unfold_locales (auto simp: drain_inv_def intro: permits_step drain_shape_step)

text \<open>
  A clean close loses nothing: when the stream closes after updates only and nothing stops the
  buffer, bridge and drain early, the task returns only after every update was started, in
  stream order, and its job has ended.
\<close>

lemma clean_close_drains:
  assumes "buffer_reach jobs (map Ok us) closes s" and "producer s = Done r" and "jobs < 2 ^ 32"
    and "\<not> stop_requested s" and "\<not> bridge_panicked s" and "\<not> drain_timed_out s"
  shows "r = Ok () \<and> started s = us \<and> mset (finished s) = mset us \<and> running s = []"
proof -
  have inv: "buffer_inv jobs (map Ok us) s" by (rule reach_inv [OF assms(1)])
  have "drain_inv jobs (run_yellowstone jobs (map Ok us) closes :: ('a, 'b) buffer_state)"
    by (simp add: drain_inv_def drain_shape_def run_yellowstone_def permits_conserved_def in_flight_def)
  with assms(1) have "drain_inv jobs s" by (rule drain.reach_keeps)
  with assms(2,3,6) have empty: "running s = []" "in_check (bridge s) = []" "queued s = []"
    by (auto simp: drain_inv_def drain_shape_def in_flight_def)
  obtain taken ended where acc: "map Ok us = map Ok taken @ map Err ended @ stream s" "placed taken s"
    "\<And>e. r = Err (YellowstoneStatus e) \<Longrightarrow> ended = [e]"
    using inv assms(2) by (auto simp: buffer_inv_def accounted_def)
  have "ended = []"
  proof (cases ended)
    case (Cons e es)
    then have "Err e \<in> set (map Ok us)" unfolding acc(1) by simp
    then show ?thesis by auto
  qed simp
  then have "\<not> cut_short s" using acc(3) assms(2,4,5) by (auto simp: cut_short_def)
  then have "discarded s = []" "r = Ok ()" "stream s = []"
    using inv assms(2) by (auto simp: buffer_inv_def stop_shape_def)
  with acc(1,2) \<open>ended = []\<close> empty assms(2) show ?thesis
    by (auto simp: placed_def dest: map_injective intro: injI)
qed

subsection \<open>A run\<close>

fun own_steps :: "nat \<Rightarrow> nat \<Rightarrow> ('u, 'o) buffer_state \<Rightarrow> ('u, 'o) buffer_state" where
  "own_steps jobs 0 s = s"
| "own_steps jobs (Suc n) s = (case own_step jobs s of None \<Rightarrow> s | Some t \<Rightarrow> own_steps jobs n t)"

lemma own_steps_numeral:
  "own_steps jobs (numeral k) s = (case own_step jobs s of None \<Rightarrow> s | Some t \<Rightarrow> own_steps jobs (pred_numeral k) t)"
  by (simp add: numeral_eq_Suc)

lemma own_steps_run: "(buffer_step jobs)\<^sup>*\<^sup>* s (own_steps jobs n s)"
proof (induction n arbitrary: s)
  case (Suc n)
  show ?case
  proof (cases "own_step jobs s")
    case (Some t)
    from converse_rtranclp_into_rtranclp [of "buffer_step jobs", OF own_step_sound [OF Some] Suc] Some show ?thesis by simp
  qed simp
qed simp

definition demo_stream :: "nat list" where "demo_stream = [1, 2]"

lemma demo_jobs: "buffer_jobs (Some 0) None = 1" "all_permits 1 = 1" "all_permits (Suc 0) = 1"
  by (simp_all add: buffer_jobs_def all_permits_def)

definition demo_buffer :: "nat \<Rightarrow> (nat, nat) buffer_state" where
  "demo_buffer n = own_steps 1 n (run_yellowstone 1 (map Ok demo_stream) True)"

lemma demo_buffer_reach: "buffer_reach 1 (map Ok demo_stream) True (demo_buffer n)"
  unfolding demo_buffer_def by (rule own_steps_run)

lemmas demo_buffer_simps = demo_buffer_def own_steps_numeral own_step_def run_yellowstone_def demo_stream_def demo_jobs

theorem buffer_bounded_witness:
  "running (demo_buffer 5) = [1] \<and> permits (demo_buffer 5) + length (in_flight (demo_buffer 5)) = 1 \<and>
   mset (started (demo_buffer 5)) = mset (running (demo_buffer 5)) + mset (finished (demo_buffer 5))"
proof -
  have "running (demo_buffer 5) = [1]" by (simp add: demo_buffer_simps)
  with buffer_bounded [of "Some 0" None "map Ok demo_stream" True "demo_buffer 5"] demo_buffer_reach show ?thesis
    unfolding demo_jobs by blast
qed


end
