(* ===== verification/Runtime_Handle.thy ===== *)
theory Runtime_Handle
  imports Filters "HOL-Library.Char_ord"
begin

text \<open>
  Changing a running subscription (\<open>crates/runtime/src/handle.rs\<close>): the filter state shared by every
  handle, whose \<open>watch\<close> slot holds the newest set for the source. The update lock makes an update
  one atomic step. The slot counts its publications (the version of a \<open>watch\<close> channel) and its
  receivers; a send without a receiver fails and leaves it untouched. The order in which a
  \<open>HashMap\<close> lists its keys is an argument.
\<close>

record filter_state =
  fs_initial :: filters
  fs_slot :: filters
  fs_version :: nat
  fs_receivers :: nat

datatype filter_update_error = Closed | UnknownParser string

definition new_filter_state :: "filters \<Rightarrow> nat \<Rightarrow> filter_state" where
  "new_filter_state fs receivers =
     \<lparr>fs_initial = fs, fs_slot = fs, fs_version = 0, fs_receivers = receivers\<rparr>"

definition watch_send :: "filters \<Rightarrow> filter_state \<Rightarrow> filter_state \<times> (filter_update_error, unit) outcome" where
  "watch_send next st =
     (if fs_receivers st = 0 then (st, Err Closed)
      else (st\<lparr>fs_slot := next, fs_version := fs_version st + 1\<rparr>, Ok ()))"

definition validate_filters :: "(string set \<Rightarrow> string list) \<Rightarrow> filter_state \<Rightarrow> filters \<Rightarrow> (filter_update_error, unit) outcome" where
  "validate_filters list_ids st fs =
     (case find (\<lambda>pid. fs_initial st pid = None) (list_ids (dom fs)) of
        None \<Rightarrow> Ok ()
      | Some unknown \<Rightarrow> Err (UnknownParser unknown))"

text \<open>The edit is the caller's closure; \<open>None\<close> is a panic in it, which poisons the lock and nothing else.\<close>

definition update_filters ::
  "(string set \<Rightarrow> string list) \<Rightarrow> (filters \<Rightarrow> filters option) \<Rightarrow> filter_state \<Rightarrow>
    filter_state \<times> (filter_update_error, unit) outcome" where
  "update_filters list_ids edit st =
     (case edit (fs_slot st) of
        None \<Rightarrow> (st, Panic)
      | Some next \<Rightarrow>
          (case validate_filters list_ids st next of
             Err e \<Rightarrow> (st, Err e)
           | Panic \<Rightarrow> (st, Panic)
           | Ok _ \<Rightarrow>
               if fs_slot st = next
               then (st, if fs_receivers st = 0 then Err Closed else Ok ())
               else watch_send next st))"

definition send_filter_update ::
  "(string set \<Rightarrow> string list) \<Rightarrow> filters \<Rightarrow> filter_state \<Rightarrow> filter_state \<times> (filter_update_error, unit) outcome" where
  "send_filter_update list_ids fs st = update_filters list_ids (\<lambda>_. Some fs) st"

definition reset_filters ::
  "(string set \<Rightarrow> string list) \<Rightarrow> filter_state \<Rightarrow> filter_state \<times> (filter_update_error, unit) outcome" where
  "reset_filters list_ids st = send_filter_update list_ids (fs_initial st) st"

subsection \<open>What an update does\<close>

text \<open>Listing the keys of a map yields each of them.\<close>

definition lists_ids :: "(string set \<Rightarrow> string list) \<Rightarrow> bool" where
  "lists_ids list_ids \<longleftrightarrow> (\<forall>S. finite S \<longrightarrow> set (list_ids S) = S)"

lemma validate_filters_spec:
  assumes "lists_ids list_ids" and "finite (dom fs)"
  shows "validate_filters list_ids st fs = Ok () \<longleftrightarrow> dom fs \<subseteq> dom (fs_initial st)"
    and "validate_filters list_ids st fs = Err e \<Longrightarrow> \<exists>pid\<in>dom fs - dom (fs_initial st). e = UnknownParser pid"
    and "validate_filters list_ids st fs \<noteq> Panic"
proof -
  have set: "set (list_ids (dom fs)) = dom fs" using assms by (simp add: lists_ids_def)
  let ?found = "find (\<lambda>pid. fs_initial st pid = None) (list_ids (dom fs))"
  have none: "?found = None \<longleftrightarrow> dom fs \<subseteq> dom (fs_initial st)"
    unfolding find_None_iff set by (fastforce simp: dom_def)
  have some: "pid \<in> dom fs - dom (fs_initial st)" if "?found = Some pid" for pid
  proof -
    from that have "pid \<in> set (list_ids (dom fs))" "fs_initial st pid = None"
      by (auto simp: find_Some_iff)
    then show ?thesis unfolding set by (auto simp: dom_def)
  qed
  show "validate_filters list_ids st fs = Ok () \<longleftrightarrow> dom fs \<subseteq> dom (fs_initial st)"
    unfolding validate_filters_def none [symmetric] by (cases ?found) simp_all
  show "\<exists>pid\<in>dom fs - dom (fs_initial st). e = UnknownParser pid" if "validate_filters list_ids st fs = Err e"
    using that some by (cases ?found) (auto simp: validate_filters_def)
  show "validate_filters list_ids st fs \<noteq> Panic"
    by (cases ?found) (simp_all add: validate_filters_def)
qed

text \<open>One call, on every branch; nothing changes unless it returns \<open>Ok\<close>.\<close>

lemma update_filters_spec:
  assumes "lists_ids list_ids" and "edit (fs_slot st) = Some fs'" and "finite (dom fs')"
  shows "update_filters list_ids edit st = (st', Ok ()) \<longleftrightarrow>
      dom fs' \<subseteq> dom (fs_initial st) \<and> fs_receivers st > 0 \<and>
      st' = (if fs_slot st = fs' then st else st\<lparr>fs_slot := fs', fs_version := fs_version st + 1\<rparr>)"
    and "update_filters list_ids edit st = (st', Err Closed) \<longleftrightarrow>
      dom fs' \<subseteq> dom (fs_initial st) \<and> fs_receivers st = 0 \<and> st' = st"
    and "update_filters list_ids edit st = (st', Err (UnknownParser pid)) \<Longrightarrow>
      pid \<in> dom fs' - dom (fs_initial st) \<and> st' = st"
    and "snd (update_filters list_ids edit st) \<noteq> Panic"
  using validate_filters_spec [OF assms(1,3), of st] assms(2)
  by (auto simp: update_filters_def watch_send_def split: outcome.splits if_splits)

subsection \<open>Runs of a handle\<close>

datatype handle_call =
    UpdateFilters "filters \<Rightarrow> filters option"
  | SendFilterUpdate filters
  | ResetFilters
  | SourceGone

fun handle_step :: "(string set \<Rightarrow> string list) \<Rightarrow> handle_call \<Rightarrow> filter_state \<Rightarrow> filter_state" where
  "handle_step list_ids (UpdateFilters edit) st = fst (update_filters list_ids edit st)"
| "handle_step list_ids (SendFilterUpdate fs) st = fst (send_filter_update list_ids fs st)"
| "handle_step list_ids ResetFilters st = fst (reset_filters list_ids st)"
| "handle_step list_ids SourceGone st = st\<lparr>fs_receivers := 0\<rparr>"

fun finite_call :: "handle_call \<Rightarrow> bool" where
  "finite_call (UpdateFilters edit) \<longleftrightarrow> (\<forall>fs fs'. finite (dom fs) \<longrightarrow> edit fs = Some fs' \<longrightarrow> finite (dom fs'))"
| "finite_call (SendFilterUpdate fs) \<longleftrightarrow> finite (dom fs)"
| "finite_call _ \<longleftrightarrow> True"

definition handle_inv :: "filters \<Rightarrow> filter_state \<Rightarrow> bool" where
  "handle_inv initial st \<longleftrightarrow>
     fs_initial st = initial \<and> finite (dom initial) \<and> dom (fs_slot st) \<subseteq> dom initial"

lemma update_filters_inv:
  assumes "lists_ids list_ids" and "handle_inv initial st"
    and "\<And>fs'. edit (fs_slot st) = Some fs' \<Longrightarrow> finite (dom fs')"
  shows "handle_inv initial (fst (update_filters list_ids edit st))"
proof (cases "edit (fs_slot st)")
  case None
  with assms(2) show ?thesis by (simp add: update_filters_def)
next
  case (Some fs')
  note spec = update_filters_spec [where edit = edit and st = st, OF assms(1) Some assms(3) [OF Some]]
  obtain st' r where r: "update_filters list_ids edit st = (st', r)" by (cases "update_filters list_ids edit st")
  show ?thesis
  proof (cases r)
    case (Ok u)
    with r spec(1) [of st'] assms(2) show ?thesis by (auto simp: handle_inv_def)
  next
    case (Err e)
    with r spec(2,3) [of st'] assms(2) show ?thesis by (cases e) auto
  qed (use r spec(4) in simp)
qed

lemma handle_step_inv:
  assumes "lists_ids list_ids" and "handle_inv initial st" and "finite_call call"
  shows "handle_inv initial (handle_step list_ids call st)"
proof (cases call)
  case (UpdateFilters edit)
  have "finite (dom (fs_slot st))" using assms(2) by (auto simp: handle_inv_def intro: finite_subset)
  with assms UpdateFilters show ?thesis by (auto intro: update_filters_inv)
next
  case (SendFilterUpdate fs)
  with assms show ?thesis by (auto simp: send_filter_update_def intro: update_filters_inv)
next
  case ResetFilters
  from assms(2) have "finite (dom (fs_initial st))" by (simp add: handle_inv_def)
  with ResetFilters show ?thesis
    by (auto simp: reset_filters_def send_filter_update_def intro: update_filters_inv [OF assms(1,2)])
next
  case SourceGone
  with assms(2) show ?thesis by (simp add: handle_inv_def)
qed

text \<open>The calls that return a map, as the steps of a machine.\<close>

definition handle_step_checked :: "(string set \<Rightarrow> string list) \<Rightarrow> handle_call \<Rightarrow> filter_state \<Rightarrow> filter_state" where
  "handle_step_checked list_ids call st =
     (if lists_ids list_ids \<and> finite_call call then handle_step list_ids call st else st)"

interpretation handle: machine "handle_step_checked list_ids" "handle_inv initial"
  by unfold_locales (auto simp: handle_step_checked_def intro: handle_step_inv)

lemma checked_run:
  "lists_ids list_ids \<Longrightarrow> \<forall>call\<in>set calls. finite_call call \<Longrightarrow>
    fold (handle_step_checked list_ids) calls st = fold (handle_step list_ids) calls st"
  by (induction calls arbitrary: st) (auto simp: handle_step_checked_def)

text \<open>
  C29. Filter updates: whatever calls any handle makes, panicking edits included, the published set
  names only parsers that have a pipeline; a call that does not return \<open>Ok\<close> changes nothing; and
  while the source listens a reset publishes the set the pipelines were built with.
\<close>

theorem filter_updates_registered:
  assumes "lists_ids list_ids" and "finite (dom initial)" and "\<forall>call\<in>set calls. finite_call call"
    and "fold (handle_step list_ids) calls (new_filter_state initial n) = st"
  shows "dom (fs_slot st) \<subseteq> dom initial \<and>
    (\<forall>edit. snd (update_filters list_ids edit st) \<noteq> Ok () \<longrightarrow> fst (update_filters list_ids edit st) = st) \<and>
    (fs_receivers st > 0 \<longrightarrow>
       snd (reset_filters list_ids st) = Ok () \<and> fs_slot (fst (reset_filters list_ids st)) = initial)"
proof (intro conjI allI impI)
  have "handle_inv initial (new_filter_state initial n)"
    using assms(2) by (simp add: handle_inv_def new_filter_state_def)
  from handle.run_inv [OF this, of list_ids calls] have inv: "handle_inv initial st"
    using checked_run [OF assms(1,3)] assms(4) by simp
  then show "dom (fs_slot st) \<subseteq> dom initial" by (simp add: handle_inv_def)
  show "fst (update_filters list_ids edit st) = st" if "snd (update_filters list_ids edit st) \<noteq> Ok ()" for edit
    using that by (auto simp: update_filters_def watch_send_def split: option.splits outcome.splits if_splits)
  have reset: "snd (reset_filters list_ids st) = Ok () \<and> fs_slot (fst (reset_filters list_ids st)) = initial" if "fs_receivers st > 0"
  proof -
    have "validate_filters list_ids st initial = Ok ()"
      using validate_filters_spec(1) [OF assms(1,2)] inv by (simp add: handle_inv_def)
    with inv that show ?thesis
      by (simp add: reset_filters_def send_filter_update_def update_filters_def watch_send_def handle_inv_def)
  qed
  assume "fs_receivers st > 0"
  from reset [OF this] show "snd (reset_filters list_ids st) = Ok ()" "fs_slot (fst (reset_filters list_ids st)) = initial" by simp_all
qed

text \<open>A removal is published, a set naming an unknown parser and a panicking edit are not.\<close>

definition demo_initial :: filters where
  "demo_initial = [''P'' \<mapsto> default_prefilter, ''Q'' \<mapsto> default_prefilter]"

definition demo_removed :: filter_state where
  "demo_removed = handle_step sorted_list_of_set (UpdateFilters (\<lambda>fs. Some (fst (filters_remove ''Q'' fs)))) (new_filter_state demo_initial 1)"

theorem filter_updates_registered_witness:
  "fold (handle_step sorted_list_of_set) [SendFilterUpdate [''R'' \<mapsto> default_prefilter], UpdateFilters (\<lambda>fs. None)] demo_removed =
      demo_removed \<and>
   fs_slot demo_removed = [''P'' \<mapsto> default_prefilter] \<and>
   fs_slot (fst (reset_filters sorted_list_of_set demo_removed)) = demo_initial"
proof -
  have ids: "lists_ids sorted_list_of_set" by (simp add: lists_ids_def)
  let ?calls = "[UpdateFilters (\<lambda>fs. Some (fst (filters_remove ''Q'' fs)))]"
  have calls: "finite (dom demo_initial)" "\<forall>call\<in>set ?calls. finite_call call"
    "fold (handle_step sorted_list_of_set) ?calls (new_filter_state demo_initial 1) = demo_removed"
    by (auto simp: filters_remove_def demo_initial_def demo_removed_def)
  note run = filter_updates_registered [OF ids calls]
  let ?st = "new_filter_state demo_initial 1" and ?P = "[''P'' \<mapsto> default_prefilter]"
  have removal: "fst (filters_remove ''Q'' (fs_slot ?st)) = ?P" "fs_slot ?st \<noteq> ?P" "dom ?P \<subseteq> dom (fs_initial ?st)"
    by (auto simp: filters_remove_def new_filter_state_def demo_initial_def fun_upd_twist dest: fun_cong [of _ _ "''Q''"])
  have "update_filters sorted_list_of_set (\<lambda>fs. Some (fst (filters_remove ''Q'' fs))) ?st =
      (?st\<lparr>fs_slot := ?P, fs_version := fs_version ?st + 1\<rparr>, Ok ())"
    by (subst update_filters_spec(1) [OF ids, where fs' = ?P]) (use removal in \<open>auto simp: new_filter_state_def\<close>)
  then have removed: "demo_removed = ?st\<lparr>fs_slot := ?P, fs_version := 1\<rparr>"
    by (simp add: demo_removed_def new_filter_state_def)
  have "snd (update_filters sorted_list_of_set (\<lambda>_. Some [''R'' \<mapsto> default_prefilter]) demo_removed) \<noteq> Ok ()"
    using update_filters_spec(1) [OF ids, where edit = "\<lambda>_. Some [''R'' \<mapsto> default_prefilter]" and st = demo_removed
        and fs' = "[''R'' \<mapsto> default_prefilter]"]
    by (auto simp: removed new_filter_state_def demo_initial_def prod_eq_iff)
  with run have "fst (update_filters sorted_list_of_set (\<lambda>_. Some [''R'' \<mapsto> default_prefilter]) demo_removed) = demo_removed"
    by blast
  moreover have "fst (update_filters sorted_list_of_set (\<lambda>_. None) demo_removed) = demo_removed"
    by (simp add: update_filters_def)
  moreover have "fs_slot demo_removed = ?P" "fs_receivers demo_removed > 0" by (simp_all add: removed new_filter_state_def)
  ultimately show ?thesis using run by (simp add: send_filter_update_def)
qed

end
