(* ===== verification/Runtime_Run.thy ===== *)
theory Runtime_Run
  imports Runtime_Buffer Runtime_Handle
begin

text \<open>
  Running the runtime (\<open>Runtime::try_run_async\<close> of \<open>crates/runtime/src/lib.rs\<close>, \<open>Buffer::join\<close> and
  \<open>Buffer::wait_for_stop\<close> of \<open>buffer.rs\<close>): the biased choice between a signal, the source's exit
  status and the buffer's result, and the result each of them gives. The text of a failed join and
  the boxing of a message are arguments.
\<close>

text \<open>A source task that ends without reporting drops its sender: \<open>RecvError\<close>, here \<open>Err ()\<close>.\<close>

datatype ('s, 'o) stop_type =
    SignalStop "('o shipstern_error, 's option) outcome"
  | BufferStop "('o shipstern_error, unit) outcome"
  | SourceExit "(unit, ('o shipstern_error, source_exit_status) outcome) outcome"

text \<open>What the run needs of the buffer's task: its result, or a panic.\<close>

definition wait_for_stop :: "string \<Rightarrow> 'o stop_result \<Rightarrow> ('o shipstern_error, unit) outcome" where
  "wait_for_stop join_error task =
     (case task of
        Panic \<Rightarrow> Err (IoError join_error)
      | Err e \<Rightarrow> Err e
      | Ok _ \<Rightarrow> Ok ())"

text \<open>\<open>select!\<close> with \<open>biased\<close>: the first ready branch in the order of the code.\<close>

definition select_stop ::
  "('o shipstern_error, 's option) outcome option \<Rightarrow>
    (unit, ('o shipstern_error, source_exit_status) outcome) outcome option \<Rightarrow>
    ('o shipstern_error, unit) outcome option \<Rightarrow> ('s, 'o) stop_type option" where
  "select_stop signal status buffer =
     (case signal of
        Some s \<Rightarrow> Some (SignalStop s)
      | None \<Rightarrow> (case status of Some st \<Rightarrow> Some (SourceExit st) | None \<Rightarrow> map_option BufferStop buffer))"

text \<open>
  \<open>drained\<close> is what the buffer's task returns when it is waited for; the forced stop ignores it. A
  select branch that panicked would unwind through the run.
\<close>

fun exit_status_result ::
  "(string \<Rightarrow> 'o) \<Rightarrow> ('o shipstern_error, unit) outcome \<Rightarrow> source_exit_status \<Rightarrow> ('o shipstern_error, unit) outcome" where
  "exit_status_result box drained ReceiverDropped = Ok ()"
| "exit_status_result box drained Completed = drained"
| "exit_status_result box drained StreamEnded = Err ServerHangup"
| "exit_status_result box drained (StreamError code message) =
     Err (YellowstoneStatus \<lparr>status_code = code, status_message = message\<rparr>)"
| "exit_status_result box drained (SourceError msg) = Err (OtherError (box msg))"

fun stop_type_result ::
  "(string \<Rightarrow> 'o) \<Rightarrow> ('o shipstern_error, unit) outcome \<Rightarrow> ('s, 'o) stop_type \<Rightarrow> ('o shipstern_error, unit) outcome" where
  "stop_type_result box drained (SignalStop (Ok (Some s))) = Ok ()"
| "stop_type_result box drained (SignalStop (Ok None)) = Err (IoError ''Signal handler returned None'')"
| "stop_type_result box drained (BufferStop result) = result"
| "stop_type_result box drained (SignalStop (Err e)) = Err e"
| "stop_type_result box drained (SourceExit (Ok (Err err))) = Err err"
| "stop_type_result box drained (SourceExit (Ok (Ok status))) = exit_status_result box drained status"
| "stop_type_result box drained (SourceExit (Err _)) = Err ClientHangup"
| "stop_type_result box drained _ = Panic"

definition try_run_async ::
  "(string \<Rightarrow> 'o) \<Rightarrow> string \<Rightarrow> ('o shipstern_error, 's option) outcome option \<Rightarrow>
    (unit, ('o shipstern_error, source_exit_status) outcome) outcome option \<Rightarrow> 'o stop_result option \<Rightarrow> 'o stop_result \<Rightarrow>
    ('o shipstern_error, unit) outcome option" where
  "try_run_async box join_error signal status buffer task =
     map_option (stop_type_result box (wait_for_stop join_error task))
       (select_stop signal status (map_option (wait_for_stop join_error) buffer))"

text \<open>The first request is built from the newest published set.\<close>

definition start_filters :: "filter_state \<Rightarrow> filters" where
  "start_filters st = fs_slot st"


text \<open>
  A finite source from end to end: when it has sent its updates and reports completion, and no
  signal, dead bridge or timeout interferes, the run succeeds once the buffer's task has returned,
  and by then every update was handed to the pipelines, in order, and its job has ended.
\<close>

theorem completed_source_handled:
  assumes "buffer_reach (buffer_jobs cfg parallelism) (map Ok us) True s" and "producer s = Done task"
    and "buffer_jobs cfg parallelism < 2 ^ 32"
    and "\<not> stop_requested s" and "\<not> bridge_panicked s" and "\<not> drain_timed_out s"
  shows "try_run_async box join_error None (Some (Ok (Ok Completed))) buffer task = Some (Ok ()) \<and>
    started s = us \<and> mset (finished s) = mset us"
  using clean_close_drains [OF assms]
  by (simp add: try_run_async_def select_stop_def wait_for_stop_def)

theorem completed_source_handled_witness:
  "try_run_async (\<lambda>m. 0 :: nat) ''join'' (None :: (nat shipstern_error, nat option) outcome option) (Some (Ok (Ok Completed))) None
      (Ok ()) = Some (Ok ()) \<and>
   producer (demo_buffer 22) = Done (Ok ()) \<and> mset (finished (demo_buffer 22)) = {#1, 2#}"
proof -
  have ended: "producer (demo_buffer 22) = Done (Ok ())" "\<not> stop_requested (demo_buffer 22)"
    "\<not> bridge_panicked (demo_buffer 22)" "\<not> drain_timed_out (demo_buffer 22)"
    by (simp_all add: demo_buffer_simps)
  have "buffer_reach (buffer_jobs (Some 0) None) (map Ok demo_stream) True (demo_buffer 22)"
    unfolding demo_jobs by (rule demo_buffer_reach)
  then have "try_run_async (\<lambda>m. 0 :: nat) ''join'' (None :: (nat shipstern_error, nat option) outcome option)
      (Some (Ok (Ok Completed))) None (Ok ()) = Some (Ok ()) \<and>
    started (demo_buffer 22) = demo_stream \<and> mset (finished (demo_buffer 22)) = mset demo_stream"
    by (rule completed_source_handled) (use ended in \<open>simp_all add: demo_jobs\<close>)
  with ended(1) show ?thesis by (simp add: demo_stream_def)
qed

end
