(* ===== verification/Runtime_Pipeline.thy ===== *)
theory Runtime_Pipeline
  imports Sources Instruction_Build "HOL-Library.Multiset"
begin

text \<open>
  Pipelines (\<open>crates/runtime/src/handler.rs\<close>, \<open>filter_pipeline.rs\<close> and \<open>instruction.rs\<close>): a parser
  and the handlers its output is passed to, the bundle of all instruction pipelines, and the
  reporting of errors. Parsers and handlers are user code and arguments: a handler returns the
  effects it had and its result, which may be a panic. Concurrent futures complete in an order
  that is an argument too (a schedule), and the effects of a run are listed in that order.
\<close>

subsection \<open>Schedules and loops\<close>

text \<open>The order in which \<open>n\<close> concurrent futures complete, as a permutation of their indices.\<close>

type_synonym schedule = "nat \<Rightarrow> nat list"

definition schedule_ok :: "schedule \<Rightarrow> bool" where
  "schedule_ok sch \<longleftrightarrow> (\<forall>n. mset (sch n) = mset [0..<n])"

definition in_order :: "schedule \<Rightarrow> 'a list \<Rightarrow> 'a list" where
  "in_order sch xs = map ((!) xs) (sch (length xs))"

lemma mset_in_order [simp]: "schedule_ok sch \<Longrightarrow> mset (in_order sch xs) = mset xs"
  unfolding in_order_def schedule_ok_def by (metis map_nth mset_map)

lemma set_in_order [simp]: "schedule_ok sch \<Longrightarrow> set (in_order sch xs) = set xs"
  by (metis mset_in_order set_mset_mset)

lemma sum_in_order: "schedule_ok sch \<Longrightarrow> sum_list (map f (in_order sch xs)) = sum_list (map f xs)"
  for f :: "'a \<Rightarrow> 'b::comm_monoid_add"
  by (metis mset_in_order mset_map sum_mset_sum_list)

text \<open>A loop whose body records a trace and updates a state; \<open>None\<close> is a panic, which ends it.\<close>

fun for_each :: "('x \<Rightarrow> 's \<Rightarrow> 't list \<times> 's option) \<Rightarrow> 'x list \<Rightarrow> 's \<Rightarrow> 't list \<times> 's option" where
  "for_each f [] s = ([], Some s)"
| "for_each f (x # xs) s =
     (case f x s of
        (tr, None) \<Rightarrow> (tr, None)
      | (tr, Some s') \<Rightarrow> (case for_each f xs s' of (tr', r) \<Rightarrow> (tr @ tr', r)))"

text \<open>A body that never panics and whose trace does not depend on the state runs on every element.\<close>

lemma for_each_total:
  "(\<And>x s. x \<in> set xs \<Longrightarrow> f x s = (tr x, Some (g x s))) \<Longrightarrow>
    for_each f xs s = (concat (map tr xs), Some (fold g xs s))"
  by (induction xs arbitrary: s) auto

subsection \<open>Errors\<close>

text \<open>
  \<open>ParseError\<close> of the core; a boxed error is the text of a missing discriminator, the error of the
  instruction builder, or user code's own. \<open>Handled\<close> is a unit.
\<close>

datatype 'b boxed_error = BoxedText string | BoxedBuild parse_error | BoxedOther 'b

datatype 'b parser_error = Filtered | DiscriminatorNotFound string | ParseOther "'b boxed_error"

datatype 'b pipeline_errors =
    Parse "'b boxed_error"
  | Handlers "'b boxed_error list"
  | AlreadyHandled

datatype 'b pipeline_error = ParserError "'b boxed_error" | HandlerError "'b boxed_error"

fun errors_items :: "'b pipeline_errors \<Rightarrow> 'b pipeline_error list" where
  "errors_items (Parse e) = [ParserError e]"
| "errors_items (Handlers v) = map HandlerError v"
| "errors_items AlreadyHandled = []"

text \<open>What a run shows: the effects of handlers and the errors reported for a pipeline.\<close>

datatype ('t, 'b) trace_item = Effect 't | Reported string "'b pipeline_error"

definition errors_handle :: "string \<Rightarrow> 'b pipeline_errors \<Rightarrow> ('t, 'b) trace_item list" where
  "errors_handle handler e = map (Reported handler) (errors_items e)"

subsection \<open>Pipeline\<close>

record ('i, 'o, 'b) parser =
  parser_id :: string
  parser_prefilter :: prefilter
  parse_input :: "'i \<Rightarrow> ('b parser_error, 'o) outcome"

type_synonym ('o, 'i, 't, 'b) handler = "'o \<Rightarrow> 'i \<Rightarrow> 't list \<times> ('b boxed_error, unit) outcome"

record ('i, 't, 'b) dyn_pipeline =
  pipe_id :: string
  pipe_prefilter :: prefilter
  pipe_handle :: "'i \<Rightarrow> ('t, 'b) trace_item list \<times> ('b pipeline_errors, unit) outcome"

definition run_handler ::
  "'o \<Rightarrow> 'i \<Rightarrow> ('o, 'i, 't, 'b) handler \<Rightarrow> 'b boxed_error list \<Rightarrow>
    ('t, 'b) trace_item list \<times> 'b boxed_error list option" where
  "run_handler parsed value h errs =
     (case h parsed value of
        (ev, Ok _) \<Rightarrow> (map Effect ev, Some errs)
      | (ev, Err e) \<Rightarrow> (map Effect ev, Some (errs @ [e]))
      | (ev, Panic) \<Rightarrow> (map Effect ev, None))"

definition pipeline_handle ::
  "schedule \<Rightarrow> ('i, 'o, 'b) parser \<Rightarrow> ('o, 'i, 't, 'b) handler list \<Rightarrow> 'i \<Rightarrow>
    ('t, 'b) trace_item list \<times> ('b pipeline_errors, unit) outcome" where
  "pipeline_handle sch p handlers value =
     (case parse_input p value of
        Ok parsed \<Rightarrow>
          (case for_each (run_handler parsed value) (in_order sch handlers) [] of
             (tr, None) \<Rightarrow> (tr, Panic)
           | (tr, Some errs) \<Rightarrow> (tr, if errs = [] then Ok () else Err (Handlers errs)))
      | Err Filtered \<Rightarrow> ([], Ok ())
      | Err (DiscriminatorNotFound msg) \<Rightarrow> ([], Err (Parse (BoxedText msg)))
      | Err (ParseOther e) \<Rightarrow> ([], Err (Parse e))
      | Panic \<Rightarrow> ([], Panic))"

definition box_pipeline ::
  "schedule \<Rightarrow> ('i, 'o, 'b) parser \<Rightarrow> ('o, 'i, 't, 'b) handler list \<Rightarrow> ('i, 't, 'b) dyn_pipeline" where
  "box_pipeline sch p handlers =
     \<lparr>pipe_id = parser_id p, pipe_prefilter = parser_prefilter p, pipe_handle = pipeline_handle sch p handlers\<rparr>"

text \<open>
  \<open>FilterPipeline\<close> widens the parser's prefilter; \<open>new\<close> panics when the builder's additional filters
  do not build, and \<open>handle_value\<close> is the body of \<open>Pipeline::handle\<close>.
\<close>

definition new_filter_pipeline ::
  "schedule \<Rightarrow> ('i, 'o, 'b) parser \<Rightarrow> ('o, 'i, 't, 'b) handler list \<Rightarrow> prefilter_builder \<Rightarrow>
    (unit, ('i, 't, 'b) dyn_pipeline) outcome" where
  "new_filter_pipeline sch p handlers additional =
     (case build_prefilter additional of
        Ok filters \<Rightarrow>
          Ok \<lparr>pipe_id = parser_id p, pipe_prefilter = prefilter_merge (parser_prefilter p) filters,
              pipe_handle = pipeline_handle sch p handlers\<rparr>
      | _ \<Rightarrow> Panic)"

subsection \<open>The instruction pipelines\<close>

text \<open>\<open>err\<close> says that some sub-pipeline failed; its errors were reported when it did.\<close>

definition dispatch ::
  "'i \<Rightarrow> ('i, 't, 'b) dyn_pipeline \<Rightarrow> bool \<Rightarrow> ('t, 'b) trace_item list \<times> bool option" where
  "dispatch insn pipe err =
     (case pipe_handle pipe insn of
        (tr, Ok _) \<Rightarrow> (tr, Some err)
      | (tr, Err AlreadyHandled) \<Rightarrow> (tr, Some err)
      | (tr, Err e) \<Rightarrow> (tr @ errors_handle (pipe_id pipe) e, Some True)
      | (tr, Panic) \<Rightarrow> (tr, None))"

definition instruction_pipeline_handle ::
  "(string \<Rightarrow> pubkey option) \<Rightarrow> ('x instruction_update, 't, 'b) dyn_pipeline list \<Rightarrow> 'x transaction_update \<Rightarrow>
    ('t, 'b) trace_item list \<times> ('b pipeline_errors, unit) outcome" where
  "instruction_pipeline_handle parse pipes txn =
     (case build_from_txn parse txn of
        Err e \<Rightarrow> ([], Err (Parse (BoxedBuild e)))
      | Panic \<Rightarrow> ([], Panic)
      | Ok ixs \<Rightarrow>
          (case for_each (\<lambda>insn. for_each (dispatch insn) pipes) (concat (map visit_all ixs)) False of
             (tr, None) \<Rightarrow> (tr, Panic)
           | (tr, Some err) \<Rightarrow> (tr, if err then Err AlreadyHandled else Ok ())))"

definition INSTRUCTION_PIPELINE_ID :: string where
  "INSTRUCTION_PIPELINE_ID = ''InstructionPipeline''"

definition new_instruction_pipeline ::
  "(string \<Rightarrow> pubkey option) \<Rightarrow> ('x instruction_update, 't, 'b) dyn_pipeline list \<Rightarrow>
    ('x transaction_update, 't, 'b) dyn_pipeline option" where
  "new_instruction_pipeline parse pipes =
     (if pipes = [] then None
      else Some \<lparr>pipe_id = INSTRUCTION_PIPELINE_ID,
                 pipe_prefilter = prefilter_from_list (map pipe_prefilter pipes),
                 pipe_handle = instruction_pipeline_handle parse pipes\<rparr>)"

definition single_instruction_handle ::
  "(string \<Rightarrow> pubkey option) \<Rightarrow> ('x instruction_update, 't, 'b) dyn_pipeline \<Rightarrow> 'x transaction_update \<Rightarrow>
    ('t, 'b) trace_item list \<times> ('b pipeline_errors, unit) outcome" where
  "single_instruction_handle parse pipe txn =
     (case build_from_txn parse txn of
        Err e \<Rightarrow> ([], Err (Parse (BoxedBuild e)))
      | Panic \<Rightarrow> ([], Panic)
      | Ok ixs \<Rightarrow>
          (case for_each (\<lambda>insn. dispatch insn pipe) (concat (map visit_all ixs)) False of
             (tr, None) \<Rightarrow> (tr, Panic)
           | (tr, Some err) \<Rightarrow> (tr, if err then Err AlreadyHandled else Ok ())))"

definition new_single_instruction_pipeline ::
  "(string \<Rightarrow> pubkey option) \<Rightarrow> ('x instruction_update, 't, 'b) dyn_pipeline \<Rightarrow>
    ('x transaction_update, 't, 'b) dyn_pipeline" where
  "new_single_instruction_pipeline parse pipe =
     \<lparr>pipe_id = pipe_id pipe, pipe_prefilter = pipe_prefilter pipe, pipe_handle = single_instruction_handle parse pipe\<rparr>"

subsection \<open>What one pipeline shows of one value\<close>

text \<open>
  Every handler of a parser that accepts the value once, with one report per error; a parse error
  is reported once; a filtered value shows nothing.
\<close>

definition handler_shows :: "string \<Rightarrow> 'o \<Rightarrow> 'i \<Rightarrow> ('o, 'i, 't, 'b) handler \<Rightarrow> ('t, 'b) trace_item multiset" where
  "handler_shows pid parsed value h =
     image_mset Effect (mset (fst (h parsed value))) +
     (case snd (h parsed value) of Err e \<Rightarrow> {#Reported pid (HandlerError e)#} | _ \<Rightarrow> {#})"

definition pipeline_shows ::
  "('i, 'o, 'b) parser \<Rightarrow> ('o, 'i, 't, 'b) handler list \<Rightarrow> 'i \<Rightarrow> ('t, 'b) trace_item multiset" where
  "pipeline_shows p hs value =
     (case parse_input p value of
        Ok parsed \<Rightarrow> sum_list (map (handler_shows (parser_id p) parsed value) hs)
      | Err (DiscriminatorNotFound msg) \<Rightarrow> {#Reported (parser_id p) (ParserError (BoxedText msg))#}
      | Err (ParseOther e) \<Rightarrow> {#Reported (parser_id p) (ParserError e)#}
      | _ \<Rightarrow> {#})"

definition pipeline_fails :: "('i, 'o, 'b) parser \<Rightarrow> ('o, 'i, 't, 'b) handler list \<Rightarrow> 'i \<Rightarrow> bool" where
  "pipeline_fails p hs value =
     (case parse_input p value of
        Ok parsed \<Rightarrow> (\<exists>h\<in>set hs. \<exists>e. snd (h parsed value) = Err e)
      | Err Filtered \<Rightarrow> False
      | Err _ \<Rightarrow> True
      | Panic \<Rightarrow> False)"

definition never_panics :: "('i, 'o, 'b) parser \<Rightarrow> ('o, 'i, 't, 'b) handler list \<Rightarrow> bool" where
  "never_panics p hs \<longleftrightarrow>
     (\<forall>v. parse_input p v \<noteq> Panic) \<and> (\<forall>h\<in>set hs. \<forall>parsed v. snd (h parsed v) \<noteq> Panic)"

definition handler_errors :: "'o \<Rightarrow> 'i \<Rightarrow> ('o, 'i, 't, 'b) handler \<Rightarrow> 'b boxed_error list" where
  "handler_errors parsed value h = (case snd (h parsed value) of Err e \<Rightarrow> [e] | _ \<Rightarrow> [])"

lemma fold_append: "fold (\<lambda>x acc. acc @ f x) xs acc = acc @ concat (map f xs)"
  by (induction xs arbitrary: acc) auto

lemma run_handlers:
  assumes "\<forall>h\<in>set hs. snd (h parsed value) \<noteq> Panic"
  shows "for_each (run_handler parsed value) hs [] =
    (concat (map (\<lambda>h. map Effect (fst (h parsed value))) hs), Some (concat (map (handler_errors parsed value) hs)))"
proof -
  have "run_handler parsed value h errs =
      (map Effect (fst (h parsed value)), Some (errs @ handler_errors parsed value h))" if "h \<in> set hs" for h errs
  proof -
    have "snd (h parsed value) \<noteq> Panic" using assms that by blast
    then show ?thesis
      by (cases "h parsed value"; cases "snd (h parsed value)") (simp_all add: run_handler_def handler_errors_def)
  qed
  from for_each_total [where f = "run_handler parsed value" and g = "\<lambda>h errs. errs @ handler_errors parsed value h", OF this]
  show ?thesis by (simp add: fold_append)
qed

definition dispatch_trace :: "'i \<Rightarrow> ('i, 't, 'b) dyn_pipeline \<Rightarrow> ('t, 'b) trace_item list" where
  "dispatch_trace v pipe = fst (dispatch v pipe False)"

lemma sum_handler_shows:
  "sum_list (map (handler_shows pid parsed v) hs) =
    mset (concat (map (\<lambda>h. map Effect (fst (h parsed v))) hs) @
      map (Reported pid \<circ> HandlerError) (concat (map (handler_errors parsed v) hs)))"
proof (induction hs)
  case (Cons h hs)
  have "handler_shows pid parsed v h =
      mset (map Effect (fst (h parsed v))) + mset (map (Reported pid \<circ> HandlerError) (handler_errors parsed v h))"
    by (cases "snd (h parsed v)") (simp_all add: handler_shows_def handler_errors_def)
  with Cons show ?case by (simp add: comp_def)
qed simp

lemma dispatch_pipeline:
  assumes "schedule_ok sch" and "never_panics p hs"
  shows "dispatch v (box_pipeline sch p hs) err =
      (dispatch_trace v (box_pipeline sch p hs), Some (err \<or> pipeline_fails p hs v))"
    and "mset (dispatch_trace v (box_pipeline sch p hs)) = pipeline_shows p hs v"
proof -
  let ?hs = "in_order sch hs"
  let ?errs = "\<lambda>parsed. concat (map (handler_errors parsed v) ?hs)"
  have run: "for_each (run_handler parsed v) ?hs [] =
      (concat (map (\<lambda>h. map Effect (fst (h parsed v))) ?hs), Some (?errs parsed))" for parsed
    using assms by (intro run_handlers) (auto simp: never_panics_def)
  have none: "?errs parsed = [] \<longleftrightarrow> \<not> (\<exists>h\<in>set hs. \<exists>e. snd (h parsed v) = Err e)" for parsed
    using assms by (auto simp: handler_errors_def split: outcome.splits)
  have observed: "sum_list (map (handler_shows (parser_id p) parsed v) hs) =
      mset (concat (map (\<lambda>h. map Effect (fst (h parsed v))) ?hs) @ map (Reported (parser_id p) \<circ> HandlerError) (?errs parsed))" for parsed
    by (subst sum_in_order [OF assms(1), symmetric]) (rule sum_handler_shows)
  show "dispatch v (box_pipeline sch p hs) err =
      (dispatch_trace v (box_pipeline sch p hs), Some (err \<or> pipeline_fails p hs v))"
    using assms(2) none
    by (auto simp: dispatch_def dispatch_trace_def box_pipeline_def pipeline_handle_def pipeline_fails_def run
        never_panics_def split: outcome.splits parser_error.splits)
  show "mset (dispatch_trace v (box_pipeline sch p hs)) = pipeline_shows p hs v"
    using assms(2) none
    by (auto simp: dispatch_def dispatch_trace_def box_pipeline_def pipeline_handle_def pipeline_shows_def run observed
        never_panics_def errors_handle_def comp_def split: outcome.splits parser_error.splits)
qed


lemma mset_concat_map: "mset (concat (map f xs)) = sum_list (map (\<lambda>x. mset (f x)) xs)"
  by (induction xs) auto

lemma fold_or: "fold (\<lambda>x b. b \<or> P x) xs b \<longleftrightarrow> b \<or> (\<exists>x\<in>set xs. P x)"
  by (induction xs arbitrary: b) auto

text \<open>
  C28. Every instruction of a transaction, inner ones included, reaches every registered
  instruction parser: each handler of a parser that accepts it runs once on it, every parse or
  handler error is reported once under its parser's ID and stops nothing else, and the
  pipeline fails, with its errors already reported, exactly when something failed.
\<close>

theorem instruction_pipeline_fans_out:
  assumes "build_from_txn parse txn = Ok trees" and "schedule_ok sch"
    and "\<forall>(p, hs)\<in>set pipes. never_panics p hs"
  shows "\<exists>tr. instruction_pipeline_handle parse (map (\<lambda>(p, hs). box_pipeline sch p hs) pipes) txn =
      (tr, if \<exists>insn\<in>set (concat (map preorder trees)). \<exists>(p, hs)\<in>set pipes. pipeline_fails p hs insn
           then Err AlreadyHandled else Ok ()) \<and>
    mset tr = (\<Sum>insn\<leftarrow>concat (map preorder trees). \<Sum>(p, hs)\<leftarrow>pipes. pipeline_shows p hs insn)"
proof -
  let ?box = "\<lambda>(p, hs). box_pipeline sch p hs"
  let ?fails = "\<lambda>insn b. b \<or> (\<exists>(p, hs)\<in>set pipes. pipeline_fails p hs insn)"
  have total: "never_panics p hs" if "(p, hs) \<in> set pipes" for p hs
    using assms(3) that by blast
  have one: "for_each (dispatch insn) (map ?box pipes) b =
      (concat (map (\<lambda>x. dispatch_trace insn (?box x)) pipes), Some (?fails insn b))" for insn b
  proof -
    have "for_each (dispatch insn) (map ?box qs) b =
        (concat (map (\<lambda>x. dispatch_trace insn (?box x)) qs), Some (b \<or> (\<exists>(p, hs)\<in>set qs. pipeline_fails p hs insn)))"
      if "set qs \<subseteq> set pipes" for qs
      using that
    proof (induction qs arbitrary: b)
      case (Cons q qs)
      obtain p hs where q: "q = (p, hs)" by (cases q)
      with Cons.prems have "never_panics p hs" by (auto intro: total)
      from dispatch_pipeline(1) [OF assms(2) this, of insn b] Cons show ?case by (auto simp: q)
    qed simp
    then show ?thesis by simp
  qed
  have tr: "mset (concat (map (\<lambda>x. dispatch_trace insn (?box x)) pipes)) = (\<Sum>(p, hs)\<leftarrow>pipes. pipeline_shows p hs insn)" for insn
    unfolding mset_concat_map
    by (intro arg_cong [of _ _ sum_list] map_cong) (auto intro: dispatch_pipeline(2) [OF assms(2) total])
  have "for_each (\<lambda>insn. for_each (dispatch insn) (map ?box pipes)) ixs False =
      (concat (map (\<lambda>insn. concat (map (\<lambda>x. dispatch_trace insn (?box x)) pipes)) ixs), Some (fold ?fails ixs False))" for ixs
    by (rule for_each_total) (rule one)
  moreover have "visit_all = (preorder :: 'a instruction_update \<Rightarrow> _)" by (rule ext) (rule visit_all_preorder)
  ultimately have "instruction_pipeline_handle parse (map ?box pipes) txn =
      (concat (map (\<lambda>insn. concat (map (\<lambda>x. dispatch_trace insn (?box x)) pipes)) (concat (map preorder trees))),
       if fold ?fails (concat (map preorder trees)) False then Err AlreadyHandled else Ok ())"
    by (simp only: instruction_pipeline_handle_def assms(1) outcome.case prod.case option.case)
  moreover have "mset (concat (map (\<lambda>insn. concat (map (\<lambda>x. dispatch_trace insn (?box x)) pipes)) xs)) =
      (\<Sum>insn\<leftarrow>xs. \<Sum>(p, hs)\<leftarrow>pipes. pipeline_shows p hs insn)" for xs
    by (subst mset_concat_map) (simp only: tr)
  ultimately show ?thesis by (simp only: fold_or simp_thms prod.inject)
qed

text \<open>A transaction with one outer and one inner instruction, and a parser whose only handler fails on inner ones.\<close>

definition demo_parser :: "(nat instruction_update, nat, nat) parser" where
  "demo_parser = \<lparr>parser_id = ''P'', parser_prefilter = default_prefilter,
     parse_input = (\<lambda>ix. if ix_path ix = [] then Err Filtered else Ok (length (ix_path ix)))\<rparr>"

definition demo_handler :: "(nat, nat instruction_update, nat, nat) handler" where
  "demo_handler parsed ix = ([parsed], if parsed = 1 then Ok () else Err (BoxedOther parsed))"

theorem instruction_pipeline_fans_out_witness:
  "\<exists>tr. instruction_pipeline_handle demo_parse [box_pipeline (\<lambda>n. [0..<n]) demo_parser [demo_handler]] demo_txn =
      (tr, Err AlreadyHandled) \<and>
    mset tr = {#Effect 1, Effect 2, Effect 3, Effect 2#} +
      image_mset (\<lambda>n. Reported ''P'' (HandlerError (BoxedOther n))) {#2, 3, 2#}"
proof -
  let ?ixs = "concat (map preorder demo_trees)"
  let ?show = "\<lambda>p. if p = [] then {#} else {#Effect (length p)#} +
      (if length p = 1 then {#} else {#Reported ''P'' (HandlerError (BoxedOther (length p)))#})"
  have ok: "schedule_ok (\<lambda>n. [0..<n])" by (simp add: schedule_ok_def)
  have np: "\<forall>(p, hs)\<in>set [(demo_parser, [demo_handler])]. never_panics p hs"
    by (simp add: never_panics_def demo_parser_def demo_handler_def)
  have paths: "map ix_path ?ixs = [[0], [0, 0], [0, 0, 0], [0, 1]]" by code_simp
  have fails: "pipeline_fails demo_parser [demo_handler] insn \<longleftrightarrow> ix_path insn \<noteq> [] \<and> length (ix_path insn) \<noteq> 1" for insn
    by (auto simp: pipeline_fails_def demo_parser_def demo_handler_def)
  have "[0, 0] \<in> ix_path ` set ?ixs" by (subst set_map [symmetric]) (simp only: paths, simp)
  then obtain insn where "insn \<in> set ?ixs" "ix_path insn = [0, 0]" by (metis imageE)
  then have "\<exists>insn\<in>set ?ixs. \<exists>(p, hs)\<in>set [(demo_parser, [demo_handler])]. pipeline_fails p hs insn"
    by (intro bexI [of _ insn]) (simp_all add: fails)
  moreover have "pipeline_shows demo_parser [demo_handler] insn = ?show (ix_path insn)" for insn
    by (simp add: pipeline_shows_def handler_shows_def demo_parser_def demo_handler_def)
  then have "(\<Sum>insn\<leftarrow>?ixs. \<Sum>(p, hs)\<leftarrow>[(demo_parser, [demo_handler])]. pipeline_shows p hs insn) =
      sum_list (map ?show (map ix_path ?ixs))"
    by (simp add: comp_def)
  ultimately show ?thesis
    using instruction_pipeline_fans_out [OF demo_build ok np]
    by (simp add: paths numeral_2_eq_2 numeral_3_eq_3 add_mset_commute)
qed

end
