(* ===== verification/Runtime_Builder.thy ===== *)
theory Runtime_Builder
  imports Runtime_Pipeline "HOL-Library.AList"
begin

text \<open>
  The runtime's pipelines by kind (\<open>PipelineSet\<close>, \<open>PipelineSets\<close> and \<open>Pipelines\<close> of
  \<open>crates/runtime/src/handler.rs\<close>), the job that routes an update to them (\<open>run_job\<close> of
  \<open>buffer.rs\<close>) and the builder that checks and assembles them (\<open>builder.rs\<close>).
\<close>

subsection \<open>Pipeline sets\<close>

text \<open>A \<open>HashMap\<close> from parser IDs: its entries with distinct keys, in some order.\<close>

type_synonym ('i, 't, 'b) pipeline_set = "(string \<times> ('i, 't, 'b) dyn_pipeline) list"

definition pipeline_set_insert ::
  "string \<Rightarrow> ('i, 't, 'b) dyn_pipeline \<Rightarrow> ('i, 't, 'b) pipeline_set \<Rightarrow> ('i, 't, 'b) pipeline_set" where
  "pipeline_set_insert key v ps = AList.update key v ps"

definition pipeline_set_from :: "('i, 't, 'b) dyn_pipeline list \<Rightarrow> ('i, 't, 'b) pipeline_set" where
  "pipeline_set_from ps = fold (\<lambda>p. pipeline_set_insert (pipe_id p) p) ps []"

definition pipeline_set_filters :: "('i, 't, 'b) pipeline_set \<Rightarrow> (string \<times> prefilter) list" where
  "pipeline_set_filters ps = map (\<lambda>(k, v). (k, pipe_prefilter v)) ps"

definition get_pipelines ::
  "('i, 't, 'b) pipeline_set \<Rightarrow> string list \<Rightarrow> (string \<times> ('i, 't, 'b) dyn_pipeline) list" where
  "get_pipelines ps filters = List.map_filter (\<lambda>f. map_option (Pair f) (map_of ps f)) filters"

text \<open>An error is reported under the filter's name; \<open>None\<close> is a panic.\<close>

definition run_pipeline ::
  "'i \<Rightarrow> string \<times> ('i, 't, 'b) dyn_pipeline \<Rightarrow> unit \<Rightarrow> ('t, 'b) trace_item list \<times> unit option" where
  "run_pipeline value fp _ =
     (case pipe_handle (snd fp) value of
        (tr, Ok _) \<Rightarrow> (tr, Some ())
      | (tr, Err v) \<Rightarrow> (tr @ errors_handle (fst fp) v, Some ())
      | (tr, Panic) \<Rightarrow> (tr, None))"

definition pipelines_run ::
  "schedule \<Rightarrow> ('i, 't, 'b) pipeline_set \<Rightarrow> string list \<Rightarrow> 'i \<Rightarrow> ('t, 'b) trace_item list \<times> unit option" where
  "pipelines_run sch ps filters value = for_each (run_pipeline value) (in_order sch (get_pipelines ps filters)) ()"

record ('a, 'x, 'm, 'k, 's, 't, 'b) pipeline_sets =
  set_account :: "('a, 't, 'b) pipeline_set"
  set_transaction :: "('x transaction_update, 't, 'b) pipeline_set"
  set_instruction :: "('x transaction_update, 't, 'b) pipeline_set"
  set_block_meta :: "('m, 't, 'b) pipeline_set"
  set_block :: "('k, 't, 'b) pipeline_set"
  set_slot :: "('s, 't, 'b) pipeline_set"

text \<open>The chained entries collected into a \<open>HashMap\<close>: a later entry replaces an earlier one.\<close>

definition pipeline_sets_filters :: "('a, 'x, 'm, 'k, 's, 't, 'b) pipeline_sets \<Rightarrow> filters" where
  "pipeline_sets_filters ps =
     fold (\<lambda>(k, v) m. m(k \<mapsto> v))
       (pipeline_set_filters (set_account ps) @ pipeline_set_filters (set_transaction ps) @
        pipeline_set_filters (set_instruction ps) @ pipeline_set_filters (set_block_meta ps) @
        pipeline_set_filters (set_block ps) @ pipeline_set_filters (set_slot ps)) Map.empty"

subsection \<open>The job of one update\<close>

datatype ('a, 'x, 'm, 'k, 's) runtime_oneof =
    AccountUpdate 'a
  | TransactionUpdate "'x transaction_update"
  | BlockMetaUpdate 'm
  | BlockUpdate 'k
  | SlotUpdate 's
  | PingUpdate
  | UnknownUpdate

record ('a, 'x, 'm, 'k, 's) runtime_update =
  update_filters_named :: "string list"
  update_kind :: "('a, 'x, 'm, 'k, 's) runtime_oneof option"

fun run_oneof ::
  "schedule \<Rightarrow> ('a, 'x, 'm, 'k, 's, 't, 'b) pipeline_sets \<Rightarrow> string list \<Rightarrow> ('a, 'x, 'm, 'k, 's) runtime_oneof \<Rightarrow>
    ('t, 'b) trace_item list \<times> unit option" where
  "run_oneof sch ps filters (AccountUpdate a) = pipelines_run sch (set_account ps) filters a"
| "run_oneof sch ps filters (TransactionUpdate t) =
     for_each (\<lambda>pipelines _. pipelines_run sch pipelines filters t) (in_order sch [set_transaction ps, set_instruction ps]) ()"
| "run_oneof sch ps filters (BlockMetaUpdate m) = pipelines_run sch (set_block_meta ps) filters m"
| "run_oneof sch ps filters (BlockUpdate b) = pipelines_run sch (set_block ps) filters b"
| "run_oneof sch ps filters (SlotUpdate s) = pipelines_run sch (set_slot ps) filters s"
| "run_oneof sch ps filters PingUpdate = ([], Some ())"
| "run_oneof sch ps filters UnknownUpdate = ([], Some ())"

definition run_job ::
  "schedule \<Rightarrow> ('a, 'x, 'm, 'k, 's, 't, 'b) pipeline_sets \<Rightarrow> ('a, 'x, 'm, 'k, 's) runtime_update \<Rightarrow>
    ('t, 'b) trace_item list \<times> unit option" where
  "run_job sch ps job =
     (case update_kind job of
        None \<Rightarrow> ([], Some ())
      | Some update \<Rightarrow> run_oneof sch ps (update_filters_named job) update)"

subsection \<open>The builder\<close>

datatype builder_error =
    AccountPipelineCollision
  | TransactionPipelineCollision
  | SlotPipelineCollision
  | BlockMetaCollision
  | BlockCollision
  | MissingField string
  | MissingConfig string
  | MetricsError

record ('a, 'x, 'm, 'k, 's, 't, 'b) runtime_builder =
  rb_err :: "(builder_error, unit) outcome"
  rb_account :: "('a, 't, 'b) dyn_pipeline list"
  rb_transaction :: "('x transaction_update, 't, 'b) dyn_pipeline list"
  rb_instruction :: "('x instruction_update, 't, 'b) dyn_pipeline list"
  rb_block_meta :: "('m, 't, 'b) dyn_pipeline list"
  rb_block :: "('k, 't, 'b) dyn_pipeline list"
  rb_slot :: "('s, 't, 'b) dyn_pipeline list"

definition default_runtime_builder :: "('a, 'x, 'm, 'k, 's, 't, 'b) runtime_builder" where
  "default_runtime_builder =
     \<lparr>rb_err = Ok (), rb_account = [], rb_transaction = [], rb_instruction = [], rb_block_meta = [], rb_block = [],
      rb_slot = []\<rparr>"

text \<open>The closure mutates the builder and says how it went; its result becomes the builder's.\<close>

definition builder_try_mutate ::
  "(('a, 'x, 'm, 'k, 's, 't, 'b) runtime_builder \<Rightarrow>
     ('a, 'x, 'm, 'k, 's, 't, 'b) runtime_builder \<times> (builder_error, unit) outcome) \<Rightarrow>
    ('a, 'x, 'm, 'k, 's, 't, 'b) runtime_builder \<Rightarrow> ('a, 'x, 'm, 'k, 's, 't, 'b) runtime_builder" where
  "builder_try_mutate f b =
     (case rb_err b of
        Ok _ \<Rightarrow> (case f b of (b', r) \<Rightarrow> b'\<lparr>rb_err := r\<rparr>)
      | _ \<Rightarrow> b)"

definition builder_mutate ::
  "(('a, 'x, 'm, 'k, 's, 't, 'b) runtime_builder \<Rightarrow> ('a, 'x, 'm, 'k, 's, 't, 'b) runtime_builder) \<Rightarrow>
    ('a, 'x, 'm, 'k, 's, 't, 'b) runtime_builder \<Rightarrow> ('a, 'x, 'm, 'k, 's, 't, 'b) runtime_builder" where
  "builder_mutate f b = builder_try_mutate (\<lambda>s. (f s, Ok ())) b"

definition with_account ::
  "('a, 't, 'b) dyn_pipeline \<Rightarrow> ('a, 'x, 'm, 'k, 's, 't, 'b) runtime_builder \<Rightarrow>
    ('a, 'x, 'm, 'k, 's, 't, 'b) runtime_builder" where
  "with_account p = builder_mutate (\<lambda>s. s\<lparr>rb_account := rb_account s @ [p]\<rparr>)"

definition with_transaction ::
  "('x transaction_update, 't, 'b) dyn_pipeline \<Rightarrow> ('a, 'x, 'm, 'k, 's, 't, 'b) runtime_builder \<Rightarrow>
    ('a, 'x, 'm, 'k, 's, 't, 'b) runtime_builder" where
  "with_transaction p = builder_mutate (\<lambda>s. s\<lparr>rb_transaction := rb_transaction s @ [p]\<rparr>)"

definition with_instruction ::
  "('x instruction_update, 't, 'b) dyn_pipeline \<Rightarrow> ('a, 'x, 'm, 'k, 's, 't, 'b) runtime_builder \<Rightarrow>
    ('a, 'x, 'm, 'k, 's, 't, 'b) runtime_builder" where
  "with_instruction p = builder_mutate (\<lambda>s. s\<lparr>rb_instruction := rb_instruction s @ [p]\<rparr>)"

definition with_block_meta ::
  "('m, 't, 'b) dyn_pipeline \<Rightarrow> ('a, 'x, 'm, 'k, 's, 't, 'b) runtime_builder \<Rightarrow>
    ('a, 'x, 'm, 'k, 's, 't, 'b) runtime_builder" where
  "with_block_meta p = builder_mutate (\<lambda>s. s\<lparr>rb_block_meta := rb_block_meta s @ [p]\<rparr>)"

definition with_block ::
  "('k, 't, 'b) dyn_pipeline \<Rightarrow> ('a, 'x, 'm, 'k, 's, 't, 'b) runtime_builder \<Rightarrow>
    ('a, 'x, 'm, 'k, 's, 't, 'b) runtime_builder" where
  "with_block p = builder_mutate (\<lambda>s. s\<lparr>rb_block := rb_block s @ [p]\<rparr>)"

definition with_slot ::
  "('s, 't, 'b) dyn_pipeline \<Rightarrow> ('a, 'x, 'm, 'k, 's, 't, 'b) runtime_builder \<Rightarrow>
    ('a, 'x, 'm, 'k, 's, 't, 'b) runtime_builder" where
  "with_slot p = builder_mutate (\<lambda>s. s\<lparr>rb_slot := rb_slot s @ [p]\<rparr>)"

text \<open>The parser's base58 decoder is an argument of the instruction pipeline.\<close>

definition try_build_with ::
  "(string \<Rightarrow> pubkey option) \<Rightarrow> ('a, 'x, 'm, 'k, 's, 't, 'b) runtime_builder \<Rightarrow>
    (builder_error, ('a, 'x, 'm, 'k, 's, 't, 'b) pipeline_sets \<times> filters) outcome" where
  "try_build_with parse b =
     bind_outcome (rb_err b) (\<lambda>_.
     let ixs = (case new_instruction_pipeline parse (rb_instruction b) of
                  Some p \<Rightarrow> pipeline_set_insert (pipe_id p) p [] | None \<Rightarrow> []);
         pipelines =
           \<lparr>set_account = pipeline_set_from (rb_account b), set_transaction = pipeline_set_from (rb_transaction b),
            set_instruction = ixs, set_block_meta = pipeline_set_from (rb_block_meta b),
            set_block = pipeline_set_from (rb_block b), set_slot = pipeline_set_from (rb_slot b)\<rparr>
     in if length (set_account pipelines) \<noteq> length (rb_account b) then Err AccountPipelineCollision
        else if length (set_transaction pipelines) \<noteq> length (rb_transaction b) then Err TransactionPipelineCollision
        else if length (set_block_meta pipelines) \<noteq> length (rb_block_meta b) then Err BlockMetaCollision
        else if length (set_block pipelines) \<noteq> length (rb_block b) then Err BlockCollision
        else if length (set_slot pipelines) \<noteq> length (rb_slot b) then Err SlotPipelineCollision
        else Ok (pipelines, pipeline_sets_filters pipelines))"

subsection \<open>Collisions\<close>

lemma pipeline_set_keys:
  "distinct (map fst acc) \<Longrightarrow>
    distinct (map fst (fold (\<lambda>p. pipeline_set_insert (pipe_id p) p) ps acc)) \<and>
    set (map fst (fold (\<lambda>p. pipeline_set_insert (pipe_id p) p) ps acc)) = fst ` set acc \<union> pipe_id ` set ps"
proof (induction ps arbitrary: acc)
  case (Cons p ps)
  from Cons.IH [of "pipeline_set_insert (pipe_id p) p acc"] Cons.prems show ?case
    by (auto simp: pipeline_set_insert_def distinct_update dom_update)
qed simp

lemma pipeline_set_from_length: "length (pipeline_set_from ps) = card (set (map pipe_id ps))"
  using pipeline_set_keys [of "[]" ps] distinct_card [of "map fst (pipeline_set_from ps)"]
  by (simp add: pipeline_set_from_def)

lemma pipeline_set_no_collision: "length (pipeline_set_from ps) = length ps \<longleftrightarrow> distinct (map pipe_id ps)"
  unfolding pipeline_set_from_length by (metis card_distinct distinct_card length_map)

lemma update_fresh: "k \<notin> fst ` set al \<Longrightarrow> AList.update k v al = al @ [(k, v)]"
  by (induction al) auto

lemma pipeline_set_from_distinct:
  assumes "distinct (map pipe_id ps)"
  shows "pipeline_set_from ps = map (\<lambda>p. (pipe_id p, p)) ps"
proof -
  have "fold (\<lambda>p. pipeline_set_insert (pipe_id p) p) ps acc = acc @ map (\<lambda>p. (pipe_id p, p)) ps"
    if "distinct (map pipe_id ps)" "fst ` set acc \<inter> pipe_id ` set ps = {}" for acc
    using that
  proof (induction ps arbitrary: acc)
    case (Cons p ps)
    then have "pipeline_set_insert (pipe_id p) p acc = acc @ [(pipe_id p, p)]"
      by (auto simp: pipeline_set_insert_def intro: update_fresh)
    with Cons.IH [of "acc @ [(pipe_id p, p)]"] Cons.prems show ?case by auto
  qed simp
  with assms show ?thesis by (simp add: pipeline_set_from_def)
qed

lemma fold_upd: "fold (\<lambda>(k, v) m. m(k \<mapsto> v)) xs m = m ++ map_of (rev xs)"
  by (induction xs arbitrary: m) (auto simp: map_add_def split: option.splits)

lemma fold_upd_distinct:
  assumes "distinct (map fst xs)"
  shows "fold (\<lambda>(k, v) m. m(k \<mapsto> v)) xs Map.empty = map_of xs"
  using assms map_of_inject_set [of "rev xs" xs] by (simp add: fold_upd rev_map [symmetric])

subsection \<open>Routing\<close>

definition instruction_set ::
  "(string \<Rightarrow> pubkey option) \<Rightarrow> ('x instruction_update, 't, 'b) dyn_pipeline list \<Rightarrow>
    ('x transaction_update, 't, 'b) dyn_pipeline list" where
  "instruction_set parse pipes = (case new_instruction_pipeline parse pipes of None \<Rightarrow> [] | Some p \<Rightarrow> [p])"

text \<open>The IDs of everything registered, the bundle of the instruction pipelines once.\<close>

definition registered_ids :: "('a, 'x, 'm, 'k, 's, 't, 'b) runtime_builder \<Rightarrow> string list" where
  "registered_ids b =
     map pipe_id (rb_account b) @ map pipe_id (rb_transaction b) @
     (if rb_instruction b = [] then [] else [INSTRUCTION_PIPELINE_ID]) @
     map pipe_id (rb_block_meta b) @ map pipe_id (rb_block b) @ map pipe_id (rb_slot b)"

abbreviation entries :: "('i, 't, 'b) dyn_pipeline list \<Rightarrow> ('i, 't, 'b) pipeline_set" where
  "entries ps \<equiv> map (\<lambda>p. (pipe_id p, p)) ps"

lemma try_build_with_Ok:
  "try_build_with parse b = Ok (ps, fs) \<longleftrightarrow>
    rb_err b = Ok () \<and> distinct (map pipe_id (rb_account b)) \<and> distinct (map pipe_id (rb_transaction b)) \<and>
    distinct (map pipe_id (rb_block_meta b)) \<and> distinct (map pipe_id (rb_block b)) \<and> distinct (map pipe_id (rb_slot b)) \<and>
    ps = \<lparr>set_account = entries (rb_account b), set_transaction = entries (rb_transaction b),
          set_instruction = entries (instruction_set parse (rb_instruction b)),
          set_block_meta = entries (rb_block_meta b), set_block = entries (rb_block b), set_slot = entries (rb_slot b)\<rparr> \<and>
    fs = pipeline_sets_filters ps"
  by (cases "rb_err b")
     (auto simp: try_build_with_def Let_def pipeline_set_no_collision pipeline_set_from_distinct instruction_set_def
       pipeline_set_insert_def split: option.splits)

lemma in_order_single [simp]: "schedule_ok sch \<Longrightarrow> in_order sch [x] = [x]"
  using mset_in_order [of sch "[x]"] by (simp del: mset_in_order)

lemma in_order_pair:
  assumes "schedule_ok sch"
  shows "in_order sch [x, y] = [x, y] \<or> in_order sch [x, y] = [y, x]"
proof -
  have mset: "mset (in_order sch [x, y]) = mset [x, y]" using assms by simp
  from mset_eq_length [OF this] have "length (in_order sch [x, y]) = 2" by simp
  then obtain u v where "in_order sch [x, y] = [u, v]"
    by (auto simp: numeral_2_eq_2 length_Suc_conv)
  with mset show ?thesis by (auto simp: add_eq_conv_ex)
qed

lemma map_of_entries:
  assumes "distinct (map pipe_id ps)" and "p \<in> set ps"
  shows "map_of (entries ps) (pipe_id p) = Some p"
  using assms by (intro map_of_is_SomeI) (auto simp: comp_def)

lemma pipelines_run_one:
  assumes "schedule_ok sch"
  shows "distinct (map pipe_id ps) \<Longrightarrow> p \<in> set ps \<Longrightarrow>
      pipelines_run sch (entries ps) [pipe_id p] v = run_pipeline v (pipe_id p, p) ()"
    and "pid \<notin> pipe_id ` set ps \<Longrightarrow> pipelines_run sch (entries ps) [pid] v = ([], Some ())"
proof -
  assume "distinct (map pipe_id ps)" "p \<in> set ps"
  then have "get_pipelines (entries ps) [pipe_id p] = [(pipe_id p, p)]"
    by (simp add: get_pipelines_def map_filter_def map_of_entries)
  with assms show "pipelines_run sch (entries ps) [pipe_id p] v = run_pipeline v (pipe_id p, p) ()"
    by (simp add: pipelines_run_def split: prod.splits option.splits)
next
  assume "pid \<notin> pipe_id ` set ps"
  then have "map_of (entries ps) pid = None" by (auto simp: map_of_eq_None_iff comp_def)
  then have "get_pipelines (entries ps) [pid] = []" by (simp add: get_pipelines_def map_filter_def)
  moreover have "in_order sch [] = ([] :: (string \<times> ('a, 'b, 'c) dyn_pipeline) list)"
    using mset_in_order [OF assms, of "[]"] by simp
  ultimately show "pipelines_run sch (entries ps) [pid] v = ([], Some ())" by (simp add: pipelines_run_def)
qed

text \<open>Of the two sets a transaction goes to, one that matches nothing adds nothing, in either order.\<close>

lemma run_transaction_one:
  assumes "schedule_ok sch"
  shows "pipelines_run sch (set_instruction ps) [pid] t = ([], Some ()) \<Longrightarrow>
      run_job sch ps \<lparr>update_filters_named = [pid], update_kind = Some (TransactionUpdate t)\<rparr> =
      pipelines_run sch (set_transaction ps) [pid] t"
    and "pipelines_run sch (set_transaction ps) [pid] t = ([], Some ()) \<Longrightarrow>
      run_job sch ps \<lparr>update_filters_named = [pid], update_kind = Some (TransactionUpdate t)\<rparr> =
      pipelines_run sch (set_instruction ps) [pid] t"
  using in_order_pair [OF assms, of "set_transaction ps" "set_instruction ps"]
  by (auto simp: run_job_def split: prod.splits option.splits)

definition filter_entries :: "('i, 't, 'b) dyn_pipeline list \<Rightarrow> (string \<times> prefilter) list" where
  "filter_entries ps = map (\<lambda>p. (pipe_id p, pipe_prefilter p)) ps"

definition registered_filters ::
  "(string \<Rightarrow> pubkey option) \<Rightarrow> ('a, 'x, 'm, 'k, 's, 't, 'b) runtime_builder \<Rightarrow> (string \<times> prefilter) list" where
  "registered_filters parse b =
     filter_entries (rb_account b) @ filter_entries (rb_transaction b) @
     filter_entries (instruction_set parse (rb_instruction b)) @ filter_entries (rb_block_meta b) @
     filter_entries (rb_block b) @ filter_entries (rb_slot b)"

lemma built_filters:
  assumes "try_build_with parse b = Ok (ps, fs)"
  shows "fs = fold (\<lambda>(k, v) m. m(k \<mapsto> v)) (registered_filters parse b) Map.empty"
  using assms by (auto simp: try_build_with_Ok pipeline_sets_filters_def pipeline_set_filters_def registered_filters_def
      filter_entries_def comp_def)

lemma built_filters_own:
  assumes "distinct (registered_ids b)" and "try_build_with parse b = Ok (ps, fs)"
    and "(pid, f) \<in> set (registered_filters parse b)"
  shows "fs pid = Some f"
proof -
  have "map fst (registered_filters parse b) = registered_ids b"
    by (simp add: registered_filters_def filter_entries_def registered_ids_def instruction_set_def
        new_instruction_pipeline_def comp_def)
  with assms(1,3) show ?thesis unfolding built_filters [OF assms(2)]
    by (simp only: fold_upd_distinct map_of_is_SomeI)
qed

text \<open>
  C29. Routing: when no two registered parsers share an ID the runtime is built, the filter set
  carries every pipeline's own prefilter under its ID (the instruction pipelines' union under the
  bundle's), and an update the server tags with that ID runs that pipeline and no other.
\<close>

theorem runtime_routes:
  assumes "rb_err b = Ok ()" and "distinct (registered_ids b)" and "schedule_ok sch"
  shows "\<exists>ps fs. try_build_with parse b = Ok (ps, fs) \<and>
    (\<forall>p\<in>set (rb_account b). fs (pipe_id p) = Some (pipe_prefilter p) \<and>
       (\<forall>a. run_job sch ps \<lparr>update_filters_named = [pipe_id p], update_kind = Some (AccountUpdate a)\<rparr> =
            run_pipeline a (pipe_id p, p) ())) \<and>
    (\<forall>p\<in>set (rb_transaction b). fs (pipe_id p) = Some (pipe_prefilter p) \<and>
       (\<forall>t. run_job sch ps \<lparr>update_filters_named = [pipe_id p], update_kind = Some (TransactionUpdate t)\<rparr> =
            run_pipeline t (pipe_id p, p) ())) \<and>
    (\<forall>p. new_instruction_pipeline parse (rb_instruction b) = Some p \<longrightarrow>
       fs INSTRUCTION_PIPELINE_ID = Some (prefilter_from_list (map pipe_prefilter (rb_instruction b))) \<and>
       (\<forall>t. run_job sch ps \<lparr>update_filters_named = [INSTRUCTION_PIPELINE_ID], update_kind = Some (TransactionUpdate t)\<rparr> =
            run_pipeline t (INSTRUCTION_PIPELINE_ID, p) ())) \<and>
    (\<forall>p\<in>set (rb_block_meta b). fs (pipe_id p) = Some (pipe_prefilter p) \<and>
       (\<forall>m. run_job sch ps \<lparr>update_filters_named = [pipe_id p], update_kind = Some (BlockMetaUpdate m)\<rparr> =
            run_pipeline m (pipe_id p, p) ())) \<and>
    (\<forall>p\<in>set (rb_block b). fs (pipe_id p) = Some (pipe_prefilter p) \<and>
       (\<forall>k. run_job sch ps \<lparr>update_filters_named = [pipe_id p], update_kind = Some (BlockUpdate k)\<rparr> =
            run_pipeline k (pipe_id p, p) ())) \<and>
    (\<forall>p\<in>set (rb_slot b). fs (pipe_id p) = Some (pipe_prefilter p) \<and>
       (\<forall>s. run_job sch ps \<lparr>update_filters_named = [pipe_id p], update_kind = Some (SlotUpdate s)\<rparr> =
            run_pipeline s (pipe_id p, p) ()))"
proof -
  let ?ixs = "instruction_set parse (rb_instruction b)"
  have d: "distinct (map pipe_id (rb_account b))" "distinct (map pipe_id (rb_transaction b))" "distinct (map pipe_id ?ixs)"
    "distinct (map pipe_id (rb_block_meta b))" "distinct (map pipe_id (rb_block b))" "distinct (map pipe_id (rb_slot b))"
    "pipe_id ` set (rb_transaction b) \<inter> pipe_id ` set ?ixs = {}"
    using assms(2) by (auto simp: registered_ids_def instruction_set_def new_instruction_pipeline_def)
  have "\<exists>ps fs. try_build_with parse b = Ok (ps, fs)" using assms(1) d by (simp add: try_build_with_Ok)
  then obtain ps fs where built: "try_build_with parse b = Ok (ps, fs)" by blast
  then have ps: "set_account ps = entries (rb_account b)" "set_transaction ps = entries (rb_transaction b)"
    "set_instruction ps = entries ?ixs" "set_block_meta ps = entries (rb_block_meta b)" "set_block ps = entries (rb_block b)"
    "set_slot ps = entries (rb_slot b)"
    by (simp_all add: try_build_with_Ok)
  note own = built_filters_own [OF assms(2) built] and one = pipelines_run_one [OF assms(3)]
  have t: "pipelines_run sch (set_instruction ps) [pipe_id p] v = ([], Some ())" if "p \<in> set (rb_transaction b)" for p v
    unfolding ps by (rule one(2)) (use d(7) that in blast)
  have x: "?ixs = [p] \<and> pipe_id p = INSTRUCTION_PIPELINE_ID \<and>
      pipe_prefilter p = prefilter_from_list (map pipe_prefilter (rb_instruction b))"
    if "new_instruction_pipeline parse (rb_instruction b) = Some p" for p
    using that by (auto simp: instruction_set_def new_instruction_pipeline_def split: if_splits)
  have x': "pipelines_run sch (set_transaction ps) [INSTRUCTION_PIPELINE_ID] v = ([], Some ())"
    if "new_instruction_pipeline parse (rb_instruction b) = Some p" for p v
    unfolding ps by (rule one(2)) (use d(7) x [OF that] in force)
  show ?thesis
  proof (intro exI conjI ballI allI impI, rule built)
    fix p assume p: "new_instruction_pipeline parse (rb_instruction b) = Some p"
    show "fs INSTRUCTION_PIPELINE_ID = Some (prefilter_from_list (map pipe_prefilter (rb_instruction b)))"
      by (rule own) (use x [OF p] in \<open>simp add: registered_filters_def filter_entries_def\<close>)
    show "run_job sch ps \<lparr>update_filters_named = [INSTRUCTION_PIPELINE_ID], update_kind = Some (TransactionUpdate t)\<rparr> =
      run_pipeline t (INSTRUCTION_PIPELINE_ID, p) ()" for t
      using run_transaction_one(2) [OF assms(3) x' [OF p]] one(1) [of ?ixs p t] x [OF p] d(3) by (simp add: ps)
  next
    fix p t assume p: "p \<in> set (rb_transaction b)"
    show "run_job sch ps \<lparr>update_filters_named = [pipe_id p], update_kind = Some (TransactionUpdate t)\<rparr> =
      run_pipeline t (pipe_id p, p) ()"
      using run_transaction_one(1) [OF assms(3) t [OF p]] one(1) [OF d(2) p] by (simp add: ps)
  qed (auto intro!: own simp: registered_filters_def filter_entries_def run_job_def ps one d)
qed

text \<open>A pipeline that records the values it handled, and a builder with two kinds and one bundle.\<close>

definition demo_pipe :: "string \<Rightarrow> prefilter \<Rightarrow> ('i, 'i, nat) dyn_pipeline" where
  "demo_pipe pid f = \<lparr>pipe_id = pid, pipe_prefilter = f, pipe_handle = (\<lambda>v. ([Effect v], Ok ()))\<rparr>"

definition account_wish :: prefilter where
  "account_wish = default_prefilter\<lparr>pf_account := Some default_account_prefilter\<rparr>"

definition slot_wish :: prefilter where
  "slot_wish = default_prefilter\<lparr>pf_slot := Some default_slot_prefilter\<rparr>"

definition demo_builder :: "string \<Rightarrow> (nat, nat, nat, nat, nat, nat, nat) runtime_builder" where
  "demo_builder pid =
     with_account (demo_pipe ''P'' account_wish) (with_slot (demo_pipe pid slot_wish) default_runtime_builder)"

lemmas demo_builder_simps = demo_builder_def with_account_def with_slot_def builder_mutate_def builder_try_mutate_def
  default_runtime_builder_def demo_pipe_def

theorem runtime_routes_witness:
  "\<exists>ps fs. try_build_with (\<lambda>_. None) (demo_builder ''Q'') = Ok (ps, fs) \<and>
    fs ''P'' = Some account_wish \<and> fs ''Q'' = Some slot_wish \<and>
    run_job (\<lambda>n. [0..<n]) ps \<lparr>update_filters_named = [''P''], update_kind = Some (AccountUpdate 7)\<rparr> = ([Effect 7], Some ()) \<and>
    run_job (\<lambda>n. [0..<n]) ps \<lparr>update_filters_named = [''Q''], update_kind = Some (SlotUpdate 8)\<rparr> = ([Effect 8], Some ())"
proof -
  have "rb_err (demo_builder ''Q'') = Ok ()" "distinct (registered_ids (demo_builder ''Q''))" "schedule_ok (\<lambda>n. [0..<n])"
    by (simp_all add: demo_builder_simps registered_ids_def schedule_ok_def)
  from runtime_routes [OF this, of "\<lambda>_. None"] show ?thesis
    by (elim exE conjE) (intro exI conjI, assumption, auto simp: demo_builder_simps run_pipeline_def)
qed


end
