(* ===== verification/Grpc_Source.thy ===== *)
theory Grpc_Source
  imports Sources "HOL-Library.Sublist"
begin

text \<open>
  The Yellowstone gRPC source (\<open>crates/yellowstone-grpc-source/src/lib.rs\<close>): its configuration, the
  subscribe requests and the loop that pumps the stream into the runtime while filter sets
  published by the runtime's handles replace the subscription. The client is code of another
  package: connecting, subscribing and what the stream and the request sink do are arguments. The
  loop meets a sequence of items; whether the sink takes a request is part of the item that sends it.
\<close>

subsection \<open>Configuration\<close>

datatype compression_encoding = Gzip | Zstd

datatype grpc_commitment = Processed | Confirmed | Finalized

fun commitment_i32 :: "grpc_commitment \<Rightarrow> nat" where
  "commitment_i32 Processed = 0"
| "commitment_i32 Confirmed = 1"
| "commitment_i32 Finalized = 2"

record grpc_config =
  endpoint :: string
  x_token :: "string option"
  connect_timeout :: u64
  commitment :: "grpc_commitment option"
  from_slot :: "u64 option"
  data_slices :: "accounts_data_slice list"
  max_decoding_message_size :: "nat option"
  accept_compression :: "compression_encoding option"
  auto_reconnect :: bool
  reconnect_max_retries :: "u32 option"
  reconnect_slot_retention :: "nat option"

definition DEFAULT_RECONNECT_MAX_RETRIES :: u32 where "DEFAULT_RECONNECT_MAX_RETRIES = 10"

text \<open>Milliseconds; the multiplier \<open>2.0\<close> is a whole number.\<close>

definition DEFAULT_RECONNECT_INITIAL_BACKOFF :: nat where "DEFAULT_RECONNECT_INITIAL_BACKOFF = 500"

definition DEFAULT_RECONNECT_MULTIPLIER :: nat where "DEFAULT_RECONNECT_MULTIPLIER = 2"

record reconnect_settings =
  initial_backoff :: nat
  backoff_multiplier :: nat
  max_retries :: u32
  slot_retention :: nat

definition validate_config :: "grpc_config \<Rightarrow> (prefilter_error, unit) outcome" where
  "validate_config config = slice_validate_all (data_slices config)"

text \<open>The retention of \<open>ReconnectConfig::default()\<close> is the library's.\<close>

definition reconnect_config :: "nat \<Rightarrow> grpc_config \<Rightarrow> reconnect_settings option" where
  "reconnect_config default_retention config =
     (if \<not> auto_reconnect config then None
      else
        let retries = unwrap_or (reconnect_max_retries config) DEFAULT_RECONNECT_MAX_RETRIES
        in if retries = 0 then None
           else Some \<lparr>initial_backoff = DEFAULT_RECONNECT_INITIAL_BACKOFF, backoff_multiplier = DEFAULT_RECONNECT_MULTIPLIER,
                      max_retries = retries, slot_retention = unwrap_or (reconnect_slot_retention config) default_retention\<rparr>)"

definition build_subscribe_request :: "'f wire_env \<Rightarrow> filters \<Rightarrow> grpc_config \<Rightarrow> 'f subscribe_request" where
  "build_subscribe_request env filters config =
     (let request = subscribe_request_from env filters;
          request = (case commitment config of
                       Some level \<Rightarrow> request\<lparr>req_commitment := Some (commitment_i32 level)\<rparr>
                     | None \<Rightarrow> request)
      in request\<lparr>req_accounts_data_slice := data_slices config\<rparr>)"

subsection \<open>The loop\<close>

text \<open>The state of the loop; \<open>requests_taken\<close> is what the sink has taken.\<close>

record ('u, 'f) grpc_run =
  grpc_tx :: "'u runtime_item mpsc"
  pending_filters :: "filters option"
  filter_updates_sent :: u64
  filter_updates_on :: bool
  requests_taken :: "'f subscribe_request list"

datatype 'u grpc_item =
    StreamUpdate 'u
  | StreamStatus grpc_status
  | RetryTick bool
  | FilterUpdate filters bool
  | HandlesGone
  | ReceiverGone

record 'f client_env =
  client_wire :: "'f wire_env"
  client_retention :: nat

definition send_or_hold ::
  "'f client_env \<Rightarrow> grpc_config \<Rightarrow> bool \<Rightarrow> filters \<Rightarrow> ('u, 'f) grpc_run \<Rightarrow> ('u, 'f) grpc_run \<times> filters option" where
  "send_or_hold env config taken filters r =
     (let request = build_subscribe_request (client_wire env) filters config
      in if \<not> taken
         then (r, if reconnect_config (client_retention env) config = None then None else Some filters)
         else (r\<lparr>filter_updates_sent := filter_updates_sent r + 1, requests_taken := requests_taken r @ [request]\<rparr>, None))"

definition offer ::
  "'f client_env \<Rightarrow> grpc_config \<Rightarrow> bool \<Rightarrow> filters \<Rightarrow> ('u, 'f) grpc_run \<Rightarrow> ('u, 'f) grpc_run" where
  "offer env config taken filters r =
     (case send_or_hold env config taken filters r of (r', pending) \<Rightarrow> r'\<lparr>pending_filters := pending\<rparr>)"

text \<open>
  One turn: a retry is polled only while a set is held, a filter update only while handles are left;
  \<open>Err\<close> is a \<open>break\<close> with the exit status.
\<close>

fun grpc_step ::
  "'f client_env \<Rightarrow> grpc_config \<Rightarrow> 'u grpc_item \<Rightarrow> ('u, 'f) grpc_run \<Rightarrow>
    ('u, 'f) grpc_run \<times> (source_exit_status, unit) outcome" where
  "grpc_step env config (StreamUpdate u) r =
     (case mpsc_send (Ok u) (grpc_tx r) of
        (tx, Ok _) \<Rightarrow> (r\<lparr>grpc_tx := tx\<rparr>, Ok ())
      | (tx, _) \<Rightarrow> (r\<lparr>grpc_tx := tx\<rparr>, Err ReceiverDropped))"
| "grpc_step env config (StreamStatus st) r =
     (case mpsc_send (Err st) (grpc_tx r) of
        (tx, _) \<Rightarrow> (r\<lparr>grpc_tx := tx\<rparr>, Err (StreamError (status_code st) (status_message st))))"
| "grpc_step env config (RetryTick taken) r =
     (case pending_filters r of
        None \<Rightarrow> (r, Ok ())
      | Some filters \<Rightarrow> (offer env config taken filters r, Ok ()))"
| "grpc_step env config (FilterUpdate filters taken) r =
     (if filter_updates_on r then (offer env config taken filters r, Ok ()) else (r, Ok ()))"
| "grpc_step env config HandlesGone r = (r\<lparr>filter_updates_on := False\<rparr>, Ok ())"
| "grpc_step env config ReceiverGone r = (r\<lparr>grpc_tx := (grpc_tx r)\<lparr>closed := True\<rparr>\<rparr>, Ok ())"

fun grpc_loop ::
  "'f client_env \<Rightarrow> grpc_config \<Rightarrow> 'u grpc_item list \<Rightarrow> ('u, 'f) grpc_run \<Rightarrow> ('u, 'f) grpc_run \<times> source_exit_status option" where
  "grpc_loop env config [] r = (r, Some StreamEnded)"
| "grpc_loop env config (item # items) r =
     (case grpc_step env config item r of
        (r', Ok _) \<Rightarrow> grpc_loop env config items r'
      | (r', Err status) \<Rightarrow> (r', Some status)
      | (r', Panic) \<Rightarrow> (r', None))"

subsection \<open>Connecting\<close>

record ('u, 'f, 'o) grpc_client =
  client_env_of :: "'f client_env"
  client_box :: "prefilter_error \<Rightarrow> 'o"
  client_connect :: "grpc_config \<Rightarrow> reconnect_settings option \<Rightarrow> ('o shipstern_error, unit) outcome"
  client_subscribe :: "'f subscribe_request \<Rightarrow> ('o shipstern_error, 'u grpc_item list) outcome"

definition initial_request :: "'f client_env \<Rightarrow> filters \<Rightarrow> grpc_config \<Rightarrow> 'f subscribe_request" where
  "initial_request env filters config =
     (build_subscribe_request (client_wire env) filters config)\<lparr>req_from_slot := from_slot config\<rparr>"

definition start_run :: "'u runtime_item mpsc \<Rightarrow> ('u, 'f) grpc_run" where
  "start_run tx =
     \<lparr>grpc_tx = tx, pending_filters = None, filter_updates_sent = 0, filter_updates_on = True, requests_taken = []\<rparr>"

definition grpc_connect ::
  "('u, 'f, 'o) grpc_client \<Rightarrow> grpc_config \<Rightarrow> filters \<Rightarrow> 'u runtime_item mpsc \<Rightarrow>
    ('o shipstern_error, ('u, 'f) grpc_run \<times> source_exit_status option) outcome" where
  "grpc_connect client config filters tx =
     (case validate_config config of
        Err e \<Rightarrow> Err (OtherError (client_box client e))
      | Panic \<Rightarrow> Panic
      | Ok _ \<Rightarrow>
          bind_outcome (client_connect client config (reconnect_config (client_retention (client_env_of client)) config)) (\<lambda>_.
          bind_outcome (client_subscribe client (initial_request (client_env_of client) filters config)) (\<lambda>items.
          Ok (grpc_loop (client_env_of client) config items (start_run tx)))))"

subsection \<open>The newest set wins\<close>

text \<open>What a stretch of the run carries: updates, and the filter sets published while handles were left.\<close>

fun carried :: "'u grpc_item list \<Rightarrow> 'u list" where
  "carried [] = []"
| "carried (StreamUpdate u # items) = u # carried items"
| "carried (_ # items) = carried items"

fun published :: "'u grpc_item list \<Rightarrow> filters list" where
  "published [] = []"
| "published (FilterUpdate fs taken # items) = fs # published items"
| "published (HandlesGone # items) = []"
| "published (_ # items) = published items"

definition goes_on :: "'u grpc_item \<Rightarrow> bool" where
  "goes_on item \<longleftrightarrow> (case item of StreamStatus _ \<Rightarrow> False | ReceiverGone \<Rightarrow> False | _ \<Rightarrow> True)"

text \<open>
  How the sets published so far stand: the requests taken are some of them in order; the last one
  is the newest, or is held for a retry.
\<close>

definition standing :: "'f client_env \<Rightarrow> grpc_config \<Rightarrow> filters list \<Rightarrow> ('u, 'f) grpc_run \<Rightarrow> bool" where
  "standing env config ps r \<longleftrightarrow>
     (\<exists>sent. requests_taken r = map (\<lambda>fs. build_subscribe_request (client_wire env) fs config) sent \<and>
        (case pending_filters r of
           Some fs \<Rightarrow> ps \<noteq> [] \<and> fs = last ps \<and> subseq sent (butlast ps)
         | None \<Rightarrow> subseq sent ps \<and> (ps \<noteq> [] \<longrightarrow> sent \<noteq> [] \<and> last sent = last ps)))"

lemma standing_publish:
  assumes "reconnect_config (client_retention env) config \<noteq> None" and "standing env config ps r"
  shows "standing env config (ps @ [fs]) (offer env config taken fs r)"
proof -
  obtain sent where sent: "requests_taken r = map (\<lambda>fs. build_subscribe_request (client_wire env) fs config) sent"
    and sub: "subseq sent ps"
    using assms(2) unfolding standing_def
    by (auto split: option.splits) (metis subseq_order.trans sublist_butlast sublist_imp_subseq)
  have "subseq (sent @ [fs]) (ps @ [fs])" using sub by (rule list_emb_append_mono) simp
  then show ?thesis
    using sent sub assms(1)
    by (cases taken) (auto simp: standing_def offer_def send_or_hold_def intro!: exI [of _ "if taken then sent @ [fs] else sent"])
qed

lemma standing_retry:
  assumes "standing env config ps r" and "pending_filters r = Some fs"
    and "reconnect_config (client_retention env) config \<noteq> None"
  shows "standing env config ps (offer env config taken fs r)"
proof -
  obtain sent where sent: "requests_taken r = map (\<lambda>fs. build_subscribe_request (client_wire env) fs config) sent"
    and ps: "ps \<noteq> []" "fs = last ps" "subseq sent (butlast ps)"
    using assms(1,2) by (auto simp: standing_def)
  have "subseq (sent @ [fs]) (butlast ps @ [last ps])" using ps(2,3) by (intro list_emb_append_mono) simp_all
  with ps(1) have "subseq (sent @ [fs]) ps" by simp
  then show ?thesis
    using sent ps assms(3)
    by (cases taken) (auto simp: standing_def offer_def send_or_hold_def intro!: exI [of _ "if taken then sent @ [fs] else sent"])
qed

lemma offer_frame [simp]:
  "grpc_tx (offer env config taken fs r) = grpc_tx r"
  "filter_updates_on (offer env config taken fs r) = filter_updates_on r"
  by (auto simp: offer_def send_or_hold_def Let_def)

lemma standing_frame:
  "standing env config ps (r\<lparr>grpc_tx := tx\<rparr>) = standing env config ps r"
  "standing env config ps (r\<lparr>filter_updates_on := on\<rparr>) = standing env config ps r"
  by (simp_all add: standing_def)

lemma grpc_step_goes_on:
  assumes "goes_on item" and "\<not> closed (grpc_tx r)" and "standing env config ps r"
    and "reconnect_config (client_retention env) config \<noteq> None"
  shows "\<exists>r'. grpc_step env config item r = (r', Ok ()) \<and> \<not> closed (grpc_tx r') \<and>
    queue (grpc_tx r') = queue (grpc_tx r) @ map Ok (carried [item]) \<and>
    filter_updates_on r' = (filter_updates_on r \<and> item \<noteq> HandlesGone) \<and>
    standing env config (ps @ (if filter_updates_on r then published [item] else [])) r'"
proof (cases item)
  case (StreamUpdate u)
  then show ?thesis using assms(2,3) by (simp add: mpsc_send_def standing_frame)
next
  case (RetryTick taken)
  then show ?thesis using assms(2-4) by (cases "pending_filters r") (auto intro: standing_retry)
next
  case (FilterUpdate fs taken)
  then show ?thesis using assms(2-4) by (auto intro: standing_publish)
next
  case HandlesGone
  then show ?thesis using assms(2,3) by (simp add: standing_frame)
qed (use assms(1) in \<open>simp_all add: goes_on_def\<close>)

lemma carried_append: "carried (xs @ ys) = carried xs @ carried ys"
  by (induction xs rule: carried.induct) auto

lemma grpc_loop_goes_on:
  assumes "reconnect_config (client_retention env) config \<noteq> None"
  shows "\<forall>item\<in>set pre. goes_on item \<Longrightarrow> \<not> closed (grpc_tx r) \<Longrightarrow> standing env config ps r \<Longrightarrow>
    \<exists>r'. grpc_loop env config (pre @ rest) r = grpc_loop env config rest r' \<and> \<not> closed (grpc_tx r') \<and>
      queue (grpc_tx r') = queue (grpc_tx r) @ map Ok (carried pre) \<and>
      standing env config (ps @ (if filter_updates_on r then published pre else [])) r'"
proof (induction pre arbitrary: r ps)
  case (Cons item pre)
  obtain r1 where step: "grpc_step env config item r = (r1, Ok ())" "\<not> closed (grpc_tx r1)"
    "queue (grpc_tx r1) = queue (grpc_tx r) @ map Ok (carried [item])"
    "filter_updates_on r1 = (filter_updates_on r \<and> item \<noteq> HandlesGone)"
    "standing env config (ps @ (if filter_updates_on r then published [item] else [])) r1"
    using grpc_step_goes_on [of item r env config ps] Cons.prems assms by auto
  from Cons.IH [OF _ step(2,5)] Cons.prems(1) obtain r' where
    r': "grpc_loop env config (pre @ rest) r1 = grpc_loop env config rest r'" "\<not> closed (grpc_tx r')"
      "queue (grpc_tx r') = queue (grpc_tx r1) @ map Ok (carried pre)"
      "standing env config ((ps @ (if filter_updates_on r then published [item] else [])) @
        (if filter_updates_on r1 then published pre else [])) r'" by auto
  moreover have "published (item # pre) = published [item] @ (if item = HandlesGone then [] else published pre)"
    by (cases item) auto
  ultimately show ?case using step carried_append [of "[item]" pre]
    by (intro exI [of _ r']) (auto split: if_splits)
qed auto

text \<open>
  C34. A filter set a handle publishes reaches the server: while the client reconnects and the runtime
  listens, every update of the stream is passed on in order, the requests the sink takes are
  published sets in their order, each at most once, and at the end of the stream the newest
  published set is the last request taken or is still held for a retry; a status that ends
  the stream is passed on after the updates.
\<close>

theorem newest_filters_win:
  assumes "reconnect_config (client_retention (client_env_of client)) config \<noteq> None"
    and "validate_config config = Ok ()"
    and "client_connect client config (reconnect_config (client_retention (client_env_of client)) config) = Ok ()"
    and "client_subscribe client (initial_request (client_env_of client) fs config) = Ok (pre @ rest)"
    and "\<forall>item\<in>set pre. goes_on item" and "rest = [] \<or> (\<exists>st items. rest = StreamStatus st # items)"
  shows "\<exists>r status. grpc_connect client config fs \<lparr>queue = [], closed = False\<rparr> = Ok (r, Some status) \<and>
    queue (grpc_tx r) = map Ok (carried pre) @ (case rest of StreamStatus st # _ \<Rightarrow> [Err st] | _ \<Rightarrow> []) \<and>
    status = (case rest of StreamStatus st # _ \<Rightarrow> StreamError (status_code st) (status_message st) | _ \<Rightarrow> StreamEnded) \<and>
    standing (client_env_of client) config (published pre) r"
proof -
  let ?r = "start_run \<lparr>queue = [], closed = False\<rparr>"
  have "standing (client_env_of client) config [] ?r" by (simp add: standing_def start_run_def)
  from grpc_loop_goes_on [OF assms(1,5) _ this, of rest] obtain r' where
    r': "grpc_loop (client_env_of client) config (pre @ rest) ?r = grpc_loop (client_env_of client) config rest r'"
      "\<not> closed (grpc_tx r')" "queue (grpc_tx r') = map Ok (carried pre)" "standing (client_env_of client) config (published pre) r'"
    by (auto simp: start_run_def)
  show ?thesis
    using assms(2-4,6) r' by (auto simp: grpc_connect_def mpsc_send_def standing_frame)
qed

text \<open>Two sets are published, the second is rejected twice and taken by the second retry.\<close>

definition demo_grpc_config :: grpc_config where
  "demo_grpc_config =
     \<lparr>endpoint = ''e'', x_token = None, connect_timeout = 120, commitment = Some Confirmed, from_slot = Some 9, data_slices = [],
      max_decoding_message_size = None, accept_compression = None, auto_reconnect = True, reconnect_max_retries = None,
      reconnect_slot_retention = None\<rparr>"

definition demo_client :: "'u grpc_item list \<Rightarrow> ('u, pubkey list, nat) grpc_client" where
  "demo_client items =
     \<lparr>client_env_of = \<lparr>client_wire = demo_env, client_retention = 100\<rparr>, client_box = (\<lambda>_. 0),
      client_connect = (\<lambda>_ _. Ok ()), client_subscribe = (\<lambda>_. Ok items)\<rparr>"

definition demo_items :: "nat grpc_item list" where
  "demo_items = [StreamUpdate 1, FilterUpdate [''P'' \<mapsto> default_prefilter] True, FilterUpdate Map.empty False, StreamUpdate 2,
     RetryTick False, RetryTick True]"

theorem newest_filters_win_witness:
  "\<exists>r. grpc_connect (demo_client (demo_items @ [StreamStatus \<lparr>status_code = Unavailable, status_message = ''gone''\<rparr>])) demo_grpc_config
      Map.empty \<lparr>queue = [], closed = False\<rparr> = Ok (r, Some (StreamError Unavailable ''gone'')) \<and>
    queue (grpc_tx r) = [Ok 1, Ok 2, Err \<lparr>status_code = Unavailable, status_message = ''gone''\<rparr>] \<and>
    standing \<lparr>client_wire = demo_env, client_retention = 100\<rparr> demo_grpc_config [[''P'' \<mapsto> default_prefilter], Map.empty] r"
proof -
  let ?st = "\<lparr>status_code = Unavailable, status_message = ''gone''\<rparr>"
  have reconnects: "reconnect_config n demo_grpc_config \<noteq> None" for n
    by (simp add: reconnect_config_def demo_grpc_config_def DEFAULT_RECONNECT_MAX_RETRIES_def Let_def)
  have "validate_config demo_grpc_config = Ok ()"
    by (simp add: validate_config_def slice_validate_all_def demo_grpc_config_def)
  moreover have "\<forall>item\<in>set demo_items. goes_on item" by (simp add: demo_items_def goes_on_def)
  ultimately show ?thesis
    using newest_filters_win [of "demo_client (demo_items @ [StreamStatus ?st])" demo_grpc_config Map.empty demo_items "[StreamStatus ?st]"] reconnects
    by (simp add: demo_client_def demo_items_def)
qed

end
