(* ===== verification/Jetstream_Convert.thy ===== *)
theory Jetstream_Convert
  imports Preconf_Convert
begin

text \<open>
  From the archive's blocks and transactions to the proto shape the runtime reads (module
  \<open>convert\<close> of \<open>crates/jetstreamer-source/src/lib.rs\<close>). The types of the Solana packages are
  data with their public fields; the serialised form of a transaction error and the floating
  point amount of a token balance are type parameters or arguments. Proto values that the
  instruction builder only passes on are \<open>jet_value\<close>s.
\<close>

subsection \<open>The archive's data\<close>

datatype reward_type = Fee | Rent | Staking | Voting | DeactivatedStake

datatype proto_reward_type =
    ProtoUnspecified | ProtoFee | ProtoRent | ProtoStaking | ProtoVoting | ProtoDeactivatedStake

record reward_info =
  ri_reward_type :: reward_type
  ri_lamports :: int
  ri_post_balance :: u64
  ri_commission_bps :: "nat option"

record keyed_rewards_data =
  kr_keyed_rewards :: "(pubkey \<times> reward_info) list"
  kr_num_partitions :: "u64 option"

record entry_data =
  ed_slot :: u64
  ed_entry_index :: nat
  ed_num_hashes :: u64
  ed_hash :: bytes
  ed_transaction_start :: nat
  ed_transaction_end :: nat

record 'n sol_token_balance =
  tb_account_index :: u8
  tb_mint :: string
  tb_ui_amount :: "'n option"
  tb_decimals :: u8
  tb_amount :: string
  tb_ui_amount_string :: string
  tb_owner :: string
  tb_program_id :: string

record sol_reward =
  sr_pubkey :: string
  sr_lamports :: int
  sr_post_balance :: u64
  sr_reward_type :: "reward_type option"
  sr_commission :: "nat option"
  sr_commission_bps :: "nat option"

record ('e, 'n) sol_status_meta =
  sm_error :: "'e option"
  sm_fee :: u64
  sm_pre_balances :: "u64 list"
  sm_post_balances :: "u64 list"
  sm_inner_instructions :: "(u8 \<times> (sol_instruction \<times> u32 option) list) list option"
  sm_log_messages :: "string list option"
  sm_pre_token_balances :: "'n sol_token_balance list option"
  sm_post_token_balances :: "'n sol_token_balance list option"
  sm_rewards :: "sol_reward list option"
  sm_loaded_writable :: "pubkey list"
  sm_loaded_readonly :: "pubkey list"
  sm_return_data :: "(pubkey \<times> bytes) option"
  sm_compute_units_consumed :: "u64 option"

subsection \<open>Conversion\<close>

datatype 'n jet_value =
    JetProto proto_value
  | JetTokenBalance u32 string 'n u32 string string string string
  | JetReward string int u64 proto_reward_type string string
  | JetReturnData bytes bytes

record proto_reward =
  pr_pubkey :: string
  pr_lamports :: int
  pr_post_balance :: u64
  pr_reward_type :: proto_reward_type
  pr_commission :: string
  pr_commission_bps :: string

record proto_entry =
  pe_slot :: u64
  pe_index :: u64
  pe_num_hashes :: u64
  pe_hash :: bytes
  pe_executed_transaction_count :: u64
  pe_starting_transaction_index :: u64

definition jet_entries :: "entry_data list \<Rightarrow> proto_entry list" where
  "jet_entries buffered =
     map (\<lambda>e. \<lparr>pe_slot = ed_slot e, pe_index = of_nat (ed_entry_index e), pe_num_hashes = ed_num_hashes e, pe_hash = ed_hash e,
                pe_executed_transaction_count = of_nat (ed_transaction_end e) - of_nat (ed_transaction_start e),
                pe_starting_transaction_index = of_nat (ed_transaction_start e)\<rparr>) buffered"

fun proto_reward_type_of :: "reward_type \<Rightarrow> proto_reward_type" where
  "proto_reward_type_of Fee = ProtoFee"
| "proto_reward_type_of Rent = ProtoRent"
| "proto_reward_type_of Staking = ProtoStaking"
| "proto_reward_type_of Voting = ProtoVoting"
| "proto_reward_type_of DeactivatedStake = ProtoDeactivatedStake"

text \<open>The text of a key is an argument (base58).\<close>

definition jet_keyed_rewards ::
  "(pubkey \<Rightarrow> string) \<Rightarrow> keyed_rewards_data \<Rightarrow> proto_reward list \<times> u64 option" where
  "jet_keyed_rewards text keyed =
     (map (\<lambda>(address, info).
        \<lparr>pr_pubkey = text address, pr_lamports = ri_lamports info, pr_post_balance = ri_post_balance info,
         pr_reward_type = proto_reward_type_of (ri_reward_type info),
         pr_commission =
           (case ri_commission_bps info of
              Some bps \<Rightarrow> if bps mod 100 = 0 then decimal (bps div 100) else [] | None \<Rightarrow> []),
         pr_commission_bps = (case ri_commission_bps info of Some bps \<Rightarrow> decimal bps | None \<Rightarrow> [])\<rparr>) (kr_keyed_rewards keyed),
      kr_num_partitions keyed)"

fun jet_parts_of :: "versioned_message \<Rightarrow> message_parts" where
  "jet_parts_of (Legacy msg) =
     \<lparr>mp_header = sm_header msg, mp_account_keys = sm_account_keys msg, mp_lifetime = sm_lifetime msg,
      mp_instructions = sm_instructions msg, mp_versioned = False, mp_address_table_lookups = [], mp_config = None\<rparr>"
| "jet_parts_of (V0 msg lookups) =
     \<lparr>mp_header = sm_header msg, mp_account_keys = sm_account_keys msg, mp_lifetime = sm_lifetime msg,
      mp_instructions = sm_instructions msg, mp_versioned = True,
      mp_address_table_lookups =
        map (\<lambda>l. ProtoLookup (tl_account_key l) (tl_writable_indexes l) (tl_readonly_indexes l)) lookups,
      mp_config = None\<rparr>"
| "jet_parts_of (V1 msg config) =
     \<lparr>mp_header = sm_header msg, mp_account_keys = sm_account_keys msg, mp_lifetime = sm_lifetime msg,
      mp_instructions = sm_instructions msg, mp_versioned = True, mp_address_table_lookups = [],
      mp_config = Some (ProtoConfig (v1_priority_fee config) (v1_compute_unit_limit config)
        (v1_loaded_accounts_data_size_limit config) (v1_heap_size config))\<rparr>"

definition jet_transaction :: "versioned_transaction \<Rightarrow> 'n jet_value proto_transaction" where
  "jet_transaction tx =
     (let parts = jet_parts_of (vt_message tx)
      in \<lparr>pt_signatures = vt_signatures tx,
          pt_message = Some
            \<lparr>msg_header = Some (JetProto (ProtoHeader
               (ucast (num_required_signatures (mp_header parts)))
               (ucast (num_readonly_signed_accounts (mp_header parts)))
               (ucast (num_readonly_unsigned_accounts (mp_header parts))))),
             msg_account_keys = mp_account_keys parts,
             msg_recent_blockhash = mp_lifetime parts,
             msg_instructions =
               map (\<lambda>ix. \<lparr>ci_program_id_index = ucast (si_program_id_index ix),
                           ci_accounts = si_accounts ix, ci_data = si_data ix\<rparr>) (mp_instructions parts),
             msg_versioned = mp_versioned parts,
             msg_address_table_lookups = map JetProto (mp_address_table_lookups parts),
             msg_config = map_option JetProto (mp_config parts)\<rparr>\<rparr>)"

definition convert_token_balance :: "'n \<Rightarrow> 'n sol_token_balance \<Rightarrow> 'n jet_value" where
  "convert_token_balance zero tb =
     JetTokenBalance (ucast (tb_account_index tb)) (tb_mint tb) (unwrap_or (tb_ui_amount tb) zero) (ucast (tb_decimals tb))
       (tb_amount tb) (tb_ui_amount_string tb) (tb_owner tb) (tb_program_id tb)"

text \<open>\<open>serialize\<close> gives the bytes of an error, or fails.\<close>

definition jet_status_meta :: "('e \<Rightarrow> bytes option) \<Rightarrow> 'n \<Rightarrow> ('e, 'n) sol_status_meta \<Rightarrow> 'n jet_value transaction_status_meta" where
  "jet_status_meta serialize zero meta =
     \<lparr>meta_err = map_option (\<lambda>e. JetProto (ProtoError (unwrap_or (serialize e) []))) (sm_error meta),
      meta_fee = sm_fee meta, meta_pre_balances = sm_pre_balances meta, meta_post_balances = sm_post_balances meta,
      meta_inner_instructions =
        map (\<lambda>(index, ixs). \<lparr>iis_index = ucast index, iis_instructions =
          map (\<lambda>(ix, height). \<lparr>ii_program_id_index = ucast (si_program_id_index ix), ii_accounts = si_accounts ix,
                                 ii_data = si_data ix, ii_stack_height = height\<rparr>) ixs\<rparr>)
          (unwrap_or (sm_inner_instructions meta) []),
      meta_inner_instructions_none = (sm_inner_instructions meta = None),
      meta_log_messages = unwrap_or (sm_log_messages meta) [],
      meta_log_messages_none = (sm_log_messages meta = None),
      meta_pre_token_balances = map (convert_token_balance zero) (unwrap_or (sm_pre_token_balances meta) []),
      meta_post_token_balances = map (convert_token_balance zero) (unwrap_or (sm_post_token_balances meta) []),
      meta_rewards =
        map (\<lambda>r. JetReward (sr_pubkey r) (sr_lamports r) (sr_post_balance r)
          (case sr_reward_type r of Some t \<Rightarrow> proto_reward_type_of t | None \<Rightarrow> ProtoUnspecified)
          (case sr_commission r of Some c \<Rightarrow> decimal c | None \<Rightarrow> [])
          (case sr_commission_bps r of Some bps \<Rightarrow> decimal bps | None \<Rightarrow> [])) (unwrap_or (sm_rewards meta) []),
      meta_loaded_writable_addresses = sm_loaded_writable meta,
      meta_loaded_readonly_addresses = sm_loaded_readonly meta,
      meta_return_data = map_option (\<lambda>(program, data). JetReturnData program data) (sm_return_data meta),
      meta_return_data_none = (sm_return_data meta = None),
      meta_compute_units_consumed = sm_compute_units_consumed meta,
      meta_cost_units = None\<rparr>"

subsection \<open>One conversion in two sources\<close>

text \<open>A proto message with its opaque values renamed.\<close>

definition map_message :: "('x \<Rightarrow> 'y) \<Rightarrow> 'x message \<Rightarrow> 'y message" where
  "map_message f m =
     \<lparr>msg_header = map_option f (msg_header m), msg_account_keys = msg_account_keys m,
      msg_recent_blockhash = msg_recent_blockhash m, msg_instructions = msg_instructions m,
      msg_versioned = msg_versioned m, msg_address_table_lookups = map f (msg_address_table_lookups m),
      msg_config = map_option f (msg_config m)\<rparr>"

text \<open>
  The archive and the preconfirmation feed hand the runtime the same proto message for the same
  transaction, in all three message versions: the two converters agree, and so none of them
  loses anything.
\<close>

theorem converters_agree:
  "pt_signatures (jet_transaction tx) = pt_signatures (convert_transaction tx) \<and>
   pt_message (jet_transaction tx) = map_option (map_message JetProto) (pt_message (convert_transaction tx)) \<and>
   inj (jet_transaction :: versioned_transaction \<Rightarrow> 'n jet_value proto_transaction)"
proof -
  have parts: "jet_parts_of m = parts_of m" for m by (cases m) simp_all
  have agree: "pt_signatures (jet_transaction t :: 'n jet_value proto_transaction) = pt_signatures (convert_transaction t)"
    "pt_message (jet_transaction t :: 'n jet_value proto_transaction) = map_option (map_message JetProto) (pt_message (convert_transaction t))" for t
    by (simp_all add: jet_transaction_def convert_transaction_def map_message_def parts Let_def)
  have "inj (map_message (JetProto :: proto_value \<Rightarrow> 'n jet_value))"
    by (rule injI) (auto simp: map_message_def intro!: message.equality
      dest: option.inj_map_strong [rotated] map_injective [OF _ injI])
  then have message: "inj (map_option (map_message (JetProto :: proto_value \<Rightarrow> 'n jet_value)))" by (rule option.inj_map)
  have "inj (jet_transaction :: versioned_transaction \<Rightarrow> 'n jet_value proto_transaction)"
  proof (rule injI)
    fix x y assume "(jet_transaction x :: 'n jet_value proto_transaction) = jet_transaction y"
    then have "convert_transaction x = convert_transaction y"
      using agree [of x] agree [of y] injD [OF message] by (intro proto_transaction.equality) auto
    then show "x = y" using convert_transaction_inj by (auto dest: injD)
  qed
  with agree show ?thesis
    by (simp add: jet_transaction_def convert_transaction_def map_message_def parts Let_def)
qed

end
