(* ===== verification/Jetstream_Source.thy ===== *)
theory Jetstream_Source
  imports Jetstream_Convert Runtime_Builder
begin

text \<open>
  The archive replay source (\<open>crates/jetstreamer-source/src/lib.rs\<close>): its configuration, the handler
  that turns the archive's entries, blocks and transactions into updates addressed to the parsers
  that asked for them, and the replay. The archive reader (\<open>firehose\<close>) is code of another package:
  the callbacks it makes and its result are arguments. The order in which a \<open>HashMap\<close> lists its keys
  is an argument too; the time stamp of an update is left out.
\<close>

subsection \<open>Errors\<close>

datatype jet_error =
    PluginExecution string
  | DataConversion string
  | ChannelSend string
  | ThreadJoin string
  | InvalidConfig string
  | SlotRangeResolution string
  | JetIo string
  | Jetstreamer string
  | EnvMismatch string
  | EntryBufferPoisoned string

text \<open>An I/O error passes as it is, everything else is wrapped into one; \<open>show\<close> is its text.\<close>

definition jet_into_shipstern :: "(jet_error \<Rightarrow> string) \<Rightarrow> jet_error \<Rightarrow> 'o shipstern_error" where
  "jet_into_shipstern text e = (case e of JetIo m \<Rightarrow> IoError m | other \<Rightarrow> IoError (text other))"

subsection \<open>The process environment\<close>

record process_env_config =
  pe_network :: string
  pe_compact_index_base_url :: string
  pe_network_capacity_mb :: string

record slot_range_config =
  slot_start :: "u64 option"
  slot_end :: "u64 option"
  epoch :: "u64 option"

record jetstream_config =
  jc_range :: slot_range_config
  jc_threads :: nat
  jc_network :: string
  jc_compact_index_base_url :: string
  jc_network_capacity_mb :: nat
  jc_sequential :: bool
  jc_reverse :: bool
  jc_buffer_window_bytes :: "u64 option"
  jc_stats_interval_slots :: u64

definition env_from_config :: "jetstream_config \<Rightarrow> process_env_config" where
  "env_from_config config =
     \<lparr>pe_network = jc_network config, pe_compact_index_base_url = jc_compact_index_base_url config,
      pe_network_capacity_mb = decimal (jc_network_capacity_mb config)\<rparr>"

text \<open>The environment's variables; one that is not set reads as the empty string.\<close>

definition env_from_process :: "(string \<rightharpoonup> string) \<Rightarrow> process_env_config" where
  "env_from_process env =
     \<lparr>pe_network = unwrap_or (env ''JETSTREAMER_NETWORK'') [],
      pe_compact_index_base_url = unwrap_or (env ''JETSTREAMER_COMPACT_INDEX_BASE_URL'') [],
      pe_network_capacity_mb = unwrap_or (env ''JETSTREAMER_NETWORK_CAPACITY_MB'') []\<rparr>"

definition env_apply :: "process_env_config \<Rightarrow> (string \<rightharpoonup> string) \<Rightarrow> string \<rightharpoonup> string" where
  "env_apply c env =
     env(''JETSTREAMER_NETWORK'' \<mapsto> pe_network c,
         ''JETSTREAMER_COMPACT_INDEX_BASE_URL'' \<mapsto> pe_compact_index_base_url c,
         ''JETSTREAMER_NETWORK_CAPACITY_MB'' \<mapsto> pe_network_capacity_mb c)"

definition init_process_env :: "jetstream_config \<Rightarrow> (string \<rightharpoonup> string) \<Rightarrow> string \<rightharpoonup> string" where
  "init_process_env config env = env_apply (env_from_config config) env"

text \<open>The quoted form (\<open>{:?}\<close>) of a string is an argument.\<close>

definition mismatch :: "(string \<Rightarrow> string) \<Rightarrow> string \<Rightarrow> string \<Rightarrow> string \<Rightarrow> string list" where
  "mismatch quote name expected actual =
     (if expected \<noteq> actual then [name @ '': expected '' @ quote expected @ '', got '' @ quote actual] else [])"

definition validate_matches ::
  "(string \<Rightarrow> string) \<Rightarrow> process_env_config \<Rightarrow> process_env_config \<Rightarrow> (jet_error, unit) outcome" where
  "validate_matches quote expected actual =
     (let mismatches =
        mismatch quote ''JETSTREAMER_NETWORK'' (pe_network expected) (pe_network actual) @
        mismatch quote ''JETSTREAMER_COMPACT_INDEX_BASE_URL'' (pe_compact_index_base_url expected) (pe_compact_index_base_url actual) @
        mismatch quote ''JETSTREAMER_NETWORK_CAPACITY_MB'' (pe_network_capacity_mb expected) (pe_network_capacity_mb actual)
      in if mismatches = [] then Ok () else Err (EnvMismatch (join_with ''; '' mismatches)))"

subsection \<open>Slot ranges and windows\<close>

definition SLOTS_PER_EPOCH :: u64 where "SLOTS_PER_EPOCH = 432000"

text \<open>In a release build \<open>u64\<close> arithmetic wraps; a build with overflow checks panics there.\<close>

definition to_slot_range :: "slot_range_config \<Rightarrow> (jet_error, u64 \<times> u64) outcome" where
  "to_slot_range c =
     (case (slot_start c, slot_end c, epoch c) of
        (Some start, Some stop, None) \<Rightarrow>
          if start \<ge> stop then Err (InvalidConfig ''slot_start must be < slot_end (slot_end is exclusive)'')
          else Ok (start, stop)
      | (None, None, Some ep) \<Rightarrow> Ok (ep * SLOTS_PER_EPOCH, (ep + 1) * SLOTS_PER_EPOCH)
      | _ \<Rightarrow> Err (InvalidConfig ''Must specify either (slot_start + slot_end) or epoch, not both''))"

definition DEFAULT_SEQUENTIAL_BUFFER_WINDOW_BYTES :: u64 where
  "DEFAULT_SEQUENTIAL_BUFFER_WINDOW_BYTES = 256 * 1024 * 1024"

definition effective_buffer_window_bytes :: "bool \<Rightarrow> bool \<Rightarrow> u64 option \<Rightarrow> u64 option" where
  "effective_buffer_window_bytes seq rv configured =
     (case configured of
        Some w \<Rightarrow> Some w
      | None \<Rightarrow> then_some (seq \<or> rv) DEFAULT_SEQUENTIAL_BUFFER_WINDOW_BYTES)"

subsection \<open>Filters by kind\<close>

record filter_matches =
  fm_block :: "string list"
  fm_block_meta :: "string list"
  fm_slot :: "string list"
  fm_transaction :: "string list"
  fm_wants_entries :: bool

definition match_filter :: "filters \<Rightarrow> string \<Rightarrow> filter_matches \<Rightarrow> filter_matches" where
  "match_filter fs pid m =
     (case fs pid of
        None \<Rightarrow> m
      | Some prefilter \<Rightarrow>
          let m = (case pf_block prefilter of
                     Some b \<Rightarrow>
                       if bp_include_transactions b \<or> bp_include_accounts b \<or> bp_include_entries b
                       then m\<lparr>fm_block := fm_block m @ [pid], fm_wants_entries := (fm_wants_entries m \<or> bp_include_entries b)\<rparr>
                       else m
                   | None \<Rightarrow> m);
              m = (if pf_block_meta prefilter \<noteq> None then m\<lparr>fm_block_meta := fm_block_meta m @ [pid]\<rparr> else m);
              m = (if pf_slot prefilter \<noteq> None then m\<lparr>fm_slot := fm_slot m @ [pid]\<rparr> else m)
          in if pf_transaction prefilter \<noteq> None then m\<lparr>fm_transaction := fm_transaction m @ [pid]\<rparr> else m)"

definition precalculate_filters :: "(string set \<Rightarrow> string list) \<Rightarrow> filters \<Rightarrow> filter_matches" where
  "precalculate_filters list_ids fs =
     fold (match_filter fs) (list_ids (dom fs))
       \<lparr>fm_block = [], fm_block_meta = [], fm_slot = [], fm_transaction = [], fm_wants_entries = False\<rparr>"

subsection \<open>The handler\<close>

record jet_block =
  jb_slot :: u64
  jb_blockhash :: string
  jb_rewards :: "proto_reward list \<times> u64 option"
  jb_block_time :: "int option"
  jb_block_height :: "u64 option"
  jb_executed_transaction_count :: u64
  jb_entries :: "proto_entry list"
  jb_entries_count :: u64
  jb_parent_slot :: u64
  jb_parent_blockhash :: string

record jet_block_meta =
  jm_slot :: u64
  jm_blockhash :: string
  jm_rewards :: "proto_reward list \<times> u64 option"
  jm_block_time :: "int option"
  jm_block_height :: "u64 option"
  jm_parent_slot :: u64
  jm_parent_blockhash :: string
  jm_executed_transaction_count :: u64
  jm_entries_count :: u64

type_synonym 'n jet_update = "(unit, 'n jet_value, jet_block_meta, jet_block, slot_status_update) runtime_update"

record 'n jet_handler =
  jh_tx :: "'n jet_update runtime_item mpsc"
  jh_skipped_slots_tx :: "u64 mpsc option"
  jh_matches :: filter_matches
  jh_entry_buffer :: "u64 \<rightharpoonup> entry_data list"
  jh_poisoned :: bool

definition new_jet_handler ::
  "(string set \<Rightarrow> string list) \<Rightarrow> 'n jet_update runtime_item mpsc \<Rightarrow> u64 mpsc option \<Rightarrow> filters \<Rightarrow> 'n jet_handler" where
  "new_jet_handler list_ids tx skipped fs =
     \<lparr>jh_tx = tx, jh_skipped_slots_tx = skipped, jh_matches = precalculate_filters list_ids fs,
      jh_entry_buffer = Map.empty, jh_poisoned = False\<rparr>"

definition jet_send ::
  "string list \<Rightarrow> (unit, 'n jet_value, jet_block_meta, jet_block, slot_status_update) runtime_oneof \<Rightarrow> 'n jet_handler \<Rightarrow>
    'n jet_handler \<times> (jet_error, unit) outcome" where
  "jet_send filters u h =
     (case mpsc_send (Ok \<lparr>update_filters_named = filters, update_kind = Some u\<rparr>) (jh_tx h) of
        (tx, Ok _) \<Rightarrow> (h\<lparr>jh_tx := tx\<rparr>, Ok ())
      | (tx, _) \<Rightarrow> (h\<lparr>jh_tx := tx\<rparr>, Err (ChannelSend ''Failed to send update: channel closed'')))"

definition lock_entry_buffer :: "'n jet_handler \<Rightarrow> (jet_error, u64 \<rightharpoonup> entry_data list) outcome" where
  "lock_entry_buffer h =
     (if jh_poisoned h then Err (EntryBufferPoisoned ''poisoned lock: another task failed inside'') else Ok (jh_entry_buffer h))"

definition process_entry :: "entry_data \<Rightarrow> 'n jet_handler \<Rightarrow> 'n jet_handler \<times> (jet_error, unit) outcome" where
  "process_entry entry h =
     (if \<not> fm_wants_entries (jh_matches h) then (h, Ok ())
      else
        (case lock_entry_buffer h of
           Ok buf \<Rightarrow> (h\<lparr>jh_entry_buffer := buf(ed_slot entry \<mapsto> unwrap_or (buf (ed_slot entry)) [] @ [entry])\<rparr>, Ok ())
         | Err e \<Rightarrow> (h, Err e)
         | Panic \<Rightarrow> (h, Panic)))"

record archive_block =
  ab_parent_slot :: u64
  ab_parent_blockhash :: bytes
  ab_slot :: u64
  ab_blockhash :: bytes
  ab_rewards :: keyed_rewards_data
  ab_block_time :: "int option"
  ab_block_height :: "u64 option"
  ab_executed_transaction_count :: u64
  ab_entry_count :: u64

datatype block_data = ArchiveBlock archive_block | PossibleLeaderSkipped u64

text \<open>The entries of the block's slot leave the buffer.\<close>

definition drain_entries :: "u64 \<Rightarrow> 'n jet_handler \<Rightarrow> 'n jet_handler \<times> (jet_error, entry_data list) outcome" where
  "drain_entries slot h =
     (if fm_wants_entries (jh_matches h)
      then
        (case lock_entry_buffer h of
           Ok buf \<Rightarrow> (h\<lparr>jh_entry_buffer := buf(slot := None)\<rparr>, Ok (unwrap_or (buf slot) []))
         | Err e \<Rightarrow> (h, Err e)
         | Panic \<Rightarrow> (h, Panic))
      else (h, Ok []))"

definition block_update :: "(bytes \<Rightarrow> string) \<Rightarrow> entry_data list \<Rightarrow> archive_block \<Rightarrow> jet_block" where
  "block_update text buffered b =
     \<lparr>jb_slot = ab_slot b, jb_blockhash = text (ab_blockhash b), jb_rewards = jet_keyed_rewards text (ab_rewards b),
      jb_block_time = ab_block_time b, jb_block_height = ab_block_height b,
      jb_executed_transaction_count = ab_executed_transaction_count b, jb_entries = jet_entries buffered,
      jb_entries_count = ab_entry_count b, jb_parent_slot = ab_parent_slot b,
      jb_parent_blockhash = text (ab_parent_blockhash b)\<rparr>"

definition block_meta_update :: "(bytes \<Rightarrow> string) \<Rightarrow> archive_block \<Rightarrow> jet_block_meta" where
  "block_meta_update text b =
     \<lparr>jm_slot = ab_slot b, jm_blockhash = text (ab_blockhash b), jm_rewards = jet_keyed_rewards text (ab_rewards b),
      jm_block_time = ab_block_time b, jm_block_height = ab_block_height b, jm_parent_slot = ab_parent_slot b,
      jm_parent_blockhash = text (ab_parent_blockhash b),
      jm_executed_transaction_count = ab_executed_transaction_count b, jm_entries_count = ab_entry_count b\<rparr>"

definition slot_update :: "archive_block \<Rightarrow> slot_status_update" where
  "slot_update b =
     \<lparr>su_slot = ab_slot b, su_parent = Some (ab_parent_slot b), su_status = ProtoSlotFinalized, su_dead_error = None\<rparr>"

text \<open>A send to the parsers of one kind, left out when there are none.\<close>

definition send_matching ::
  "string list \<Rightarrow> (unit, 'n jet_value, jet_block_meta, jet_block, slot_status_update) runtime_oneof \<Rightarrow> 'n jet_handler \<Rightarrow>
    'n jet_handler \<times> (jet_error, unit) outcome" where
  "send_matching filters u h = (if filters = [] then (h, Ok ()) else jet_send filters u h)"

fun process_block ::
  "(bytes \<Rightarrow> string) \<Rightarrow> block_data \<Rightarrow> 'n jet_handler \<Rightarrow> 'n jet_handler \<times> (jet_error, unit) outcome" where
  "process_block text (ArchiveBlock b) h =
     (case drain_entries (ab_slot b) h of
        (h, Err e) \<Rightarrow> (h, Err e)
      | (h, Panic) \<Rightarrow> (h, Panic)
      | (h, Ok buffered) \<Rightarrow>
          if fm_block (jh_matches h) = [] \<and> fm_block_meta (jh_matches h) = [] \<and> fm_slot (jh_matches h) = []
          then (h, Ok ())
          else
            then_run
              (then_run (send_matching (fm_block (jh_matches h)) (BlockUpdate (block_update text buffered b)) h)
                (\<lambda>h. send_matching (fm_block_meta (jh_matches h)) (BlockMetaUpdate (block_meta_update text b)) h))
              (\<lambda>h. send_matching (fm_slot (jh_matches h)) (SlotUpdate (slot_update b)) h))"
| "process_block text (PossibleLeaderSkipped slot) h =
     (case jh_skipped_slots_tx h of
        None \<Rightarrow> (h, Ok ())
      | Some skipped \<Rightarrow>
          (case mpsc_send slot skipped of
             (tx, Ok _) \<Rightarrow> (h\<lparr>jh_skipped_slots_tx := Some tx\<rparr>, Ok ())
           | (tx, _) \<Rightarrow> (h, Err (ChannelSend ''Failed to send possible leader-skipped slot: channel closed''))))"

record ('e, 'n) transaction_data =
  td_slot :: u64
  td_signature :: bytes
  td_is_vote :: bool
  td_transaction :: versioned_transaction
  td_status_meta :: "('e, 'n) sol_status_meta"
  td_transaction_slot_index :: nat

definition process_transaction ::
  "('e \<Rightarrow> bytes option) \<Rightarrow> 'n \<Rightarrow> ('e, 'n) transaction_data \<Rightarrow> 'n jet_handler \<Rightarrow> 'n jet_handler \<times> (jet_error, unit) outcome" where
  "process_transaction serialize zero tx_data h =
     (if fm_transaction (jh_matches h) = [] then (h, Ok ())
      else
        jet_send (fm_transaction (jh_matches h))
          (TransactionUpdate
            \<lparr>txn_transaction = Some
               \<lparr>info_signature = td_signature tx_data, info_is_vote = td_is_vote tx_data,
                info_transaction = Some (jet_transaction (td_transaction tx_data)),
                info_meta = Some (jet_status_meta serialize zero (td_status_meta tx_data)),
                info_index = of_nat (td_transaction_slot_index tx_data)\<rparr>,
             txn_slot = td_slot tx_data\<rparr>) h)"

subsection \<open>The replay\<close>

datatype ('e, 'n) firehose_call =
    OnEntry entry_data
  | OnBlock block_data
  | OnTransaction "('e, 'n) transaction_data"
  | JetReceiverGone

record 'e jet_texts =
  jt_key :: "bytes \<Rightarrow> string"
  jt_serialize :: "'e \<Rightarrow> bytes option"
  jt_quote :: "string \<Rightarrow> string"
  jt_range_error :: "slot_range_config \<Rightarrow> jet_error \<Rightarrow> string"
  jt_error :: "jet_error \<Rightarrow> string"

fun firehose_callback ::
  "'e jet_texts \<Rightarrow> 'n \<Rightarrow> ('e, 'n) firehose_call \<Rightarrow> 'n jet_handler \<Rightarrow> 'n jet_handler \<times> (jet_error, unit) outcome" where
  "firehose_callback texts zero (OnEntry e) h = process_entry e h"
| "firehose_callback texts zero (OnBlock b) h = process_block (jt_key texts) b h"
| "firehose_callback texts zero (OnTransaction t) h = process_transaction (jt_serialize texts) zero t h"
| "firehose_callback texts zero JetReceiverGone h = (h\<lparr>jh_tx := (jh_tx h)\<lparr>closed := True\<rparr>\<rparr>, Ok ())"

definition run_callbacks :: "'e jet_texts \<Rightarrow> 'n \<Rightarrow> ('e, 'n) firehose_call list \<Rightarrow> 'n jet_handler \<Rightarrow> 'n jet_handler" where
  "run_callbacks texts zero calls h = fold (\<lambda>call h. fst (firehose_callback texts zero call h)) calls h"

text \<open>
  The reader: from threads, mode, window, range, whether entries are asked for and the interval of
  statistics to the callbacks it made and how it ended (an error's text and slot).
\<close>

type_synonym ('e, 'n) firehose =
  "nat \<Rightarrow> bool \<Rightarrow> bool \<Rightarrow> u64 option \<Rightarrow> u64 \<times> u64 \<Rightarrow> bool \<Rightarrow> u64 option \<Rightarrow>
    ('e, 'n) firehose_call list \<times> (string \<times> u64, unit) outcome"

fun str_contains :: "string \<Rightarrow> string \<Rightarrow> bool" where
  "str_contains pat [] = (pat = [])"
| "str_contains pat (c # s) = (take (length pat) (c # s) = pat \<or> str_contains pat s)"

definition jet_stream_loop ::
  "'e jet_texts \<Rightarrow> 'n \<Rightarrow> (string set \<Rightarrow> string list) \<Rightarrow> ('e, 'n) firehose \<Rightarrow> jetstream_config \<Rightarrow> filters \<Rightarrow>
    'n jet_update runtime_item mpsc \<Rightarrow> u64 mpsc option \<Rightarrow> 'n jet_handler option \<times> (jet_error, unit) outcome" where
  "jet_stream_loop texts zero list_ids firehose config fs tx skipped =
     (case to_slot_range (jc_range config) of
        Err e \<Rightarrow> (None, Err (SlotRangeResolution (jt_range_error texts (jc_range config) e)))
      | Panic \<Rightarrow> (None, Panic)
      | Ok bounds \<Rightarrow>
          let h = new_jet_handler list_ids tx skipped fs
          in case firehose (jc_threads config) (jc_sequential config) (jc_reverse config)
                    (effective_buffer_window_bytes (jc_sequential config) (jc_reverse config) (jc_buffer_window_bytes config))
                    bounds (fm_wants_entries (jh_matches h))
                    (then_some (jc_stats_interval_slots config \<noteq> 0) (jc_stats_interval_slots config)) of
               (calls, result) \<Rightarrow>
                 (Some (run_callbacks texts zero calls h),
                  case result of
                    Ok _ \<Rightarrow> Ok ()
                  | Panic \<Rightarrow> Panic
                  | Err (error, slot) \<Rightarrow>
                      if str_contains ''incomplete frame'' error
                      then Err (Jetstreamer (''Corrupted data at slot '' @ decimal (unat slot) @ '': '' @ error @
                             ''. Try a different epoch or slot range.''))
                      else Err (Jetstreamer (''Firehose error at slot '' @ decimal (unat slot) @ '': '' @ error))))"

definition jet_connect ::
  "'e jet_texts \<Rightarrow> 'n \<Rightarrow> (string set \<Rightarrow> string list) \<Rightarrow> ('e, 'n) firehose \<Rightarrow> (string \<rightharpoonup> string) \<Rightarrow> jetstream_config \<Rightarrow>
    filters \<Rightarrow> 'n jet_update runtime_item mpsc \<Rightarrow> u64 mpsc option \<Rightarrow>
    'n jet_handler option \<times> ('o shipstern_error, source_exit_status) outcome" where
  "jet_connect texts zero list_ids firehose env config fs tx skipped =
     (case validate_matches (jt_quote texts) (env_from_config config) (env_from_process env) of
        Err e \<Rightarrow> (None, Err (jet_into_shipstern (jt_error texts) e))
      | Panic \<Rightarrow> (None, Panic)
      | Ok _ \<Rightarrow>
          (case jet_stream_loop texts zero list_ids firehose config fs tx skipped of
             (h, Ok _) \<Rightarrow> (h, Ok Completed)
           | (h, Err e) \<Rightarrow> (h, Err (jet_into_shipstern (jt_error texts) e))
           | (h, Panic) \<Rightarrow> (h, Panic)))"

subsection \<open>What the parsers asked for\<close>

definition wants_block :: "prefilter \<Rightarrow> bool" where
  "wants_block p \<longleftrightarrow> is_some_and (pf_block p) (\<lambda>b. bp_include_transactions b \<or> bp_include_accounts b \<or> bp_include_entries b)"

definition asking :: "filters \<Rightarrow> (prefilter \<Rightarrow> bool) \<Rightarrow> string list \<Rightarrow> string list" where
  "asking fs P ids = filter (\<lambda>pid. is_some_and (fs pid) P) ids"

lemma match_filter_fields:
  "fm_block (match_filter fs pid m) = fm_block m @ asking fs wants_block [pid]"
  "fm_block_meta (match_filter fs pid m) = fm_block_meta m @ asking fs (\<lambda>p. pf_block_meta p \<noteq> None) [pid]"
  "fm_slot (match_filter fs pid m) = fm_slot m @ asking fs (\<lambda>p. pf_slot p \<noteq> None) [pid]"
  "fm_transaction (match_filter fs pid m) = fm_transaction m @ asking fs (\<lambda>p. pf_transaction p \<noteq> None) [pid]"
  "fm_wants_entries (match_filter fs pid m) =
     (fm_wants_entries m \<or> asking fs (\<lambda>p. is_some_and (pf_block p) bp_include_entries) [pid] \<noteq> [])"
  by (auto simp: match_filter_def asking_def wants_block_def Let_def split: option.splits)

lemma fold_match_filter:
  "fm_block (fold (match_filter fs) ids m) = fm_block m @ asking fs wants_block ids"
  "fm_block_meta (fold (match_filter fs) ids m) = fm_block_meta m @ asking fs (\<lambda>p. pf_block_meta p \<noteq> None) ids"
  "fm_slot (fold (match_filter fs) ids m) = fm_slot m @ asking fs (\<lambda>p. pf_slot p \<noteq> None) ids"
  "fm_transaction (fold (match_filter fs) ids m) = fm_transaction m @ asking fs (\<lambda>p. pf_transaction p \<noteq> None) ids"
  "fm_wants_entries (fold (match_filter fs) ids m) =
     (fm_wants_entries m \<or> asking fs (\<lambda>p. is_some_and (pf_block p) bp_include_entries) ids \<noteq> [])"
  by (induction ids arbitrary: m) (auto simp: match_filter_fields asking_def)

lemma precalculated:
  "fm_block (precalculate_filters list_ids fs) = asking fs wants_block (list_ids (dom fs))"
  "fm_block_meta (precalculate_filters list_ids fs) = asking fs (\<lambda>p. pf_block_meta p \<noteq> None) (list_ids (dom fs))"
  "fm_slot (precalculate_filters list_ids fs) = asking fs (\<lambda>p. pf_slot p \<noteq> None) (list_ids (dom fs))"
  "fm_transaction (precalculate_filters list_ids fs) = asking fs (\<lambda>p. pf_transaction p \<noteq> None) (list_ids (dom fs))"
  unfolding precalculate_filters_def by (subst fold_match_filter; simp)+

subsection \<open>Entries travel with their block\<close>

text \<open>The entries of a slot since its last block, in order.\<close>

definition note_entry :: "u64 \<Rightarrow> entry_data list \<Rightarrow> ('e, 'n) firehose_call \<Rightarrow> entry_data list" where
  "note_entry sl acc call =
     (case call of
        OnEntry e \<Rightarrow> if ed_slot e = sl then acc @ [e] else acc
      | OnBlock (ArchiveBlock b) \<Rightarrow> if ab_slot b = sl then [] else acc
      | _ \<Rightarrow> acc)"

definition entries_since :: "u64 \<Rightarrow> ('e, 'n) firehose_call list \<Rightarrow> entry_data list" where
  "entries_since sl calls = foldl (note_entry sl) [] calls"

lemma entries_since_simps [simp]:
  "entries_since sl [] = []"
  "entries_since sl (calls @ [call]) = note_entry sl (entries_since sl calls) call"
  by (simp_all add: entries_since_def)

text \<open>What one callback sends, from the calls before it.\<close>

definition addressed :: "string list \<Rightarrow> 'u \<Rightarrow> (string list \<times> 'u) list" where
  "addressed ids u = (if ids = [] then [] else [(ids, u)])"

definition sent_by ::
  "'e jet_texts \<Rightarrow> 'n \<Rightarrow> filter_matches \<Rightarrow> ('e, 'n) firehose_call list \<Rightarrow> ('e, 'n) firehose_call \<Rightarrow>
    (string list \<times> (unit, 'n jet_value, jet_block_meta, jet_block, slot_status_update) runtime_oneof) list" where
  "sent_by texts zero m before call =
     (case call of
        OnBlock (ArchiveBlock b) \<Rightarrow>
          addressed (fm_block m) (BlockUpdate (block_update (jt_key texts)
            (if fm_wants_entries m then entries_since (ab_slot b) before else []) b)) @
          addressed (fm_block_meta m) (BlockMetaUpdate (block_meta_update (jt_key texts) b)) @
          addressed (fm_slot m) (SlotUpdate (slot_update b))
      | OnTransaction t \<Rightarrow>
          addressed (fm_transaction m) (TransactionUpdate
            \<lparr>txn_transaction = Some
               \<lparr>info_signature = td_signature t, info_is_vote = td_is_vote t,
                info_transaction = Some (jet_transaction (td_transaction t)),
                info_meta = Some (jet_status_meta (jt_serialize texts) zero (td_status_meta t)),
                info_index = of_nat (td_transaction_slot_index t)\<rparr>,
             txn_slot = td_slot t\<rparr>)
      | _ \<Rightarrow> [])"

fun all_sent ::
  "'e jet_texts \<Rightarrow> 'n \<Rightarrow> filter_matches \<Rightarrow> ('e, 'n) firehose_call list \<Rightarrow> ('e, 'n) firehose_call list \<Rightarrow>
    (string list \<times> (unit, 'n jet_value, jet_block_meta, jet_block, slot_status_update) runtime_oneof) list" where
  "all_sent texts zero m before [] = []"
| "all_sent texts zero m before (call # calls) =
     sent_by texts zero m before call @ all_sent texts zero m (before @ [call]) calls"

definition as_items :: "(string list \<times> (unit, 'n jet_value, jet_block_meta, jet_block, slot_status_update) runtime_oneof) list \<Rightarrow>
    'n jet_update runtime_item list" where
  "as_items xs = map (\<lambda>(ids, u). Ok \<lparr>update_filters_named = ids, update_kind = Some u\<rparr>) xs"

definition jet_inv :: "filter_matches \<Rightarrow> ('e, 'n) firehose_call list \<Rightarrow> 'n jet_handler \<Rightarrow> bool" where
  "jet_inv m before h \<longleftrightarrow>
     jh_matches h = m \<and> \<not> jh_poisoned h \<and> \<not> closed (jh_tx h) \<and>
     (\<not> fm_wants_entries m \<longrightarrow> jh_entry_buffer h = Map.empty) \<and>
     (fm_wants_entries m \<longrightarrow>
        (\<forall>sl. jh_entry_buffer h sl = (if entries_since sl before = [] then None else Some (entries_since sl before))))"

lemma callback_sends:
  assumes "jet_inv m before h" and "call \<noteq> JetReceiverGone"
  shows "jet_inv m (before @ [call]) (fst (firehose_callback texts zero call h)) \<and>
    queue (jh_tx (fst (firehose_callback texts zero call h))) = queue (jh_tx h) @ as_items (sent_by texts zero m before call)"
proof (cases call)
  case (OnEntry e)
  then show ?thesis using assms(1)
    by (auto simp: jet_inv_def process_entry_def lock_entry_buffer_def note_entry_def sent_by_def as_items_def)
next
  case (OnBlock b)
  then show ?thesis
  proof (cases b)
    case (ArchiveBlock ab)
    with OnBlock assms(1) show ?thesis
      by (auto simp: jet_inv_def drain_entries_def lock_entry_buffer_def note_entry_def sent_by_def as_items_def addressed_def
          send_matching_def jet_send_def mpsc_send_def)
  next
    case (PossibleLeaderSkipped sl)
    with OnBlock assms(1) show ?thesis
      by (auto simp: jet_inv_def note_entry_def sent_by_def as_items_def mpsc_send_def split: option.splits)
  qed
next
  case (OnTransaction t)
  then show ?thesis using assms(1)
    by (auto simp: jet_inv_def process_transaction_def note_entry_def sent_by_def as_items_def addressed_def jet_send_def mpsc_send_def)
qed (use assms(2) in simp)

lemma callbacks_send:
  assumes "jet_inv m before h" and "JetReceiverGone \<notin> set calls"
  shows "jet_inv m (before @ calls) (run_callbacks texts zero calls h) \<and>
    queue (jh_tx (run_callbacks texts zero calls h)) = queue (jh_tx h) @ as_items (all_sent texts zero m before calls)"
  using assms
proof (induction calls arbitrary: before h)
  case (Cons call calls)
  let ?h = "fst (firehose_callback texts zero call h)"
  have step: "jet_inv m (before @ [call]) ?h"
    "queue (jh_tx ?h) = queue (jh_tx h) @ as_items (sent_by texts zero m before call)"
    using callback_sends [OF Cons.prems(1)] Cons.prems(2) by auto
  from Cons.IH [OF step(1)] Cons.prems(2) step(2) show ?case by (auto simp: run_callbacks_def as_items_def)
qed (simp add: run_callbacks_def as_items_def)

lemma init_process_env_valid:
  "validate_matches quote (env_from_config config) (env_from_process (init_process_env config env)) = Ok ()"
  by (simp add: validate_matches_def mismatch_def env_from_process_def init_process_env_def env_apply_def Let_def)


text \<open>An epoch's range has its 432000 slots as long as it fits; from epoch 42700796466920 on its end wraps below its start.\<close>

lemma epoch_range:
  assumes "unat ep < 42700796466920"
  shows "to_slot_range \<lparr>slot_start = None, slot_end = None, epoch = Some ep\<rparr> =
      Ok (ep * SLOTS_PER_EPOCH, (ep + 1) * SLOTS_PER_EPOCH) \<and>
    unat (ep * SLOTS_PER_EPOCH) = unat ep * 432000 \<and> unat ((ep + 1) * SLOTS_PER_EPOCH) = unat ep * 432000 + 432000"
proof -
  have "unat (ep + 1) = unat ep + 1" using assms by (intro unat_add_no_wrap [THEN trans]) simp_all
  then show ?thesis using assms by (simp add: to_slot_range_def SLOTS_PER_EPOCH_def unat_word_ariths)
qed

lemma epoch_range_wraps:
  "to_slot_range \<lparr>slot_start = None, slot_end = None, epoch = Some 42700796466920\<rparr> = Ok (18446744073709440000, 320384)"
  by (simp add: to_slot_range_def SLOTS_PER_EPOCH_def)

text \<open>A replay of a block whose two entries came before it, with an entry of a later slot left over.\<close>

definition demo_entry :: "u64 \<Rightarrow> nat \<Rightarrow> entry_data" where
  "demo_entry sl i = \<lparr>ed_slot = sl, ed_entry_index = i, ed_num_hashes = 1, ed_hash = [], ed_transaction_start = i, ed_transaction_end = i + 1\<rparr>"

definition demo_block :: archive_block where
  "demo_block = \<lparr>ab_parent_slot = 6, ab_parent_blockhash = [], ab_slot = 7, ab_blockhash = [], ab_rewards = \<lparr>kr_keyed_rewards = [],
     kr_num_partitions = None\<rparr>, ab_block_time = None, ab_block_height = None, ab_executed_transaction_count = 2, ab_entry_count = 2\<rparr>"

definition demo_calls :: "(nat, nat) firehose_call list" where
  "demo_calls = [OnEntry (demo_entry 7 0), OnEntry (demo_entry 7 1), OnEntry (demo_entry 8 0), OnBlock (ArchiveBlock demo_block)]"

definition demo_jet_config :: jetstream_config where
  "demo_jet_config = \<lparr>jc_range = \<lparr>slot_start = Some 7, slot_end = Some 9, epoch = None\<rparr>, jc_threads = 1, jc_network = ''mainnet'',
     jc_compact_index_base_url = ''u'', jc_network_capacity_mb = 1000, jc_sequential = False, jc_reverse = False,
     jc_buffer_window_bytes = None, jc_stats_interval_slots = 0\<rparr>"

definition demo_texts :: "nat jet_texts" where
  "demo_texts = \<lparr>jt_key = (\<lambda>_. ''k''), jt_serialize = (\<lambda>_. None), jt_quote = (\<lambda>s. s), jt_range_error = (\<lambda>_ _. []), jt_error = (\<lambda>_. [])\<rparr>"

definition demo_jet_filters :: filters where
  "demo_jet_filters = [''B'' \<mapsto> default_prefilter\<lparr>pf_block := Some (default_block_prefilter\<lparr>bp_include_entries := True\<rparr>)\<rparr>]"


end
