(* ===== verification/Ledger_Sources.thy ===== *)
theory Ledger_Sources
  imports Grpc_Source Runtime_Builder Runtime_Handle
begin

text \<open>
  The sources that read accounts once, from an RPC node (\<open>crates/solana-rpc-source/src/lib.rs\<close>) and
  from a snapshot (\<open>crates/solana-snapshot-source/src/lib.rs\<close>). The RPC client, the ledger and the
  decoding of an account are code of other packages and arguments. Iteration over hash maps and
  sets, and the order in which concurrent tasks end, are arguments too.
\<close>

subsection \<open>Accounts\<close>

record account_info =
  ai_pubkey :: pubkey
  ai_lamports :: u64
  ai_owner :: pubkey
  ai_executable :: bool
  ai_rent_epoch :: u64
  ai_data :: bytes

record account_update =
  au_account :: account_info
  au_slot :: u64
  au_is_startup :: bool

type_synonym ledger_update = "(account_update, unit, unit, unit, slot_status_update) runtime_update"

definition account_item :: "string list \<Rightarrow> account_update \<Rightarrow> ledger_update runtime_item" where
  "account_item ids a = Ok \<lparr>update_filters_named = ids, update_kind = Some (AccountUpdate a)\<rparr>"

text \<open>Listing the entries of the filter map and the keys of a set.\<close>

record hash_order =
  order_ids :: "string set \<Rightarrow> string list"
  order_keys :: "pubkey set \<Rightarrow> pubkey list"

text \<open>The pairs of a parser and an owner it asks for, in the order of the nested loops.\<close>

definition owner_pairs :: "hash_order \<Rightarrow> filters \<Rightarrow> (string \<times> pubkey) list" where
  "owner_pairs ord fs =
     concat (map (\<lambda>pid. case Option.bind (fs pid) pf_account of
                          Some a \<Rightarrow> map (Pair pid) (order_keys ord (ap_owners a)) | None \<Rightarrow> []) (order_ids ord (dom fs)))"

subsection \<open>The RPC source\<close>

record 'd ui_account =
  ui_lamports :: u64
  ui_owner :: string
  ui_executable :: bool
  ui_rent_epoch :: u64
  ui_data :: 'd

record 'd rpc_client =
  rpc_get_slot :: "pubkey \<Rightarrow> (string, u64) outcome"
  rpc_program_accounts :: "pubkey \<Rightarrow> (string, (pubkey \<times> 'd ui_account) list) outcome"
  rpc_parse_owner :: "string \<Rightarrow> (string, pubkey) outcome"
  rpc_decode :: "'d \<Rightarrow> bytes option"
  rpc_key_text :: "pubkey \<Rightarrow> string"
  rpc_join_error :: string

record rpc_config =
  rpc_endpoint :: string
  rpc_timeout :: u64
  rpc_commitment_level :: "grpc_commitment option"

fun get_commitment_config :: "grpc_commitment option \<Rightarrow> grpc_commitment" where
  "get_commitment_config (Some Finalized) = Finalized"
| "get_commitment_config (Some Processed) = Processed"
| "get_commitment_config _ = Confirmed"

definition map_err :: "('e \<Rightarrow> 'f) \<Rightarrow> ('e, 'a) outcome \<Rightarrow> ('f, 'a) outcome" where
  "map_err f r = (case r of Ok x \<Rightarrow> Ok x | Err e \<Rightarrow> Err (f e) | Panic \<Rightarrow> Panic)"

definition rpc_account ::
  "'d rpc_client \<Rightarrow> string \<Rightarrow> u64 \<Rightarrow> pubkey \<times> 'd ui_account \<Rightarrow> ledger_update runtime_item mpsc \<Rightarrow>
    ledger_update runtime_item mpsc \<times> (string, unit) outcome" where
  "rpc_account client filter_id slot ka tx =
     (case map_err (\<lambda>e. ''Failed to parse owner '' @ ui_owner (snd ka) @ '' for source: solana-rpc, filter: '' @ filter_id @ '': '' @ e)
             (rpc_parse_owner client (ui_owner (snd ka))) of
        Err e \<Rightarrow> (tx, Err e)
      | Panic \<Rightarrow> (tx, Panic)
      | Ok owner \<Rightarrow>
          (case rpc_decode client (ui_data (snd ka)) of
             None \<Rightarrow>
               (tx, Err (''Failed to decode account data for '' @ rpc_key_text client (fst ka) @
                         '' from source: solana-rpc, filter: '' @ filter_id))
           | Some data \<Rightarrow>
               (case mpsc_send (account_item [filter_id]
                       \<lparr>au_account = \<lparr>ai_pubkey = fst ka, ai_lamports = ui_lamports (snd ka), ai_owner = owner,
                          ai_executable = ui_executable (snd ka), ai_rent_epoch = ui_rent_epoch (snd ka), ai_data = data\<rparr>,
                        au_slot = slot, au_is_startup = True\<rparr>) tx of
                  (tx, Ok _) \<Rightarrow> (tx, Ok ())
                | (tx, _) \<Rightarrow> (tx, Err (''Failed to send update to buffer for source: solana-rpc, filter: '' @ filter_id)))))"

fun rpc_accounts ::
  "'d rpc_client \<Rightarrow> string \<Rightarrow> u64 \<Rightarrow> (pubkey \<times> 'd ui_account) list \<Rightarrow> ledger_update runtime_item mpsc \<Rightarrow>
    ledger_update runtime_item mpsc \<times> (string, unit) outcome" where
  "rpc_accounts client filter_id slot [] tx = (tx, Ok ())"
| "rpc_accounts client filter_id slot (ka # kas) tx =
     then_run (rpc_account client filter_id slot ka tx) (rpc_accounts client filter_id slot kas)"

definition rpc_task ::
  "'d rpc_client \<Rightarrow> string \<times> pubkey \<Rightarrow> ledger_update runtime_item mpsc \<Rightarrow>
    ledger_update runtime_item mpsc \<times> (string, unit) outcome" where
  "rpc_task client pair tx =
     (case map_err (\<lambda>e. ''Failed to get slot for source: solana-rpc, filter: '' @ fst pair @ '': '' @ e) (rpc_get_slot client (snd pair)) of
        Err e \<Rightarrow> (tx, Err e)
      | Panic \<Rightarrow> (tx, Panic)
      | Ok slot \<Rightarrow>
          (case map_err (\<lambda>e. ''Failed to get program accounts for source: solana-rpc, filter: '' @ fst pair @ '': '' @ e)
                  (rpc_program_accounts client (snd pair)) of
             Err e \<Rightarrow> (tx, Err e)
           | Panic \<Rightarrow> (tx, Panic)
           | Ok accounts \<Rightarrow> rpc_accounts client (fst pair) slot accounts tx))"

text \<open>The tasks in the order they are joined; the first failure is kept, every task runs to its end.\<close>

fun join_tasks ::
  "'d rpc_client \<Rightarrow> (string \<times> pubkey) list \<Rightarrow> string option \<Rightarrow> ledger_update runtime_item mpsc \<Rightarrow>
    ledger_update runtime_item mpsc \<times> string option" where
  "join_tasks client [] first_error tx = (tx, first_error)"
| "join_tasks client (pair # pairs) first_error tx =
     (case rpc_task client pair tx of
        (tx, Ok _) \<Rightarrow> join_tasks client pairs first_error tx
      | (tx, Err msg) \<Rightarrow> join_tasks client pairs (Some (unwrap_or first_error msg)) tx
      | (tx, Panic) \<Rightarrow> join_tasks client pairs (Some (unwrap_or first_error (rpc_join_error client))) tx)"

definition rpc_connect ::
  "(string \<Rightarrow> 'o) \<Rightarrow> (string \<Rightarrow> u64 \<Rightarrow> grpc_commitment \<Rightarrow> 'd rpc_client) \<Rightarrow> rpc_config \<Rightarrow> hash_order \<Rightarrow> schedule \<Rightarrow> filters \<Rightarrow> ledger_update runtime_item mpsc \<Rightarrow>
    ledger_update runtime_item mpsc \<times> ('o shipstern_error, source_exit_status) outcome" where
  "rpc_connect box dial config ord sch fs tx =
     (case join_tasks (dial (rpc_endpoint config) (rpc_timeout config) (get_commitment_config (rpc_commitment_level config)))
             (in_order sch (owner_pairs ord fs)) None tx of
        (tx, Some msg) \<Rightarrow> (tx, Err (OtherError (box msg)))
      | (tx, None) \<Rightarrow> (tx, Ok Completed))"

subsection \<open>The snapshot source\<close>

text \<open>\<open>lookup.entry(*owner).or_default().push(key.clone())\<close>\<close>

definition owner_lookup :: "hash_order \<Rightarrow> filters \<Rightarrow> pubkey \<rightharpoonup> string list" where
  "owner_lookup ord fs =
     fold (\<lambda>(pid, owner) m. m(owner \<mapsto> unwrap_or (m owner) [] @ [pid])) (owner_pairs ord fs) Map.empty"

record ledger_account =
  la_info :: account_info
  la_loadable :: bool

text \<open>A scanned account, or a hole of the scan; events for accounts of the owners asked for.\<close>

definition scan_account ::
  "(pubkey \<rightharpoonup> string list) \<Rightarrow> u64 \<Rightarrow> ledger_account option \<Rightarrow> ledger_update runtime_item list" where
  "scan_account lookup slot option =
     (case option of
        None \<Rightarrow> []
      | Some account \<Rightarrow>
          if \<not> la_loadable account then []
          else if ai_owner (la_info account) \<notin> dom lookup then []
          else [account_item (unwrap_or (lookup (ai_owner (la_info account))) [])
                  \<lparr>au_account = la_info account, au_slot = slot, au_is_startup = True\<rparr>])"

text \<open>The sender task passes every event on; a send that fails is logged and the next one tried.\<close>

definition forward_all :: "'u list \<Rightarrow> 'u mpsc \<Rightarrow> 'u mpsc" where
  "forward_all xs tx = fold (\<lambda>x tx. fst (mpsc_send x tx)) xs tx"

definition slot_filters :: "hash_order \<Rightarrow> filters \<Rightarrow> string list" where
  "slot_filters ord fs = filter (\<lambda>pid. Option.bind (fs pid) pf_slot \<noteq> None) (order_ids ord (dom fs))"

text \<open>
  The ledger: its working bank's slot and what a scan visits before it ends, fails or panics, or the
  error of loading it.
\<close>

definition snapshot_connect ::
  "('o shipstern_error, u64 \<times> ledger_account option list \<times> ('o shipstern_error, unit) outcome) outcome \<Rightarrow> hash_order \<Rightarrow>
    filters \<Rightarrow> ledger_update runtime_item mpsc \<Rightarrow>
    ledger_update runtime_item mpsc \<times> ('o shipstern_error, source_exit_status) outcome" where
  "snapshot_connect ledger ord fs tx =
     (let lookup = owner_lookup ord fs
      in case ledger of
           Err e \<Rightarrow> (tx, Err e)
         | Panic \<Rightarrow> (tx, Panic)
         | Ok (slot, accounts, scan) \<Rightarrow>
             (case mpsc_send (Ok \<lparr>update_filters_named = slot_filters ord fs,
                     update_kind = Some (SlotUpdate \<lparr>su_slot = slot, su_parent = None, su_status = ProtoSlotFinalized, su_dead_error = None\<rparr>)\<rparr>) tx of
                (tx, Ok _) \<Rightarrow>
                  let tx = forward_all (concat (map (scan_account lookup slot) accounts)) tx
                  in (case scan of
                        Ok _ \<Rightarrow> (tx, Ok Completed)
                      | Err e \<Rightarrow> (tx, Err e)
                      | Panic \<Rightarrow> (tx, Err (IoError ''Scan thread panicked'')))
              | (tx, _) \<Rightarrow> (tx, Err ServerHangup)))"

subsection \<open>Both read the same accounts\<close>

text \<open>What a parser is handed: pairs of its ID and an account.\<close>

definition item_pairs :: "ledger_update runtime_item \<Rightarrow> (string \<times> account_info) multiset" where
  "item_pairs item =
     (case item of
        Ok u \<Rightarrow> (case update_kind u of
                  Some (AccountUpdate a) \<Rightarrow> mset (map (\<lambda>pid. (pid, au_account a)) (update_filters_named u)) | _ \<Rightarrow> {#})
      | _ \<Rightarrow> {#})"

definition handed :: "ledger_update runtime_item list \<Rightarrow> (string \<times> account_info) multiset" where
  "handed items = sum_list (map item_pairs items)"

lemma handed_simps [simp]:
  "handed [] = {#}" "handed (xs @ ys) = handed xs + handed ys" "handed (x # xs) = item_pairs x + handed xs"
  by (simp_all add: handed_def)

lemma item_pairs_account [simp]: "item_pairs (account_item ids a) = mset (map (\<lambda>pid. (pid, au_account a)) ids)"
  by (simp add: item_pairs_def account_item_def)

definition read_account :: "'d rpc_client \<Rightarrow> pubkey \<times> 'd ui_account \<Rightarrow> account_info option" where
  "read_account client ka =
     (case (rpc_parse_owner client (ui_owner (snd ka)), rpc_decode client (ui_data (snd ka))) of
        (Ok owner, Some data) \<Rightarrow>
          Some \<lparr>ai_pubkey = fst ka, ai_lamports = ui_lamports (snd ka), ai_owner = owner, ai_executable = ui_executable (snd ka),
                ai_rent_epoch = ui_rent_epoch (snd ka), ai_data = data\<rparr>
      | _ \<Rightarrow> None)"

text \<open>The node answers for an owner with accounts that all decode.\<close>

definition node_reads :: "'d rpc_client \<Rightarrow> pubkey \<Rightarrow> account_info list \<Rightarrow> bool" where
  "node_reads client owner infos \<longleftrightarrow>
     (\<exists>slot. rpc_get_slot client owner = Ok slot) \<and>
     (\<exists>kas. rpc_program_accounts client owner = Ok kas \<and> map (read_account client) kas = map Some infos)"

lemma rpc_accounts_ok:
  "\<not> closed tx \<Longrightarrow> map (read_account client) kas = map Some infos \<Longrightarrow>
    \<exists>tx'. rpc_accounts client pid slot kas tx = (tx', Ok ()) \<and> \<not> closed tx' \<and>
      handed (queue tx') = handed (queue tx) + mset (map (Pair pid) infos)"
proof (induction kas arbitrary: tx infos)
  case (Cons ka kas)
  obtain info rest where infos: "infos = info # rest" "read_account client ka = Some info"
    "map (read_account client) kas = map Some rest"
    using Cons.prems(2) by (cases infos) auto
  obtain tx1 where tx1: "rpc_account client pid slot ka tx = (tx1, Ok ())" "\<not> closed tx1"
      "handed (queue tx1) = handed (queue tx) + {#(pid, info)#}"
    using infos(2) Cons.prems(1)
    by (auto simp: rpc_account_def read_account_def map_err_def mpsc_send_def split: outcome.splits option.splits)
  from Cons.IH [OF tx1(2) infos(3)] tx1 infos(1) show ?case by auto
qed simp

lemma join_tasks_ok:
  "\<not> closed tx \<Longrightarrow> \<forall>(pid, owner)\<in>set pairs. node_reads client owner (infos owner) \<Longrightarrow>
    \<exists>tx'. join_tasks client pairs None tx = (tx', None) \<and>
      handed (queue tx') = handed (queue tx) + (\<Sum>(pid, owner)\<leftarrow>pairs. mset (map (Pair pid) (infos owner)))"
proof (induction pairs arbitrary: tx)
  case (Cons pair pairs)
  obtain pid owner where pair: "pair = (pid, owner)" by (cases pair)
  with Cons.prems(2) obtain slot kas where reads: "rpc_get_slot client owner = Ok slot"
      "rpc_program_accounts client owner = Ok kas" "map (read_account client) kas = map Some (infos owner)"
    by (auto simp: node_reads_def)
  from rpc_accounts_ok [OF Cons.prems(1) reads(3), of pid slot] obtain tx1 where
    "rpc_task client pair tx = (tx1, Ok ())" "\<not> closed tx1" "handed (queue tx1) = handed (queue tx) + mset (map (Pair pid) (infos owner))"
    by (auto simp: rpc_task_def pair map_err_def reads)
  with Cons.IH [of tx1] Cons.prems(2) pair show ?case by auto
qed simp

lemma owner_lookup_fold:
  "unwrap_or (fold (\<lambda>(pid, owner) m. m(owner \<mapsto> unwrap_or (m owner) [] @ [pid])) pairs m o') [] =
    unwrap_or (m o') [] @ map fst (filter (\<lambda>p. snd p = o') pairs)"
  "dom (fold (\<lambda>(pid, owner) m. m(owner \<mapsto> unwrap_or (m owner) [] @ [pid])) pairs m) = dom m \<union> snd ` set pairs"
  by (induction pairs arbitrary: m) auto

lemma owner_lookup_spec:
  "unwrap_or (owner_lookup ord fs o') [] = map fst (filter (\<lambda>p. snd p = o') (owner_pairs ord fs))"
  "dom (owner_lookup ord fs) = snd ` set (owner_pairs ord fs)"
  by (simp_all add: owner_lookup_def owner_lookup_fold)

lemma forward_all_open: "\<not> closed tx \<Longrightarrow> forward_all xs tx = tx\<lparr>queue := queue tx @ xs\<rparr>"
  by (induction xs arbitrary: tx) (simp_all add: forward_all_def mpsc_send_def)

definition loadable_infos :: "ledger_account option list \<Rightarrow> account_info list" where
  "loadable_infos accounts = map la_info (filter la_loadable (List.map_filter (\<lambda>x. x) accounts))"

lemma loadable_infos_simps:
  "loadable_infos [] = []" "loadable_infos [None] = []"
  "loadable_infos [Some a] = (if la_loadable a then [la_info a] else [])"
  by (simp_all add: loadable_infos_def map_filter_def)

lemma loadable_infos_Cons: "loadable_infos (x # xs) = loadable_infos [x] @ loadable_infos xs"
  by (simp add: loadable_infos_def map_filter_def)

lemma scan_handed:
  "handed (concat (map (scan_account (owner_lookup ord fs) slot) accounts)) =
    (\<Sum>a\<leftarrow>loadable_infos accounts. \<Sum>(pid, owner)\<leftarrow>owner_pairs ord fs. if ai_owner a = owner then {#(pid, a)#} else {#})"
proof (induction accounts)
  case (Cons x accounts)
  have pairs: "mset (map (\<lambda>pid. (pid, a)) (map fst (filter (\<lambda>p. snd p = ai_owner a) ps))) =
      (\<Sum>(pid, owner)\<leftarrow>ps. if ai_owner a = owner then {#(pid, a)#} else {#})" for a and ps :: "(string \<times> pubkey) list"
    by (induction ps) auto
  have none: "ai_owner a \<notin> dom (owner_lookup ord fs) \<Longrightarrow>
      (\<Sum>(pid, owner)\<leftarrow>owner_pairs ord fs. if ai_owner a = owner then {#(pid, a)#} else {#}) = {#}" for a
    unfolding pairs [symmetric] owner_lookup_spec by (force simp: filter_empty_conv)
  have "handed (scan_account (owner_lookup ord fs) slot x) = (\<Sum>a\<leftarrow>loadable_infos [x].
      \<Sum>(pid, owner)\<leftarrow>owner_pairs ord fs. if ai_owner a = owner then {#(pid, a)#} else {#})"
  proof (cases x)
    case (Some account)
    show ?thesis
    proof (cases "la_loadable account \<and> ai_owner (la_info account) \<in> dom (owner_lookup ord fs)")
      case True
      with Some pairs [of "la_info account" "owner_pairs ord fs"] show ?thesis
        by (simp add: scan_account_def loadable_infos_simps owner_lookup_spec(1) del: map_map mset_map)
    qed (use Some none in \<open>auto simp: scan_account_def loadable_infos_simps\<close>)
  qed (simp add: scan_account_def loadable_infos_simps)
  with Cons loadable_infos_Cons [of x accounts] show ?case by simp
qed (simp add: loadable_infos_simps)

lemma sum_exchange:
  "(\<Sum>x\<leftarrow>xs. \<Sum>y\<leftarrow>ys. f x y) = (\<Sum>y\<leftarrow>ys. \<Sum>x\<leftarrow>xs. f x y)" for f :: "'a \<Rightarrow> 'b \<Rightarrow> 'c multiset"
  by (induction xs) (simp_all add: sum_list_addf)

lemma sum_select: "(\<Sum>x\<leftarrow>xs. if P x then {#f x#} else {#}) = mset (map f (filter P xs))"
  by (induction xs) auto

text \<open>
  C36. The two account sources agree: when a node answers for every owner the parsers ask for with the
  loadable accounts of that owner in the ledger, reading them over RPC and scanning the snapshot
  both complete, and hand every parser the same accounts, each as often as the parser asked.
\<close>

theorem ledger_sources_agree:
  assumes "client = dial (rpc_endpoint config) (rpc_timeout config) (get_commitment_config (rpc_commitment_level config))"
    and "schedule_ok sch"
    and "\<forall>(pid, owner)\<in>set (owner_pairs ord fs).
      \<exists>infos. node_reads client owner infos \<and> mset infos = mset (filter (\<lambda>a. ai_owner a = owner) (loadable_infos accounts))"
  shows "\<exists>tx1 tx2. rpc_connect box dial config ord sch fs \<lparr>queue = [], closed = False\<rparr> = (tx1, Ok Completed) \<and>
    snapshot_connect (Ok (slot, accounts, Ok ())) ord fs \<lparr>queue = [], closed = False\<rparr> = (tx2, Ok Completed) \<and>
    handed (queue tx1) = handed (queue tx2) \<and>
    handed (queue tx2) = (\<Sum>(pid, owner)\<leftarrow>owner_pairs ord fs. mset (map (Pair pid) (filter (\<lambda>a. ai_owner a = owner) (loadable_infos accounts))))"
proof -
  let ?pairs = "owner_pairs ord fs" and ?of = "\<lambda>owner. filter (\<lambda>a. ai_owner a = owner) (loadable_infos accounts)"
  define infos where "infos owner = (SOME is. node_reads client owner is \<and> mset is = mset (?of owner))" for owner
  have infos: "node_reads client owner (infos owner) \<and> mset (infos owner) = mset (?of owner)" if "(pid, owner) \<in> set ?pairs" for pid owner
    unfolding infos_def by (rule someI_ex) (use assms(3) that in blast)
  obtain tx1 where tx1: "join_tasks client (in_order sch ?pairs) None \<lparr>queue = [], closed = False\<rparr> = (tx1, None)"
      "handed (queue tx1) = (\<Sum>(pid, owner)\<leftarrow>in_order sch ?pairs. mset (map (Pair pid) (infos owner)))"
    using join_tasks_ok [of "\<lparr>queue = [], closed = False\<rparr>" "in_order sch ?pairs" client infos] infos assms(2) by auto
  have "(\<Sum>(pid, owner)\<leftarrow>in_order sch ?pairs. mset (map (Pair pid) (infos owner))) =
      (\<Sum>(pid, owner)\<leftarrow>?pairs. mset (map (Pair pid) (?of owner)))"
    unfolding sum_in_order [OF assms(2)] using infos by (intro arg_cong [of _ _ sum_list] map_cong) auto
  moreover have "(\<Sum>a\<leftarrow>loadable_infos accounts. \<Sum>(pid, owner)\<leftarrow>?pairs. if ai_owner a = owner then {#(pid, a)#} else {#}) =
      (\<Sum>(pid, owner)\<leftarrow>?pairs. mset (map (Pair pid) (?of owner)))"
    unfolding case_prod_unfold by (subst sum_exchange) (simp only: sum_select)
  ultimately show ?thesis
    using tx1 scan_handed [of ord fs slot accounts]
    by (auto simp: rpc_connect_def assms(1) snapshot_connect_def mpsc_send_def forward_all_open item_pairs_def Let_def)
qed

text \<open>A ledger with one loadable account of an owner two parsers ask for.\<close>

definition demo_info_of :: "pubkey \<Rightarrow> account_info" where
  "demo_info_of owner = \<lparr>ai_pubkey = [1], ai_lamports = 5, ai_owner = owner, ai_executable = False, ai_rent_epoch = 0, ai_data = [9]\<rparr>"

definition demo_node :: "bytes rpc_client" where
  "demo_node =
     \<lparr>rpc_get_slot = (\<lambda>_. Ok 7),
      rpc_program_accounts = (\<lambda>_. Ok [([1], \<lparr>ui_lamports = 5, ui_owner = ''o'', ui_executable = False, ui_rent_epoch = 0, ui_data = [9]\<rparr>)]),
      rpc_parse_owner = (\<lambda>_. Ok [2]), rpc_decode = Some, rpc_key_text = (\<lambda>_. ''k''), rpc_join_error = ''panic''\<rparr>"

definition demo_dial :: "string \<Rightarrow> u64 \<Rightarrow> grpc_commitment \<Rightarrow> bytes rpc_client" where
  "demo_dial = (\<lambda>_ _ _. demo_node)"

definition demo_rpc_config :: rpc_config where
  "demo_rpc_config = \<lparr>rpc_endpoint = ''http://localhost:8899'', rpc_timeout = 30, rpc_commitment_level = None\<rparr>"

definition demo_owner_filters :: filters where
  "demo_owner_filters =
     (let f = default_prefilter\<lparr>pf_account := Some (default_account_prefilter\<lparr>ap_owners := {[2]}\<rparr>)\<rparr>
      in [''P'' \<mapsto> f, ''Q'' \<mapsto> f])"

definition demo_order :: hash_order where
  "demo_order = \<lparr>order_ids = (\<lambda>S. if S = {''P'', ''Q''} then [''P'', ''Q''] else []), order_keys = (\<lambda>S. if S = {[2]} then [[2]] else [])\<rparr>"

lemma demo_owner_pairs: "owner_pairs demo_order demo_owner_filters = [(''P'', [2]), (''Q'', [2])]"
proof -
  have "dom demo_owner_filters = {''P'', ''Q''}" by (auto simp: demo_owner_filters_def Let_def split: if_splits)
  then show ?thesis
    by (simp add: owner_pairs_def demo_order_def) (simp add: demo_owner_filters_def Let_def)
qed

theorem ledger_sources_agree_witness:
  "\<exists>tx1 tx2. rpc_connect (\<lambda>m. m) demo_dial demo_rpc_config demo_order (\<lambda>n. [0..<n]) demo_owner_filters \<lparr>queue = [], closed = False\<rparr> = (tx1, Ok Completed) \<and>
    snapshot_connect (Ok (7, [Some \<lparr>la_info = demo_info_of [2], la_loadable = True\<rparr>, None], Ok ()) :: (string shipstern_error, _) outcome)
      demo_order demo_owner_filters \<lparr>queue = [], closed = False\<rparr> = (tx2, Ok Completed) \<and>
    handed (queue tx1) = {#(''P'', demo_info_of [2]), (''Q'', demo_info_of [2])#} \<and> handed (queue tx1) = handed (queue tx2)"
proof -
  have reads: "node_reads demo_node [2] [demo_info_of [2]]"
    by (auto simp: node_reads_def demo_node_def read_account_def demo_info_of_def)
  have ledger: "loadable_infos [Some \<lparr>la_info = demo_info_of [2], la_loadable = True\<rparr>, None] = [demo_info_of [2]]"
    "ai_owner (demo_info_of [2]) = [2]"
    by (simp_all add: loadable_infos_def map_filter_def demo_info_of_def)
  have "\<forall>(pid, owner)\<in>set (owner_pairs demo_order demo_owner_filters). \<exists>infos. node_reads demo_node owner infos \<and>
      mset infos = mset (filter (\<lambda>a. ai_owner a = owner) (loadable_infos [Some \<lparr>la_info = demo_info_of [2], la_loadable = True\<rparr>, None]))"
    unfolding demo_owner_pairs ledger using reads ledger(2) by (auto intro: exI [of _ "[demo_info_of [2]]"])
  then have "\<exists>tx1 tx2. rpc_connect (\<lambda>m. m) demo_dial demo_rpc_config demo_order (\<lambda>n. [0..<n]) demo_owner_filters \<lparr>queue = [], closed = False\<rparr> = (tx1, Ok Completed) \<and>
    snapshot_connect (Ok (7, [Some \<lparr>la_info = demo_info_of [2], la_loadable = True\<rparr>, None], Ok ()) :: (string shipstern_error, _) outcome)
      demo_order demo_owner_filters \<lparr>queue = [], closed = False\<rparr> = (tx2, Ok Completed) \<and>
    handed (queue tx1) = handed (queue tx2) \<and>
    handed (queue tx2) = (\<Sum>(pid, owner)\<leftarrow>owner_pairs demo_order demo_owner_filters.
      mset (map (Pair pid) (filter (\<lambda>a. ai_owner a = owner) (loadable_infos [Some \<lparr>la_info = demo_info_of [2], la_loadable = True\<rparr>, None]))))"
    by (intro ledger_sources_agree) (simp_all add: schedule_ok_def demo_dial_def)
  then show ?thesis by (auto simp: demo_owner_pairs ledger)
qed

end
