(* ===== verification/Fumarole_Source.thy ===== *)
theory Fumarole_Source
  imports Grpc_Source
begin

text \<open>
  The Fumarole source (\<open>crates/yellowstone-fumarole-source/src/lib.rs\<close>): a persistent subscription
  whose items are passed to the runtime until the session ends. The client is code of another
  package and an argument; the end of its session handle is an item of the run.
\<close>

record fumarole_config =
  fc_endpoint :: string
  fc_x_token :: "string option"
  fc_subscriber_name :: string
  fc_commitment :: "grpc_commitment option"
  fc_max_decoding_message_size :: "nat option"
  fc_accept_compression :: "compression_encoding option"

text \<open>The settings handed to the client; sizes of windows in bytes.\<close>

record fumarole_client_config =
  fcc_endpoint :: string
  fcc_x_token :: "string option"
  fcc_max_decoding_message_size_bytes :: nat
  fcc_response_compression :: "compression_encoding option"
  fcc_request_compression :: "compression_encoding option"
  fcc_initial_connection_window_size :: nat
  fcc_initial_stream_window_size :: nat
  fcc_enable_http2_adaptive_window :: bool

definition fumarole_client_config_of :: "fumarole_config \<Rightarrow> fumarole_client_config" where
  "fumarole_client_config_of config =
     \<lparr>fcc_endpoint = fc_endpoint config, fcc_x_token = fc_x_token config,
      fcc_max_decoding_message_size_bytes = unwrap_or (fc_max_decoding_message_size config) usize_max,
      fcc_response_compression = fc_accept_compression config, fcc_request_compression = fc_accept_compression config,
      fcc_initial_connection_window_size = 100 * 1000 * 1000, fcc_initial_stream_window_size = 9 * 1024 * 1024,
      fcc_enable_http2_adaptive_window = True\<rparr>"

datatype 'u fumarole_item = SessionItem "'u runtime_item" | SessionHandleClosed | RuntimeGone

fun fumarole_loop :: "'u fumarole_item list \<Rightarrow> 'u runtime_item mpsc \<Rightarrow> 'u runtime_item mpsc \<times> source_exit_status" where
  "fumarole_loop [] tx = (tx, StreamEnded)"
| "fumarole_loop (SessionHandleClosed # items) tx = (tx, StreamEnded)"
| "fumarole_loop (SessionItem u # items) tx =
     (case mpsc_send u tx of
        (tx, Ok _) \<Rightarrow> fumarole_loop items tx
      | (tx, _) \<Rightarrow> (tx, ReceiverDropped))"
| "fumarole_loop (RuntimeGone # items) tx = fumarole_loop items (tx\<lparr>closed := True\<rparr>)"

definition fumarole_request :: "'f wire_env \<Rightarrow> fumarole_config \<Rightarrow> filters \<Rightarrow> 'f subscribe_request" where
  "fumarole_request env config fs =
     (let request = subscribe_request_from env fs
      in case fc_commitment config of
           Some level \<Rightarrow> request\<lparr>req_commitment := Some (commitment_i32 level)\<rparr>
         | None \<Rightarrow> request)"

definition fumarole_connect ::
  "'f wire_env \<Rightarrow> (fumarole_client_config \<Rightarrow> ('o, unit) outcome) \<Rightarrow>
    (string \<Rightarrow> 'f subscribe_request \<Rightarrow> (grpc_status, 'u fumarole_item list) outcome) \<Rightarrow> fumarole_config \<Rightarrow> filters \<Rightarrow>
    'u runtime_item mpsc \<Rightarrow> ('o shipstern_error, 'u runtime_item mpsc \<times> source_exit_status) outcome" where
  "fumarole_connect env dial subscribe config fs tx =
     (case dial (fumarole_client_config_of config) of
        Err e \<Rightarrow> Err (OtherError e)
      | Panic \<Rightarrow> Panic
      | Ok _ \<Rightarrow>
          (case subscribe (fc_subscriber_name config) (fumarole_request env config fs) of
             Err status \<Rightarrow> Err (YellowstoneStatus status)
           | Panic \<Rightarrow> Panic
           | Ok items \<Rightarrow> Ok (fumarole_loop items tx)))"

text \<open>The request differs from that of the gRPC source in the data slices only.\<close>

lemma fumarole_request_agrees:
  assumes "fc_commitment config = commitment config'"
  shows "fumarole_request env config fs = (build_subscribe_request env fs config')\<lparr>req_accounts_data_slice := []\<rparr>"
  using assms by (auto simp: fumarole_request_def build_subscribe_request_def subscribe_request_from_def Let_def split: option.splits)

text \<open>Until the session ends or the runtime leaves, every item is passed on, statuses included.\<close>

lemma fumarole_loop_passes:
  "\<not> closed tx \<Longrightarrow> rest = [] \<or> (\<exists>items. rest = SessionHandleClosed # items) \<Longrightarrow>
    fumarole_loop (map SessionItem us @ rest) tx = (tx\<lparr>queue := queue tx @ us\<rparr>, StreamEnded)"
  by (induction us arbitrary: tx) (auto simp: mpsc_send_def)

lemma fumarole_loop_receiver_gone:
  "\<not> closed tx \<Longrightarrow>
    fumarole_loop (map SessionItem us @ RuntimeGone # SessionItem u # rest) tx = (tx\<lparr>queue := queue tx @ us, closed := True\<rparr>, ReceiverDropped)"
  by (induction us arbitrary: tx) (auto simp: mpsc_send_def)

end
