(* ===== verification/Kafka_Config.thy ===== *)
theory Kafka_Config
  imports Coordinator_Types
begin

text \<open>
  The configuration of the Kafka sink (\<open>crates/kafka-sink/src/config.rs\<close>) and the settings of
  its producer (\<open>crates/kafka-sink/src/producer.rs\<close>). Text is ASCII. The settings of a Kafka
  client are a map from names to values; numbers are written in decimal.
\<close>

subsection \<open>Compression\<close>

datatype kafka_compression_type = CompressionNone | CompressionGzip | CompressionSnappy | CompressionLz4 | CompressionZstd

definition default_compression :: kafka_compression_type where
  "default_compression = CompressionZstd"

fun compression_as_str :: "kafka_compression_type \<Rightarrow> string" where
  "compression_as_str CompressionNone = ''none''"
| "compression_as_str CompressionGzip = ''gzip''"
| "compression_as_str CompressionSnappy = ''snappy''"
| "compression_as_str CompressionLz4 = ''lz4''"
| "compression_as_str CompressionZstd = ''zstd''"

text \<open>\<open>str::trim\<close> on ASCII text.\<close>

definition trim :: "string \<Rightarrow> string" where
  "trim s = rev (dropWhile is_whitespace (rev (dropWhile is_whitespace s)))"

definition compression_from_str :: "string \<Rightarrow> (string, kafka_compression_type) outcome" where
  "compression_from_str value =
     (let v = map ascii_lower (trim value)
      in if v = ''none'' then Ok CompressionNone
         else if v = ''gzip'' then Ok CompressionGzip
         else if v = ''snappy'' then Ok CompressionSnappy
         else if v = ''lz4'' then Ok CompressionLz4
         else if v = ''zstd'' then Ok CompressionZstd
         else Err (''Invalid KAFKA_COMPRESSION_TYPE='' @ [char_of (39::nat)] @ v @ [char_of (39::nat)] @
                   ''. Expected one of: none, gzip, snappy, lz4, zstd''))"

subsection \<open>The configuration\<close>

record kafka_sink_config =
  brokers :: string
  schema_registry_url :: string
  transaction_slots_topic :: string
  account_slots_topic :: string
  kafka_account_mode :: account_mode
  buffer_size :: nat
  message_timeout_ms :: u32
  queue_buffering_max_messages :: u32
  batch_num_messages :: u32
  compression_type :: kafka_compression_type
  transactional_id :: "string option"
  transaction_timeout_ms :: u32
  kafka_write_max_attempts :: u32
  kafka_transaction_op_max_attempts :: u32
  kafka_retry_backoff_ms :: u64
  sasl_username :: "string option"
  sasl_password :: "string option"
  schema_registry_username :: "string option"
  schema_registry_password :: "string option"

definition default_kafka_sink_config :: kafka_sink_config where
  "default_kafka_sink_config =
     \<lparr>brokers = ''localhost:9092'', schema_registry_url = ''http://localhost:8081'',
      transaction_slots_topic = ''transaction.slots'', account_slots_topic = ''account.slots'',
      kafka_account_mode = default_account_mode, buffer_size = 100, message_timeout_ms = 5000,
      queue_buffering_max_messages = 100000, batch_num_messages = 1000, compression_type = default_compression,
      transactional_id = None, transaction_timeout_ms = 30000, kafka_write_max_attempts = 3,
      kafka_transaction_op_max_attempts = 2, kafka_retry_backoff_ms = 200, sasl_username = None, sasl_password = None,
      schema_registry_username = None, schema_registry_password = None\<rparr>"

definition new_kafka_sink_config :: "string \<Rightarrow> string \<Rightarrow> kafka_sink_config" where
  "new_kafka_sink_config servers url = default_kafka_sink_config\<lparr>brokers := servers, schema_registry_url := url\<rparr>"

text \<open>A pair of credentials has both parts or none; the errors are the messages of \<open>io::Error::other\<close>.\<close>

definition validate_pair :: "string option \<Rightarrow> string option \<Rightarrow> string \<Rightarrow> string \<Rightarrow> (string, unit) outcome" where
  "validate_pair username password username_var password_var =
     (case (username, password) of
        (Some _, None) \<Rightarrow> Err (username_var @ '' is set but '' @ password_var @ '' is missing'')
      | (None, Some _) \<Rightarrow> Err (password_var @ '' is set but '' @ username_var @ '' is missing'')
      | _ \<Rightarrow> Ok ())"

definition validate_credentials :: "kafka_sink_config \<Rightarrow> (string, unit) outcome" where
  "validate_credentials config =
     (if is_some_and (transactional_id config) (\<lambda>txn. trim txn = [])
      then Err ''transactional_id must not be empty when transactions are enabled''
      else bind_outcome (validate_pair (sasl_username config) (sasl_password config) ''KAFKA_SASL_USERNAME'' ''KAFKA_SASL_PASSWORD'')
        (\<lambda>_. validate_pair (schema_registry_username config) (schema_registry_password config)
                ''SCHEMA_REGISTRY_USERNAME'' ''SCHEMA_REGISTRY_PASSWORD''))"

subsection \<open>Client settings\<close>

type_synonym client_config = "string \<rightharpoonup> string"

definition apply_sasl_if_configured :: "kafka_sink_config \<Rightarrow> client_config \<Rightarrow> client_config" where
  "apply_sasl_if_configured config client =
     (case (sasl_username config, sasl_password config) of
        (Some username, Some password) \<Rightarrow>
          client(''security.protocol'' \<mapsto> ''SASL_SSL'', ''sasl.mechanism'' \<mapsto> ''SCRAM-SHA-256'',
                 ''sasl.username'' \<mapsto> username, ''sasl.password'' \<mapsto> password)
      | _ \<Rightarrow> client)"

text \<open>The user and password of the basic authentication, if any.\<close>

definition schema_registry_auth :: "kafka_sink_config \<Rightarrow> (string \<times> string) option" where
  "schema_registry_auth config =
     (case (schema_registry_username config, schema_registry_password config) of
        (Some u, Some p) \<Rightarrow> Some (u, p)
      | _ \<Rightarrow> (case (sasl_username config, sasl_password config) of (Some u, Some p) \<Rightarrow> Some (u, p) | _ \<Rightarrow> None))"

definition producer_settings :: "kafka_sink_config \<Rightarrow> client_config" where
  "producer_settings config =
     (let client = [''bootstrap.servers'' \<mapsto> brokers config, ''message.timeout.ms'' \<mapsto> decimal (unat (message_timeout_ms config)),
            ''queue.buffering.max.messages'' \<mapsto> decimal (unat (queue_buffering_max_messages config)),
            ''batch.num.messages'' \<mapsto> decimal (unat (batch_num_messages config)),
            ''compression.type'' \<mapsto> compression_as_str (compression_type config), ''enable.idempotence'' \<mapsto> ''true''];
          client = (case transactional_id config of
              Some txn \<Rightarrow> client(''transactional.id'' \<mapsto> txn,
                                  ''transaction.timeout.ms'' \<mapsto> decimal (unat (transaction_timeout_ms config)))
            | None \<Rightarrow> client)
      in apply_sasl_if_configured config client)"

text \<open>\<open>create().expect(..)\<close>: settings the client refuses panic.\<close>

definition create_producer :: "(client_config \<Rightarrow> (string, 'p) outcome) \<Rightarrow> kafka_sink_config \<Rightarrow> (string, 'p) outcome" where
  "create_producer create config = (case create (producer_settings config) of Ok p \<Rightarrow> Ok p | _ \<Rightarrow> Panic)"

subsection \<open>Facts\<close>

lemma compression_roundtrip: "compression_from_str (compression_as_str c) = Ok c"
  by (cases c) (simp_all add: compression_from_str_def trim_def is_whitespace_def ascii_lower_def)

lemma validate_pair_ok: "validate_pair u p a b = Ok () \<longleftrightarrow> (u = None \<longleftrightarrow> p = None)"
  by (auto simp: validate_pair_def split: option.splits)

lemma validate_credentials_ok:
  "validate_credentials config = Ok () \<longleftrightarrow>
    is_none_or (transactional_id config) (\<lambda>txn. \<exists>c\<in>set txn. \<not> is_whitespace c) \<and>
    (sasl_username config = None \<longleftrightarrow> sasl_password config = None) \<and>
    (schema_registry_username config = None \<longleftrightarrow> schema_registry_password config = None)"
proof -
  have "trim txn = [] \<longleftrightarrow> (\<forall>c\<in>set txn. is_whitespace c)" for txn
  proof
    assume "trim txn = []"
    then have all: "\<forall>c\<in>set (dropWhile is_whitespace txn). is_whitespace c" by (simp add: trim_def)
    show "\<forall>c\<in>set txn. is_whitespace c"
    proof (cases "dropWhile is_whitespace txn")
      case (Cons c cs)
      then have "\<not> is_whitespace c" using hd_dropWhile [of is_whitespace txn] by simp
      with all Cons show ?thesis by simp
    qed simp
  qed (auto simp: trim_def dest: set_dropWhileD)
  then show ?thesis
    by (auto simp: validate_credentials_def bind_outcome_eq_Ok validate_pair_ok is_some_and_def is_none_or_def split: option.splits)
qed

text \<open>
  With valid credentials the registry is given the registry's own pair when it is set and the
  pair of the brokers otherwise.
\<close>

lemma schema_registry_auth_valid:
  assumes "validate_credentials config = Ok ()"
  shows "schema_registry_auth config =
    (case schema_registry_username config of
       Some u \<Rightarrow> map_option (Pair u) (schema_registry_password config)
     | None \<Rightarrow> Option.bind (sasl_username config) (\<lambda>u. map_option (Pair u) (sasl_password config)))"
  using assms unfolding validate_credentials_ok schema_registry_auth_def
  by (cases "schema_registry_username config"; cases "schema_registry_password config";
      cases "sasl_username config"; cases "sasl_password config") simp_all

lemma producer_settings_transactional:
  "producer_settings config ''transactional.id'' = transactional_id config"
  by (cases "transactional_id config"; cases "sasl_username config"; cases "sasl_password config")
     (simp_all add: producer_settings_def apply_sasl_if_configured_def Let_def)

end
