(* ===== verification/Kafka_Schema.thy ===== *)
theory Kafka_Schema
  imports Kafka_Config Fixtures
begin

unbundle bit_operations_syntax

text \<open>
  The schema registry of the Kafka sink (\<open>crates/kafka-sink/src/schema_registry.rs\<close>): the
  Confluent wire format of a payload, and the registration of schemas. The HTTP client and the
  reading of JSON are code of other packages and arguments. The decoder of the wire format is
  that of the format's documentation and stands for its consumers.
\<close>

subsection \<open>Zig-zag varints\<close>

type_synonym i32 = "32 word"
type_synonym i64 = "64 word"

record zigzag_iter =
  zi_value :: u64
  zi_done :: bool

definition encode_zigzag :: "i64 \<Rightarrow> zigzag_iter" where
  "encode_zigzag v = \<lparr>zi_value = push_bit 1 v XOR signed_drop_bit 63 v, zi_done = False\<rparr>"

definition zigzag_next :: "zigzag_iter \<Rightarrow> zigzag_iter \<times> u8 option" where
  "zigzag_next it =
     (if zi_done it then (it, None)
      else let byte = ucast (zi_value it AND 0x7f); rest = drop_bit 7 (zi_value it)
           in if rest \<noteq> 0 then (it\<lparr>zi_value := rest\<rparr>, Some (byte OR 0x80))
              else (it\<lparr>zi_value := rest, zi_done := True\<rparr>, Some byte))"

text \<open>All items of the iterator.\<close>

lemma drop_bit_7_less: "drop_bit 7 v \<noteq> 0 \<Longrightarrow> unat (drop_bit 7 v) < unat v" for v :: u64
proof -
  assume "drop_bit 7 v \<noteq> 0"
  then have "0 < unat v" by (cases "v = 0") (simp_all add: unat_gt_0)
  then show ?thesis by (simp add: drop_bit_eq_div unat_div)
qed

function zigzag_bytes :: "zigzag_iter \<Rightarrow> bytes" where
  "zigzag_bytes it = (case zigzag_next it of (_, None) \<Rightarrow> [] | (it, Some b) \<Rightarrow> b # zigzag_bytes it)"
  by auto

termination
  by (relation "measure (\<lambda>it. if zi_done it then 0 else Suc (unat (zi_value it)))")
     (auto simp: zigzag_next_def Let_def drop_bit_7_less split: if_splits)

declare zigzag_bytes.simps [simp del]

subsection \<open>The wire format\<close>

definition MAGIC_BYTE :: u8 where "MAGIC_BYTE = 0"

definition SCHEMA_ID_SIZE :: nat where "SCHEMA_ID_SIZE = 4"

definition MAX_VARINT_SIZE :: nat where "MAX_VARINT_SIZE = 10"

definition wire_format_max_capacity :: "nat \<Rightarrow> nat \<Rightarrow> nat" where
  "wire_format_max_capacity indices_count payload_len =
     1 + SCHEMA_ID_SIZE + (1 + indices_count) * MAX_VARINT_SIZE + payload_len"

definition encode_indices :: "i32 list \<Rightarrow> bytes" where
  "encode_indices indices =
     zigzag_bytes (encode_zigzag (of_nat (length indices))) @
     concat (map (\<lambda>i. zigzag_bytes (encode_zigzag (scast i))) indices)"

definition wrap_payload_with_confluent_wire_format :: "i32 \<Rightarrow> i32 list \<Rightarrow> bytes \<Rightarrow> bytes" where
  "wrap_payload_with_confluent_wire_format schema_id message_indices payload =
     [MAGIC_BYTE] @ u32_to_be_bytes schema_id @ encode_indices message_indices @ payload"

subsection \<open>What a consumer reads\<close>

fun read_varint :: "bytes \<Rightarrow> (u64 \<times> bytes) option" where
  "read_varint [] = None"
| "read_varint (b # bs) =
     (if b < 0x80 then Some (ucast b, bs)
      else case read_varint bs of
             None \<Rightarrow> None
           | Some (v, rest) \<Rightarrow> Some (ucast (b AND 0x7f) OR push_bit 7 v, rest))"

definition read_zigzag :: "bytes \<Rightarrow> (i64 \<times> bytes) option" where
  "read_zigzag bs = map_option (\<lambda>(v, rest). (drop_bit 1 v XOR - (v AND 1), rest)) (read_varint bs)"

fun read_indices :: "nat \<Rightarrow> bytes \<Rightarrow> (i32 list \<times> bytes) option" where
  "read_indices 0 bs = Some ([], bs)"
| "read_indices (Suc n) bs =
     (case read_zigzag bs of
        None \<Rightarrow> None
      | Some (i, bs) \<Rightarrow> map_option (\<lambda>(is, rest). (ucast i # is, rest)) (read_indices n bs))"

definition read_wire_format :: "bytes \<Rightarrow> (i32 \<times> i32 list \<times> bytes) option" where
  "read_wire_format bs =
     (if length bs < 5 \<or> hd bs \<noteq> MAGIC_BYTE then None
      else case read_zigzag (drop 5 bs) of
             None \<Rightarrow> None
           | Some (n, rest) \<Rightarrow>
               map_option (\<lambda>(indices, payload). (u32_from_be_bytes (take 4 (tl bs)), indices, payload))
                 (read_indices (unat n) rest))"

subsection \<open>Reading back what was written\<close>

lemma varint_byte: "(w :: u64) = ucast (ucast (w AND 0x7f) :: u8) OR push_bit 7 (drop_bit 7 w)"
proof (rule bit_word_eqI)
  fix n assume "n < LENGTH(64)"
  then show "bit w n = bit (ucast (ucast (w AND 0x7f) :: u8) OR push_bit 7 (drop_bit 7 w) :: u64) n"
    using bit_mask_iff [of 7 n, where 'a = u64]
    by (auto simp: bit_simps mask_eq_exp_minus_1)
qed

lemma low_7_bits: "(0x7f :: u64) = mask 7" "(0x80 :: u8) = push_bit 7 1"
  by (simp_all add: mask_eq_exp_minus_1)

lemma low_byte_bits: "(ucast (w AND 0x7f) :: u8) = take_bit 7 (ucast w)" for w :: u64
  unfolding low_7_bits by (rule bit_word_eqI) (auto simp: bit_simps)

lemma low_byte: "(ucast (w AND 0x7f) :: u8) < 0x80" for w :: u64
  by (simp add: low_byte_bits word_less_nat_alt unsigned_take_bit_eq take_bit_nat_less_exp [of 7, simplified])

lemma zigzag_bytes_done: "zigzag_bytes \<lparr>zi_value = v, zi_done = True\<rparr> = []"
  by (subst zigzag_bytes.simps) (simp add: zigzag_next_def)

lemma zigzag_bytes_more:
  "drop_bit 7 v \<noteq> 0 \<Longrightarrow> zigzag_bytes \<lparr>zi_value = v, zi_done = False\<rparr> =
    (ucast (v AND 0x7f) OR 0x80) # zigzag_bytes \<lparr>zi_value = drop_bit 7 v, zi_done = False\<rparr>"
  by (subst zigzag_bytes.simps) (simp add: zigzag_next_def Let_def)

lemma zigzag_bytes_last:
  "drop_bit 7 v = 0 \<Longrightarrow> zigzag_bytes \<lparr>zi_value = v, zi_done = False\<rparr> = [ucast (v AND 0x7f)]"
  by (subst zigzag_bytes.simps) (simp add: zigzag_next_def Let_def zigzag_bytes_done)

lemma continuation_byte:
  "\<not> b OR 0x80 < (0x80 :: u8)" "(ucast (w AND 0x7f) OR 0x80) AND 0x7f = (ucast (w AND 0x7f) :: u8)" for w :: u64
proof -
  have "uint (0x80 :: u8) \<le> uint (0x80 OR b)" unfolding unsigned_or_eq by (rule or_greater_eq) simp
  then show "\<not> b OR 0x80 < (0x80 :: u8)" by (simp add: word_less_def or.commute)
  have "(take_bit 7 (ucast w) OR push_bit 7 1) AND mask 7 = (take_bit 7 (ucast w) :: u8)"
    by (rule bit_word_eqI) (auto simp only: bit_and_iff bit_or_iff bit_push_bit_iff bit_mask_iff bit_take_bit_iff possible_bit_word)
  then show "(ucast (w AND 0x7f) OR 0x80) AND 0x7f = (ucast (w AND 0x7f) :: u8)"
    unfolding low_byte_bits by (simp add: mask_eq_exp_minus_1)
qed

lemma read_varint_written: "read_varint (zigzag_bytes \<lparr>zi_value = v, zi_done = False\<rparr> @ rest) = Some (v, rest)"
proof (induction "unat v" arbitrary: v rule: less_induct)
  case less
  show ?case
  proof (cases "drop_bit 7 v = 0")
    case True
    then have "ucast (ucast (v AND 0x7f) :: u8) = v" using varint_byte [of v] by simp
    with True show ?thesis by (simp add: zigzag_bytes_last low_byte)
  next
    case False
    with less drop_bit_7_less [OF False] varint_byte [of v] show ?thesis
      by (simp add: zigzag_bytes_more continuation_byte low_byte)
  qed
qed

lemma zigzag_bit:
  "bit (push_bit 1 v XOR signed_drop_bit 63 v) n \<longleftrightarrow> n < 64 \<and> (bit v 63 \<noteq> (0 < n \<and> bit v (n - 1)))" for v :: i64
proof -
  have "bit (signed_drop_bit 63 v) n \<longleftrightarrow> n < 64 \<and> bit v 63"
    by (cases n) (auto simp: bit_signed_drop_bit_iff bit_imp_le_length dest: bit_imp_le_length)
  then show ?thesis
    unfolding bit_xor_iff bit_push_bit_iff by (auto simp: Suc_le_eq dest: bit_imp_le_length)
qed

lemma unzigzag:
  "w = push_bit 1 v XOR signed_drop_bit 63 v \<Longrightarrow> drop_bit 1 w XOR - (w AND 1) = v" for v w :: i64
proof -
  assume "w = push_bit 1 v XOR signed_drop_bit 63 v"
  then have w: "bit w n \<longleftrightarrow> n < 64 \<and> (bit v 63 \<noteq> (0 < n \<and> bit v (n - 1)))" for n by (simp only: zigzag_bit)
  have sign: "w AND 1 = (if bit v 63 then 1 else 0)"
    by (rule bit_word_eqI) (auto simp: bit_and_iff bit_1_iff w)
  have "n < 64 \<Longrightarrow> n < 63 \<or> n = 63" for n :: nat by auto
  then show ?thesis unfolding sign by (intro bit_word_eqI) (auto simp: bit_xor_iff bit_drop_bit_eq w)
qed

lemma read_zigzag_written: "read_zigzag (zigzag_bytes (encode_zigzag v) @ rest) = Some (v, rest)"
  by (simp only: read_zigzag_def encode_zigzag_def read_varint_written option.map prod.case unzigzag [OF refl])

lemma scast_back: "ucast (scast i :: i64) = i" for i :: i32
  by (rule bit_word_eqI) (auto simp: bit_simps)

lemma read_indices_written:
  "read_indices (length is) (concat (map (\<lambda>i. zigzag_bytes (encode_zigzag (scast i))) is) @ rest) = Some (is, rest)"
  by (induction "is") (simp_all add: read_zigzag_written scast_back)

text \<open>A varint of 64 bits has at most ten bytes.\<close>

lemma zigzag_bytes_length: "unat v < 2 ^ (7 * n) \<Longrightarrow> 0 < n \<Longrightarrow> length (zigzag_bytes \<lparr>zi_value = v, zi_done = False\<rparr>) \<le> n"
proof (induction n arbitrary: v)
  case (Suc n)
  have "unat (drop_bit 7 v) = unat v div 128" by (simp add: drop_bit_eq_div unat_div)
  with Suc.prems(1) have small: "unat (drop_bit 7 v) < 2 ^ (7 * n)" by (simp add: power_add less_mult_imp_div_less)
  show ?case
  proof (cases "drop_bit 7 v = 0")
    case False
    then have "0 < unat (drop_bit 7 v)" by (simp add: unat_gt_0)
    with small have "0 < n" by (cases n) simp_all
    with Suc.IH [OF small] False show ?thesis by (simp add: zigzag_bytes_more)
  qed (simp add: zigzag_bytes_last)
qed simp

lemma zigzag_length: "length (zigzag_bytes (encode_zigzag v)) \<le> MAX_VARINT_SIZE"
  unfolding encode_zigzag_def MAX_VARINT_SIZE_def
  by (rule zigzag_bytes_length) (use unat_bound [of "push_bit 1 v XOR signed_drop_bit 63 v"] in simp_all)

lemma encode_indices_length: "length (encode_indices is) \<le> (1 + length is) * MAX_VARINT_SIZE"
proof -
  have "length (concat (map (\<lambda>i. zigzag_bytes (encode_zigzag (scast i))) is)) \<le> length is * MAX_VARINT_SIZE" for "is" :: "i32 list"
  proof (induction "is")
    case (Cons i "is")
    then show ?case using zigzag_length [of "scast i"] by simp
  qed simp
  from add_mono [OF zigzag_length this] show ?thesis by (simp add: encode_indices_def)
qed



subsection \<open>Registration\<close>

record schema_definition =
  sd_subject :: string
  sd_schema :: string
  sd_message_index :: i32

record registered_schema =
  schema_id :: i32
  message_index :: i32

record http_response =
  http_status :: nat
  http_body :: string

text \<open>
  A POST of a schema to the URL with the authentication, a GET, how JSON is read (a registration's
  ID, an error's code and message) and how a status and a body are shown.
\<close>

record registry_http =
  http_post :: "string \<Rightarrow> string \<Rightarrow> (string \<times> string) option \<Rightarrow> (string, http_response) outcome"
  http_get :: "string \<Rightarrow> (string \<times> string) option \<Rightarrow> (string, http_response) outcome"
  json_id :: "string \<Rightarrow> (string, i32) outcome"
  json_error :: "string \<Rightarrow> (string, i32 \<times> string) outcome"
  body_text :: "string \<Rightarrow> string option"
  status_text :: "nat \<Rightarrow> string"
  show_i32 :: "i32 \<Rightarrow> string"

definition is_success :: "nat \<Rightarrow> bool" where
  "is_success status \<longleftrightarrow> 200 \<le> status \<and> status < 300"

definition register_schema :: "registry_http \<Rightarrow> kafka_sink_config \<Rightarrow> string \<Rightarrow> string \<Rightarrow> string \<Rightarrow> (string, i32) outcome" where
  "register_schema http config base_url subject schema =
     (case http_post http (base_url @ ''/subjects/'' @ subject @ ''/versions'') schema (schema_registry_auth config) of
        Err e \<Rightarrow> Err (''HTTP request failed: '' @ e)
      | Panic \<Rightarrow> Panic
      | Ok response \<Rightarrow>
          if is_success (http_status response) then
            (case json_id http (http_body response) of
               Ok i \<Rightarrow> Ok i
             | Err e \<Rightarrow> Err (''Failed to parse response: '' @ e)
             | Panic \<Rightarrow> Panic)
          else if http_status response = 409 then
            (case json_error http (http_body response) of
               Ok (code, msg) \<Rightarrow> Err (''Schema conflict (code '' @ show_i32 http code @ ''): '' @ msg)
             | Err e \<Rightarrow> Err (''Failed to parse error response: '' @ e)
             | Panic \<Rightarrow> Panic)
          else Err (''HTTP '' @ status_text http (http_status response) @ '': '' @ unwrap_or (body_text http (http_body response)) ''Unknown error''))"

definition check_schema_registry :: "registry_http \<Rightarrow> kafka_sink_config \<Rightarrow> string \<Rightarrow> (string, unit) outcome" where
  "check_schema_registry http config base_url =
     (case http_get http (base_url @ ''/subjects'') (schema_registry_auth config) of
        Err e \<Rightarrow> Err (''Schema Registry unreachable: '' @ e)
      | Panic \<Rightarrow> Panic
      | Ok r \<Rightarrow>
          if is_success (http_status r) then Ok ()
          else if http_status r = 401 \<or> http_status r = 403 then
            Err (''Schema Registry auth failed (HTTP '' @ status_text http (http_status r) @ '')'')
          else Err (''Schema Registry returned HTTP '' @ status_text http (http_status r)))"

fun register_all ::
  "registry_http \<Rightarrow> kafka_sink_config \<Rightarrow> schema_definition list \<Rightarrow> (string \<rightharpoonup> registered_schema) \<Rightarrow>
    (string, string \<rightharpoonup> registered_schema) outcome" where
  "register_all http config [] registered = Ok registered"
| "register_all http config (def # defs) registered =
     (case register_schema http config (schema_registry_url config) (sd_subject def) (sd_schema def) of
        Err e \<Rightarrow> Err (''Failed to register schema for '' @ sd_subject def @ '': '' @ e)
      | Panic \<Rightarrow> Panic
      | Ok i \<Rightarrow> register_all http config defs
          (registered(sd_subject def \<mapsto> \<lparr>schema_id = i, message_index = sd_message_index def\<rparr>)))"

definition ensure_schemas_registered ::
  "registry_http \<Rightarrow> kafka_sink_config \<Rightarrow> schema_definition list \<Rightarrow> (string, string \<rightharpoonup> registered_schema) outcome" where
  "ensure_schemas_registered http config schemas =
     bind_outcome (check_schema_registry http config (schema_registry_url config))
       (\<lambda>_. register_all http config schemas Map.empty)"

text \<open>
  A subject is registered under an ID the registry gave for one of its own schemas, and only when
  the registry took every schema.
\<close>

lemma register_all_ids:
  "register_all http config defs registered = Ok registered' \<Longrightarrow>
    (\<forall>def\<in>set defs. \<exists>i. register_schema http config (schema_registry_url config) (sd_subject def) (sd_schema def) = Ok i) \<and>
    (\<forall>subject entry. registered' subject = Some entry \<longrightarrow> registered subject = Some entry \<or>
      (\<exists>def\<in>set defs. sd_subject def = subject \<and> sd_message_index def = message_index entry \<and>
        register_schema http config (schema_registry_url config) subject (sd_schema def) = Ok (schema_id entry)))"
proof (induction defs arbitrary: registered)
  case (Cons def defs)
  obtain i where i: "register_schema http config (schema_registry_url config) (sd_subject def) (sd_schema def) = Ok i"
    "register_all http config defs (registered(sd_subject def \<mapsto> \<lparr>schema_id = i, message_index = sd_message_index def\<rparr>)) = Ok registered'"
    using Cons.prems by (auto split: outcome.splits)
  note later = Cons.IH [OF i(2)]
  have "registered subject = Some entry \<or>
      (\<exists>def\<in>set (def # defs). sd_subject def = subject \<and> sd_message_index def = message_index entry \<and>
        register_schema http config (schema_registry_url config) subject (sd_schema def) = Ok (schema_id entry))"
    if "registered' subject = Some entry" for subject entry
    using conjunct2 [OF later, rule_format, OF that] i(1) by (cases "subject = sd_subject def") auto
  with later i(1) show ?case by auto
qed simp

end
