(* ===== verification/Kafka_Sink.thy ===== *)
theory Kafka_Sink
  imports Kafka_Schema Runtime_Pipeline Prefilter_Builder "HOL-Library.Char_ord"
begin

text \<open>
  The parsers of the Kafka sink and the records they make (\<open>crates/kafka-sink/src/sink.rs\<close>,
  \<open>events.rs\<close>, \<open>utils.rs\<close>, \<open>parsers.rs\<close>). A parser is a function of its input; its protobuf
  encoding, the text of its errors, base58 and JSON are code of other packages and arguments.
  The operations behind the feature \<open>experimental-account-parser\<close> are included.
\<close>

subsection \<open>Parsers\<close>

datatype parse_outcome = Parsed bytes | OutcomeFiltered | OutcomeError string

record 'i dyn_parser =
  dp_try_parse :: "'i \<Rightarrow> parse_outcome"
  dp_topic :: string
  dp_program_name :: string
  dp_program_id :: pubkey
  dp_fallback_topic :: "string option"

text \<open>The wrapper of a typed parser; \<open>encode\<close> is its protobuf encoding, \<open>explain\<close> the text of an error.\<close>

definition wrapper_try_parse ::
  "('o \<Rightarrow> bytes) \<Rightarrow> ('b parser_error \<Rightarrow> string) \<Rightarrow> ('i \<Rightarrow> 'b parser_error + 'o) \<Rightarrow> 'i \<Rightarrow> parse_outcome" where
  "wrapper_try_parse encode explain parse input =
     (case parse input of
        Inr output \<Rightarrow> Parsed (encode output)
      | Inl Filtered \<Rightarrow> OutcomeFiltered
      | Inl e \<Rightarrow> OutcomeError (explain e))"

text \<open>An account update of the stream.\<close>

record kafka_account =
  ka_pubkey :: bytes
  ka_lamports :: u64
  ka_owner :: bytes
  ka_executable :: bool
  ka_rent_epoch :: u64
  ka_data :: bytes
  ka_write_version :: u64
  ka_txn_signature :: "bytes option"

record kafka_account_update =
  kau_account :: "kafka_account option"
  kau_slot :: u64
  kau_is_startup :: bool

record 'x kafka_sink =
  ks_instruction_parsers :: "'x instruction_update dyn_parser list"
  ks_account_parsers :: "kafka_account_update dyn_parser list"
  ks_schema_ids :: "string \<rightharpoonup> registered_schema"

record 'x kafka_sink_builder =
  kb_instruction_parsers :: "'x instruction_update dyn_parser list"
  kb_account_parsers :: "kafka_account_update dyn_parser list"

definition new_builder :: "'x kafka_sink_builder" where
  "new_builder = \<lparr>kb_instruction_parsers = [], kb_account_parsers = []\<rparr>"

definition instruction_parser ::
  "('x instruction_update \<Rightarrow> parse_outcome) \<Rightarrow> pubkey \<Rightarrow> string \<Rightarrow> string \<Rightarrow> 'x kafka_sink_builder \<Rightarrow> 'x kafka_sink_builder" where
  "instruction_parser parse program_id program_name topic b =
     b\<lparr>kb_instruction_parsers := kb_instruction_parsers b @
        [\<lparr>dp_try_parse = parse, dp_topic = topic, dp_program_name = program_name, dp_program_id = program_id,
          dp_fallback_topic = None\<rparr>]\<rparr>"

definition instruction_parser_with_fallback ::
  "('x instruction_update \<Rightarrow> parse_outcome) \<Rightarrow> pubkey \<Rightarrow> string \<Rightarrow> string \<Rightarrow> string \<Rightarrow> 'x kafka_sink_builder \<Rightarrow>
    'x kafka_sink_builder" where
  "instruction_parser_with_fallback parse program_id program_name topic fallback_topic b =
     b\<lparr>kb_instruction_parsers := kb_instruction_parsers b @
        [\<lparr>dp_try_parse = parse, dp_topic = topic, dp_program_name = program_name, dp_program_id = program_id,
          dp_fallback_topic = Some fallback_topic\<rparr>]\<rparr>"

definition account_parser ::
  "(kafka_account_update \<Rightarrow> parse_outcome) \<Rightarrow> pubkey \<Rightarrow> string \<Rightarrow> string \<Rightarrow> 'x kafka_sink_builder \<Rightarrow> 'x kafka_sink_builder" where
  "account_parser parse program_id program_name topic b =
     b\<lparr>kb_account_parsers := kb_account_parsers b @
        [\<lparr>dp_try_parse = parse, dp_topic = topic, dp_program_name = program_name, dp_program_id = program_id,
          dp_fallback_topic = None\<rparr>]\<rparr>"

definition account_parser_with_fallback ::
  "(kafka_account_update \<Rightarrow> parse_outcome) \<Rightarrow> pubkey \<Rightarrow> string \<Rightarrow> string \<Rightarrow> string \<Rightarrow> 'x kafka_sink_builder \<Rightarrow>
    'x kafka_sink_builder" where
  "account_parser_with_fallback parse program_id program_name topic fallback_topic b =
     b\<lparr>kb_account_parsers := kb_account_parsers b @
        [\<lparr>dp_try_parse = parse, dp_topic = topic, dp_program_name = program_name, dp_program_id = program_id,
          dp_fallback_topic = Some fallback_topic\<rparr>]\<rparr>"

definition build_sink :: "'x kafka_sink_builder \<Rightarrow> 'x kafka_sink" where
  "build_sink b =
     \<lparr>ks_instruction_parsers = kb_instruction_parsers b, ks_account_parsers = kb_account_parsers b, ks_schema_ids = Map.empty\<rparr>"

definition parser_topics :: "'i dyn_parser \<Rightarrow> string list" where
  "parser_topics p = dp_topic p # (case dp_fallback_topic p of Some t \<Rightarrow> [t] | None \<Rightarrow> [])"

definition collect_topics ::
  "'x instruction_update dyn_parser list \<Rightarrow> kafka_account_update dyn_parser list \<Rightarrow> string list" where
  "collect_topics ips aps = sorted_list_of_set (set (concat (map parser_topics ips) @ concat (map parser_topics aps)))"

definition sink_topics :: "'x kafka_sink \<Rightarrow> string list" where
  "sink_topics sink = collect_topics (ks_instruction_parsers sink) (ks_account_parsers sink)"

definition has_transaction_work :: "'x kafka_sink \<Rightarrow> bool" where
  "has_transaction_work sink \<longleftrightarrow> ks_instruction_parsers sink \<noteq> []"

definition has_account_parsers :: "'x kafka_sink \<Rightarrow> bool" where
  "has_account_parsers sink \<longleftrightarrow> ks_account_parsers sink \<noteq> []"

definition set_schema_ids :: "(string \<rightharpoonup> registered_schema) \<Rightarrow> 'x kafka_sink \<Rightarrow> 'x kafka_sink" where
  "set_schema_ids schemas sink = sink\<lparr>ks_schema_ids := schemas\<rparr>"

definition get_schema_for_topic :: "'x kafka_sink \<Rightarrow> string \<Rightarrow> registered_schema option" where
  "get_schema_for_topic sink topic = ks_schema_ids sink (topic @ ''-value'')"

subsection \<open>Records\<close>

datatype record_kind = InstructionRecord | AccountRecord

record record_header =
  rh_key :: string
  rh_value :: string

record prepared_record =
  pr_topic :: string
  pr_payload :: bytes
  pr_key :: string
  pr_headers :: "record_header list"
  pr_is_decoded :: bool
  pr_kind :: record_kind

record raw_instruction_event =
  rie_slot :: u64
  rie_signature :: string
  rie_ix_index :: string
  rie_program_id :: string
  rie_data :: string

record raw_account_event =
  rae_slot :: u64
  rae_pubkey :: string
  rae_write_version :: u64
  rae_owner :: string
  rae_data :: string

record record_text =
  bs58_text :: "bytes \<Rightarrow> string"
  json_raw_instruction :: "raw_instruction_event \<Rightarrow> bytes"
  json_raw_account :: "raw_account_event \<Rightarrow> bytes"

definition header :: "string \<Rightarrow> string \<Rightarrow> record_header" where
  "header k v = \<lparr>rh_key = k, rh_value = v\<rparr>"

definition show_u64 :: "u64 \<Rightarrow> string" where
  "show_u64 n = decimal (unat n)"

text \<open>\<open>Debug\<close> of a path: the indices, counted from one, with dots between them.\<close>

definition path_debug :: "path \<Rightarrow> string" where
  "path_debug p = join_with ''.'' (map (\<lambda>i. decimal (unat (i + 1))) p)"

definition make_instruction_record_key :: "u64 \<Rightarrow> string \<Rightarrow> string \<Rightarrow> string" where
  "make_instruction_record_key slot signature ix_index = show_u64 slot @ '':'' @ signature @ '':'' @ ix_index"

definition make_account_record_key :: "u64 \<Rightarrow> string \<Rightarrow> u64 \<Rightarrow> string" where
  "make_account_record_key slot pubkey version = show_u64 slot @ '':'' @ pubkey @ '':'' @ show_u64 version"

record instruction_record_context =
  ctx_slot :: u64
  ctx_tx_index :: u64
  ctx_signature :: bytes
  ctx_fee_payer :: "bytes option"
  ctx_path :: path

definition instruction_base_record :: "record_text \<Rightarrow> instruction_record_context \<Rightarrow> string \<times> record_header list" where
  "instruction_base_record txt c =
     (let sig_str = bs58_text txt (ctx_signature c);
          path_str = path_debug (ctx_path c);
          headers = [header ''slot'' (show_u64 (ctx_slot c)), header ''signature'' sig_str,
                     header ''tx_index'' (show_u64 (ctx_tx_index c)), header ''ix_index'' path_str]
      in (make_instruction_record_key (ctx_slot c) sig_str path_str,
          case ctx_fee_payer c of
            Some fee_payer \<Rightarrow> headers @ [header ''fee_payer'' (bs58_text txt fee_payer)]
          | None \<Rightarrow> headers))"

definition encode_payload_for_topic :: "'x kafka_sink \<Rightarrow> string \<Rightarrow> bytes \<Rightarrow> bytes" where
  "encode_payload_for_topic sink topic raw_data =
     (case get_schema_for_topic sink topic of
        Some schema \<Rightarrow>
          wrap_payload_with_confluent_wire_format (schema_id schema)
            (if message_index schema = 0 then [] else [message_index schema]) raw_data
      | None \<Rightarrow> raw_data)"

definition prepare_decoded_instruction_record ::
  "record_text \<Rightarrow> 'x kafka_sink \<Rightarrow> instruction_record_context \<Rightarrow> bytes \<Rightarrow> string \<Rightarrow> prepared_record" where
  "prepare_decoded_instruction_record txt sink c parsed topic =
     (case instruction_base_record txt c of (key, headers) \<Rightarrow>
        \<lparr>pr_topic = topic, pr_payload = encode_payload_for_topic sink topic parsed, pr_key = key, pr_headers = headers,
         pr_is_decoded = True, pr_kind = InstructionRecord\<rparr>)"

definition prepare_fallback_instruction_record ::
  "record_text \<Rightarrow> instruction_record_context \<Rightarrow> 'x instruction_update \<Rightarrow> string \<Rightarrow> string \<Rightarrow> prepared_record" where
  "prepare_fallback_instruction_record txt c ix fallback_topic error =
     (case instruction_base_record txt c of (key, headers) \<Rightarrow>
        let program_id = bs58_text txt (ix_program ix);
            event = \<lparr>rie_slot = ctx_slot c, rie_signature = bs58_text txt (ctx_signature c),
                     rie_ix_index = path_debug (ctx_path c), rie_program_id = program_id, rie_data = bs58_text txt (ix_data ix)\<rparr>
        in \<lparr>pr_topic = fallback_topic, pr_payload = json_raw_instruction txt event, pr_key = key,
            pr_headers = headers @ [header ''program_id'' program_id, header ''parse_error'' error],
            pr_is_decoded = False, pr_kind = InstructionRecord\<rparr>)"

definition instruction_fee_payer :: "'x instruction_update \<Rightarrow> bytes option" where
  "instruction_fee_payer ix = (case static_keys (sh_accounts (ix_shared ix)) of k # _ \<Rightarrow> Some k | [] \<Rightarrow> None)"

subsection \<open>Parsing\<close>

fun try_instruction_parsers ::
  "record_text \<Rightarrow> 'x kafka_sink \<Rightarrow> instruction_record_context \<Rightarrow> 'x instruction_update \<Rightarrow> bool \<Rightarrow>
    'x instruction_update dyn_parser list \<Rightarrow> prepared_record option \<times> bool" where
  "try_instruction_parsers txt sink c ix had_error [] = (None, had_error)"
| "try_instruction_parsers txt sink c ix had_error (p # ps) =
     (if ix_program ix \<noteq> dp_program_id p then try_instruction_parsers txt sink c ix had_error ps
      else
        (case dp_try_parse p ix of
           Parsed parsed \<Rightarrow> (Some (prepare_decoded_instruction_record txt sink c parsed (dp_topic p)), False)
         | OutcomeFiltered \<Rightarrow> try_instruction_parsers txt sink c ix had_error ps
         | OutcomeError e \<Rightarrow>
             (case dp_fallback_topic p of
                Some fallback \<Rightarrow> (Some (prepare_fallback_instruction_record txt c ix fallback e), True)
              | None \<Rightarrow> try_instruction_parsers txt sink c ix True ps)))"

definition parse_instruction ::
  "record_text \<Rightarrow> 'x kafka_sink \<Rightarrow> u64 \<Rightarrow> u64 \<Rightarrow> bytes \<Rightarrow> path \<Rightarrow> 'x instruction_update \<Rightarrow> prepared_record option \<times> bool" where
  "parse_instruction txt sink slot index signature path ix =
     try_instruction_parsers txt sink
       \<lparr>ctx_slot = slot, ctx_tx_index = index, ctx_signature = signature, ctx_fee_payer = instruction_fee_payer ix,
        ctx_path = path\<rparr> ix False (ks_instruction_parsers sink)"

definition account_headers :: "u64 \<Rightarrow> string \<Rightarrow> u64 \<Rightarrow> string \<Rightarrow> record_header list" where
  "account_headers slot pubkey version owner =
     [header ''slot'' (show_u64 slot), header ''pubkey'' pubkey, header ''write_version'' (show_u64 version),
      header ''owner'' owner]"

definition prepare_decoded_account_record ::
  "'x kafka_sink \<Rightarrow> u64 \<Rightarrow> string \<Rightarrow> u64 \<Rightarrow> string \<Rightarrow> bytes \<Rightarrow> string \<Rightarrow> prepared_record" where
  "prepare_decoded_account_record sink slot pubkey version owner parsed topic =
     \<lparr>pr_topic = topic, pr_payload = encode_payload_for_topic sink topic parsed,
      pr_key = make_account_record_key slot pubkey version,
      pr_headers = account_headers slot pubkey version owner, pr_is_decoded = True, pr_kind = AccountRecord\<rparr>"

definition prepare_fallback_account_record ::
  "record_text \<Rightarrow> u64 \<Rightarrow> string \<Rightarrow> u64 \<Rightarrow> string \<Rightarrow> bytes \<Rightarrow> string \<Rightarrow> string \<Rightarrow> prepared_record" where
  "prepare_fallback_account_record txt slot pubkey version owner data fallback_topic error =
     \<lparr>pr_topic = fallback_topic,
      pr_payload = json_raw_account txt \<lparr>rae_slot = slot, rae_pubkey = pubkey, rae_write_version = version,
        rae_owner = owner, rae_data = bs58_text txt data\<rparr>,
      pr_key = make_account_record_key slot pubkey version,
      pr_headers = account_headers slot pubkey version owner @ [header ''parse_error'' error],
      pr_is_decoded = False, pr_kind = AccountRecord\<rparr>"

fun try_account_parsers ::
  "record_text \<Rightarrow> 'x kafka_sink \<Rightarrow> u64 \<Rightarrow> kafka_account_update \<Rightarrow> kafka_account \<Rightarrow> bool \<Rightarrow>
    kafka_account_update dyn_parser list \<Rightarrow> prepared_record option \<times> bool" where
  "try_account_parsers txt sink slot acct inner had_error [] = (None, had_error)"
| "try_account_parsers txt sink slot acct inner had_error (p # ps) =
     (if dp_program_id p \<noteq> ka_owner inner then try_account_parsers txt sink slot acct inner had_error ps
      else
        (case dp_try_parse p acct of
           Parsed parsed \<Rightarrow>
             (Some (prepare_decoded_account_record sink slot (bs58_text txt (ka_pubkey inner)) (ka_write_version inner)
                (bs58_text txt (ka_owner inner)) parsed (dp_topic p)), False)
         | OutcomeFiltered \<Rightarrow> try_account_parsers txt sink slot acct inner had_error ps
         | OutcomeError e \<Rightarrow>
             (case dp_fallback_topic p of
                Some fallback \<Rightarrow>
                  (Some (prepare_fallback_account_record txt slot (bs58_text txt (ka_pubkey inner)) (ka_write_version inner)
                     (bs58_text txt (ka_owner inner)) (ka_data inner) fallback e), True)
              | None \<Rightarrow> try_account_parsers txt sink slot acct inner True ps)))"

definition parse_account ::
  "record_text \<Rightarrow> 'x kafka_sink \<Rightarrow> u64 \<Rightarrow> kafka_account_update \<Rightarrow> prepared_record option \<times> bool" where
  "parse_account txt sink slot acct =
     (case kau_account acct of
        None \<Rightarrow> (None, False)
      | Some inner \<Rightarrow> try_account_parsers txt sink slot acct inner False (ks_account_parsers sink))"

subsection \<open>Subscriptions\<close>

definition transaction_subscription_prefilter :: prefilter where
  "transaction_subscription_prefilter =
     default_prefilter\<lparr>pf_transaction := Some (default_transaction_prefilter\<lparr>tp_failed := None\<rparr>)\<rparr>"

definition transaction_subscription :: "'x kafka_sink \<Rightarrow> (string \<times> prefilter) option" where
  "transaction_subscription sink =
     (if has_transaction_work sink then Some (''kafka-sink::TransactionSubscription'', transaction_subscription_prefilter)
      else None)"

text \<open>The owners are listed from a set; \<open>order\<close> is the order of that listing.\<close>

definition account_subscription_owners :: "(pubkey set \<Rightarrow> pubkey list) \<Rightarrow> 'x kafka_sink \<Rightarrow> pubkey list option" where
  "account_subscription_owners order sink =
     (if \<not> has_account_parsers sink then None else Some (order (set (map dp_program_id (ks_account_parsers sink)))))"

text \<open>\<open>build().unwrap()\<close>\<close>

definition account_subscription_prefilter :: "pubkey list \<Rightarrow> (prefilter_error, prefilter) outcome" where
  "account_subscription_prefilter owners =
     (case build_prefilter (account_owners owners default_prefilter_builder) of Ok p \<Rightarrow> Ok p | _ \<Rightarrow> Panic)"

subsection \<open>Which parser answers\<close>

text \<open>A parser that settles an instruction of its program: it decodes it, or fails and has a fallback topic.\<close>

definition settles :: "'i \<Rightarrow> pubkey \<Rightarrow> 'i dyn_parser \<Rightarrow> bool" where
  "settles input program p \<longleftrightarrow> dp_program_id p = program \<and>
     (case dp_try_parse p input of
        Parsed _ \<Rightarrow> True | OutcomeFiltered \<Rightarrow> False | OutcomeError _ \<Rightarrow> dp_fallback_topic p \<noteq> None)"

definition fails :: "'i \<Rightarrow> pubkey \<Rightarrow> 'i dyn_parser \<Rightarrow> bool" where
  "fails input program p \<longleftrightarrow> dp_program_id p = program \<and> (\<exists>e. dp_try_parse p input = OutcomeError e)"

lemma try_instruction_parsers_spec:
  "try_instruction_parsers txt sink c ix had_error ps =
    (case List.find (settles ix (ix_program ix)) ps of
       None \<Rightarrow> (None, had_error \<or> (\<exists>p\<in>set ps. fails ix (ix_program ix) p))
     | Some p \<Rightarrow>
         (case (dp_try_parse p ix, dp_fallback_topic p) of
            (Parsed parsed, _) \<Rightarrow> (Some (prepare_decoded_instruction_record txt sink c parsed (dp_topic p)), False)
          | (OutcomeError e, Some fallback) \<Rightarrow> (Some (prepare_fallback_instruction_record txt c ix fallback e), True)
          | _ \<Rightarrow> (None, False)))"
  by (induction ps arbitrary: had_error)
     (auto simp: settles_def fails_def split: parse_outcome.splits option.splits)

lemma try_account_parsers_spec:
  "try_account_parsers txt sink slot acct inner had_error ps =
    (case List.find (settles acct (ka_owner inner)) ps of
       None \<Rightarrow> (None, had_error \<or> (\<exists>p\<in>set ps. fails acct (ka_owner inner) p))
     | Some p \<Rightarrow>
         (case (dp_try_parse p acct, dp_fallback_topic p) of
            (Parsed parsed, _) \<Rightarrow>
              (Some (prepare_decoded_account_record sink slot (bs58_text txt (ka_pubkey inner)) (ka_write_version inner)
                 (bs58_text txt (ka_owner inner)) parsed (dp_topic p)), False)
          | (OutcomeError e, Some fallback) \<Rightarrow>
              (Some (prepare_fallback_account_record txt slot (bs58_text txt (ka_pubkey inner)) (ka_write_version inner)
                 (bs58_text txt (ka_owner inner)) (ka_data inner) fallback e), True)
          | _ \<Rightarrow> (None, False)))"
  by (induction ps arbitrary: had_error)
     (auto simp: settles_def fails_def split: parse_outcome.splits option.splits)

lemma find_settles: "List.find (settles i program) ps = Some p \<Longrightarrow> p \<in> set ps \<and> settles i program p"
  by (auto simp: find_Some_iff)

subsection \<open>Keys and topics\<close>

lemma record_fields:
  "pr_key (prepare_decoded_instruction_record txt sink c parsed topic) =
     make_instruction_record_key (ctx_slot c) (bs58_text txt (ctx_signature c)) (path_debug (ctx_path c))"
  "pr_key (prepare_fallback_instruction_record txt c ix fallback e) =
     make_instruction_record_key (ctx_slot c) (bs58_text txt (ctx_signature c)) (path_debug (ctx_path c))"
  "pr_is_decoded (prepare_decoded_instruction_record txt sink c parsed topic)"
  "\<not> pr_is_decoded (prepare_fallback_instruction_record txt c ix fallback e)"
  "pr_kind (prepare_decoded_instruction_record txt sink c parsed topic) = InstructionRecord"
  "pr_kind (prepare_fallback_instruction_record txt c ix fallback e) = InstructionRecord"
  "pr_topic (prepare_decoded_instruction_record txt sink c parsed topic) = topic"
  "pr_topic (prepare_fallback_instruction_record txt c ix fallback e) = fallback"
  by (simp_all add: prepare_decoded_instruction_record_def prepare_fallback_instruction_record_def
      instruction_base_record_def Let_def)

lemma parse_instruction_record:
  assumes "parse_instruction txt sink slot index signature path ix = (Some r, had_error)"
  shows "pr_key r = make_instruction_record_key slot (bs58_text txt signature) (path_debug path)"
    and "pr_is_decoded r \<longleftrightarrow> \<not> had_error" and "pr_kind r = InstructionRecord" and "pr_topic r \<in> set (sink_topics sink)"
proof -
  from assms obtain p where p: "List.find (settles ix (ix_program ix)) (ks_instruction_parsers sink) = Some p"
    by (auto simp: parse_instruction_def try_instruction_parsers_spec split: option.splits)
  note p' = find_settles [OF p]
  show "pr_key r = make_instruction_record_key slot (bs58_text txt signature) (path_debug path)"
    "pr_is_decoded r \<longleftrightarrow> \<not> had_error" "pr_kind r = InstructionRecord"
    using assms p by (auto simp: parse_instruction_def try_instruction_parsers_spec record_fields split: parse_outcome.splits option.splits)
  have "pr_topic r \<in> set (parser_topics p)"
    using assms p by (auto simp: parse_instruction_def try_instruction_parsers_spec record_fields parser_topics_def split: parse_outcome.splits option.splits)
  with p' show "pr_topic r \<in> set (sink_topics sink)" by (auto simp: sink_topics_def collect_topics_def)
qed

text \<open>Base58 text tells byte strings apart and has no colon (both documented).\<close>

definition bs58_ok :: "(bytes \<Rightarrow> string) \<Rightarrow> bool" where
  "bs58_ok f \<longleftrightarrow> inj f \<and> (\<forall>b. CHR '':'' \<notin> set (f b))"

lemma dotted_inj:
  assumes "\<And>x y. f x = f y \<Longrightarrow> x = y"
  shows "join_with ''.'' (map (\<lambda>x. decimal (f x)) p) = join_with ''.'' (map (\<lambda>x. decimal (f x)) q) \<longleftrightarrow> p = q"
proof -
  have parts: "\<forall>s\<in>set (map (\<lambda>x. decimal (f x)) r). s \<noteq> [] \<and> CHR ''.'' \<notin> set s" for r
    using digit_not_in_decimal [of "CHR ''.''"] by auto
  have "inj (\<lambda>x. decimal (f x))" using assms by (auto simp: inj_def decimal_inj)
  then show ?thesis unfolding join_inj [OF parts parts] by (rule inj_map_eq_map)
qed

lemma path_debug_inj: "path_debug p = path_debug q \<longleftrightarrow> p = q"
  unfolding path_debug_def by (rule dotted_inj) (simp flip: word_eq_iff_unsigned)

lemma colon_free [simp]: "CHR '':'' \<notin> set (show_u64 n)"
  by (simp add: show_u64_def digit_not_in_decimal)

lemma show_u64_inj [simp]: "show_u64 m = show_u64 n \<longleftrightarrow> m = n"
  by (simp add: show_u64_def decimal_inj flip: word_eq_iff_unsigned)

lemma record_key_inj:
  "CHR '':'' \<notin> set a \<Longrightarrow> CHR '':'' \<notin> set b \<Longrightarrow>
    show_u64 m @ '':'' @ a @ '':'' @ x = show_u64 n @ '':'' @ b @ '':'' @ y \<longleftrightarrow> m = n \<and> a = b \<and> x = y"
  by (simp add: split_at_separator)

lemma account_key_inj:
  assumes "bs58_ok f"
  shows "make_account_record_key m (f a) v = make_account_record_key n (f b) w \<longleftrightarrow> m = n \<and> a = b \<and> v = w"
proof -
  have "CHR '':'' \<notin> set (f c)" "f a = f b \<longleftrightarrow> a = b" for c using assms by (auto simp: bs58_ok_def inj_eq)
  then show ?thesis unfolding make_account_record_key_def by (subst record_key_inj) auto
qed

text \<open>
  C40. Record keys identify instructions: two instruction records, decoded or fallback, whatever
  parsers made them, have the same Kafka key exactly when they are for the same slot, the same
  transaction signature and the same instruction index. Every record goes to a topic the sink lists.
\<close>

theorem record_keys_identify:
  assumes "bs58_ok (bs58_text txt)"
    and "parse_instruction txt sink slot index signature path ix = (Some r, e)"
    and "parse_instruction txt sink slot' index' signature' path' ix' = (Some r', e')"
  shows "(pr_key r = pr_key r' \<longleftrightarrow> slot = slot' \<and> signature = signature' \<and> path = path') \<and>
    {pr_topic r, pr_topic r'} \<subseteq> set (sink_topics sink)"
proof -
  have "CHR '':'' \<notin> set (bs58_text txt b)" "bs58_text txt signature = bs58_text txt signature' \<longleftrightarrow> signature = signature'" for b
    using assms(1) by (auto simp: bs58_ok_def inj_eq)
  then have "make_instruction_record_key slot (bs58_text txt signature) (path_debug path) =
      make_instruction_record_key slot' (bs58_text txt signature') (path_debug path') \<longleftrightarrow> slot = slot' \<and> signature = signature' \<and> path = path'"
    unfolding make_instruction_record_key_def by (subst record_key_inj) (auto simp: path_debug_inj)
  then show ?thesis
    using parse_instruction_record(1,4) [OF assms(2)] parse_instruction_record(1,4) [OF assms(3)] by simp
qed

text \<open>A text for byte strings, and a sink with one parser and a fallback.\<close>

definition demo_text :: record_text where
  "demo_text = \<lparr>bs58_text = (\<lambda>b. join_with ''.'' (map (\<lambda>x. decimal (unat x)) b)), json_raw_instruction = (\<lambda>_. [123]),
    json_raw_account = (\<lambda>_. [123])\<rparr>"

lemma demo_text_ok: "bs58_ok (bs58_text demo_text)"
proof -
  have "inj (bs58_text demo_text)"
    unfolding inj_def demo_text_def record_text.simps by (subst dotted_inj) (auto simp flip: word_eq_iff_unsigned)
  moreover have "c \<in> set (join_with ''.'' xs) \<Longrightarrow> c = CHR ''.'' \<or> (\<exists>x\<in>set xs. c \<in> set x)" for c xs
    by (induction "''.''" xs rule: join_with.induct) auto
  then have "CHR '':'' \<notin> set (bs58_text demo_text b)" for b
    using digit_not_in_decimal [of "CHR '':''"] by (fastforce simp: demo_text_def)
  ultimately show ?thesis by (simp add: bs58_ok_def)
qed

definition demo_sink :: "nat kafka_sink" where
  "demo_sink = build_sink (instruction_parser_with_fallback
     (\<lambda>ix. if ix_data ix = [] then OutcomeError ''empty'' else if ix_data ix = [0] then OutcomeFiltered else Parsed (ix_data ix))
     [9] ''demo'' ''demo.instructions'' ''failed.demo.instructions'' new_builder)"

definition demo_call :: "bytes \<Rightarrow> path \<Rightarrow> nat instruction_update" where
  "demo_call data p = InstructionUpdate [9] [] data
     \<lparr>sh_slot = 5, sh_signature = [1], sh_is_vote = False, sh_txn_index = 0, sh_err = None, sh_fee = 0, sh_pre_balances = [],
      sh_post_balances = [], sh_pre_token_balances = [], sh_post_token_balances = [], sh_log_messages = [], sh_rewards = [],
      sh_compute_units_consumed = None, sh_recent_blockhash = [],
      sh_accounts = \<lparr>static_keys = [], dynamic_rw = [], dynamic_ro = []\<rparr>, sh_message_header = 0, sh_transaction_config = None\<rparr>
     [] p (0, 0)"

theorem record_keys_identify_witness:
  "\<exists>r r'. parse_instruction demo_text demo_sink 5 0 [1] [0] (demo_call [7] [0]) = (Some r, False) \<and>
    parse_instruction demo_text demo_sink 5 0 [1] [0, 2] (demo_call [] [0, 1]) = (Some r', True) \<and>
    pr_key r \<noteq> pr_key r' \<and> {pr_topic r, pr_topic r'} \<subseteq> set (sink_topics demo_sink)"
proof -
  obtain r r' where r: "parse_instruction demo_text demo_sink 5 0 [1] [0] (demo_call [7] [0]) = (Some r, False)"
      "parse_instruction demo_text demo_sink 5 0 [1] [0, 2] (demo_call [] [0, 1]) = (Some r', True)"
    by (simp add: parse_instruction_def demo_sink_def build_sink_def instruction_parser_with_fallback_def new_builder_def demo_call_def)
  from record_keys_identify [OF demo_text_ok this] show ?thesis using r by auto
qed

end
