(* ===== verification/Coordinator_Slots.thy ===== *)
theory Coordinator_Slots
  imports Coordinator_Order "HOL-Library.Sublist"
begin

text \<open>
  What a delivered slot holds, over a whole run of the coordinator with its drains
  (\<open>crates/block-coordinator/src/state.rs\<close>): the records that were reported for the slot up to the
  moment its gate was met, and no others.
\<close>

subsection \<open>A slot that is being filled\<close>

definition parsed_count :: "slot \<Rightarrow> 'r coordinator_state \<Rightarrow> u64" where
  "parsed_count sl s = (case bt_get (buffer s) sl of None \<Rightarrow> 0 | Some b \<Rightarrow> parsed_tx_count b)"

definition is_parsed :: "slot \<Rightarrow> 'r coordinator_event \<Rightarrow> bool" where
  "is_parsed sl e \<longleftrightarrow> (case e of TransactionParsed sl' \<Rightarrow> sl' = sl | _ \<Rightarrow> False)"

lemma parsed_with_entry:
  assumes "bt_ok (buffer s)" and "\<And>b. parsed_tx_count (f b) = parsed_tx_count b + n"
  shows "parsed_count sl (with_entry sl' f s) = parsed_count sl s + (if sl' = sl then n else 0)"
  using assms by (cases "bt_get (buffer s) sl") (auto simp: parsed_count_def get_with_entry default_buffer_def)

lemma parsed_with_entry0:
  "bt_ok (buffer s) \<Longrightarrow> (\<And>b. parsed_tx_count (f b) = parsed_tx_count b) \<Longrightarrow>
    parsed_count sl (with_entry sl' f s) = parsed_count sl s"
  using parsed_with_entry [of s f 0] by simp

text \<open>The gate fields of a slot's buffer that an update may touch.\<close>

definition unfilled :: "slot \<Rightarrow> (block_metadata \<Rightarrow> bool) \<Rightarrow> 'r coordinator_state \<Rightarrow> bool" where
  "unfilled sl P s \<longleftrightarrow> (\<forall>b. bt_get (buffer s) sl = Some b \<longrightarrow>
     \<not> instructions_drained b \<and> (\<forall>m. metadata b = Some m \<longrightarrow> P m))"

lemma unfilled_with_entry:
  assumes "bt_ok (buffer s)" and "unfilled sl P s"
    and "\<And>b. instructions_drained (f b) = instructions_drained b" and "\<And>b m. metadata (f b) = Some m \<Longrightarrow> metadata b = Some m \<or> sl' \<noteq> sl \<or> P m"
  shows "unfilled sl P (with_entry sl' f s)"
  using assms by (cases "bt_get (buffer s) sl") (fastforce simp: unfilled_def get_with_entry default_buffer_def)+

lemma unfilled_same:
  "bt_ok (buffer s) \<Longrightarrow> unfilled sl P s \<Longrightarrow> (\<And>b. instructions_drained (f b) = instructions_drained b) \<Longrightarrow>
    (\<And>b. metadata (f b) = metadata b) \<Longrightarrow> unfilled sl P (with_entry sl' f s)"
  by (rule unfilled_with_entry) simp_all

lemma parsed_buffer: "bt_get (buffer t) sl = bt_get (buffer s) sl \<Longrightarrow> parsed_count sl t = parsed_count sl s"
  and unfilled_buffer: "bt_get (buffer t) sl = bt_get (buffer s) sl \<Longrightarrow> unfilled sl P t = unfilled sl P s"
  by (simp_all add: parsed_count_def unfilled_def)

lemma fill_frames [simp]:
  "parsed_count sl (s\<lparr>account_event_counts := c\<rparr>) = parsed_count sl s"
  "parsed_count sl (s\<lparr>late_account_event_drops := n\<rparr>) = parsed_count sl s"
  "parsed_count sl (s\<lparr>late_account_record_drops := n\<rparr>) = parsed_count sl s"
  "unfilled sl P (s\<lparr>account_event_counts := c\<rparr>) = unfilled sl P s"
  "unfilled sl P (s\<lparr>late_account_event_drops := n\<rparr>) = unfilled sl P s"
  "unfilled sl P (s\<lparr>late_account_record_drops := n\<rparr>) = unfilled sl P s"
  by (simp_all add: parsed_count_def unfilled_def)

lemma freeze_fills:
  assumes "bt_ok (buffer s)"
  shows "parsed_count sl (freeze_account_gate sl' s) = parsed_count sl s"
    and "unfilled sl P s \<Longrightarrow> unfilled sl P (freeze_account_gate sl' s)"
  using assms
  by (auto simp: freeze_account_gate_def Let_def parsed_with_entry0 buffer_update_defs intro!: unfilled_same split: if_splits)

lemma increment_parse_stat_parsed [simp]: "parsed_tx_count (increment_parse_stat k b) = parsed_tx_count b"
  by (cases k) simp_all

lemma fill_apply:
  assumes ok: "bt_ok (buffer s)" and valid: "validate_instruction_slot sl s" and nd: "\<not> discards sl e" and un: "unfilled sl P s"
    and frozen: "\<And>m. e = BlockFrozen sl m \<Longrightarrow> P m"
  shows "parsed_count sl (apply_event e s) = parsed_count sl s + (if is_parsed sl e then 1 else 0) \<and> unfilled sl P (apply_event e s)"
proof (cases e)
  case (BlockFrozen sl' m)
  have "unfilled sl P (with_entry sl' (set_block_metadata m) s)"
    using frozen BlockFrozen by (intro unfilled_with_entry [OF ok un]) (auto simp: buffer_update_defs split: if_splits)
  with BlockFrozen un show ?thesis by (simp add: is_parsed_def parsed_with_entry0 ok buffer_update_defs)
next
  case (AccountRecordParsed sl' k r)
  then show ?thesis
    using validated_cases [of sl' s] ok un
    by (auto simp: is_parsed_def parsed_with_entry0 buffer_update_defs intro!: unfilled_same)
next
  case (ParseStats sl' k)
  then show ?thesis
    using validated_cases [of sl' s] ok un
    by (auto simp: is_parsed_def parsed_with_entry0 buffer_update_defs intro!: unfilled_same)
next
  case (SlotDiscarded sl' r)
  then have "bt_get (buffer (apply_event e s)) sl = bt_get (buffer s) sl"
    using nd ok by (simp add: discard_slot_def prune_discarded_slots_def Let_def bt_simps split: option.splits)
  with SlotDiscarded un show ?thesis
    using parsed_buffer unfilled_buffer by (fastforce simp: is_parsed_def)
next
  case (TransactionParsed sl')
  then show ?thesis
    using parsed_with_entry [OF ok, of increment_parsed_tx_count 1 sl sl'] valid un unfilled_same [OF ok un, of increment_parsed_tx_count sl']
    by (auto simp: is_parsed_def buffer_update_defs)
qed (use ok un in \<open>auto simp: is_parsed_def Let_def parsed_with_entry0 freeze_fills bt_ok_with_entry buffer_update_defs
       intro!: unfilled_same freeze_fills\<close>)

definition tracked :: "slot \<Rightarrow> 'r coordinator_event list \<Rightarrow> 'r coordinator_state \<Rightarrow> bool" where
  "tracked sl es s \<longleftrightarrow> state_ok s \<and> validate_instruction_slot sl s \<and>
     slot_records sl s = fold (\<lambda>(k, r). bt_insert k r) (records_for sl es) [] \<and>
     parsed_count sl s = of_nat (length (filter (is_parsed sl) es)) \<and>
     unfilled sl (\<lambda>m. BlockFrozen sl m \<in> set es) s"

lemma records_for_append: "records_for sl (es @ es') = records_for sl es @ records_for sl es'"
  by (induction es rule: records_for.induct [of _ sl]) auto

lemma tracked_apply:
  assumes "tracked sl es s" and "\<not> discards sl e"
  shows "tracked sl (es @ [e]) (apply_event e s)"
proof -
  from assms(1) have ok: "state_ok s" "bt_ok (buffer s)" "validate_instruction_slot sl s"
    and un: "unfilled sl (\<lambda>m. BlockFrozen sl m \<in> set (es @ [e])) s"
    by (auto simp: tracked_def state_ok_def unfilled_def)
  show ?thesis
    using assms fill_apply [OF ok(2,3) assms(2) un] slot_records_apply [OF ok(2,3) assms(2)] validate_keeps [OF ok(3) assms(2)]
      state_ok_apply [OF ok(1), of e]
    by (auto simp: tracked_def records_for_append)
qed

lemma tracked_run: "tracked sl es s \<Longrightarrow> \<forall>e\<in>set es'. \<not> discards sl e \<Longrightarrow> tracked sl (es @ es') (fold apply_event es' s)"
proof (induction es' arbitrary: es s)
  case (Cons e es')
  from Cons.IH [OF tracked_apply [OF Cons.prems(1)], of e] Cons.prems(2) show ?case by simp
qed simp

subsection \<open>Drains of other slots\<close>

context slot_scan
begin

lemma mark_other:
  "k \<notin> slot_of ` set (scan_out drained stops emit l m) \<Longrightarrow> map_of (scan_mark drained stops mark l m) k = map_of m k"
  by (induction m arbitrary: l) (auto simp: emit_slot split: if_splits)

end

lemma cleanup_keeps:
  "bt_ok (buffer s) \<Longrightarrow> bt_get (buffer s) sl = Some b \<Longrightarrow> \<not> instructions_drained b \<Longrightarrow>
    bt_get (buffer (cleanup_fully_drained s)) sl = Some b"
  "bt_ok (buffer s) \<Longrightarrow> bt_get (buffer s) sl = None \<Longrightarrow> bt_get (buffer (cleanup_fully_drained s)) sl = None"
  by (simp_all add: cleanup_buffer bt_get_retain is_fully_drained_def)

lemma drain_instruction_other:
  assumes ok: "state_ok s" and un: "unfilled sl P s" and dr: "drain_instruction_flushable s = (t, Ok xs)" and "sl \<notin> is_slot ` set xs"
  shows "bt_get (buffer t) sl = bt_get (buffer s) sl"
proof (cases "xs = []")
  case True
  with dr ok show ?thesis by (auto simp: drain_instruction_eq state_ok_def Let_def split: if_splits)
next
  case False
  let ?l = "last_instruction_flushed_slot s" and ?st = "ix_stops (discarded_slots s)"
  let ?m = "scan_mark instructions_drained ?st ix_mark ?l (buffer s)"
  let ?t = "s\<lparr>buffer := ?m, last_instruction_flushed_slot := scan_last instructions_drained ?st ?l (buffer s)\<rparr>"
  have xs: "xs = scan_out instructions_drained ?st ix_emit ?l (buffer s)" using drain_instruction_out [OF ok dr] by simp
  have t: "t = cleanup_fully_drained ?t"
    using dr ok xs False by (simp add: drain_instruction_eq state_ok_def Let_def split: if_splits)
  have same: "bt_get ?m sl = bt_get (buffer s) sl" using ix.mark_other assms(4) xs by blast
  have "bt_ok ?m" using ok by (simp add: state_ok_def bt_ok_def ix.mark_keys)
  then show ?thesis
    using cleanup_keeps [of ?t sl] un same t by (cases "bt_get (buffer s) sl") (auto simp: unfilled_def)
qed

lemma drain_account_fields:
  assumes ok: "state_ok s" and un: "unfilled sl P s"
  shows "rel_option (\<lambda>b b'. instruction_records b = instruction_records b' \<and> parsed_tx_count b = parsed_tx_count b' \<and>
      metadata b = metadata b' \<and> instructions_drained b = instructions_drained b')
    (bt_get (buffer (fst (drain_account_flushable s))) sl) (bt_get (buffer s) sl)"
proof -
  let ?R = "\<lambda>b b' :: 'a slot_record_buffer. instruction_records b = instruction_records b' \<and> parsed_tx_count b = parsed_tx_count b' \<and>
      metadata b = metadata b' \<and> instructions_drained b = instructions_drained b'"
  let ?l = "last_account_flushed_slot s"
  let ?m = "scan_mark accounts_drained acct_stops acct_mark ?l (buffer s)"
  let ?t = "s\<lparr>buffer := ?m, last_account_flushed_slot := scan_last accounts_drained acct_stops ?l (buffer s)\<rparr>"
  have btok: "bt_ok (buffer s)" "bt_ok ?m" using ok by (simp_all add: state_ok_def bt_ok_def acct.mark_keys)
  have mark: "?R (acct_mark k b) b" for k b by (simp add: acct_mark_def drain_account_records_def)
  have rel: "rel_option ?R (bt_get ?m sl) (bt_get (buffer s) sl)"
  proof (cases "bt_get ?m sl")
    case None
    moreover from None have "bt_get (buffer s) sl = None"
      by (simp add: map_of_eq_None_iff) (metis acct.mark_keys set_map)
    ultimately show ?thesis by simp
  next
    case (Some b)
    then have "(sl, b) \<in> set ?m" by (simp add: bt_get_iff [OF btok(2)])
    from acct.mark_members [OF this] show ?thesis
      using Some mark by (auto simp: bt_get_iff [OF btok(1), symmetric])
  qed
  have t: "fst (drain_account_flushable s) = s \<or> fst (drain_account_flushable s) = cleanup_fully_drained ?t"
    using ok by (simp add: drain_account_eq state_ok_def Let_def)
  have "rel_option ?R (bt_get (buffer (cleanup_fully_drained ?t)) sl) (bt_get (buffer s) sl)"
  proof (cases "bt_get (buffer s) sl")
    case None
    with rel have "bt_get ?m sl = None" by simp
    with None show ?thesis using cleanup_keeps(2) [of ?t sl] btok(2) by simp
  next
    case (Some b)
    with rel obtain b' where b': "bt_get ?m sl = Some b'" "?R b' b" by (cases "bt_get ?m sl") auto
    with un Some have "\<not> instructions_drained b'" by (auto simp: unfilled_def)
    with b' Some show ?thesis using cleanup_keeps(1) [of ?t sl b'] btok(2) by simp
  qed
  then show ?thesis using t by (auto simp: option.rel_refl)
qed

lemma discarded_drain:
  assumes "state_ok s"
  shows "discarded_slots (fst (drain_instruction_flushable s)) \<subseteq> discarded_slots s"
    and "discarded_slots (fst (drain_account_flushable s)) \<subseteq> discarded_slots s"
  using assms by (auto simp: drain_instruction_eq drain_account_eq state_ok_def Let_def dest!: subsetD [OF cleanup_discarded])

lemma tracked_drain:
  assumes tr: "tracked sl es s" and dr: "drain_instruction_flushable s = (t, Ok xs)" and "sl \<notin> is_slot ` set xs"
    and front: "is_none_or (last_instruction_flushed_slot t) (\<lambda>l. l < sl)"
    and last: "last_instruction_flushed_slot (fst (drain_account_flushable t)) = last_instruction_flushed_slot t"
  shows "tracked sl es (fst (drain_account_flushable t))"
proof -
  let ?u = "fst (drain_account_flushable t)"
  have ok: "state_ok s" and un: "unfilled sl (\<lambda>m. BlockFrozen sl m \<in> set es) s" using tr by (auto simp: tracked_def)
  have same: "bt_get (buffer t) sl = bt_get (buffer s) sl" by (rule drain_instruction_other [OF ok un dr assms(3)])
  have okt: "state_ok t" using state_ok_drain_instruction [OF ok] dr by simp
  have unt: "unfilled sl (\<lambda>m. BlockFrozen sl m \<in> set es) t" using un same by (simp add: unfilled_def)
  note fields = drain_account_fields [OF okt unt, unfolded same]
  have "slot_records sl ?u = slot_records sl s" "parsed_count sl ?u = parsed_count sl s"
    "unfilled sl (\<lambda>m. BlockFrozen sl m \<in> set es) ?u"
    using fields un by (cases "bt_get (buffer s) sl"; cases "bt_get (buffer ?u) sl"; force simp: slot_records_def parsed_count_def unfilled_def)+
  moreover have "sl \<notin> discarded_slots ?u"
    using tr discarded_drain(1) [OF ok] discarded_drain(2) [OF okt] dr by (auto simp: tracked_def validate_instruction_slot_def split: if_splits)
  then have "validate_instruction_slot sl ?u"
    using front last by (auto simp: validate_instruction_slot_def is_none_or_def is_some_and_def split: option.splits)
  ultimately show ?thesis using tr state_ok_drain_account [OF okt] by (simp add: tracked_def)
qed

subsection \<open>Delivered slots\<close>

text \<open>The moment a slot is delivered: its gate is met by the events so far, and it holds their records.\<close>

definition delivered_after :: "'r coordinator_event list \<Rightarrow> 'r instruction_slot \<Rightarrow> bool" where
  "delivered_after p x \<longleftrightarrow>
     (\<exists>m. BlockFrozen (is_slot x) m \<in> set p \<and> expected_tx_count m \<le> of_nat (length (filter (is_parsed (is_slot x)) p)) \<and>
       is_records x = map snd (fold (\<lambda>(k, r). bt_insert k r) (records_for (is_slot x) p) []))"

lemma tracked_delivers:
  assumes tr: "tracked sl es s" and dr: "drain_instruction_flushable s = (t, Ok xs)" and x: "x \<in> set xs" "is_slot x = sl"
  shows "delivered_after es x"
proof -
  have ok: "state_ok s" "bt_ok (buffer s)" using tr by (auto simp: tracked_def state_ok_def)
  have "x \<in> set (scan_out instructions_drained (ix_stops (discarded_slots s)) ix_emit (last_instruction_flushed_slot s) (buffer s))"
    using drain_instruction_out [OF ok(1) dr] x(1) by simp
  from ix.out_origin [OF this] obtain k b l where mem: "(k, b) \<in> set (buffer s)"
    and ns: "\<not> ix_stops (discarded_slots s) l b" and xe: "x = ix_emit k b" by blast
  have "k = sl" using ix.emit_slot [OF ns] xe x(2) by simp
  with mem have b: "bt_get (buffer s) sl = Some b" by (simp add: bt_get_iff [OF ok(2)])
  from ix_not_stopped [OF ns, of k] obtain m where m: "metadata b = Some m" "expected_tx_count m \<le> parsed_tx_count b"
    "is_records x = map snd (instruction_records b)" using xe by auto
  from tr b m show ?thesis
    by (auto simp: delivered_after_def x(2) tracked_def unfilled_def slot_records_def parsed_count_def)
qed

lemma run_delivers:
  "ordered F s \<Longrightarrow> ascending (frozen_slots (concat ess)) \<Longrightarrow> \<forall>y\<in>set (frozen_slots (concat ess)). \<forall>f\<in>F. f < y \<Longrightarrow>
    run_batches ess s = (t, xs) \<Longrightarrow> x \<in> set xs \<Longrightarrow> is_slot x = sl \<Longrightarrow> \<forall>e\<in>set (concat ess). \<not> discards sl e \<Longrightarrow>
    tracked sl es s \<or> (\<exists>l. last_instruction_flushed_slot s = Some l \<and> sl \<le> l) \<Longrightarrow>
    \<exists>p. prefix p (es @ concat ess) \<and> delivered_after p x"
proof (induction ess arbitrary: F s xs es)
  case (Cons es1 ess)
  obtain u ys where b: "batch es1 s = (u, ys)" by fastforce
  with Cons.prems(4) obtain zs where r: "run_batches ess u = (t, zs)" and xs: "xs = ys @ zs" by (auto split: prod.splits)
  have es1: "ascending (frozen_slots es1)" "\<forall>y\<in>set (frozen_slots es1). \<forall>f\<in>F. f < y"
    using Cons.prems(2,3) by (auto simp: frozen_slots_append sorted_wrt_append)
  note batch = ordered_batch [OF Cons.prems(1) es1 b]
  have "is_none_or (last_instruction_flushed_slot s) (\<lambda>l. l < sl)" and asc: "ascending (map is_slot (ys @ zs))"
    using ordered_run [OF Cons.prems(1-4)] Cons.prems(5,6) xs by auto
  then have tr: "tracked sl es s" using Cons.prems(8) by auto
  let ?v = "fold apply_event es1 s"
  have tr1: "tracked sl (es @ es1) ?v" using tracked_run [OF tr] Cons.prems(7) by simp
  then have "state_ok ?v" by (simp add: tracked_def)
  then obtain w where dr: "drain_instruction_flushable ?v = (w, Ok ys)" and u: "u = fst (drain_account_flushable w)"
    using b drain_instruction_out [of ?v] by (fastforce simp: batch_def split: prod.splits outcome.splits)
  show ?case
  proof (cases "sl \<in> is_slot ` set ys")
    case True
    then have "x \<in> set ys" using asc xs Cons.prems(5,6) by (fastforce simp: sorted_wrt_append)
    from tracked_delivers [OF tr1 dr this Cons.prems(6)] show ?thesis by (intro exI [of _ "es @ es1"]) simp
  next
    case False
    then have xz: "x \<in> set zs" using Cons.prems(5,6) xs by auto
    have last: "last_instruction_flushed_slot u = last_instruction_flushed_slot w"
      using \<open>state_ok ?v\<close> dr u state_ok_drain_instruction [of ?v] by (simp add: drain_account_eq state_ok_def Let_def)
    have "tracked sl (es @ es1) u \<or> (\<exists>l. last_instruction_flushed_slot u = Some l \<and> sl \<le> l)"
      using tracked_drain [OF tr1 dr False] last u by (cases "last_instruction_flushed_slot w") (auto simp: not_less)
    note later = this
    have ord: "ordered (F \<union> set (frozen_slots es1)) u" using batch by blast
    have "\<exists>p. prefix p ((es @ es1) @ concat ess) \<and> delivered_after p x"
      by (rule Cons.IH [OF ord _ _ r xz Cons.prems(6) _ later])
         (use Cons.prems(2,3,7) in \<open>auto simp: frozen_slots_append sorted_wrt_append\<close>)
    then show ?thesis by simp
  qed
qed simp

lemma tracked_new: "tracked sl [] (new_state c)"
  using state_ok_new by (simp add: tracked_def validate_instruction_slot_def slot_records_def parsed_count_def unfilled_def new_state_def)

lemma run_delivered_after:
  assumes "ascending (frozen_slots (concat ess))" and "x \<in> set (snd (run_batches ess (new_state c)))"
    and "\<forall>e\<in>set (concat ess). \<not> discards (is_slot x) e"
  shows "\<exists>p. prefix p (concat ess) \<and> delivered_after p x"
proof -
  have "ordered {} (new_state c :: 'a coordinator_state)"
    using state_ok_new by (simp add: ordered_def frozen_def new_state_def)
  from run_delivers [OF this assms(1) _ surjective_pairing assms(2) refl assms(3) disjI1 [OF tracked_new]]
  show ?thesis by simp
qed

text \<open>
  What a delivered slot holds: over a whole run that freezes blocks in ascending order and does
  not discard a slot, if the slot is delivered then it is delivered after a prefix of the events
  in which its block was frozen and at least as many of its transactions were reported parsed as
  the block executed, with exactly the records reported for it in that prefix, the last one
  per sort key, in key order; drains of other slots in between change nothing.
\<close>

theorem delivered_slot_holds:
  assumes "ascending (frozen_slots (concat ess))" and "x \<in> set (snd (run_batches ess (new_state c)))"
    and "\<forall>e\<in>set (concat ess). \<not> discards (is_slot x) e"
  shows "\<exists>p m. prefix p (concat ess) \<and> BlockFrozen (is_slot x) m \<in> set p \<and>
    expected_tx_count m \<le> of_nat (length (filter (is_parsed (is_slot x)) p)) \<and>
    is_records x = map snd (fold (\<lambda>(k, r). bt_insert k r) (records_for (is_slot x) p) [])"
  using run_delivered_after [OF assms] by (auto simp: delivered_after_def)

lemma demo_run:
  "map is_slot (snd (run_batches [take 4 (demo_events 100 99), demo_events 101 100, drop 4 (demo_events 100 99)] (new_state Confirmed))) = [100, 101]"
  by code_simp

theorem delivered_slot_holds_witness:
  "\<exists>(x :: nat instruction_slot) p m. is_slot x = 101 \<and> prefix p (concat [take 4 (demo_events 100 99), demo_events 101 100, drop 4 (demo_events 100 99)]) \<and>
    BlockFrozen 101 m \<in> set p \<and> expected_tx_count m \<le> of_nat (length (filter (is_parsed 101) p)) \<and>
    is_records x = map snd (fold (\<lambda>(k, r). bt_insert k r) (records_for 101 p) [])"
proof -
  let ?ess = "[take 4 (demo_events 100 99), demo_events 101 100, drop 4 (demo_events 100 99)]"
  have "101 \<in> set (map is_slot (snd (run_batches ?ess (new_state Confirmed))))" unfolding demo_run by simp
  then obtain x where x: "x \<in> set (snd (run_batches ?ess (new_state Confirmed)))" "is_slot x = 101"
    unfolding set_map by (elim imageE) metis
  have asc: "ascending (frozen_slots (concat ?ess))" by code_simp
  have "\<forall>e\<in>set (concat ?ess). \<not> discards (is_slot x) e" unfolding x(2) by (simp add: demo_events_def)
  from delivered_slot_holds [OF asc x(1) this] obtain p m where "prefix p (concat ?ess)" "BlockFrozen 101 m \<in> set p"
      "expected_tx_count m \<le> of_nat (length (filter (is_parsed 101) p))"
      "is_records x = map snd (fold (\<lambda>(k, r). bt_insert k r) (records_for 101 p) [])"
    unfolding x(2) by blast
  with x(2) show ?thesis by blast
qed

end
