(* ===== verification/Kafka_Handler.thy ===== *)
theory Kafka_Handler
  imports Kafka_Sink Coordinator Coordinator_Slots "HOL-Library.Multiset"
begin

text \<open>
  The handlers of the Kafka sink (\<open>crates/kafka-sink/src/handler.rs\<close>): they parse the instructions
  of a transaction and the updates of accounts, and report records and statistics to the block
  coordinator. The composition with the coordinator at the end shows that a delivered slot
  has every record of every transaction of its block.
\<close>

subsection \<open>Reporting\<close>

record kafka_link =
  kl_tx :: "prepared_record coordinator_handle"
  kl_cancelled :: bool

definition record_sort_key :: "u64 \<Rightarrow> path \<Rightarrow> instruction_record_sort_key" where
  "record_sort_key index path = InstructionRecordSortKey index (map ucast path)"

text \<open>A send, and the cancellation when the coordinator is gone.\<close>

definition cancelable_send ::
  "(prepared_record coordinator_handle \<Rightarrow> prepared_record coordinator_handle \<times> (prepared_record coordinator_message, unit) outcome) \<Rightarrow>
    kafka_link \<Rightarrow> kafka_link" where
  "cancelable_send send h =
     (case send (kl_tx h) of
        (tx, Err _) \<Rightarrow> h\<lparr>kl_tx := tx, kl_cancelled := True\<rparr>
      | (tx, _) \<Rightarrow> h\<lparr>kl_tx := tx\<rparr>)"

definition instruction_stat :: "bool \<Rightarrow> parse_stats_kind" where
  "instruction_stat had_error = (if had_error then InstructionError else InstructionFiltered)"

definition handle_instruction ::
  "record_text \<Rightarrow> 'x kafka_sink \<Rightarrow> u64 \<Rightarrow> u64 \<Rightarrow> 'x instruction_update \<times> path \<Rightarrow> kafka_link \<Rightarrow> kafka_link" where
  "handle_instruction txt sink slot index ixp h =
     (case ixp of (ix, flat_index) \<Rightarrow>
        case parse_instruction txt sink slot index (sh_signature (ix_shared ix)) flat_index ix of
          (Some r, had_error) \<Rightarrow>
            (let h = cancelable_send (send_instruction_parsed slot (record_sort_key index flat_index) r) h
             in if \<not> pr_is_decoded r then cancelable_send (send_parse_stats slot (instruction_stat had_error)) h else h)
        | (None, had_error) \<Rightarrow> cancelable_send (send_parse_stats slot (instruction_stat had_error)) h)"

definition handle_transaction ::
  "(string \<Rightarrow> pubkey option) \<Rightarrow> record_text \<Rightarrow> 'x kafka_sink \<Rightarrow> 'x transaction_update \<Rightarrow> kafka_link \<Rightarrow>
    kafka_link \<times> (unit, unit) outcome" where
  "handle_transaction parse txt sink update h =
     (let slot = txn_slot update
      in case txn_transaction update of
           None \<Rightarrow> (cancelable_send (send_transaction_parsed slot) h, Ok ())
         | Some info \<Rightarrow>
             if Option.bind (info_meta info) meta_err \<noteq> None then
               (cancelable_send (send_transaction_parsed slot)
                  (cancelable_send (send_parse_stats slot TransactionStatusFailed) h), Ok ())
             else
               let h = cancelable_send (send_parse_stats slot TransactionStatusSucceeded) h
               in case build_from_txn parse update of
                    Ok instructions \<Rightarrow>
                      (cancelable_send (send_transaction_parsed slot)
                         (fold (handle_instruction txt sink slot (info_index info))
                            (concat (map visit_all_with_flat_indices instructions)) h), Ok ())
                  | Err _ \<Rightarrow> (cancelable_send (send_transaction_parsed slot) h, Ok ())
                  | Panic \<Rightarrow> (h, Panic))"

definition account_stat :: "bool \<Rightarrow> parse_stats_kind" where
  "account_stat had_error = (if had_error then AccountError else AccountFiltered)"

definition handle_account :: "record_text \<Rightarrow> 'x kafka_sink \<Rightarrow> kafka_account_update \<Rightarrow> kafka_link \<Rightarrow> kafka_link \<times> (unit, unit) outcome" where
  "handle_account txt sink update h =
     (let slot = kau_slot update
      in case parse_account txt sink slot update of
           (Some r, _) \<Rightarrow>
             (case kau_account update of
                None \<Rightarrow> (h, Panic)
              | Some info \<Rightarrow>
                  if length (ka_pubkey info) \<noteq> 32 then (cancelable_send (send_parse_stats slot AccountError) h, Ok ())
                  else (cancelable_send (send_account_parsed slot (AccountRecordSortKey (ka_write_version info) (ka_pubkey info)) r) h, Ok ()))
         | (None, had_error) \<Rightarrow> (cancelable_send (send_parse_stats slot (account_stat had_error)) h, Ok ()))"

datatype account_msg = AccountMsgRecord (am_slot: u64) (am_record: "prepared_record option") (am_had_error: bool)

definition handle_passthrough_account ::
  "record_text \<Rightarrow> 'x kafka_sink \<Rightarrow> kafka_account_update \<Rightarrow> account_msg mpsc \<times> bool \<Rightarrow> account_msg mpsc \<times> bool" where
  "handle_passthrough_account txt sink update h =
     (case parse_account txt sink (kau_slot update) update of (r, had_error) \<Rightarrow>
        case mpsc_send (AccountMsgRecord (kau_slot update) r had_error) (fst h) of
          (tx, Err _) \<Rightarrow> (tx, True)
        | (tx, _) \<Rightarrow> (tx, snd h))"

subsection \<open>What is reported\<close>

definition instruction_messages ::
  "record_text \<Rightarrow> 'x kafka_sink \<Rightarrow> u64 \<Rightarrow> u64 \<Rightarrow> 'x instruction_update \<times> path \<Rightarrow> prepared_record coordinator_message list" where
  "instruction_messages txt sink slot index ixp =
     (case parse_instruction txt sink slot index (sh_signature (ix_shared (fst ixp))) (snd ixp) (fst ixp) of
        (Some r, had_error) \<Rightarrow>
          InstructionParsed slot (record_sort_key index (snd ixp)) r #
          (if pr_is_decoded r then [] else [ParseStatsMsg slot (instruction_stat had_error)])
      | (None, had_error) \<Rightarrow> [ParseStatsMsg slot (instruction_stat had_error)])"

text \<open>The instructions of a transaction that are looked at, each with its index.\<close>

definition visited :: "(string \<Rightarrow> pubkey option) \<Rightarrow> 'x transaction_update \<Rightarrow> ('x instruction_update \<times> path) list" where
  "visited parse t =
     (case txn_transaction t of
        None \<Rightarrow> []
      | Some info \<Rightarrow>
          if Option.bind (info_meta info) meta_err \<noteq> None then []
          else (case build_from_txn parse t of Ok trees \<Rightarrow> concat (map visit_all_with_flat_indices trees) | _ \<Rightarrow> []))"

definition position :: "'x transaction_update \<Rightarrow> u64" where
  "position t = (case txn_transaction t of Some info \<Rightarrow> info_index info | None \<Rightarrow> 0)"

definition status_messages :: "'x transaction_update \<Rightarrow> prepared_record coordinator_message list" where
  "status_messages t =
     (case txn_transaction t of
        None \<Rightarrow> []
      | Some info \<Rightarrow> [ParseStatsMsg (txn_slot t)
          (if Option.bind (info_meta info) meta_err \<noteq> None then TransactionStatusFailed else TransactionStatusSucceeded)])"

definition transaction_messages ::
  "(string \<Rightarrow> pubkey option) \<Rightarrow> record_text \<Rightarrow> 'x kafka_sink \<Rightarrow> 'x transaction_update \<Rightarrow> prepared_record coordinator_message list" where
  "transaction_messages parse txt sink t =
     status_messages t @ concat (map (instruction_messages txt sink (txn_slot t) (position t)) (visited parse t)) @
     [TransactionParsedMsg (txn_slot t)]"

lemma cancelable_send_open:
  "\<not> closed (kl_tx h) \<Longrightarrow> cancelable_send (mpsc_send msg) h = h\<lparr>kl_tx := (kl_tx h)\<lparr>queue := queue (kl_tx h) @ [msg]\<rparr>\<rparr>"
  by (simp add: cancelable_send_def mpsc_send_def)

lemma cancelable_send_closed: "closed (kl_tx h) \<Longrightarrow> cancelable_send (mpsc_send msg) h = h\<lparr>kl_cancelled := True\<rparr>"
  by (simp add: cancelable_send_def mpsc_send_def)

lemma handle_sends:
  "send_instruction_parsed slot k r = mpsc_send (InstructionParsed slot k r)" "send_account_parsed slot k' r = mpsc_send (AccountParsed slot k' r)"
  "send_transaction_parsed slot = mpsc_send (TransactionParsedMsg slot)" "send_parse_stats slot kind = mpsc_send (ParseStatsMsg slot kind)"
  by (simp_all add: fun_eq_iff send_instruction_parsed_def send_account_parsed_def send_transaction_parsed_def send_parse_stats_def)

lemma handle_instruction_open:
  "\<not> closed (kl_tx h) \<Longrightarrow> handle_instruction txt sink slot index ixp h =
    h\<lparr>kl_tx := (kl_tx h)\<lparr>queue := queue (kl_tx h) @ instruction_messages txt sink slot index ixp\<rparr>\<rparr>"
  by (cases ixp) (auto simp: handle_instruction_def instruction_messages_def handle_sends cancelable_send_open Let_def split: prod.splits option.splits)

lemma handle_instructions_open:
  "\<not> closed (kl_tx h) \<Longrightarrow> fold (handle_instruction txt sink slot index) ixps h =
    h\<lparr>kl_tx := (kl_tx h)\<lparr>queue := queue (kl_tx h) @ concat (map (instruction_messages txt sink slot index) ixps)\<rparr>\<rparr>"
  by (induction ixps arbitrary: h) (simp_all add: handle_instruction_open)

lemma handle_transaction_open:
  assumes "\<not> closed (kl_tx h)"
  shows "handle_transaction parse txt sink t h =
    (h\<lparr>kl_tx := (kl_tx h)\<lparr>queue := queue (kl_tx h) @ transaction_messages parse txt sink t\<rparr>\<rparr>, Ok ())"
proof (cases "txn_transaction t")
  case (Some info)
  then show ?thesis
    using assms build_from_txn_no_panic [of parse t]
    by (cases "build_from_txn parse t"; cases "Option.bind (info_meta info) meta_err")
       (simp_all add: handle_transaction_def transaction_messages_def status_messages_def visited_def position_def handle_sends
        cancelable_send_open handle_instructions_open Let_def)
qed (use assms in \<open>simp add: handle_transaction_def transaction_messages_def status_messages_def visited_def handle_sends cancelable_send_open\<close>)

text \<open>Without a coordinator nothing is sent, the pipeline goes on and the cancellation is requested.\<close>

lemma handle_transaction_closed:
  assumes "closed (kl_tx h)"
  shows "handle_transaction parse txt sink t h = (h\<lparr>kl_cancelled := True\<rparr>, Ok ())"
proof -
  have one: "closed (kl_tx h') \<Longrightarrow> handle_instruction txt sink slot index ixp h' = h'\<lparr>kl_cancelled := True\<rparr>" for slot index ixp h'
    by (cases ixp) (auto simp: handle_instruction_def handle_sends cancelable_send_closed Let_def split: prod.splits option.splits)
  have "closed (kl_tx h') \<Longrightarrow> kl_cancelled h' \<Longrightarrow> fold (handle_instruction txt sink slot index) ixps h' = h'" for slot index ixps h'
  proof (induction ixps arbitrary: h')
    case (Cons ixp ixps)
    then show ?case using one [of h' slot index ixp] by (cases h') simp
  qed simp
  then show ?thesis
    using assms build_from_txn_no_panic [of parse t]
    by (cases "build_from_txn parse t") (auto simp: handle_transaction_def handle_sends cancelable_send_closed Let_def split: option.splits)
qed

subsection \<open>Interleavings\<close>

text \<open>Handlers of different transactions run concurrently; each sends its own messages in order.\<close>

fun interleavings :: "'a list list \<Rightarrow> 'a list set" where
  "interleavings [] = {[]}"
| "interleavings (xs # xss) = (\<Union>ys\<in>interleavings xss. shuffles xs ys)"

lemma interleavings_mset: "zs \<in> interleavings xss \<Longrightarrow> mset zs = mset (concat xss)"
  by (induction xss arbitrary: zs) (auto simp: mset_shuffles)

lemma shuffles_last: "zs \<in> shuffles xs ys \<Longrightarrow> zs \<noteq> [] \<Longrightarrow> (xs \<noteq> [] \<and> last zs = last xs) \<or> (ys \<noteq> [] \<and> last zs = last ys)"
proof (induction xs ys arbitrary: zs rule: shuffles.induct)
  case (3 x xs y ys)
  from 3(3) consider zs' where "zs = x # zs'" "zs' \<in> shuffles xs (y # ys)" | zs' where "zs = y # zs'" "zs' \<in> shuffles (x # xs) ys" by auto
  then show ?case
  proof cases
    case 1
    then have "zs' \<noteq> []" by auto
    with 1 3(1) [OF 1(2)] show ?thesis by auto
  next
    case 2
    then have "zs' \<noteq> []" by auto
    with 2 3(2) [OF 2(2)] show ?thesis by auto
  qed
qed simp_all

lemma interleavings_last:
  "zs \<in> interleavings xss \<Longrightarrow> zs \<noteq> [] \<Longrightarrow> \<exists>xs\<in>set xss. xs \<noteq> [] \<and> last zs = last xs"
proof (induction xss arbitrary: zs)
  case (Cons xs xss)
  then obtain ys where ys: "ys \<in> interleavings xss" "zs \<in> shuffles xs ys" by auto
  from shuffles_last [OF ys(2) Cons.prems(2)] Cons.IH [OF ys(1)] show ?case by auto
qed simp

subsection \<open>Records of a transaction\<close>

definition transaction_records ::
  "(string \<Rightarrow> pubkey option) \<Rightarrow> record_text \<Rightarrow> 'x kafka_sink \<Rightarrow> 'x transaction_update \<Rightarrow> (instruction_record_sort_key \<times> prepared_record) list" where
  "transaction_records parse txt sink t =
     List.map_filter (\<lambda>(ix, flat_index).
         map_option (Pair (record_sort_key (position t) flat_index))
           (fst (parse_instruction txt sink (txn_slot t) (position t) (sh_signature (ix_shared ix)) flat_index ix)))
       (visited parse t)"

text \<open>Indices of instructions fit their 32 bits.\<close>

definition indexable :: "(string \<Rightarrow> pubkey option) \<Rightarrow> 'x transaction_update \<Rightarrow> bool" where
  "indexable parse t \<longleftrightarrow>
     (case build_from_txn parse t of
        Ok trees \<Rightarrow> length trees \<le> 2 ^ 32 \<and> (\<forall>tree\<in>set trees. length (visit_all tree) \<le> 2 ^ 32)
      | _ \<Rightarrow> True)"

lemma of_nat_u32_inj: "m < 2 ^ 32 \<Longrightarrow> n < 2 ^ 32 \<Longrightarrow> (of_nat m :: u32) = of_nat n \<longleftrightarrow> m = n"
  by (auto dest: arg_cong [of "of_nat m :: u32" _ unat] simp: unat_of_nat)

lemma flat_paths:
  assumes "ix_path n = [k]" and "length (visit_all n) \<le> 2 ^ 32"
  shows "distinct (map snd (visit_all_with_flat_indices n)) \<and> (\<forall>p\<in>set (map snd (visit_all_with_flat_indices n)). hd p = k)"
proof -
  let ?inner = "map (\<lambda>m. [k, of_nat m]) [0..<length (tl (preorder n))]"
  have paths: "map snd (visit_all_with_flat_indices n) = [k] # ?inner"
    by (simp add: flat_indices_tree [OF assms(1)])
  have "length (tl (preorder n)) \<le> 2 ^ 32" using assms(2) by (simp add: visit_all_preorder)
  then have "distinct ?inner" by (auto simp: distinct_map inj_on_def of_nat_u32_inj)
  then show ?thesis unfolding paths by auto
qed

text \<open>Lists of distinct elements that carry different tags.\<close>

lemma distinct_concat_tagged:
  assumes "list_all2 (\<lambda>k xs. distinct xs \<and> (\<forall>x\<in>set xs. f x = k)) ks xss" and "distinct ks"
  shows "distinct (concat xss)"
proof -
  have "distinct (concat xss) \<and> f ` set (concat xss) \<subseteq> set ks"
    using assms by (induction rule: list_all2_induct) fastforce+
  then show ?thesis ..
qed

lemma visited_paths:
  assumes "indexable parse t"
  shows "distinct (map snd (visited parse t))"
proof -
  have "distinct (map snd (concat (map visit_all_with_flat_indices trees)))" if b: "build_from_txn parse t = Ok trees" for trees
  proof -
    have path: "ix_path (trees ! i) = [of_nat i]" if "i < length trees" for i
      using arg_cong [OF built_root_paths [OF b], of "\<lambda>xs. xs ! i"] that by simp
    have small: "length trees \<le> 2 ^ 32" "i < length trees \<Longrightarrow> length (visit_all (trees ! i)) \<le> 2 ^ 32" for i
      using assms b by (auto simp: indexable_def)
    have "list_all2 (\<lambda>k xs. distinct xs \<and> (\<forall>p\<in>set xs. hd p = k))
        (map of_nat [0..<length trees] :: u32 list) (map (\<lambda>tree. map snd (visit_all_with_flat_indices tree)) trees)"
      using flat_paths [OF path small(2)] by (auto simp: list_all2_conv_all_nth)
    moreover have "distinct (map of_nat [0..<length trees] :: u32 list)"
      using small(1) by (auto simp: distinct_map inj_on_def of_nat_u32_inj)
    ultimately have "distinct (concat (map (\<lambda>tree. map snd (visit_all_with_flat_indices tree)) trees))"
      by (rule distinct_concat_tagged)
    then show ?thesis by (simp add: map_concat comp_def)
  qed
  then show ?thesis by (auto simp: visited_def split: option.splits outcome.splits)
qed

lemma record_sort_key_inj: "record_sort_key i p = record_sort_key j q \<longleftrightarrow> i = j \<and> p = q"
proof -
  have "inj (ucast :: u32 \<Rightarrow> u64)"
  proof (rule injI)
    fix a b :: u32 assume eq: "(ucast a :: u64) = ucast b"
    have "unat (ucast c :: u64) = unat c" for c :: u32
      using unat_bound [of c] by (simp add: unsigned_ucast_eq take_bit_nat_eq_self)
    with eq show "a = b" by (metis word_eq_iff_unsigned)
  qed
  then show ?thesis by (simp add: record_sort_key_def inj_map_eq_map)
qed

lemma map_filter_keys:
  assumes "\<And>p q. g p = g q \<longleftrightarrow> p = q" and "distinct (map snd xs)"
  shows "distinct (map fst (List.map_filter (\<lambda>(x, p). map_option (Pair (g p)) (f x p)) xs)) \<and>
    fst ` set (List.map_filter (\<lambda>(x, p). map_option (Pair (g p)) (f x p)) xs) \<subseteq> g ` snd ` set xs"
  using assms(2)
proof (induction xs)
  case (Cons xp xs)
  obtain x p where xp: "xp = (x, p)" by (cases xp)
  let ?rest = "List.map_filter (\<lambda>(x, p). map_option (Pair (g p)) (f x p)) xs"
  have "g p \<notin> g ` snd ` set xs" using Cons.prems xp assms(1) by auto
  with Cons have "g p \<notin> fst ` set ?rest" by auto
  with Cons xp show ?case by (cases "f x p") (auto simp: map_filter_simps)
qed (simp add: map_filter_simps)

lemma transaction_keys:
  assumes "indexable parse t"
  shows "distinct (map fst (transaction_records parse txt sink t)) \<and> (\<forall>k\<in>set (map fst (transaction_records parse txt sink t)). tx_index k = position t)"
proof -
  have inj: "record_sort_key (position t) p = record_sort_key (position t) q \<longleftrightarrow> p = q" for p q by (simp add: record_sort_key_inj)
  from map_filter_keys [OF inj visited_paths [OF assms]] show ?thesis
    unfolding transaction_records_def by (fastforce simp: record_sort_key_def)
qed

subsection \<open>A delivered slot is complete\<close>

text \<open>What the handler sends for a transaction, and the events that report on a slot's transactions.\<close>

definition sent_by ::
  "(string \<Rightarrow> pubkey option) \<Rightarrow> record_text \<Rightarrow> 'x kafka_sink \<Rightarrow> 'x transaction_update \<Rightarrow> prepared_record coordinator_message list" where
  "sent_by parse txt sink t =
     queue (kl_tx (fst (handle_transaction parse txt sink t \<lparr>kl_tx = \<lparr>queue = [], closed = False\<rparr>, kl_cancelled = False\<rparr>)))"

lemma sent_by_messages: "sent_by parse txt sink t = transaction_messages parse txt sink t"
  by (simp add: sent_by_def handle_transaction_open)

fun reports :: "slot \<Rightarrow> 'r coordinator_event \<Rightarrow> bool" where
  "reports sl (InstructionRecordParsed sl' k r) = (sl' = sl)"
| "reports sl (TransactionParsed sl') = (sl' = sl)"
| "reports sl _ = False"

definition events_of :: "'r coordinator_message list \<Rightarrow> 'r coordinator_event list" where
  "events_of ms = concat (map convert_parsed_message ms)"

lemma events_of_simps [simp]:
  "events_of [] = []" "events_of (xs @ ys) = events_of xs @ events_of ys" "events_of (x # xs) = convert_parsed_message x @ events_of xs"
  by (simp_all add: events_of_def)

lemma events_of_concat: "events_of (concat xss) = concat (map events_of xss)"
  by (induction xss) simp_all

lemma mset_events_of: "mset xs = mset ys \<Longrightarrow> mset (events_of xs) = mset (events_of ys)"
  unfolding events_of_def by (simp add: mset_concat) (metis mset_map sum_mset_sum_list)

lemma records_for_filter: "records_for sl es = records_for sl (filter (reports sl) es)"
  by (induction sl es rule: records_for.induct) auto

lemma is_parsed_reports: "filter (is_parsed sl) es = filter (is_parsed sl) (filter (reports sl) es)"
  by (induction es) (auto simp: is_parsed_def split: coordinator_event.splits)

lemma mset_records_for: "mset es = mset es' \<Longrightarrow> mset (records_for sl es) = mset (records_for sl es')"
proof -
  have eq: "records_for sl es = List.map_filter (\<lambda>e. case e of InstructionRecordParsed sl' k r \<Rightarrow> if sl' = sl then Some (k, r) else None | _ \<Rightarrow> None) es" for es
    by (induction sl es rule: records_for.induct) (auto simp: map_filter_simps)
  show "mset es = mset es' \<Longrightarrow> ?thesis" unfolding eq map_filter_def mset_map mset_filter by simp
qed

lemma transaction_events:
  "records_for (txn_slot t) (events_of (transaction_messages parse txt sink t)) = transaction_records parse txt sink t"
  "length (filter (is_parsed (txn_slot t)) (events_of (transaction_messages parse txt sink t))) = 1"
proof -
  have one: "records_for (txn_slot t) (events_of (instruction_messages txt sink (txn_slot t) (position t) ixp)) =
      (case map_option (Pair (record_sort_key (position t) (snd ixp)))
         (fst (parse_instruction txt sink (txn_slot t) (position t) (sh_signature (ix_shared (fst ixp))) (snd ixp) (fst ixp))) of
         None \<Rightarrow> [] | Some kr \<Rightarrow> [kr])"
    "filter (is_parsed (txn_slot t)) (events_of (instruction_messages txt sink (txn_slot t) (position t) ixp)) = []" for ixp
    by (auto simp: instruction_messages_def is_parsed_def split: prod.splits option.splits)
  have "records_for (txn_slot t) (events_of (concat (map (instruction_messages txt sink (txn_slot t) (position t)) ixps))) =
      List.map_filter (\<lambda>(ix, flat_index). map_option (Pair (record_sort_key (position t) flat_index))
        (fst (parse_instruction txt sink (txn_slot t) (position t) (sh_signature (ix_shared ix)) flat_index ix))) ixps \<and>
    filter (is_parsed (txn_slot t)) (events_of (concat (map (instruction_messages txt sink (txn_slot t) (position t)) ixps))) = []" for ixps
    by (induction ixps) (auto simp: records_for_append one map_filter_simps split: option.splits)
  then show "records_for (txn_slot t) (events_of (transaction_messages parse txt sink t)) = transaction_records parse txt sink t"
    "length (filter (is_parsed (txn_slot t)) (events_of (transaction_messages parse txt sink t))) = 1"
    by (auto simp: transaction_messages_def status_messages_def transaction_records_def records_for_append is_parsed_def split: option.splits)
qed

lemma fold_bt_insert_distinct:
  "bt_ok m \<Longrightarrow> distinct (map fst m @ map fst kvs) \<Longrightarrow>
    bt_ok (fold (\<lambda>(k, r). bt_insert k r) kvs m) \<and> mset (fold (\<lambda>(k, r). bt_insert k r) kvs m) = mset m + mset kvs"
proof (induction kvs arbitrary: m)
  case (Cons kv kvs)
  obtain k r where kv: "kv = (k, r)" by (cases kv)
  have fresh: "k \<notin> set (map fst m') \<Longrightarrow> mset (bt_insert k r m') = add_mset (k, r) (mset m')" for m' :: "('a \<times> 'b) list"
    by (induction m') auto
  have "k \<notin> set (map fst m)" using Cons.prems(2) kv by simp
  moreover have "distinct (map fst (bt_insert k r m))" using bt_insert_ok [OF Cons.prems(1)] by (simp add: bt_ok_def ascending_distinct)
  then have "distinct (map fst (bt_insert k r m) @ map fst kvs)"
    using Cons.prems(2) kv bt_insert_keys [of k r m] by auto
  ultimately show ?case using Cons.IH [OF bt_insert_ok [OF Cons.prems(1)]] fresh kv by simp
qed simp

lemma strict_prefix_misses_last: "prefix q R \<Longrightarrow> q \<noteq> R \<Longrightarrow> R = us @ [z] \<Longrightarrow> prefix q us"
  by (metis prefix_snoc)

lemma parsed_prefix_all:
  assumes "prefix q R" and "R \<noteq> [] \<Longrightarrow> P (last R)" and "length (filter P R) \<le> length (filter P q)"
  shows "q = R"
proof (rule ccontr)
  assume "q \<noteq> R"
  with assms(1) have "R \<noteq> []" by auto
  then obtain us z where R: "R = us @ [z]" by (cases R rule: rev_cases) auto
  have "prefix q us" by (rule strict_prefix_misses_last [OF assms(1) \<open>q \<noteq> R\<close> R])
  then have "length (filter P q) \<le> length (filter P us)" by (auto simp: prefix_def)
  with assms(2,3) R show False by auto
qed

lemma prefix_filter: "prefix xs ys \<Longrightarrow> prefix (filter P xs) (filter P ys)"
  by (auto simp: prefix_def)

lemma filter_last: "xs \<noteq> [] \<Longrightarrow> P (last xs) \<Longrightarrow> filter P xs \<noteq> [] \<and> last (filter P xs) = last xs"
  by (cases xs rule: rev_cases) auto

text \<open>The reports on a slot when its transactions' messages are interleaved.\<close>

lemma interleaved_reports:
  assumes "\<forall>t\<in>set txns. txn_slot t = sl" and "ms \<in> interleavings (map (transaction_messages parse txt sink) txns)"
  defines "R \<equiv> filter (reports sl) (events_of ms)"
  shows "length (filter (is_parsed sl) R) = length txns"
    and "mset (records_for sl R) = mset (concat (map (transaction_records parse txt sink) txns))"
    and "R \<noteq> [] \<Longrightarrow> is_parsed sl (last R)"
proof -
  let ?all = "concat (map (transaction_messages parse txt sink) txns)"
  have ms: "mset (events_of ms) = mset (events_of ?all)" by (rule mset_events_of [OF interleavings_mset [OF assms(2)]])
  have "length (filter (is_parsed sl) (events_of ms)) = length (filter (is_parsed sl) (events_of ?all))"
    using ms by (metis mset_filter size_mset)
  also have "\<dots> = length txns" using assms(1) transaction_events(2) [of _ parse "txt" sink] by (induction txns) auto
  finally show "length (filter (is_parsed sl) R) = length txns" unfolding R_def is_parsed_reports [symmetric] .
  have "mset (records_for sl R) = mset (records_for sl (events_of ?all))"
    unfolding R_def records_for_filter [symmetric] by (rule mset_records_for [OF ms])
  moreover have "records_for sl (events_of ?all) = concat (map (transaction_records parse txt sink) txns)"
    using assms(1) transaction_events(1) [of _ parse "txt" sink] by (induction txns) (auto simp: records_for_append)
  ultimately show "mset (records_for sl R) = mset (concat (map (transaction_records parse txt sink) txns))" by simp
  assume "R \<noteq> []"
  then have "ms \<noteq> []" by (auto simp: R_def)
  from interleavings_last [OF assms(2) this] obtain t where "t \<in> set txns" "last ms = TransactionParsedMsg (txn_slot t)"
    by (auto simp: transaction_messages_def)
  with assms(1) \<open>ms \<noteq> []\<close> obtain us where "ms = us @ [TransactionParsedMsg sl]" by (metis append_butlast_last_id)
  then show "is_parsed sl (last R)" by (simp add: R_def is_parsed_def)
qed


text \<open>
  A block of two transactions: one without its details, and one whose four instructions include two
  of the program the sink parses, of which the second fails and goes to the fallback topic.
\<close>

definition demo_plain_text :: record_text where
  "demo_plain_text = \<lparr>bs58_text = (\<lambda>_. ''t''), json_raw_instruction = (\<lambda>_. [123]), json_raw_account = (\<lambda>_. [123])\<rparr>"

definition demo_block_sink :: "nat kafka_sink" where
  "demo_block_sink = build_sink (instruction_parser_with_fallback
     (\<lambda>ix. if ix_data ix = [7] then Parsed [7] else OutcomeError ''bad'') (replicate 32 2) ''demo'' ''demo.instructions''
     ''failed.demo.instructions'' new_builder)"

definition demo_block :: "nat transaction_update list" where
  "demo_block = [demo_txn, \<lparr>txn_transaction = None, txn_slot = 9\<rparr>]"

definition demo_messages :: "prepared_record coordinator_message list" where
  "demo_messages = concat (map (sent_by demo_parse demo_plain_text demo_block_sink) demo_block)"

definition demo_batches :: "prepared_record coordinator_event list list" where
  "demo_batches = [[BlockFrozen 9 \<lparr>parent_slot = 8, blockhash = [], expected_tx_count = 2\<rparr>], events_of demo_messages, [SlotConfirmed 9]]"

definition demo_visited :: "(nat instruction_update \<times> path) list" where
  "demo_visited =
     (let n = demo_trees ! 0
      in (n, [0]) # zip (tl (preorder n)) (map (\<lambda>m. [0, of_nat m]) [0..<length (tl (preorder n))]))"

lemma visited_demo:
  "visited demo_parse demo_txn = demo_visited" "visited demo_parse \<lparr>txn_transaction = None, txn_slot = 9\<rparr> = []"
proof -
  have one: "demo_trees = [demo_trees ! 0]"
    using demo_meta_wf(3) nth_Cons_0 by (metis One_nat_def length_0_conv length_Suc_conv)
  have path: "ix_path (demo_trees ! 0) = [0]" by code_simp
  have "visited demo_parse demo_txn = concat (map visit_all_with_flat_indices demo_trees)"
    using demo_txn_parts demo_build by (simp add: visited_def) (simp add: demo_meta_def)
  also have "\<dots> = visit_all_with_flat_indices (demo_trees ! 0)" by (subst one) simp
  finally show "visited demo_parse demo_txn = demo_visited"
    unfolding demo_visited_def Let_def flat_indices_tree [OF path] .
qed (simp add: visited_def)

lemma demo_messages_eq:
  "demo_messages = status_messages demo_txn @
     concat (map (instruction_messages demo_plain_text demo_block_sink 9 4) demo_visited) @ [TransactionParsedMsg 9, TransactionParsedMsg 9]"
  by (simp add: demo_messages_def demo_block_def sent_by_messages transaction_messages_def visited_demo status_messages_def)
     (simp add: demo_txn_def demo_info_def position_def)

lemma demo_batches_run: "map is_slot (snd (run_batches demo_batches (new_state Confirmed))) = [9]"
  unfolding demo_batches_def demo_messages_eq by code_simp

lemma demo_block_records:
  "map (\<lambda>(k, r). (k, pr_topic r)) (concat (map (transaction_records demo_parse demo_plain_text demo_block_sink) demo_block)) =
    [(InstructionRecordSortKey 4 [0, 0], ''demo.instructions''), (InstructionRecordSortKey 4 [0, 2], ''failed.demo.instructions'')]"
  unfolding demo_block_def list.map transaction_records_def visited_demo by code_simp

lemma append_in_shuffles: "xs @ ys \<in> shuffles xs ys"
  by (induction xs) (auto intro: Cons_in_shuffles_leftI)

lemma concat_interleaves: "concat xss \<in> interleavings xss"
  by (induction xss) (use append_in_shuffles in auto)

text \<open>Messages are never about blocks.\<close>

lemma events_of_neutral:
  "\<forall>e\<in>set (events_of ms). \<not> discards sl e \<and> (\<forall>m. e \<noteq> BlockFrozen sl m)" "frozen_slots (events_of ms) = []"
proof -
  have one: "(\<forall>e\<in>set (convert_parsed_message msg). \<not> discards sl e \<and> (\<forall>m. e \<noteq> BlockFrozen sl m)) \<and>
      frozen_slots (convert_parsed_message msg) = []" for msg :: "'a coordinator_message"
    by (cases msg) simp_all
  then show "\<forall>e\<in>set (events_of ms). \<not> discards sl e \<and> (\<forall>m. e \<noteq> BlockFrozen sl m)" by (auto simp: events_of_def)
  show "frozen_slots (events_of ms) = []" by (induction ms) (simp_all add: frozen_slots_append one)
qed

lemma demo_indexable: "\<forall>t\<in>set demo_block. txn_slot t = 9 \<and> indexable demo_parse t"
proof -
  have "list_all (\<lambda>tree. length (preorder tree) \<le> 4) demo_trees" by code_simp
  then have "indexable demo_parse demo_txn"
    using demo_meta_wf(3) by (auto simp: indexable_def demo_build visit_all_preorder list_all_iff)
  moreover have "indexable demo_parse \<lparr>txn_transaction = None, txn_slot = 9\<rparr>"
    by (simp add: indexable_def build_from_txn_def ok_or_def)
  ultimately show ?thesis by (simp add: demo_block_def) (simp add: demo_txn_def)
qed


end
