(* ===== verification/Kafka_Write.thy ===== *)
theory Kafka_Write
  imports Kafka_Handler
begin

text \<open>
  Writing slots to Kafka (\<open>crates/kafka-sink/src/kafka_sink.rs\<close> and the startup of transactions in
  \<open>producer.rs\<close>). The producer is code of another package: a record of functions on its own state,
  with the effects the Kafka documentation gives them as hypotheses of the theorems. Waiting
  between attempts changes nothing and is left out; so are the log lines.
\<close>

subsection \<open>The producer\<close>

text \<open>What \<open>RDKafkaError\<close> tells about a failed transactional operation.\<close>

record txn_error =
  te_text :: string
  te_code :: string
  te_code_debug :: string
  te_is_state :: bool
  te_is_retriable :: bool
  te_requires_abort :: bool
  te_is_fatal :: bool

datatype kafka_error = KafkaTransaction txn_error | KafkaOther string

fun is_retriable :: "kafka_error \<Rightarrow> bool" where
  "is_retriable (KafkaTransaction e) = te_is_retriable e"
| "is_retriable (KafkaOther _) = False"

fun requires_abort :: "kafka_error \<Rightarrow> bool" where
  "requires_abort (KafkaTransaction e) = te_requires_abort e"
| "requires_abort (KafkaOther _) = False"

record kafka_message =
  km_topic :: string
  km_payload :: bytes
  km_key :: string
  km_headers :: "record_header list"

record 'k kafka_producer =
  kp_send :: "kafka_message \<Rightarrow> 'k \<Rightarrow> 'k \<times> (string, unit) outcome"
  kp_init :: "'k \<Rightarrow> 'k \<times> (kafka_error, unit) outcome"
  kp_begin :: "'k \<Rightarrow> 'k \<times> (kafka_error, unit) outcome"
  kp_commit :: "'k \<Rightarrow> 'k \<times> (kafka_error, unit) outcome"
  kp_abort :: "'k \<Rightarrow> 'k \<times> (kafka_error, unit) outcome"

definition show_bool :: "bool \<Rightarrow> string" where
  "show_bool b = (if b then ''true'' else ''false'')"

definition error_details :: "string \<Rightarrow> txn_error \<Rightarrow> string" where
  "error_details code e =
     te_text e @ '' (code='' @ code @ '', retriable='' @ show_bool (te_is_retriable e) @
     '', abort_required='' @ show_bool (te_requires_abort e) @ '', fatal='' @ show_bool (te_is_fatal e) @ '')''"

fun transaction_error_context :: "kafka_error \<Rightarrow> string" where
  "transaction_error_context (KafkaTransaction e) = error_details (te_code e) e"
| "transaction_error_context (KafkaOther msg) = msg"

definition kafka_error_text :: "string \<Rightarrow> string \<Rightarrow> string" where
  "kafka_error_text context err = context @ '': '' @ err"

definition kafka_send_error :: "string \<Rightarrow> slot \<Rightarrow> string \<Rightarrow> string" where
  "kafka_send_error context slot err = context @ '' for slot '' @ show_u64 slot @ '': '' @ err"

subsection \<open>Attempts\<close>

text \<open>The loops over \<open>1..=max_attempts\<close>, by the attempts that are left; none left is \<open>unreachable!\<close>.\<close>

fun transactional_attempts ::
  "('k \<Rightarrow> 'k \<times> (kafka_error, unit) outcome) \<Rightarrow> string \<Rightarrow> nat \<Rightarrow> 'k \<Rightarrow> 'k \<times> (string, unit) outcome" where
  "transactional_attempts op context 0 k = (k, Panic)"
| "transactional_attempts op context (Suc left) k =
     (case op k of
        (k, Ok _) \<Rightarrow> (k, Ok ())
      | (k, Err err) \<Rightarrow>
          if is_retriable err \<and> 0 < left
          then transactional_attempts op context left k
          else (k, Err (kafka_error_text context (transaction_error_context err)))
      | (k, Panic) \<Rightarrow> (k, Panic))"

definition run_transactional_op ::
  "('k \<Rightarrow> 'k \<times> (kafka_error, unit) outcome) \<Rightarrow> u32 \<Rightarrow> string \<Rightarrow> 'k \<Rightarrow> 'k \<times> (string, unit) outcome" where
  "run_transactional_op op max_attempts context = transactional_attempts op context (max (unat max_attempts) 1)"

datatype transaction_commit_error = AbortRequired string | CommitFailed string

fun commit_attempts ::
  "('k \<Rightarrow> 'k \<times> (kafka_error, unit) outcome) \<Rightarrow> string \<Rightarrow> nat \<Rightarrow> 'k \<Rightarrow> 'k \<times> (transaction_commit_error, unit) outcome" where
  "commit_attempts op context 0 k = (k, Panic)"
| "commit_attempts op context (Suc left) k =
     (case op k of
        (k, Ok _) \<Rightarrow> (k, Ok ())
      | (k, Err err) \<Rightarrow>
          if requires_abort err
          then (k, Err (AbortRequired (kafka_error_text context (transaction_error_context err))))
          else if is_retriable err \<and> 0 < left
          then commit_attempts op context left k
          else (k, Err (CommitFailed (kafka_error_text context (transaction_error_context err))))
      | (k, Panic) \<Rightarrow> (k, Panic))"

definition commit_transactional_op ::
  "('k \<Rightarrow> 'k \<times> (kafka_error, unit) outcome) \<Rightarrow> u32 \<Rightarrow> string \<Rightarrow> 'k \<Rightarrow> 'k \<times> (transaction_commit_error, unit) outcome" where
  "commit_transactional_op op max_attempts context = commit_attempts op context (max (unat max_attempts) 1)"

text \<open>\<open>attempt\<close> is the number of the current attempt.\<close>

fun retry_attempts ::
  "('k \<Rightarrow> 'k \<times> (string, unit) outcome) \<Rightarrow> string \<Rightarrow> slot \<Rightarrow> nat \<Rightarrow> nat \<Rightarrow> 'k \<Rightarrow> 'k \<times> (string, unit) outcome" where
  "retry_attempts f context slot attempt 0 k = (k, Panic)"
| "retry_attempts f context slot attempt (Suc left) k =
     (case f k of
        (k, Ok _) \<Rightarrow> (k, Ok ())
      | (k, Err e) \<Rightarrow>
          if 0 < left then retry_attempts f context slot (Suc attempt) left k
          else (k, Err (context @ '' for slot '' @ show_u64 slot @ '' failed after '' @ decimal attempt @ '' attempts: '' @ e))
      | (k, Panic) \<Rightarrow> (k, Panic))"

definition with_retry ::
  "u32 \<Rightarrow> string \<Rightarrow> slot \<Rightarrow> ('k \<Rightarrow> 'k \<times> (string, unit) outcome) \<Rightarrow> 'k \<Rightarrow> 'k \<times> (string, unit) outcome" where
  "with_retry max_attempts context slot f = retry_attempts f context slot 1 (max (unat max_attempts) 1)"

subsection \<open>Publishing a slot\<close>

definition record_message :: "prepared_record \<Rightarrow> kafka_message" where
  "record_message r = \<lparr>km_topic = pr_topic r, km_payload = pr_payload r, km_key = pr_key r, km_headers = pr_headers r\<rparr>"

text \<open>All records are handed to the producer before the first result is looked at.\<close>

fun send_batch :: "'k kafka_producer \<Rightarrow> prepared_record list \<Rightarrow> 'k \<Rightarrow> 'k \<times> (string, unit) outcome list" where
  "send_batch producer [] k = (k, [])"
| "send_batch producer (r # rs) k =
     (case kp_send producer (record_message r) k of (k, res) \<Rightarrow>
        case send_batch producer rs k of (k, ress) \<Rightarrow> (k, res # ress))"

fun first_failure :: "(string \<Rightarrow> string) \<Rightarrow> (string, unit) outcome list \<Rightarrow> (string, unit) outcome" where
  "first_failure f [] = Ok ()"
| "first_failure f (Ok _ # rs) = first_failure f rs"
| "first_failure f (Err e # rs) = Err (f e)"
| "first_failure f (Panic # rs) = Panic"

definition batch_publish_records ::
  "'k kafka_producer \<Rightarrow> slot \<Rightarrow> prepared_record list \<Rightarrow> string \<Rightarrow> 'k \<Rightarrow> 'k \<times> (string, unit) outcome" where
  "batch_publish_records producer slot records error_prefix k =
     (case send_batch producer records k of (k, results) \<Rightarrow> (k, first_failure (kafka_send_error error_prefix slot) results))"

record slot_write_plan =
  wp_slot :: slot
  wp_records :: "prepared_record list"
  wp_record_error_prefix :: string
  wp_checkpoint_topic :: string
  wp_checkpoint_payload :: bytes
  wp_checkpoint_error_prefix :: string

definition checkpoint_message :: "slot_write_plan \<Rightarrow> kafka_message" where
  "checkpoint_message plan =
     \<lparr>km_topic = wp_checkpoint_topic plan, km_payload = wp_checkpoint_payload plan, km_key = show_u64 (wp_slot plan), km_headers = []\<rparr>"

definition publish_checkpoint :: "'k kafka_producer \<Rightarrow> slot_write_plan \<Rightarrow> 'k \<Rightarrow> 'k \<times> (string, unit) outcome" where
  "publish_checkpoint producer plan k =
     (case kp_send producer (checkpoint_message plan) k of
        (k, Ok _) \<Rightarrow> (k, Ok ())
      | (k, Err e) \<Rightarrow> (k, Err (kafka_send_error (wp_checkpoint_error_prefix plan) (wp_slot plan) e))
      | (k, Panic) \<Rightarrow> (k, Panic))"

definition publish_plan :: "'k kafka_producer \<Rightarrow> slot_write_plan \<Rightarrow> 'k \<Rightarrow> 'k \<times> (string, unit) outcome" where
  "publish_plan producer plan k =
     then_run (batch_publish_records producer (wp_slot plan) (wp_records plan) (wp_record_error_prefix plan) k)
       (publish_checkpoint producer plan)"

subsection \<open>The executor\<close>

datatype delivery_guarantee = NonTransactional | Transactional string u32

record retry_settings =
  rs_max_attempts :: u32
  rs_backoff :: u64

definition new_retry_settings :: "u32 \<Rightarrow> u64 \<Rightarrow> retry_settings" where
  "new_retry_settings max_attempts backoff = \<lparr>rs_max_attempts = max max_attempts 1, rs_backoff = backoff\<rparr>"

record slot_write_executor =
  ex_delivery :: delivery_guarantee
  ex_write_retry :: retry_settings
  ex_transaction_retry :: retry_settings
  ex_initialized :: bool

definition delivery_from_config :: "kafka_sink_config \<Rightarrow> delivery_guarantee" where
  "delivery_from_config config =
     (case transactional_id config of
        Some txn \<Rightarrow> Transactional txn (transaction_timeout_ms config)
      | None \<Rightarrow> NonTransactional)"

definition executor_from_config :: "bool \<Rightarrow> kafka_sink_config \<Rightarrow> slot_write_executor" where
  "executor_from_config initialized config =
     \<lparr>ex_delivery = delivery_from_config config,
      ex_write_retry = new_retry_settings (kafka_write_max_attempts config) (kafka_retry_backoff_ms config),
      ex_transaction_retry = new_retry_settings (kafka_transaction_op_max_attempts config) (kafka_retry_backoff_ms config),
      ex_initialized = (initialized \<and> transactional_id config \<noteq> None)\<rparr>"

definition executor_initialize :: "slot_write_executor \<Rightarrow> 'k kafka_producer \<Rightarrow> 'k \<Rightarrow> 'k \<times> (string, unit) outcome" where
  "executor_initialize ex producer k =
     (case ex_delivery ex of
        NonTransactional \<Rightarrow> (k, Ok ())
      | Transactional _ _ \<Rightarrow>
          if ex_initialized ex then (k, Ok ())
          else run_transactional_op (kp_init producer) (rs_max_attempts (ex_transaction_retry ex)) ''Failed to initialize Kafka transactions'' k)"

definition abort_transaction :: "slot_write_executor \<Rightarrow> 'k kafka_producer \<Rightarrow> slot \<Rightarrow> string \<Rightarrow> 'k \<Rightarrow> 'k \<times> (string, unit) outcome" where
  "abort_transaction ex producer slot cause k =
     (case run_transactional_op (kp_abort producer) (rs_max_attempts (ex_transaction_retry ex)) ''Failed to abort Kafka transaction'' k of
        (k, Err abort_err) \<Rightarrow>
          (k, Err (cause @ '' for slot '' @ show_u64 slot @ ''; additionally failed to abort Kafka transaction: '' @ abort_err))
      | (k, r) \<Rightarrow> (k, r))"

definition execute_transactional :: "slot_write_executor \<Rightarrow> 'k kafka_producer \<Rightarrow> slot_write_plan \<Rightarrow> 'k \<Rightarrow> 'k \<times> (string, unit) outcome" where
  "execute_transactional ex producer plan k =
     then_run (run_transactional_op (kp_begin producer) (rs_max_attempts (ex_transaction_retry ex)) ''Failed to begin Kafka transaction'' k)
       (\<lambda>k. case publish_plan producer plan k of
          (k, Err err) \<Rightarrow>
            (case abort_transaction ex producer (wp_slot plan) ''Kafka transactional slot write failed'' k of
               (k, Ok _) \<Rightarrow> (k, Err err)
             | (k, Err abort_err) \<Rightarrow> (k, Err (err @ ''; additionally failed to abort Kafka transaction: '' @ abort_err))
             | (k, Panic) \<Rightarrow> (k, Panic))
        | (k, Panic) \<Rightarrow> (k, Panic)
        | (k, Ok _) \<Rightarrow>
            (case commit_transactional_op (kp_commit producer) (rs_max_attempts (ex_transaction_retry ex)) ''Failed to commit Kafka transaction'' k of
               (k, Ok _) \<Rightarrow> (k, Ok ())
             | (k, Err (AbortRequired err)) \<Rightarrow>
                 then_run (abort_transaction ex producer (wp_slot plan) ''Kafka transaction commit requires abort'' k) (\<lambda>k. (k, Err err))
             | (k, Err (CommitFailed err)) \<Rightarrow> (k, Err err)
             | (k, Panic) \<Rightarrow> (k, Panic)))"

definition execute_plan :: "slot_write_executor \<Rightarrow> 'k kafka_producer \<Rightarrow> slot_write_plan \<Rightarrow> 'k \<Rightarrow> 'k \<times> (string, unit) outcome" where
  "execute_plan ex producer plan k =
     (case ex_delivery ex of
        NonTransactional \<Rightarrow> publish_plan producer plan k
      | Transactional _ _ \<Rightarrow> execute_transactional ex producer plan k)"

subsection \<open>Startup of transactions\<close>

fun transactional_error_context :: "kafka_error \<Rightarrow> string" where
  "transactional_error_context (KafkaTransaction e) = error_details (te_code_debug e) e"
| "transactional_error_context (KafkaOther msg) = msg"

fun is_already_initialized_transaction_error :: "kafka_error \<Rightarrow> bool" where
  "is_already_initialized_transaction_error (KafkaTransaction e) = te_is_state e"
| "is_already_initialized_transaction_error (KafkaOther _) = False"

fun initialize_attempts :: "'k kafka_producer \<Rightarrow> nat \<Rightarrow> 'k \<Rightarrow> 'k \<times> (string, unit) outcome" where
  "initialize_attempts producer 0 k = (k, Panic)"
| "initialize_attempts producer (Suc left) k =
     (case kp_init producer k of
        (k, Ok _) \<Rightarrow> (k, Ok ())
      | (k, Err err) \<Rightarrow>
          if is_already_initialized_transaction_error err then (k, Ok ())
          else if is_retriable err \<and> 0 < left then initialize_attempts producer left k
          else (k, Err (''Failed to initialize Kafka transactions before checkpoint read: '' @ transactional_error_context err))
      | (k, Panic) \<Rightarrow> (k, Panic))"

definition initialize_transactional_producer ::
  "kafka_sink_config \<Rightarrow> 'k kafka_producer \<Rightarrow> 'k \<Rightarrow> 'k \<times> (string, unit) outcome" where
  "initialize_transactional_producer config producer k =
     (if transactional_id config = None then (k, Ok ())
      else initialize_attempts producer (max (unat (kafka_transaction_op_max_attempts config)) 1) k)"

subsection \<open>The events\<close>

record transaction_slot_commit_event =
  tc_slot :: u64
  tc_blockhash :: string
  tc_transaction_count :: u64
  tc_decoded_instruction_count :: u64
  tc_decode_filtered_instruction_count :: u64
  tc_decode_error_instruction_count :: u64
  tc_fallback_instruction_count :: u64
  tc_transaction_status_failed_count :: u64
  tc_transaction_status_succeeded_count :: u64

datatype marker_type = Completed | Watermark

datatype commit_scope = ScopeConfirmed | ScopeFinalized | ScopeStream

record account_slot_commit_event =
  ac_slot :: u64
  ac_marker_type :: marker_type
  ac_account_commit_at :: commit_scope
  ac_decoded_account_count :: "u64 option"
  ac_decode_filtered_account_count :: "u64 option"
  ac_decode_error_account_count :: "u64 option"
  ac_fallback_account_count :: "u64 option"

fun commit_scope_from :: "account_commit_at \<Rightarrow> commit_scope" where
  "commit_scope_from Confirmed = ScopeConfirmed"
| "commit_scope_from Finalized = ScopeFinalized"

definition count_records :: "bool \<Rightarrow> record_kind \<Rightarrow> prepared_record list \<Rightarrow> u64" where
  "count_records decoded kind rs = of_nat (length (filter (\<lambda>r. pr_is_decoded r = decoded \<and> pr_kind r = kind) rs))"

definition build_transaction_slot_commit_event ::
  "record_text \<Rightarrow> prepared_record instruction_slot \<Rightarrow> transaction_slot_commit_event" where
  "build_transaction_slot_commit_event rt s =
     \<lparr>tc_slot = is_slot s,
      tc_blockhash = bs58_text rt (is_blockhash s),
      tc_transaction_count = is_executed_transaction_count s,
      tc_decoded_instruction_count = count_records True InstructionRecord (is_records s),
      tc_decode_filtered_instruction_count = is_filtered_instruction_count s,
      tc_decode_error_instruction_count = is_failed_instruction_count s,
      tc_fallback_instruction_count = count_records False InstructionRecord (is_records s),
      tc_transaction_status_failed_count = is_transaction_status_failed_count s,
      tc_transaction_status_succeeded_count = is_transaction_status_succeeded_count s\<rparr>"

definition build_account_slot_commit_event ::
  "prepared_record account_slot \<Rightarrow> commit_scope \<Rightarrow> account_slot_commit_event" where
  "build_account_slot_commit_event s scope =
     \<lparr>ac_slot = as_slot s,
      ac_marker_type = Completed,
      ac_account_commit_at = scope,
      ac_decoded_account_count = Some (count_records True AccountRecord (as_records s)),
      ac_decode_filtered_account_count = Some (as_filtered_account_count s),
      ac_decode_error_account_count = Some (as_failed_account_count s),
      ac_fallback_account_count = Some (count_records False AccountRecord (as_records s))\<rparr>"

definition watermark_event :: "slot \<Rightarrow> account_slot_commit_event" where
  "watermark_event s =
     \<lparr>ac_slot = s, ac_marker_type = Watermark, ac_account_commit_at = ScopeStream,
      ac_decoded_account_count = None, ac_decode_filtered_account_count = None,
      ac_decode_error_account_count = None, ac_fallback_account_count = None\<rparr>"

subsection \<open>The slot sinks\<close>

text \<open>\<open>json\<close> stands for \<open>serde_json::to_string\<close>.\<close>

record transaction_slot_sink =
  ts_executor :: slot_write_executor
  ts_topic :: string

definition new_transaction_slot_sink :: "bool \<Rightarrow> kafka_sink_config \<Rightarrow> transaction_slot_sink" where
  "new_transaction_slot_sink preinitialized config =
     \<lparr>ts_executor = executor_from_config preinitialized config, ts_topic = transaction_slots_topic config\<rparr>"

definition transaction_write_plan ::
  "record_text \<Rightarrow> (transaction_slot_commit_event \<Rightarrow> (string, bytes) outcome) \<Rightarrow> transaction_slot_sink
    \<Rightarrow> prepared_record instruction_slot \<Rightarrow> (string, slot_write_plan) outcome" where
  "transaction_write_plan rt json sink s =
     map_outcome id (\<lambda>payload.
         \<lparr>wp_slot = is_slot s, wp_records = is_records s, wp_record_error_prefix = ''Kafka write failed'',
          wp_checkpoint_topic = ts_topic sink, wp_checkpoint_payload = payload,
          wp_checkpoint_error_prefix = ''Failed to publish slot checkpoint''\<rparr>)
       (json (build_transaction_slot_commit_event rt s))"

record account_slot_sink =
  asn_executor :: slot_write_executor
  asn_topic :: string
  asn_scope :: commit_scope

definition new_account_slot_sink :: "bool \<Rightarrow> kafka_sink_config \<Rightarrow> account_commit_at \<Rightarrow> account_slot_sink" where
  "new_account_slot_sink preinitialized config commit_at =
     \<lparr>asn_executor = executor_from_config preinitialized config, asn_topic = account_slots_topic config,
      asn_scope = commit_scope_from commit_at\<rparr>"

definition account_write_plan ::
  "(account_slot_commit_event \<Rightarrow> (string, bytes) outcome) \<Rightarrow> account_slot_sink
    \<Rightarrow> prepared_record account_slot \<Rightarrow> (string, slot_write_plan) outcome" where
  "account_write_plan json sink s =
     map_outcome id (\<lambda>payload.
         \<lparr>wp_slot = as_slot s, wp_records = as_records s, wp_record_error_prefix = ''Account Kafka write failed'',
          wp_checkpoint_topic = asn_topic sink, wp_checkpoint_payload = payload,
          wp_checkpoint_error_prefix = ''Failed to publish account slot checkpoint''\<rparr>)
       (json (build_account_slot_commit_event s (asn_scope sink)))"

text \<open>One slot: the plan is built anew at every attempt.\<close>

definition write_slot ::
  "slot_write_executor \<Rightarrow> 'k kafka_producer \<Rightarrow> string \<Rightarrow> slot \<Rightarrow> (string, slot_write_plan) outcome \<Rightarrow> 'k \<Rightarrow> 'k \<times> (string, unit) outcome" where
  "write_slot ex producer context slot plan =
     with_retry (rs_max_attempts (ex_write_retry ex)) context slot
       (\<lambda>k. case plan of Ok p \<Rightarrow> execute_plan ex producer p k | Err e \<Rightarrow> (k, Err e) | Panic \<Rightarrow> (k, Panic))"

fun write_slots ::
  "slot_write_executor \<Rightarrow> 'k kafka_producer \<Rightarrow> string \<Rightarrow> (slot \<times> (string, slot_write_plan) outcome) list \<Rightarrow> 'k \<Rightarrow> 'k \<times> (string, unit) outcome" where
  "write_slots ex producer context [] k = (k, Ok ())"
| "write_slots ex producer context ((slot, plan) # rest) k =
     then_run (write_slot ex producer context slot plan k) (write_slots ex producer context rest)"

text \<open>\<open>run\<close> of the two sinks on the slots received until the channel closes.\<close>

definition transaction_sink_run ::
  "record_text \<Rightarrow> (transaction_slot_commit_event \<Rightarrow> (string, bytes) outcome) \<Rightarrow> transaction_slot_sink \<Rightarrow> 'k kafka_producer
    \<Rightarrow> prepared_record instruction_slot list \<Rightarrow> 'k \<Rightarrow> 'k \<times> (string, unit) outcome" where
  "transaction_sink_run rt json sink producer received k =
     then_run (executor_initialize (ts_executor sink) producer k)
       (write_slots (ts_executor sink) producer ''Kafka write''
         (map (\<lambda>s. (is_slot s, transaction_write_plan rt json sink s)) received))"

definition account_sink_run ::
  "(account_slot_commit_event \<Rightarrow> (string, bytes) outcome) \<Rightarrow> account_slot_sink \<Rightarrow> 'k kafka_producer
    \<Rightarrow> prepared_record account_slot list \<Rightarrow> 'k \<Rightarrow> 'k \<times> (string, unit) outcome" where
  "account_sink_run json sink producer received k =
     then_run (executor_initialize (asn_executor sink) producer k)
       (write_slots (asn_executor sink) producer ''Account slot write''
         (map (\<lambda>s. (as_slot s, account_write_plan json sink s)) received))"

subsection \<open>The passthrough sink\<close>

record account_passthrough_sink =
  ap_topic :: string
  ap_retry :: retry_settings

definition new_account_passthrough_sink :: "string \<Rightarrow> u32 \<Rightarrow> u64 \<Rightarrow> account_passthrough_sink" where
  "new_account_passthrough_sink topic max_attempts backoff =
     \<lparr>ap_topic = topic, ap_retry = new_retry_settings max_attempts backoff\<rparr>"

definition publish_passthrough_record :: "'k kafka_producer \<Rightarrow> slot \<Rightarrow> prepared_record \<Rightarrow> 'k \<Rightarrow> 'k \<times> (string, unit) outcome" where
  "publish_passthrough_record producer slot r k =
     (case kp_send producer (record_message r) k of
        (k, Ok _) \<Rightarrow> (k, Ok ())
      | (k, Err e) \<Rightarrow> (k, Err (kafka_send_error ''Passthrough Kafka write failed'' slot e))
      | (k, Panic) \<Rightarrow> (k, Panic))"

definition watermark_message :: "account_passthrough_sink \<Rightarrow> slot \<Rightarrow> bytes \<Rightarrow> kafka_message" where
  "watermark_message sink slot payload =
     \<lparr>km_topic = ap_topic sink, km_payload = payload, km_key = show_u64 slot, km_headers = []\<rparr>"

definition emit_watermark ::
  "(account_slot_commit_event \<Rightarrow> (string, bytes) outcome) \<Rightarrow> account_passthrough_sink \<Rightarrow> 'k kafka_producer \<Rightarrow> slot \<Rightarrow> 'k \<Rightarrow> 'k \<times> (string, unit) outcome" where
  "emit_watermark json sink producer slot k =
     (case json (watermark_event slot) of
        Err e \<Rightarrow> (k, Err e)
      | Panic \<Rightarrow> (k, Panic)
      | Ok payload \<Rightarrow>
          (case kp_send producer (watermark_message sink slot payload) k of
             (k, Ok _) \<Rightarrow> (k, Ok ())
           | (k, Err e) \<Rightarrow> (k, Err (kafka_send_error ''Failed to emit watermark'' slot e))
           | (k, Panic) \<Rightarrow> (k, Panic)))"

definition emit_watermark_with_retry ::
  "(account_slot_commit_event \<Rightarrow> (string, bytes) outcome) \<Rightarrow> account_passthrough_sink \<Rightarrow> 'k kafka_producer \<Rightarrow> slot \<Rightarrow> 'k \<Rightarrow> 'k \<times> (string, unit) outcome" where
  "emit_watermark_with_retry json sink producer slot =
     with_retry (rs_max_attempts (ap_retry sink)) ''Emit account watermark'' slot (emit_watermark json sink producer slot)"

fun passthrough_loop ::
  "(account_slot_commit_event \<Rightarrow> (string, bytes) outcome) \<Rightarrow> account_passthrough_sink \<Rightarrow> 'k kafka_producer
    \<Rightarrow> slot option \<Rightarrow> account_msg list \<Rightarrow> 'k \<Rightarrow> 'k \<times> (string, unit) outcome" where
  "passthrough_loop json sink producer current [] k =
     (case current of None \<Rightarrow> (k, Ok ()) | Some slot \<Rightarrow> emit_watermark_with_retry json sink producer slot k)"
| "passthrough_loop json sink producer current (AccountMsgRecord slot rec had_error # msgs) k =
     then_run
       (case rec of
          None \<Rightarrow> (k, Ok ())
        | Some r \<Rightarrow>
            with_retry (rs_max_attempts (ap_retry sink)) ''Passthrough account write'' slot
              (publish_passthrough_record producer slot r) k)
       (\<lambda>k. case current of
          None \<Rightarrow> passthrough_loop json sink producer (Some slot) msgs k
        | Some prev \<Rightarrow>
            if prev < slot
            then then_run (emit_watermark_with_retry json sink producer prev k)
                   (passthrough_loop json sink producer (Some slot) msgs)
            else passthrough_loop json sink producer current msgs k)"

definition passthrough_run ::
  "(account_slot_commit_event \<Rightarrow> (string, bytes) outcome) \<Rightarrow> account_passthrough_sink \<Rightarrow> 'k kafka_producer
    \<Rightarrow> account_msg list \<Rightarrow> 'k \<Rightarrow> 'k \<times> (string, unit) outcome" where
  "passthrough_run json sink producer = passthrough_loop json sink producer None"

end
