(* ===== verification/Kafka_Delivery.thy ===== *)
theory Kafka_Delivery
  imports Kafka_Write "HOL-Library.Sublist"
begin

text \<open>
  What reaches Kafka. The operations of the writer are specified by contracts with one
  postcondition for success and one for failure; the contract of a loop of attempts is an invariant
  of the attempt. The behaviour of the producer is a hypothesis in the same form, taken from the
  documentation of Kafka's transactional and plain producers.
\<close>

subsection \<open>Contracts\<close>

fun finishes :: "('k \<Rightarrow> bool) \<Rightarrow> ('e \<Rightarrow> 'k \<Rightarrow> bool) \<Rightarrow> 'k \<times> ('e, unit) outcome \<Rightarrow> bool" where
  "finishes Q E (k, Ok _) = Q k"
| "finishes Q E (k, Err e) = E e k"
| "finishes Q E (k, Panic) = False"

definition contract ::
  "('k \<Rightarrow> bool) \<Rightarrow> ('k \<Rightarrow> 'k \<times> ('e, unit) outcome) \<Rightarrow> ('k \<Rightarrow> bool) \<Rightarrow> ('e \<Rightarrow> 'k \<Rightarrow> bool) \<Rightarrow> bool" where
  "contract P f Q E \<longleftrightarrow> (\<forall>k. P k \<longrightarrow> finishes Q E (f k))"

lemma finishesE [consumes 1, case_names ok err]:
  assumes "finishes Q E r"
  obtains k where "r = (k, Ok ())" "Q k" | k e where "r = (k, Err e)" "E e k"
  using assms by (cases "(Q, E, r)" rule: finishes.cases) auto

lemma contractD: "contract P f Q E \<Longrightarrow> P k \<Longrightarrow> finishes Q E (f k)"
  by (simp add: contract_def)

lemma contractI: "(\<And>k. P k \<Longrightarrow> finishes Q E (f k)) \<Longrightarrow> contract P f Q E"
  by (simp add: contract_def)

lemma finishes_mono:
  assumes "finishes Q E r" and "\<And>k. Q k \<Longrightarrow> Q' k" and "\<And>e k. E e k \<Longrightarrow> E' e k"
  shows "finishes Q' E' r"
  using assms by (cases rule: finishesE) auto

lemma finishes_then:
  assumes "finishes R E x" and "\<And>k. R k \<Longrightarrow> finishes Q E (g k)"
  shows "finishes Q E (then_run x g)"
  using assms by (cases rule: finishesE) auto

lemma contract_then: "contract P f R E \<Longrightarrow> contract R g Q E \<Longrightarrow> contract P (\<lambda>k. then_run (f k) g) Q E"
  by (blast intro: contractI contractD finishes_then)

text \<open>
  The loops of attempts as one interface: attempt \<open>a\<close>, with \<open>left\<close> more to follow, ends the loop
  unless its error calls for another one. What every such error leaves is a precondition again.
\<close>

locale attempts =
  fixes loop :: "('k \<Rightarrow> 'k \<times> ('e, unit) outcome) \<Rightarrow> nat \<Rightarrow> nat \<Rightarrow> 'k \<Rightarrow> 'k \<times> ('f, unit) outcome"
    and again :: "'e \<Rightarrow> bool"
    and failure :: "nat \<Rightarrow> 'e \<Rightarrow> 'f"
  assumes loop_step: "loop op a (Suc left) k =
    (case op k of
       (k, Ok _) \<Rightarrow> (k, Ok ())
     | (k, Err e) \<Rightarrow> if again e \<and> 0 < left then loop op (Suc a) left k else (k, Err (failure a e))
     | (k, Panic) \<Rightarrow> (k, Panic))"
begin

lemma loop_contract:
  assumes "contract P op Q E" and "\<And>e k. again e \<Longrightarrow> E e k \<Longrightarrow> P k" and "\<And>a e k. E e k \<Longrightarrow> F (failure a e) k"
  shows "contract P (loop op a (Suc n)) Q F"
proof (rule contractI)
  show "P k \<Longrightarrow> finishes Q F (loop op a (Suc n) k)" for k
  proof (induction n arbitrary: a k)
    case 0 from contractD[OF assms(1) 0] show ?case by (cases rule: finishesE) (simp_all add: loop_step assms(3))
  next
    case (Suc n) from contractD[OF assms(1) Suc.prems] show ?case
      by (cases rule: finishesE) (auto simp: loop_step[of _ _ "Suc n"] Suc.IH assms(2,3))
  qed
qed

end

interpretation transactional: attempts "\<lambda>op _. transactional_attempts op context" is_retriable
  "\<lambda>_ err. kafka_error_text context (transaction_error_context err)" for "context"
  by unfold_locales simp

interpretation committing: attempts "\<lambda>op _. commit_attempts op context" "\<lambda>err. \<not> requires_abort err \<and> is_retriable err"
  "\<lambda>_ err. (if requires_abort err then AbortRequired else CommitFailed) (kafka_error_text context (transaction_error_context err))" for "context"
  by unfold_locales (simp split: prod.splits outcome.splits)

interpretation retrying: attempts "\<lambda>f. retry_attempts f context slot" "\<lambda>_. True"
  "\<lambda>a e. context @ '' for slot '' @ show_u64 slot @ '' failed after '' @ decimal a @ '' attempts: '' @ e" for "context" slot
  by unfold_locales (simp split: prod.splits outcome.splits)

lemma attempts_positive: "\<exists>n. max (unat m) 1 = Suc n" for m :: u32
  by (metis One_nat_def Suc_le_D max.cobounded2)

lemma contract_transactional:
  assumes "contract P op Q (\<lambda>_. P)"
  shows "contract P (run_transactional_op op m context) Q (\<lambda>_. P)"
  using transactional.loop_contract[OF assms] attempts_positive[of m] unfolding run_transactional_op_def by auto

lemma contract_commit:
  assumes "contract P op Q (\<lambda>e. if requires_abort e then A else P)"
  shows "contract P (commit_transactional_op op m context) Q (\<lambda>e. case e of AbortRequired _ \<Rightarrow> A | CommitFailed _ \<Rightarrow> P)"
proof -
  have "contract P (commit_attempts op context (Suc n)) Q (\<lambda>e. case e of AbortRequired _ \<Rightarrow> A | CommitFailed _ \<Rightarrow> P)" for n
    by (rule committing.loop_contract[OF assms]) (auto split: if_splits)
  then show ?thesis
    using attempts_positive[of m] unfolding commit_transactional_op_def by auto
qed

lemma contract_retry:
  assumes "contract P f Q (\<lambda>_. P)"
  shows "contract P (with_retry m context slot f) Q (\<lambda>_. P)"
  using retrying.loop_contract[OF assms] attempts_positive[of m] unfolding with_retry_def by auto

subsection \<open>Transactional producers\<close>

text \<open>
  \<open>TxnOpen base xs\<close>: a transaction is open on the committed messages \<open>base\<close> and holds \<open>xs\<close>. The
  committed messages are those a \<open>read_committed\<close> consumer is given. A commit that fails without
  asking for an abort may have reached the brokers or not, and leaves the transaction open;
  only a producer without an open transaction begins one.
\<close>

datatype txn_phase = TxnReady | TxnOpen "kafka_message list" "kafka_message list"

text \<open>A transaction that is open on \<open>b\<close> and not committed.\<close>

definition held :: "('k \<Rightarrow> kafka_message list) \<Rightarrow> ('k \<Rightarrow> txn_phase) \<Rightarrow> kafka_message list \<Rightarrow> 'k \<Rightarrow> bool" where
  "held visible phase b k \<longleftrightarrow> visible k = b \<and> (\<exists>ys. phase k = TxnOpen b ys)"

definition begin_law :: "'k kafka_producer \<Rightarrow> ('k \<Rightarrow> kafka_message list) \<Rightarrow> ('k \<Rightarrow> txn_phase) \<Rightarrow> bool" where
  "begin_law p visible phase \<longleftrightarrow>
     (\<forall>b ph. contract (\<lambda>k. visible k = b \<and> phase k = ph) (kp_begin p)
       (\<lambda>k. ph = TxnReady \<and> visible k = b \<and> phase k = TxnOpen b [])
       (\<lambda>_ k. visible k = b \<and> phase k = ph))"

definition send_law :: "'k kafka_producer \<Rightarrow> ('k \<Rightarrow> kafka_message list) \<Rightarrow> ('k \<Rightarrow> txn_phase) \<Rightarrow> bool" where
  "send_law p visible phase \<longleftrightarrow>
     (\<forall>b xs m. contract (\<lambda>k. visible k = b \<and> phase k = TxnOpen b xs) (kp_send p m)
       (\<lambda>k. visible k = b \<and> phase k = TxnOpen b (xs @ [m]))
       (\<lambda>_. held visible phase b))"

definition commit_law :: "'k kafka_producer \<Rightarrow> ('k \<Rightarrow> kafka_message list) \<Rightarrow> ('k \<Rightarrow> txn_phase) \<Rightarrow> bool" where
  "commit_law p visible phase \<longleftrightarrow>
     (\<forall>b xs. contract (\<lambda>k. visible k \<in> {b, b @ xs} \<and> phase k = TxnOpen b xs) (kp_commit p)
       (\<lambda>k. visible k = b @ xs \<and> phase k = TxnReady)
       (\<lambda>e. if requires_abort e then held visible phase b
            else (\<lambda>k. visible k \<in> {b, b @ xs} \<and> phase k = TxnOpen b xs)))"

definition abort_law :: "'k kafka_producer \<Rightarrow> ('k \<Rightarrow> kafka_message list) \<Rightarrow> ('k \<Rightarrow> txn_phase) \<Rightarrow> bool" where
  "abort_law p visible phase \<longleftrightarrow>
     (\<forall>b. contract (held visible phase b) (kp_abort p) (\<lambda>k. visible k = b \<and> phase k = TxnReady) (\<lambda>_. held visible phase b))"

definition init_law :: "'k kafka_producer \<Rightarrow> ('k \<Rightarrow> kafka_message list) \<Rightarrow> ('k \<Rightarrow> txn_phase) \<Rightarrow> bool" where
  "init_law p visible phase \<longleftrightarrow>
     (\<forall>b. contract (\<lambda>k. visible k = b) (kp_init p) (\<lambda>k. visible k = b \<and> phase k = TxnReady) (\<lambda>_ k. visible k = b))"

definition transactional_producer :: "'k kafka_producer \<Rightarrow> ('k \<Rightarrow> kafka_message list) \<Rightarrow> ('k \<Rightarrow> txn_phase) \<Rightarrow> bool" where
  "transactional_producer p visible phase \<longleftrightarrow>
     begin_law p visible phase \<and> send_law p visible phase \<and> commit_law p visible phase \<and>
     abort_law p visible phase \<and> init_law p visible phase"

text \<open>What one slot adds: its records in order, then its checkpoint.\<close>

definition plan_messages :: "slot_write_plan \<Rightarrow> kafka_message list" where
  "plan_messages plan = map record_message (wp_records plan) @ [checkpoint_message plan]"

lemma send_lawD:
  assumes "send_law p visible phase" and "visible k = b" and "phase k = TxnOpen b xs"
  shows "finishes (\<lambda>k. visible k = b \<and> phase k = TxnOpen b (xs @ [m])) (\<lambda>_. held visible phase b) (kp_send p m k)"
  using assms unfolding send_law_def contract_def by blast

lemma send_held:
  assumes "send_law p visible phase"
  shows "contract (held visible phase b) (kp_send p m) (held visible phase b) (\<lambda>_. held visible phase b)"
  by (rule contractI) (use send_lawD[OF assms] in \<open>fastforce simp: held_def intro: finishes_mono\<close>)

lemma batch_held:
  assumes "send_law p visible phase" and "held visible phase b k"
  shows "held visible phase b (fst (send_batch p rs k)) \<and> Panic \<notin> set (snd (send_batch p rs k))"
  using assms(2)
proof (induction rs arbitrary: k)
  case (Cons r rs)
  from contractD[OF send_held[OF assms(1)] Cons.prems, of "record_message r"] show ?case
    by (cases rule: finishesE) (simp_all add: case_prod_beta Cons.IH)
qed auto

lemma first_failure_cases:
  "first_failure f rs = Ok () \<longleftrightarrow> set rs \<subseteq> {Ok ()}" "first_failure f rs = Panic \<Longrightarrow> Panic \<in> set rs"
  by (induction f rs rule: first_failure.induct) auto

lemma batch_sent:
  assumes "send_law p visible phase" and "visible k = b" and "phase k = TxnOpen b xs"
    and "set (snd (send_batch p rs k)) \<subseteq> {Ok ()}"
  shows "visible (fst (send_batch p rs k)) = b \<and> phase (fst (send_batch p rs k)) = TxnOpen b (xs @ map record_message rs)"
  using assms(2-)
proof (induction rs arbitrary: k xs)
  case (Cons r rs)
  from send_lawD[OF assms(1) Cons.prems(1,2), of "record_message r"] show ?case
    by (cases rule: finishesE) (use Cons.IH[of _ "xs @ [record_message r]"] Cons.prems(3) in \<open>simp_all add: case_prod_beta\<close>)
qed auto

lemma batch_in_transaction:
  assumes "send_law p visible phase"
  shows "contract (\<lambda>k. visible k = b \<and> phase k = TxnOpen b xs) (batch_publish_records p slot rs err_text)
           (\<lambda>k. visible k = b \<and> phase k = TxnOpen b (xs @ map record_message rs)) (\<lambda>_. held visible phase b)"
proof (rule contractI)
  fix k assume k: "visible k = b \<and> phase k = TxnOpen b xs"
  obtain k' ress where run: "send_batch p rs k = (k', ress)" by fastforce
  have "held visible phase b k'" "Panic \<notin> set ress"
    using batch_held[OF assms, of b k rs] k run by (auto simp: held_def)
  then show "finishes (\<lambda>k. visible k = b \<and> phase k = TxnOpen b (xs @ map record_message rs)) (\<lambda>_. held visible phase b)
      (batch_publish_records p slot rs err_text k)"
    using batch_sent[OF assms, of k b xs rs] k run first_failure_cases[of "kafka_send_error err_text slot" ress]
    by (cases "first_failure (kafka_send_error err_text slot) ress") (auto simp: batch_publish_records_def)
qed

lemma publish_in_transaction:
  assumes "send_law p visible phase"
  shows "contract (\<lambda>k. visible k = b \<and> phase k = TxnOpen b []) (publish_plan p plan)
           (\<lambda>k. visible k = b \<and> phase k = TxnOpen b (plan_messages plan)) (\<lambda>_. held visible phase b)"
proof -
  have "contract (\<lambda>k. visible k = b \<and> phase k = TxnOpen b (map record_message (wp_records plan))) (publish_checkpoint p plan)
      (\<lambda>k. visible k = b \<and> phase k = TxnOpen b (plan_messages plan)) (\<lambda>_. held visible phase b)" (is "contract ?P _ ?Q ?E")
  proof (rule contractI)
    fix k assume "?P k"
    with send_lawD[OF assms] have "finishes ?Q ?E (kp_send p (checkpoint_message plan) k)"
      unfolding plan_messages_def by blast
    then show "finishes ?Q ?E (publish_checkpoint p plan k)"
      by (cases rule: finishesE) (simp_all add: publish_checkpoint_def)
  qed
  from contract_then[OF batch_in_transaction[OF assms, where xs = "[]", simplified] this] show ?thesis
    unfolding publish_plan_def[abs_def] .
qed

text \<open>The states between two attempts at a slot whose messages are \<open>ms\<close>, on the committed messages \<open>b\<close>.\<close>

definition between_attempts ::
  "('k \<Rightarrow> kafka_message list) \<Rightarrow> ('k \<Rightarrow> txn_phase) \<Rightarrow> kafka_message list \<Rightarrow> kafka_message list \<Rightarrow> 'k \<Rightarrow> bool" where
  "between_attempts visible phase b ms k \<longleftrightarrow>
     (phase k = TxnReady \<and> visible k = b) \<or> (phase k \<noteq> TxnReady \<and> visible k \<in> {b, b @ ms})"

lemma begin_contract:
  assumes "begin_law p visible phase"
  shows "contract (between_attempts visible phase b ms) (kp_begin p)
           (\<lambda>k. visible k = b \<and> phase k = TxnOpen b []) (\<lambda>_. between_attempts visible phase b ms)"
proof (rule contractI)
  fix k assume k: "between_attempts visible phase b ms k"
  have "finishes (\<lambda>k'. phase k = TxnReady \<and> visible k' = visible k \<and> phase k' = TxnOpen (visible k) [])
      (\<lambda>_ k'. visible k' = visible k \<and> phase k' = phase k) (kp_begin p k)"
    using assms unfolding begin_law_def contract_def by blast
  then show "finishes (\<lambda>k. visible k = b \<and> phase k = TxnOpen b []) (\<lambda>_. between_attempts visible phase b ms) (kp_begin p k)"
    using k by (elim finishes_mono) (auto simp: between_attempts_def)
qed

lemma abort_contract:
  assumes "abort_law p visible phase"
  shows "contract (held visible phase b) (abort_transaction ex p slot cause)
           (between_attempts visible phase b ms) (\<lambda>_. between_attempts visible phase b ms)"
proof (rule contractI)
  fix k assume k: "held visible phase b k"
  have "contract (held visible phase b) (kp_abort p) (\<lambda>k. visible k = b \<and> phase k = TxnReady) (\<lambda>_. held visible phase b)"
    using assms by (simp add: abort_law_def)
  from contractD[OF contract_transactional[OF this] k, of "rs_max_attempts (ex_transaction_retry ex)" "''Failed to abort Kafka transaction''"]
  show "finishes (between_attempts visible phase b ms) (\<lambda>_. between_attempts visible phase b ms) (abort_transaction ex p slot cause k)"
    by (cases rule: finishesE) (auto simp: abort_transaction_def between_attempts_def held_def)
qed

lemma commit_contract:
  assumes "commit_law p visible phase"
  shows "contract (\<lambda>k. visible k = b \<and> phase k = TxnOpen b ms) (commit_transactional_op (kp_commit p) m context)
           (\<lambda>k. phase k = TxnReady \<and> visible k = b @ ms)
           (\<lambda>e. case e of AbortRequired _ \<Rightarrow> held visible phase b | CommitFailed _ \<Rightarrow> between_attempts visible phase b ms)"
proof (rule contractI)
  fix k assume k: "visible k = b \<and> phase k = TxnOpen b ms"
  let ?P = "\<lambda>k. visible k \<in> {b, b @ ms} \<and> phase k = TxnOpen b ms"
  have "contract ?P (kp_commit p) (\<lambda>k. visible k = b @ ms \<and> phase k = TxnReady) (\<lambda>e. if requires_abort e then held visible phase b else ?P)"
    using assms unfolding commit_law_def by blast
  then have "finishes (\<lambda>k. visible k = b @ ms \<and> phase k = TxnReady)
      (\<lambda>e. case e of AbortRequired _ \<Rightarrow> held visible phase b | CommitFailed _ \<Rightarrow> ?P) (commit_transactional_op (kp_commit p) m context k)"
    by (rule contractD[OF contract_commit]) (use k in auto)
  then show "finishes (\<lambda>k. phase k = TxnReady \<and> visible k = b @ ms)
      (\<lambda>e. case e of AbortRequired _ \<Rightarrow> held visible phase b | CommitFailed _ \<Rightarrow> between_attempts visible phase b ms)
      (commit_transactional_op (kp_commit p) m context k)"
    by (elim finishes_mono) (auto simp: between_attempts_def split: transaction_commit_error.splits)
qed

lemma execute_transactional_contract:
  assumes laws: "transactional_producer p visible phase"
  shows "contract (between_attempts visible phase b (plan_messages plan)) (execute_transactional ex p plan)
           (\<lambda>k. phase k = TxnReady \<and> visible k = b @ plan_messages plan)
           (\<lambda>_. between_attempts visible phase b (plan_messages plan))"
    (is "contract ?I _ ?Q ?E")
proof (rule contractI)
  fix k assume I: "?I k"
  note law = laws[unfolded transactional_producer_def]
  have aborting: "held visible phase b k \<Longrightarrow> finishes ?I ?E (abort_transaction ex p s c k)" for k s c
    using law by (intro contractD[OF abort_contract]) auto
  show "finishes ?Q ?E (execute_transactional ex p plan k)"
    unfolding execute_transactional_def
  proof (rule finishes_then[OF contractD[OF contract_transactional[OF begin_contract] I]])
    show "begin_law p visible phase" using law by simp
    fix k assume "visible k = b \<and> phase k = TxnOpen b []"
    then have "finishes (\<lambda>k. visible k = b \<and> phase k = TxnOpen b (plan_messages plan)) (\<lambda>_. held visible phase b) (publish_plan p plan k)"
      using law by (intro contractD[OF publish_in_transaction]) auto
    then show "finishes ?Q ?E (case publish_plan p plan k of
          (k, Ok _) \<Rightarrow>
            (case commit_transactional_op (kp_commit p) (rs_max_attempts (ex_transaction_retry ex)) ''Failed to commit Kafka transaction'' k of
               (k, Ok _) \<Rightarrow> (k, Ok ())
             | (k, Err (AbortRequired err)) \<Rightarrow>
                 then_run (abort_transaction ex p (wp_slot plan) ''Kafka transaction commit requires abort'' k) (\<lambda>k. (k, Err err))
             | (k, Err (CommitFailed err)) \<Rightarrow> (k, Err err)
             | (k, Panic) \<Rightarrow> (k, Panic))
        | (k, Err err) \<Rightarrow>
            (case abort_transaction ex p (wp_slot plan) ''Kafka transactional slot write failed'' k of
               (k, Ok _) \<Rightarrow> (k, Err err)
             | (k, Err abort_err) \<Rightarrow> (k, Err (err @ ''; additionally failed to abort Kafka transaction: '' @ abort_err))
             | (k, Panic) \<Rightarrow> (k, Panic))
        | (k, Panic) \<Rightarrow> (k, Panic))"
    proof (cases rule: finishesE)
      case (err k1 e)
      with aborting[of k1 "wp_slot plan" "''Kafka transactional slot write failed''"] show ?thesis
        by (auto elim: finishesE)
    next
      case (ok k1)
      with law have "finishes ?Q (\<lambda>e. case e of AbortRequired _ \<Rightarrow> held visible phase b | CommitFailed _ \<Rightarrow> ?I)
          (commit_transactional_op (kp_commit p) (rs_max_attempts (ex_transaction_retry ex)) ''Failed to commit Kafka transaction'' k1)"
        by (intro contractD[OF commit_contract]) auto
      then show ?thesis
        by (cases rule: finishesE) (auto simp: ok(1) split: transaction_commit_error.splits intro: finishes_then[OF aborting])
    qed
  qed
qed

lemma write_slot_transactional:
  assumes "transactional_producer p visible phase" and "ex_delivery ex = Transactional t u"
  shows "contract (\<lambda>k. phase k = TxnReady \<and> visible k = b) (write_slot ex p context slot (Ok plan))
           (\<lambda>k. phase k = TxnReady \<and> visible k = b @ plan_messages plan)
           (\<lambda>_ k. visible k \<in> {b, b @ plan_messages plan})"
proof (rule contractI)
  fix k assume k: "phase k = TxnReady \<and> visible k = b"
  from execute_transactional_contract[OF assms(1)]
  have "contract (between_attempts visible phase b (plan_messages plan)) (execute_plan ex p plan)
      (\<lambda>k. phase k = TxnReady \<and> visible k = b @ plan_messages plan) (\<lambda>_. between_attempts visible phase b (plan_messages plan))"
    by (simp add: execute_plan_def[abs_def] assms(2))
  from contractD[OF contract_retry[OF this], of k "rs_max_attempts (ex_write_retry ex)" "context" slot] k
  show "finishes (\<lambda>k. phase k = TxnReady \<and> visible k = b @ plan_messages plan) (\<lambda>_ k. visible k \<in> {b, b @ plan_messages plan})
      (write_slot ex p context slot (Ok plan) k)"
    by (auto simp: write_slot_def between_attempts_def elim: finishes_mono)
qed

lemma write_slot_no_plan: "write_slot ex p context slot (Err e) k = (k', r) \<Longrightarrow> k' = k \<and> (\<exists>e. r = Err e)"
proof -
  have "retry_attempts (\<lambda>k. (k, Err e)) context slot a (Suc n) k = (k', r) \<Longrightarrow> k' = k \<and> (\<exists>e. r = Err e)" for a n
    by (induction n arbitrary: a) (auto split: if_splits)
  from this[of 1 "max (unat (rs_max_attempts (ex_write_retry ex))) 1 - 1"] show "write_slot ex p context slot (Err e) k = (k', r) \<Longrightarrow> k' = k \<and> (\<exists>e. r = Err e)"
    by (simp add: write_slot_def with_retry_def del: retry_attempts.simps)
qed

fun planned :: "(string, slot_write_plan) outcome \<Rightarrow> kafka_message list" where
  "planned (Ok plan) = plan_messages plan"
| "planned _ = []"

lemma write_slots_transactional:
  assumes "transactional_producer p visible phase" and "ex_delivery ex = Transactional t u"
    and "Panic \<notin> snd ` set items" and "phase k = TxnReady" and "visible k = b"
  shows "finishes (\<lambda>k. visible k = b @ concat (map (\<lambda>i. planned (snd i)) items))
           (\<lambda>_ k. \<exists>n\<le>length items. visible k = b @ concat (map (\<lambda>i. planned (snd i)) (take n items))) (write_slots ex p context items k)"
  using assms(3-)
proof (induction items arbitrary: k b)
  case (Cons item items)
  obtain slot plan where item: "item = (slot, plan)" by fastforce
  let ?E = "\<lambda>_ k. \<exists>n\<le>length (item # items). visible k = b @ concat (map (\<lambda>i. planned (snd i)) (take n (item # items)))"
  have part: "visible k = b \<or> visible k = b @ planned plan \<Longrightarrow> ?E e k" for e k
    by (auto simp: item intro: exI[of _ 0] exI[of _ "Suc 0"])
  have rest: "\<exists>n\<le>length items. visible k = (b @ planned plan) @ concat (map (\<lambda>i. planned (snd i)) (take n items)) \<Longrightarrow> ?E e k" for e k
    by (force simp: item intro: exI[of _ "Suc _"])
  show ?case
  proof (cases plan)
    case (Ok w)
    have "finishes (\<lambda>k. phase k = TxnReady \<and> visible k = b @ plan_messages w) (\<lambda>_ k. visible k \<in> {b, b @ plan_messages w}) (write_slot ex p context slot (Ok w) k)"
      using Cons.prems by (intro contractD[OF write_slot_transactional[OF assms(1,2)]]) simp
    then show ?thesis
    proof (cases rule: finishesE)
      case (ok k1)
      then have "finishes (\<lambda>k. visible k = (b @ planned plan) @ concat (map (\<lambda>i. planned (snd i)) items))
          (\<lambda>_ k. \<exists>n\<le>length items. visible k = (b @ planned plan) @ concat (map (\<lambda>i. planned (snd i)) (take n items))) (write_slots ex p context items k1)"
        using Cons.prems(1) by (intro Cons.IH) (auto simp: Ok)
      then have "finishes (\<lambda>k. visible k = b @ concat (map (\<lambda>i. planned (snd i)) (item # items))) ?E (write_slots ex p context items k1)"
        by (rule finishes_mono) (simp add: item, erule rest)
      with ok show ?thesis by (simp add: item Ok)
    next
      case (err k1 e) with part show ?thesis by (auto simp: item Ok)
    qed
  next
    case (Err e)
    obtain k1 r where "write_slot ex p context slot (Err e) k = (k1, r)" by fastforce
    with write_slot_no_plan[OF this] part Cons.prems(3) show ?thesis by (auto simp: item Err)
  next
    case Panic with Cons.prems(1) item show ?thesis by (auto simp: image_iff)
  qed
qed simp

definition transaction_slot_messages ::
  "record_text \<Rightarrow> (transaction_slot_commit_event \<Rightarrow> (string, bytes) outcome) \<Rightarrow> kafka_sink_config \<Rightarrow> prepared_record instruction_slot \<Rightarrow> kafka_message list" where
  "transaction_slot_messages rt json config s =
     (case json (build_transaction_slot_commit_event rt s) of
        Ok payload \<Rightarrow>
          map record_message (is_records s) @
          [\<lparr>km_topic = transaction_slots_topic config, km_payload = payload, km_key = show_u64 (is_slot s), km_headers = []\<rparr>]
      | _ \<Rightarrow> [])"

lemma planned_transaction:
  "planned (transaction_write_plan rt json (new_transaction_slot_sink b config) s) = transaction_slot_messages rt json config s"
  by (simp add: transaction_write_plan_def new_transaction_slot_sink_def transaction_slot_messages_def plan_messages_def
      checkpoint_message_def split: outcome.splits)

lemma initialize_contract:
  assumes "init_law p visible phase" and "ex_delivery ex = Transactional t u" and "ex_initialized ex \<longrightarrow> phase k = TxnReady"
  shows "finishes (\<lambda>k'. visible k' = visible k \<and> phase k' = TxnReady) (\<lambda>_ k'. visible k' = visible k) (executor_initialize ex p k)"
proof (cases "ex_initialized ex")
  case False
  have "contract (\<lambda>k'. visible k' = visible k) (kp_init p) (\<lambda>k'. visible k' = visible k \<and> phase k' = TxnReady) (\<lambda>_ k'. visible k' = visible k)"
    using assms(1) unfolding init_law_def by blast
  from contractD[OF contract_transactional[OF this], of k "rs_max_attempts (ex_transaction_retry ex)"] False assms(2) show ?thesis
    by (auto simp: executor_initialize_def elim: finishes_mono)
qed (use assms in \<open>simp add: executor_initialize_def\<close>)

lemma sink_run_transactional:
  assumes "transactional_producer p visible phase" and "transactional_id config = Some t" and "preinitialized \<longrightarrow> phase k = TxnReady"
    and "\<And>s. s \<in> set received \<Longrightarrow> plan s \<noteq> Panic"
    and "then_run (executor_initialize (executor_from_config preinitialized config) p k)
      (write_slots (executor_from_config preinitialized config) p context (map (\<lambda>s. (slot_of s, plan s)) received)) = (k', result)"
  shows "result \<noteq> Panic \<and>
    (\<exists>n\<le>length received. visible k' = visible k @ concat (map (\<lambda>s. planned (plan s)) (take n received)) \<and>
       (result = Ok () \<longrightarrow> n = length received))"
proof -
  let ?ex = "executor_from_config preinitialized config"
  let ?items = "map (\<lambda>s. (slot_of s, plan s)) received"
  have delivery: "ex_delivery ?ex = Transactional t (transaction_timeout_ms config)" "ex_initialized ?ex \<longrightarrow> phase k = TxnReady"
    using assms(2,3) by (auto simp: executor_from_config_def delivery_from_config_def)
  have no_panic: "Panic \<notin> snd ` set ?items"
    using assms(4) by (fastforce simp: image_iff)
  have "finishes (\<lambda>k'. visible k' = visible k @ concat (map (\<lambda>i. planned (snd i)) ?items))
      (\<lambda>_ k'. \<exists>n\<le>length ?items. visible k' = visible k @ concat (map (\<lambda>i. planned (snd i)) (take n ?items))) (k', result)"
    unfolding assms(5)[symmetric]
  proof (rule finishes_then)
    show "finishes (\<lambda>k'. visible k' = visible k \<and> phase k' = TxnReady)
        (\<lambda>_ k'. \<exists>n\<le>length ?items. visible k' = visible k @ concat (map (\<lambda>i. planned (snd i)) (take n ?items))) (executor_initialize ?ex p k)"
      using assms(1) initialize_contract[of p visible phase, OF _ delivery] by (auto simp: transactional_producer_def elim!: finishes_mono intro: exI[of _ 0])
  qed (use write_slots_transactional[OF assms(1) delivery(1) no_panic] in blast)
  then show ?thesis
    by (cases result) (auto simp: comp_def take_map)
qed

lemma exactly_once:
  assumes "transactional_producer p visible phase"
    and "transactional_id config = Some t"
    and "preinitialized \<longrightarrow> phase k = TxnReady"
    and "\<And>e. json e \<noteq> Panic"
    and "transaction_sink_run rt json (new_transaction_slot_sink preinitialized config) p received k = (k', result)"
  shows "result \<noteq> Panic \<and>
    (\<exists>n\<le>length received.
       visible k' = visible k @ concat (map (transaction_slot_messages rt json config) (take n received)) \<and>
       (result = Ok () \<longrightarrow> n = length received))"
proof -
  let ?sink = "new_transaction_slot_sink preinitialized config"
  have "transaction_write_plan rt json ?sink s \<noteq> Panic" for s
    using assms(4) by (cases "json (build_transaction_slot_commit_event rt s)") (simp_all add: transaction_write_plan_def)
  from sink_run_transactional[OF assms(1-3) this assms(5)[unfolded transaction_sink_run_def new_transaction_slot_sink_def transaction_slot_sink.simps, folded new_transaction_slot_sink_def]]
  show ?thesis by (simp add: planned_transaction)
qed

definition account_slot_messages ::
  "(account_slot_commit_event \<Rightarrow> (string, bytes) outcome) \<Rightarrow> kafka_sink_config \<Rightarrow> commit_scope \<Rightarrow> prepared_record account_slot \<Rightarrow> kafka_message list" where
  "account_slot_messages json config scope s =
     (case json (build_account_slot_commit_event s scope) of
        Ok payload \<Rightarrow>
          map record_message (as_records s) @
          [\<lparr>km_topic = account_slots_topic config, km_payload = payload, km_key = show_u64 (as_slot s), km_headers = []\<rparr>]
      | _ \<Rightarrow> [])"

lemma planned_account:
  "planned (account_write_plan json (new_account_slot_sink b config at) s) = account_slot_messages json config (commit_scope_from at) s"
  by (simp add: account_write_plan_def new_account_slot_sink_def account_slot_messages_def plan_messages_def
      checkpoint_message_def split: outcome.splits)

text \<open>The account sink has the same guarantee.\<close>

lemma account_slots_exactly_once:
  assumes "transactional_producer p visible phase"
    and "transactional_id config = Some t"
    and "preinitialized \<longrightarrow> phase k = TxnReady"
    and "\<And>e. json e \<noteq> Panic"
    and "account_sink_run json (new_account_slot_sink preinitialized config at) p received k = (k', result)"
  shows "result \<noteq> Panic \<and>
    (\<exists>n\<le>length received.
       visible k' = visible k @ concat (map (account_slot_messages json config (commit_scope_from at)) (take n received)) \<and>
       (result = Ok () \<longrightarrow> n = length received))"
proof -
  let ?sink = "new_account_slot_sink preinitialized config at"
  have "account_write_plan json ?sink s \<noteq> Panic" for s
    using assms(4) by (cases "json (build_account_slot_commit_event s (asn_scope ?sink))") (simp_all add: account_write_plan_def)
  from sink_run_transactional[OF assms(1-3) this assms(5)[unfolded account_sink_run_def new_account_slot_sink_def account_slot_sink.simps, folded new_account_slot_sink_def]]
  show ?thesis by (simp add: planned_account)
qed

text \<open>
  C4. Exactly once: with a transactional id, whatever fails on the way (sends, begins, commits of
  unknown outcome, aborts) and however often slots are tried again, the messages a
  read_committed consumer is given are those of a prefix of the slots received, each slot once and
  whole: its records in order, then its checkpoint. When the sink ends without an error the prefix is all of them.
\<close>

theorem transaction_slots_exactly_once:
  assumes "transactional_producer p visible phase"
    and "transactional_id config = Some t"
    and "preinitialized \<longrightarrow> phase k = TxnReady"
    and "\<And>e. json e \<noteq> Panic"
    and "transaction_sink_run rt json (new_transaction_slot_sink preinitialized config) p received k = (k', result)"
  shows "result \<noteq> Panic \<and>
    (\<exists>n\<le>length received.
       visible k' = visible k @ concat (map (transaction_slot_messages rt json config) (take n received)) \<and>
       (result = Ok () \<longrightarrow> n = length received))"
  using exactly_once[OF assms] .

text \<open>A producer in memory whose first commits ask for an abort: what fails, what is committed, what is held.\<close>

type_synonym demo_broker = "nat \<times> kafka_message list \<times> kafka_message list option"

definition demo_abort_error :: kafka_error where
  "demo_abort_error = KafkaTransaction \<lparr>te_text = ''fenced'', te_code = ''a'', te_code_debug = ''A'', te_is_state = False,
     te_is_retriable = True, te_requires_abort = True, te_is_fatal = False\<rparr>"

definition demo_producer :: "demo_broker kafka_producer" where
  "demo_producer =
     \<lparr>kp_send = (\<lambda>m (n, v, t). case t of None \<Rightarrow> ((n, v, t), Err ''state'') | Some xs \<Rightarrow> ((n, v, Some (xs @ [m])), Ok ())),
      kp_init = (\<lambda>(n, v, t). ((n, v, None), Ok ())),
      kp_begin = (\<lambda>(n, v, t). case t of None \<Rightarrow> ((n, v, Some []), Ok ()) | Some _ \<Rightarrow> ((n, v, t), Err (KafkaOther ''state''))),
      kp_commit = (\<lambda>(n, v, t). case t of
          None \<Rightarrow> ((n, v, t), Err (KafkaOther ''state''))
        | Some xs \<Rightarrow> if 0 < n then ((n - 1, v, t), Err demo_abort_error) else ((n, v @ xs, None), Ok ())),
      kp_abort = (\<lambda>(n, v, t). case t of None \<Rightarrow> ((n, v, t), Err (KafkaOther ''state'')) | Some _ \<Rightarrow> ((n, v, None), Ok ()))\<rparr>"

definition demo_visible :: "demo_broker \<Rightarrow> kafka_message list" where
  "demo_visible k = fst (snd k)"

definition demo_phase :: "demo_broker \<Rightarrow> txn_phase" where
  "demo_phase k = (case snd (snd k) of None \<Rightarrow> TxnReady | Some xs \<Rightarrow> TxnOpen (fst (snd k)) xs)"

lemma demo_producer_transactional: "transactional_producer demo_producer demo_visible demo_phase"
  unfolding transactional_producer_def begin_law_def send_law_def commit_law_def abort_law_def init_law_def contract_def
    held_def demo_producer_def demo_visible_def demo_phase_def
  by (auto split: option.splits simp: demo_abort_error_def)

definition demo_record :: prepared_record where
  "demo_record = \<lparr>pr_topic = ''t'', pr_payload = [1], pr_key = ''k'', pr_headers = [], pr_is_decoded = True, pr_kind = InstructionRecord\<rparr>"

definition demo_slots :: "prepared_record instruction_slot list" where
  "demo_slots = [\<lparr>is_slot = 7, is_parent_slot = 6, is_blockhash = [], is_executed_transaction_count = 1, is_records = [demo_record],
     is_filtered_instruction_count = 0, is_failed_instruction_count = 0, is_transaction_status_failed_count = 0,
     is_transaction_status_succeeded_count = 1\<rparr>]"

definition demo_json :: "transaction_slot_commit_event \<Rightarrow> (string, bytes) outcome" where
  "demo_json e = Ok [ucast (tc_slot e), ucast (tc_decoded_instruction_count e)]"

definition demo_config :: kafka_sink_config where
  "demo_config = default_kafka_sink_config\<lparr>transactional_id := Some ''w''\<rparr>"

definition demo_run :: "demo_broker \<times> (string, unit) outcome" where
  "demo_run = transaction_sink_run demo_plain_text demo_json (new_transaction_slot_sink False demo_config) demo_producer demo_slots (1, [], None)"

lemma demo_run_ok: "snd demo_run = Ok ()"
  by code_simp

theorem transaction_slots_exactly_once_witness:
  "demo_visible (fst demo_run) = concat (map (transaction_slot_messages demo_plain_text demo_json demo_config) demo_slots)"
proof -
  have "demo_json e \<noteq> Panic" for e by (simp add: demo_json_def)
  note transaction_slots_exactly_once[OF demo_producer_transactional, of demo_config "''w''" False "(1, [], None)" demo_json demo_plain_text demo_slots
      "fst demo_run" "snd demo_run", OF _ _ this]
  then show ?thesis
    using demo_run_ok by (auto simp: demo_run_def demo_config_def demo_visible_def)
qed

subsection \<open>Producers without transactions\<close>

text \<open>A send that fails may have reached the log or not.\<close>

definition plain_producer :: "'k kafka_producer \<Rightarrow> ('k \<Rightarrow> kafka_message list) \<Rightarrow> bool" where
  "plain_producer p topic_log \<longleftrightarrow>
     (\<forall>b m. contract (\<lambda>k. topic_log k = b) (kp_send p m) (\<lambda>k. topic_log k = b @ [m]) (\<lambda>_ k. topic_log k \<in> {b, b @ [m]}))"

lemma plain_send:
  assumes "plain_producer p topic_log"
  shows "finishes (\<lambda>k'. topic_log k' = topic_log k @ [m]) (\<lambda>_ k'. topic_log k' \<in> {topic_log k, topic_log k @ [m]}) (kp_send p m k)"
  using assms unfolding plain_producer_def contract_def by blast

text \<open>
  An attempt that fails leaves some of the records, in order, or everything when only the answer to
  the checkpoint was lost; a written slot is some failed attempts and a complete one.
\<close>

definition failed_attempt :: "slot_write_plan \<Rightarrow> kafka_message list \<Rightarrow> bool" where
  "failed_attempt plan ms \<longleftrightarrow> subseq ms (map record_message (wp_records plan)) \<or> ms = plan_messages plan"

definition slot_block :: "slot_write_plan \<Rightarrow> kafka_message list \<Rightarrow> bool" where
  "slot_block plan ms \<longleftrightarrow> (\<exists>as. list_all (failed_attempt plan) as \<and> ms = concat as @ plan_messages plan)"

lemma plain_batch:
  assumes "plain_producer p topic_log"
  shows "\<exists>xs. topic_log (fst (send_batch p rs k)) = topic_log k @ xs \<and> subseq xs (map record_message rs) \<and>
    Panic \<notin> set (snd (send_batch p rs k)) \<and> (set (snd (send_batch p rs k)) \<subseteq> {Ok ()} \<longrightarrow> xs = map record_message rs)"
proof (induction rs arbitrary: k)
  case (Cons r rs)
  from plain_send[OF assms, of k "record_message r"] show ?case
  proof (cases rule: finishesE)
    case (ok k1) with Cons.IH[of k1] show ?thesis by (auto simp: case_prod_beta)
  next
    case (err k1 e) with Cons.IH[of k1] show ?thesis by (auto simp: case_prod_beta)
  qed
qed simp

lemma plain_publish:
  assumes "plain_producer p topic_log"
  shows "finishes (\<lambda>k'. topic_log k' = topic_log k @ plan_messages plan)
           (\<lambda>_ k'. \<exists>a. failed_attempt plan a \<and> topic_log k' = topic_log k @ a) (publish_plan p plan k)"
proof -
  let ?rs = "map record_message (wp_records plan)"
  let ?E = "\<lambda>_ k'. \<exists>a. failed_attempt plan a \<and> topic_log k' = topic_log k @ a"
  obtain k1 ress where run: "send_batch p (wp_records plan) k = (k1, ress)" by fastforce
  with plain_batch[OF assms, of "wp_records plan" k] obtain xs where
    xs: "topic_log k1 = topic_log k @ xs" "subseq xs ?rs" "Panic \<notin> set ress" "set ress \<subseteq> {Ok ()} \<longrightarrow> xs = ?rs" by auto
  have "finishes (\<lambda>k'. topic_log k' = topic_log k @ ?rs) ?E (batch_publish_records p (wp_slot plan) (wp_records plan) (wp_record_error_prefix plan) k)"
    using first_failure_cases[of "kafka_send_error (wp_record_error_prefix plan) (wp_slot plan)" ress] xs
    by (cases "first_failure (kafka_send_error (wp_record_error_prefix plan) (wp_slot plan)) ress")
      (auto simp: batch_publish_records_def run failed_attempt_def)
  moreover have "finishes (\<lambda>k'. topic_log k' = topic_log k @ plan_messages plan) ?E (publish_checkpoint p plan k2)" if "topic_log k2 = topic_log k @ ?rs" for k2
    using plain_send[OF assms, of k2 "checkpoint_message plan"]
    by (cases rule: finishesE) (auto simp: publish_checkpoint_def plan_messages_def failed_attempt_def that)
  ultimately show ?thesis
    unfolding publish_plan_def by (rule finishes_then)
qed

lemma plain_write_slot:
  assumes "plain_producer p topic_log" and "ex_delivery ex = NonTransactional"
  shows "finishes (\<lambda>k'. \<exists>ms. slot_block plan ms \<and> topic_log k' = topic_log k @ ms)
           (\<lambda>_ k'. \<exists>as. list_all (failed_attempt plan) as \<and> topic_log k' = topic_log k @ concat as) (write_slot ex p context slot (Ok plan) k)"
    (is "finishes ?Q (\<lambda>_. ?P) _")
proof -
  have "contract ?P (execute_plan ex p plan) ?Q (\<lambda>_. ?P)"
  proof (rule contractI)
    fix k1 assume "?P k1"
    then obtain as where as: "list_all (failed_attempt plan) as" "topic_log k1 = topic_log k @ concat as" by blast
    have block: "\<exists>ms. slot_block plan ms \<and> topic_log k' = topic_log k @ ms" if "topic_log k' = topic_log k1 @ plan_messages plan" for k'
      using as that by (auto simp: slot_block_def)
    have again: "\<exists>as. list_all (failed_attempt plan) as \<and> topic_log k' = topic_log k @ concat as" if "\<exists>a. failed_attempt plan a \<and> topic_log k' = topic_log k1 @ a" for k'
      using as that by (auto intro: exI[of _ "as @ [_]"])
    from plain_publish[OF assms(1), of k1 plan] show "finishes ?Q (\<lambda>_. ?P) (execute_plan ex p plan k1)"
      unfolding execute_plan_def assms(2) delivery_guarantee.case by (rule finishes_mono) (fact block, fact again)
  qed
  then show ?thesis
    unfolding write_slot_def outcome.case by (rule contractD[OF contract_retry]) (auto intro: exI[of _ "[]"])
qed

lemma plain_write_slots:
  assumes "plain_producer p topic_log" and "ex_delivery ex = NonTransactional"
  shows "finishes (\<lambda>k'. \<exists>bs. list_all2 slot_block plans bs \<and> topic_log k' = topic_log k @ concat bs)
           (\<lambda>_ k'. \<exists>n<length plans. \<exists>bs as. list_all2 slot_block (take n plans) bs \<and> list_all (failed_attempt (plans ! n)) as \<and>
              topic_log k' = topic_log k @ concat bs @ concat as)
           (write_slots ex p context (map (\<lambda>plan. (wp_slot plan, Ok plan)) plans) k)"
proof (induction plans arbitrary: k)
  case (Cons plan plans)
  let ?Q = "\<lambda>k'. \<exists>bs. list_all2 slot_block (plan # plans) bs \<and> topic_log k' = topic_log k @ concat bs"
  let ?E = "\<lambda>_ k'. \<exists>n<length (plan # plans). \<exists>bs as. list_all2 slot_block (take n (plan # plans)) bs \<and>
      list_all (failed_attempt ((plan # plans) ! n)) as \<and> topic_log k' = topic_log k @ concat bs @ concat as"
  have "finishes ?Q ?E (then_run (write_slot ex p context (wp_slot plan) (Ok plan) k)
      (write_slots ex p context (map (\<lambda>plan. (wp_slot plan, Ok plan)) plans)))"
  proof (rule finishes_then)
    show "finishes (\<lambda>k'. \<exists>ms. slot_block plan ms \<and> topic_log k' = topic_log k @ ms) ?E (write_slot ex p context (wp_slot plan) (Ok plan) k)"
      by (rule finishes_mono[OF plain_write_slot[OF assms]]) (auto intro!: exI[of _ 0])
  next
    fix k1 assume "\<exists>ms. slot_block plan ms \<and> topic_log k1 = topic_log k @ ms"
    then obtain ms where ms: "slot_block plan ms" "topic_log k1 = topic_log k @ ms" by blast
    have rest: "?E e k'" if "\<exists>n<length plans. \<exists>bs as. list_all2 slot_block (take n plans) bs \<and> list_all (failed_attempt (plans ! n)) as \<and>
              topic_log k' = topic_log k1 @ concat bs @ concat as" for e k'
    proof -
      from that obtain n bs as where "n < length plans" "list_all2 slot_block (take n plans) bs" "list_all (failed_attempt (plans ! n)) as"
        "topic_log k' = topic_log k1 @ concat bs @ concat as" by blast
      with ms show ?thesis
        by (intro exI[of _ "Suc n"] conjI exI[of _ "ms # bs"] exI[of _ as]) simp_all
    qed
    have all: "?Q k'" if "\<exists>bs. list_all2 slot_block plans bs \<and> topic_log k' = topic_log k1 @ concat bs" for k'
      using ms that by (force intro: exI[of _ "ms # _"])
    show "finishes ?Q ?E (write_slots ex p context (map (\<lambda>plan. (wp_slot plan, Ok plan)) plans) k1)"
      by (rule finishes_mono[OF Cons.IH]) (fact all, fact rest)
  qed
  then show ?case by simp
qed simp

definition transaction_slot_plan ::
  "record_text \<Rightarrow> (transaction_slot_commit_event \<Rightarrow> bytes) \<Rightarrow> kafka_sink_config \<Rightarrow> prepared_record instruction_slot \<Rightarrow> slot_write_plan" where
  "transaction_slot_plan rt payload config s =
     \<lparr>wp_slot = is_slot s, wp_records = is_records s, wp_record_error_prefix = ''Kafka write failed'',
      wp_checkpoint_topic = transaction_slots_topic config, wp_checkpoint_payload = payload (build_transaction_slot_commit_event rt s),
      wp_checkpoint_error_prefix = ''Failed to publish slot checkpoint''\<rparr>"

text \<open>
  C37. At least once: without a transactional id every slot that was written contributes failed
  attempts followed by one complete attempt, its records in order and then its checkpoint, and slots
  contribute in the order received. No attempt leaves a checkpoint unless it left every record of the
  slot before it. When the sink fails, only failed attempts at the slot it stopped at follow the complete slots.
\<close>

theorem transaction_slots_at_least_once:
  assumes "plain_producer p topic_log"
    and "transactional_id config = None"
    and "\<And>e. json e = Ok (payload e)"
    and "transaction_sink_run rt json (new_transaction_slot_sink preinitialized config) p received k = (k', result)"
  shows "result \<noteq> Panic \<and>
    (\<exists>bs as.
       topic_log k' = topic_log k @ concat bs @ concat as \<and>
       list_all2 slot_block (map (transaction_slot_plan rt payload config) (take (length bs) received)) bs \<and>
       (if result = Ok () then length bs = length received \<and> as = []
        else length bs < length received \<and>
          list_all (failed_attempt (transaction_slot_plan rt payload config (received ! length bs))) as))"
proof -
  let ?sink = "new_transaction_slot_sink preinitialized config"
  let ?plans = "map (transaction_slot_plan rt payload config) received"
  have delivery: "ex_delivery (ts_executor ?sink) = NonTransactional"
    using assms(2) by (simp add: new_transaction_slot_sink_def executor_from_config_def delivery_from_config_def)
  have "map (\<lambda>s. (is_slot s, transaction_write_plan rt json ?sink s)) received = map (\<lambda>plan. (wp_slot plan, Ok plan)) ?plans"
    by (simp add: transaction_write_plan_def transaction_slot_plan_def assms(3) new_transaction_slot_sink_def)
  with assms(4) have "write_slots (ts_executor ?sink) p ''Kafka write'' (map (\<lambda>plan. (wp_slot plan, Ok plan)) ?plans) k = (k', result)"
    by (simp add: transaction_sink_run_def executor_initialize_def delivery)
  with plain_write_slots[OF assms(1) delivery, of ?plans k "''Kafka write''"]
  have "finishes (\<lambda>k'. \<exists>bs. list_all2 slot_block ?plans bs \<and> topic_log k' = topic_log k @ concat bs)
           (\<lambda>_ k'. \<exists>n<length ?plans. \<exists>bs as. list_all2 slot_block (take n ?plans) bs \<and> list_all (failed_attempt (?plans ! n)) as \<and>
              topic_log k' = topic_log k @ concat bs @ concat as) (k', result)"
    by simp
  then show ?thesis
  proof (cases rule: finishesE)
    case (ok k1)
    then obtain bs where bs: "list_all2 slot_block ?plans bs" "topic_log k' = topic_log k @ concat bs" by auto
    with list_all2_lengthD[OF bs(1)] ok show ?thesis by (intro conjI exI[of _ bs] exI[of _ "[]"]) simp_all
  next
    case (err k1 e)
    then obtain n bs as where bs: "n < length received" "list_all2 slot_block (take n ?plans) bs"
      "list_all (failed_attempt (?plans ! n)) as" "topic_log k' = topic_log k @ concat bs @ concat as" by auto
    with list_all2_lengthD[OF bs(2)] err show ?thesis
      by (intro conjI exI[of _ bs] exI[of _ as]) (simp_all add: take_map)
  qed
qed

text \<open>A log whose first answers are lost after the message was taken.\<close>

definition lossy_producer :: "(nat \<times> kafka_message list) kafka_producer" where
  "lossy_producer =
     \<lparr>kp_send = (\<lambda>m (n, v). if 0 < n then ((n - 1, v @ [m]), Err ''timeout'') else ((n, v @ [m]), Ok ())),
      kp_init = (\<lambda>k. (k, Ok ())), kp_begin = (\<lambda>k. (k, Ok ())), kp_commit = (\<lambda>k. (k, Ok ())), kp_abort = (\<lambda>k. (k, Ok ()))\<rparr>"

lemma lossy_producer_plain: "plain_producer lossy_producer snd"
  by (auto simp: plain_producer_def contract_def lossy_producer_def)

definition lossy_run :: "(nat \<times> kafka_message list) \<times> (string, unit) outcome" where
  "lossy_run = transaction_sink_run demo_plain_text demo_json (new_transaction_slot_sink False default_kafka_sink_config) lossy_producer demo_slots (1, [])"

lemma lossy_run_ok: "snd lossy_run = Ok ()"
  by code_simp

theorem transaction_slots_at_least_once_witness:
  "\<exists>bs. snd (fst lossy_run) = concat bs \<and>
     list_all2 slot_block
       (map (transaction_slot_plan demo_plain_text (\<lambda>e. [ucast (tc_slot e), ucast (tc_decoded_instruction_count e)]) default_kafka_sink_config) demo_slots) bs"
  using transaction_slots_at_least_once[OF lossy_producer_plain, of default_kafka_sink_config demo_json
      "\<lambda>e. [ucast (tc_slot e), ucast (tc_decoded_instruction_count e)]" demo_plain_text False demo_slots "(1, [])" "fst lossy_run" "snd lossy_run"]
    lossy_run_ok
  by (auto simp: lossy_run_def default_kafka_sink_config_def demo_json_def)

end
