(* ===== verification/Kafka_Topics.thy ===== *)
theory Kafka_Topics
  imports Kafka_Delivery
begin

text \<open>
  Resuming from a checkpoint topic (\<open>crates/kafka-sink/src/topics.rs\<close>). The consumer is code of
  another package: what it answers is a record of functions. \<open>kc_polls\<close> lists what \<open>poll\<close> gives after
  the seek until the deadline of five seconds; a list that is used up is that deadline. Offsets are
  \<open>i64\<close>: a subtraction out of range panics.
\<close>

subsection \<open>The consumer\<close>

record consumer_message =
  cm_partition :: int
  cm_offset :: int
  cm_payload :: "bytes option"

datatype poll_result = PollNone | PollError string | PollMessage consumer_message

record kafka_consumer =
  kc_fetch_metadata :: "string \<Rightarrow> (string, (string \<times> int list) list) outcome"
  kc_fetch_watermarks :: "string \<Rightarrow> int \<Rightarrow> (string, int \<times> int) outcome"
  kc_add_partition_offset :: "string \<Rightarrow> int \<Rightarrow> int \<Rightarrow> (string, unit) outcome"
  kc_assign :: "string \<Rightarrow> int \<Rightarrow> int \<Rightarrow> (string, unit) outcome"
  kc_seek :: "string \<Rightarrow> int \<Rightarrow> int \<Rightarrow> (string, unit) outcome"
  kc_polls :: "string \<Rightarrow> int \<Rightarrow> int \<Rightarrow> poll_result list"

definition i64_sub :: "int \<Rightarrow> int \<Rightarrow> ('e, int) outcome" where
  "i64_sub a b = (if - (2 ^ 63) \<le> a - b \<and> a - b < 2 ^ 63 then Ok (a - b) else Panic)"

definition show_int :: "int \<Rightarrow> string" where
  "show_int i = (if i < 0 then ''-'' @ decimal (nat (- i)) else decimal (nat i))"

definition map_error :: "('e \<Rightarrow> 'f) \<Rightarrow> ('e, 'a) outcome \<Rightarrow> ('f, 'a) outcome" where
  "map_error f = map_outcome f id"

subsection \<open>Candidates\<close>

definition MAX_STARTUP_CHECKPOINT_SCAN_OFFSETS :: int where
  "MAX_STARTUP_CHECKPOINT_SCAN_OFFSETS = 256"

record last_committed =
  lc_slot :: slot

record last_committed_candidate =
  lcc_slot :: slot
  lcc_offset :: int

definition startup_scan_low_offset :: "int \<Rightarrow> int \<Rightarrow> ('e, int) outcome" where
  "startup_scan_low_offset low high = map_outcome id (\<lambda>x. max x low) (i64_sub high MAX_STARTUP_CHECKPOINT_SCAN_OFFSETS)"

text \<open>
  \<open>parse_event\<close> and \<open>json_slot\<close> stand for \<open>serde_json\<close>: reading the payload as a commit event, and
  the unsigned field \<open>slot\<close> of the payload read as any JSON value.
\<close>

record json_reader =
  parse_event :: "bytes \<Rightarrow> transaction_slot_commit_event option"
  json_slot :: "bytes \<Rightarrow> u64 option"

definition parse_last_committed_payload :: "json_reader \<Rightarrow> bytes \<Rightarrow> last_committed option" where
  "parse_last_committed_payload reader payload =
     (case map_option (\<lambda>e. \<lparr>lc_slot = tc_slot e\<rparr>) (parse_event reader payload) of
        Some c \<Rightarrow> Some c
      | None \<Rightarrow> map_option (\<lambda>s. \<lparr>lc_slot = s\<rparr>) (json_slot reader payload))"

definition parse_last_committed_candidate :: "json_reader \<Rightarrow> int \<Rightarrow> bytes \<Rightarrow> last_committed_candidate option" where
  "parse_last_committed_candidate reader offset payload =
     map_option (\<lambda>c. \<lparr>lcc_slot = lc_slot c, lcc_offset = offset\<rparr>) (parse_last_committed_payload reader payload)"

fun scan_tail ::
  "json_reader \<Rightarrow> int \<Rightarrow> int \<Rightarrow> int \<Rightarrow> last_committed_candidate option \<Rightarrow> poll_result list \<Rightarrow> last_committed_candidate option" where
  "scan_tail reader pid lo hi latest [] = latest"
| "scan_tail reader pid lo hi latest (PollNone # polls) = scan_tail reader pid lo hi latest polls"
| "scan_tail reader pid lo hi latest (PollError e # polls) = scan_tail reader pid lo hi latest polls"
| "scan_tail reader pid lo hi latest (PollMessage m # polls) =
     (if cm_partition m \<noteq> pid \<or> cm_offset m < lo then scan_tail reader pid lo hi latest polls
      else if hi \<le> cm_offset m then latest
      else case cm_payload m of
          None \<Rightarrow> scan_tail reader pid lo hi latest polls
        | Some payload \<Rightarrow>
            (case parse_last_committed_candidate reader (cm_offset m) payload of
               Some c \<Rightarrow> scan_tail reader pid lo hi (Some c) polls
             | None \<Rightarrow> scan_tail reader pid lo hi latest polls))"

definition tail_text :: "string \<Rightarrow> int \<Rightarrow> int \<Rightarrow> string" where
  "tail_text topic pid lo = '' for topic '' @ topic @ '' partition '' @ show_int pid @ '' offset '' @ show_int lo @ '': ''"

definition read_tail_candidate_in_range ::
  "json_reader \<Rightarrow> kafka_consumer \<Rightarrow> string \<Rightarrow> int \<Rightarrow> int \<Rightarrow> int \<Rightarrow> (string, last_committed_candidate option) outcome" where
  "read_tail_candidate_in_range reader consumer topic pid lo hi =
     bind_outcome (map_error (\<lambda>e. ''Failed to prepare startup checkpoint assignment'' @ tail_text topic pid lo @ e)
         (kc_add_partition_offset consumer topic pid lo)) (\<lambda>_.
     bind_outcome (map_error (\<lambda>e. ''Failed to assign startup checkpoint consumer'' @ tail_text topic pid lo @ e)
         (kc_assign consumer topic pid lo)) (\<lambda>_.
     bind_outcome (map_error (\<lambda>e. ''Failed to seek startup checkpoint consumer'' @ tail_text topic pid lo @ e)
         (kc_seek consumer topic pid lo)) (\<lambda>_.
     Ok (scan_tail reader pid lo hi None (kc_polls consumer topic pid lo)))))"

subsection \<open>A topic\<close>

definition no_checkpoint_error :: "string \<Rightarrow> int \<Rightarrow> int \<Rightarrow> int \<Rightarrow> int \<Rightarrow> int \<Rightarrow> string" where
  "no_checkpoint_error topic pid scanned lo low high =
     ''Failed to find committed checkpoint in topic '' @ topic @ '' partition '' @ show_int pid @ '' after scanning '' @ show_int scanned @
     '' tail offsets (low='' @ show_int low @ '', high='' @ show_int high @ ''); '' @
     (if low < lo then ''scan limit reached before finding a checkpoint'' else ''no parseable checkpoint record found'')"

fun read_partitions ::
  "json_reader \<Rightarrow> kafka_consumer \<Rightarrow> string \<Rightarrow> last_committed option \<Rightarrow> int list \<Rightarrow> (string, last_committed option) outcome" where
  "read_partitions reader consumer topic latest [] = Ok latest"
| "read_partitions reader consumer topic latest (pid # pids) =
     bind_outcome (map_error (\<lambda>e. ''Failed to fetch watermarks for topic '' @ topic @ '' partition '' @ show_int pid @ '': '' @ e)
         (kc_fetch_watermarks consumer topic pid)) (\<lambda>(low, high).
     if high = 0 then read_partitions reader consumer topic latest pids
     else
       bind_outcome (startup_scan_low_offset low high) (\<lambda>lo.
       bind_outcome (read_tail_candidate_in_range reader consumer topic pid lo high) (\<lambda>candidate.
       case candidate of
         Some c \<Rightarrow>
           read_partitions reader consumer topic
             (if is_none_or latest (\<lambda>current. lc_slot current < lcc_slot c) then Some \<lparr>lc_slot = lcc_slot c\<rparr> else latest) pids
       | None \<Rightarrow>
           if low < high
           then bind_outcome (i64_sub high lo) (\<lambda>scanned. Err (no_checkpoint_error topic pid scanned lo low high))
           else read_partitions reader consumer topic latest pids)))"

definition startup_reader_settings :: "kafka_sink_config \<Rightarrow> client_config" where
  "startup_reader_settings config =
     apply_sasl_if_configured config
       [''bootstrap.servers'' \<mapsto> brokers config, ''group.id'' \<mapsto> ''shipstern-startup-reader'', ''enable.auto.commit'' \<mapsto> ''false'',
        ''isolation.level'' \<mapsto> ''read_committed'']"

definition read_last_slot_from_topic ::
  "json_reader \<Rightarrow> (client_config \<Rightarrow> (string, kafka_consumer) outcome) \<Rightarrow> kafka_sink_config \<Rightarrow> string \<Rightarrow> (string, last_committed option) outcome" where
  "read_last_slot_from_topic reader create config topic =
     bind_outcome (map_error (\<lambda>e. ''Failed to create startup Kafka consumer for topic '' @ topic @ '': '' @ e)
         (create (startup_reader_settings config))) (\<lambda>consumer.
     bind_outcome (map_error (\<lambda>e. ''Failed to fetch metadata for topic '' @ topic @ '': '' @ e) (kc_fetch_metadata consumer topic)) (\<lambda>topics.
     case List.find (\<lambda>t. fst t = topic) topics of
       None \<Rightarrow> Ok None
     | Some (_, pids) \<Rightarrow> if pids = [] then Ok None else read_partitions reader consumer topic None pids))"

definition read_last_committed_transaction_block ::
  "json_reader \<Rightarrow> (client_config \<Rightarrow> (string, kafka_consumer) outcome) \<Rightarrow> kafka_sink_config \<Rightarrow> (string, last_committed option) outcome" where
  "read_last_committed_transaction_block reader create config =
     read_last_slot_from_topic reader create config (transaction_slots_topic config)"

definition read_last_committed_account_block ::
  "json_reader \<Rightarrow> (client_config \<Rightarrow> (string, kafka_consumer) outcome) \<Rightarrow> kafka_sink_config \<Rightarrow> (string, last_committed option) outcome" where
  "read_last_committed_account_block reader create config =
     read_last_slot_from_topic reader create config (account_slots_topic config)"

subsection \<open>What the reader finds\<close>

definition served :: "int \<Rightarrow> int \<Rightarrow> poll_result list \<Rightarrow> (int \<times> bytes) list" where
  "served pid lo polls =
     List.map_filter (\<lambda>r. case r of
         PollMessage m \<Rightarrow> if cm_partition m = pid \<and> lo \<le> cm_offset m then map_option (Pair (cm_offset m)) (cm_payload m) else None
       | _ \<Rightarrow> None) polls"

lemma served_simps [simp]:
  "served pid lo [] = []" "served pid lo (PollNone # polls) = served pid lo polls" "served pid lo (PollError e # polls) = served pid lo polls"
  "served pid lo (PollMessage m # polls) =
     (if cm_partition m = pid \<and> lo \<le> cm_offset m then (case cm_payload m of None \<Rightarrow> [] | Some p \<Rightarrow> [(cm_offset m, p)]) else []) @ served pid lo polls"
  by (simp_all add: served_def List.map_filter_simps split: option.splits)

lemma scan_tail_fold:
  assumes "\<And>m. PollMessage m \<in> set polls \<Longrightarrow> cm_partition m = pid \<Longrightarrow> cm_offset m < hi"
  shows "scan_tail reader pid lo hi latest polls =
    fold (\<lambda>(offset, payload) latest. case parse_last_committed_candidate reader offset payload of Some c \<Rightarrow> Some c | None \<Rightarrow> latest) (served pid lo polls) latest"
  using assms
proof (induction reader pid lo hi latest polls rule: scan_tail.induct)
  case (4 reader pid lo hi latest m polls)
  show ?case
  proof (cases "cm_partition m = pid \<and> lo \<le> cm_offset m")
    case True
    have "cm_offset m < hi" using "4.prems"[of m] True by simp
    with True have "scan_tail reader pid lo hi latest (PollMessage m # polls) =
        (case Option.bind (cm_payload m) (parse_last_committed_candidate reader (cm_offset m)) of
           None \<Rightarrow> scan_tail reader pid lo hi latest polls | Some c \<Rightarrow> scan_tail reader pid lo hi (Some c) polls)"
      by (simp split: option.split)
    moreover have "\<not> (cm_partition m \<noteq> pid \<or> cm_offset m < lo)" "\<not> hi \<le> cm_offset m"
      using True \<open>cm_offset m < hi\<close> by auto
    note IH = "4.IH"(2-4)[OF this] 
    ultimately show ?thesis
      using True "4.prems" by (cases "cm_payload m") (auto simp: IH split: option.splits simp del: scan_tail.simps)
  next
    case False with "4.IH"(1) "4.prems" show ?thesis by auto
  qed
qed simp_all

text \<open>
  A consumer that serves a partition with the committed records \<open>entries\<close>: it gives them all in the time of the scan,
  and the last of them is among the last 256 offsets.
\<close>

definition serves_partition :: "kafka_consumer \<Rightarrow> string \<Rightarrow> int \<Rightarrow> (int \<times> bytes) list \<Rightarrow> bool" where
  "serves_partition c topic pid entries \<longleftrightarrow>
     (\<exists>low high. kc_fetch_watermarks c topic pid = Ok (low, high) \<and> 0 \<le> low \<and> low \<le> high \<and> high < 2 ^ 63 \<and>
        (\<forall>lo. kc_add_partition_offset c topic pid lo = Ok () \<and> kc_assign c topic pid lo = Ok () \<and> kc_seek c topic pid lo = Ok () \<and>
           served pid lo (kc_polls c topic pid lo) = filter (\<lambda>e. lo \<le> fst e) entries \<and>
           (\<forall>m. PollMessage m \<in> set (kc_polls c topic pid lo) \<longrightarrow> cm_partition m = pid \<longrightarrow> cm_offset m < high)) \<and>
        (if entries = [] then low = high
         else low \<le> fst (last entries) \<and> high - 256 \<le> fst (last entries) \<and> fst (last entries) < high))"

definition newer :: "last_committed option \<Rightarrow> slot \<Rightarrow> last_committed option" where
  "newer latest slot = (if is_none_or latest (\<lambda>c. lc_slot c < slot) then Some \<lparr>lc_slot = slot\<rparr> else latest)"

lemma read_partition_step:
  assumes "serves_partition c topic pid entries"
    and "entries \<noteq> [] \<Longrightarrow> parse_last_committed_payload reader (snd (last entries)) = Some \<lparr>lc_slot = slot\<rparr>"
  shows "read_partitions reader c topic latest (pid # pids) =
    read_partitions reader c topic (if entries = [] then latest else newer latest slot) pids"
proof -
  obtain low high where wm: "kc_fetch_watermarks c topic pid = Ok (low, high)" "0 \<le> low" "low \<le> high" "high < 2 ^ 63"
    and ops: "\<And>lo. kc_add_partition_offset c topic pid lo = Ok ()" "\<And>lo. kc_assign c topic pid lo = Ok ()" "\<And>lo. kc_seek c topic pid lo = Ok ()"
    and polls: "\<And>lo. served pid lo (kc_polls c topic pid lo) = filter (\<lambda>e. lo \<le> fst e) entries"
    and below: "\<And>lo m. PollMessage m \<in> set (kc_polls c topic pid lo) \<Longrightarrow> cm_partition m = pid \<Longrightarrow> cm_offset m < high"
    and tail: "if entries = [] then low = high else low \<le> fst (last entries) \<and> high - 256 \<le> fst (last entries) \<and> fst (last entries) < high"
    using assms(1) unfolding serves_partition_def by blast
  let ?lo = "max (high - 256) low"
  have lo: "startup_scan_low_offset low high = Ok ?lo"
    using wm by (simp add: startup_scan_low_offset_def i64_sub_def MAX_STARTUP_CHECKPOINT_SCAN_OFFSETS_def)
  have scan: "scan_tail reader pid ?lo high None (kc_polls c topic pid ?lo) =
      (if entries = [] then None else Some \<lparr>lcc_slot = slot, lcc_offset = fst (last entries)\<rparr>)"
  proof (cases entries rule: rev_cases)
    case Nil then show ?thesis by (simp add: scan_tail_fold below polls)
  next
    case (snoc es e)
    then have "?lo \<le> fst e" using tail by simp
    with snoc assms(2) show ?thesis
      by (simp add: scan_tail_fold below polls case_prod_beta parse_last_committed_candidate_def)
  qed
  have "entries = [] \<or> high \<noteq> 0" using tail wm(2) by auto
  then show ?thesis
    using tail by (simp add: wm(1) map_error_def lo read_tail_candidate_in_range_def ops scan newer_def split: if_splits)
qed

lemma read_partitions_newest:
  assumes "\<And>pid. pid \<in> set pids \<Longrightarrow> serves_partition c topic pid (entries pid)"
    and "\<And>pid. pid \<in> set pids \<Longrightarrow> entries pid \<noteq> [] \<Longrightarrow> parse_last_committed_payload reader (snd (last (entries pid))) = Some \<lparr>lc_slot = final pid\<rparr>"
  shows "read_partitions reader c topic latest pids =
    Ok (fold (\<lambda>pid latest. if entries pid = [] then latest else newer latest (final pid)) pids latest)"
  using assms
proof (induction pids arbitrary: latest)
  case (Cons pid pids)
  then show ?case
    using read_partition_step[of c topic pid "entries pid" reader "final pid" latest pids] by simp
qed simp

lemma newest_fold:
  assumes "\<And>pid. pid \<in> set pids \<Longrightarrow> P pid \<Longrightarrow> final pid \<le> v" and "\<And>w. latest = Some w \<Longrightarrow> lc_slot w \<le> v"
    and "latest = Some \<lparr>lc_slot = v\<rparr> \<or> (\<exists>pid\<in>set pids. P pid \<and> final pid = v)"
  shows "fold (\<lambda>pid latest. if \<not> P pid then latest else newer latest (final pid)) pids latest = Some \<lparr>lc_slot = v\<rparr>"
  using assms
proof (induction pids arbitrary: latest)
  case (Cons pid pids)
  let ?next = "if \<not> P pid then latest else newer latest (final pid)"
  have "fold (\<lambda>pid latest. if \<not> P pid then latest else newer latest (final pid)) pids ?next = Some \<lparr>lc_slot = v\<rparr>"
    using Cons.prems Cons.prems(1)[THEN leD, of pid]
    by (intro Cons.IH) (auto simp: newer_def is_none_or_def split: option.splits if_splits)
  then show ?case by simp
qed simp

subsection \<open>Resuming after a run\<close>

text \<open>The committed messages of a topic, in order, spread over its partitions by \<open>part\<close>.\<close>

definition serves_topic :: "kafka_consumer \<Rightarrow> string \<Rightarrow> (nat \<Rightarrow> int) \<Rightarrow> kafka_message list \<Rightarrow> bool" where
  "serves_topic c topic part ms \<longleftrightarrow>
     (\<exists>pids entries. kc_fetch_metadata c topic = Ok [(topic, pids)] \<and> pids \<noteq> [] \<and> (\<forall>i<length ms. part i \<in> set pids) \<and>
        (\<forall>pid\<in>set pids. serves_partition c topic pid (entries pid) \<and>
           map snd (entries pid) = map (\<lambda>i. km_payload (ms ! i)) (filter (\<lambda>i. part i = pid) [0..<length ms])))"

lemma last_filter_upt:
  assumes "filter P [0..<n] \<noteq> []"
  shows "last (filter P [0..<n]) < n \<and> P (last (filter P [0..<n]))"
  using last_in_set[OF assms] by auto

lemma read_topic_newest:
  assumes "create (startup_reader_settings config) = Ok c" and "serves_topic c topic part ms" and "ms \<noteq> []"
    and "\<And>i. i < length ms \<Longrightarrow> parse_last_committed_payload reader (km_payload (ms ! i)) = Some \<lparr>lc_slot = slot_at i\<rparr>"
    and "\<And>i. i < length ms \<Longrightarrow> slot_at i \<le> slot_at (length ms - 1)"
  shows "read_last_slot_from_topic reader create config topic = Ok (Some \<lparr>lc_slot = slot_at (length ms - 1)\<rparr>)"
proof -
  let ?idx = "\<lambda>pid. filter (\<lambda>i. part i = pid) [0..<length ms]"
  let ?final = "\<lambda>pid. slot_at (last (?idx pid))"
  from assms(2) obtain pids entries where meta: "kc_fetch_metadata c topic = Ok [(topic, pids)]" "pids \<noteq> []" "\<And>i. i < length ms \<Longrightarrow> part i \<in> set pids"
    and srv: "\<And>pid. pid \<in> set pids \<Longrightarrow> serves_partition c topic pid (entries pid)"
    and ent: "\<And>pid. pid \<in> set pids \<Longrightarrow> map snd (entries pid) = map (\<lambda>i. km_payload (ms ! i)) (?idx pid)"
    unfolding serves_topic_def by blast
  have empty: "entries pid = [] \<longleftrightarrow> ?idx pid = []" if "pid \<in> set pids" for pid
    using arg_cong[OF ent[OF that], of length] by (simp flip: length_0_conv)
  have fin: "parse_last_committed_payload reader (snd (last (entries pid))) = Some \<lparr>lc_slot = ?final pid\<rparr>"
    if "pid \<in> set pids" "entries pid \<noteq> []" for pid
  proof -
    have "?idx pid \<noteq> []" using empty that by blast
    from last_filter_upt[OF this] have "last (?idx pid) < length ms" by simp
    moreover have "snd (last (entries pid)) = km_payload (ms ! last (?idx pid))"
      using ent[OF that(1)] that(2) \<open>?idx pid \<noteq> []\<close> by (metis last_map)
    ultimately show ?thesis using assms(4) by simp
  qed
  have final_le: "?final pid \<le> slot_at (length ms - 1)" if "pid \<in> set pids" "entries pid \<noteq> []" for pid
    using last_filter_upt[of "\<lambda>i. part i = pid" "length ms"] empty that assms(5) by auto
  let ?p = "part (length ms - 1)"
  have "[0..<length ms] = [0..<length ms - 1] @ [length ms - 1]"
    using assms(3) by (metis Suc_pred' length_greater_0_conv upt_Suc_append zero_le)
  then have "?idx ?p \<noteq> []" "last (?idx ?p) = length ms - 1" by simp_all
  moreover have "?p \<in> set pids" using meta(3) assms(3) by simp
  ultimately have "\<exists>pid\<in>set pids. entries pid \<noteq> [] \<and> ?final pid = slot_at (length ms - 1)"
    using empty by auto
  with newest_fold[of pids "\<lambda>pid. entries pid \<noteq> []" ?final "slot_at (length ms - 1)" None] final_le
  have "fold (\<lambda>pid latest. if entries pid = [] then latest else newer latest (?final pid)) pids None = Some \<lparr>lc_slot = slot_at (length ms - 1)\<rparr>"
    by simp
  with read_partitions_newest[of pids c topic entries reader ?final None, OF srv fin] show ?thesis
    by (simp add: read_last_slot_from_topic_def assms(1) map_error_def meta)
qed

lemma read_topic_empty:
  assumes "create (startup_reader_settings config) = Ok c" and "serves_topic c topic part []"
  shows "read_last_slot_from_topic reader create config topic = Ok None"
proof -
  from assms(2) obtain pids entries where meta: "kc_fetch_metadata c topic = Ok [(topic, pids)]" "pids \<noteq> []"
    and all: "\<forall>pid\<in>set pids. serves_partition c topic pid (entries pid) \<and> entries pid = []"
    by (auto simp: serves_topic_def)
  then have srv: "\<And>pid. pid \<in> set pids \<Longrightarrow> serves_partition c topic pid (entries pid)" and ent: "\<And>pid. pid \<in> set pids \<Longrightarrow> entries pid = []"
    by blast+
  have "fold (\<lambda>pid latest. if entries pid = [] then latest else newer latest 0) pids None = None"
    using ent by (induction pids) auto
  with read_partitions_newest[of pids c topic entries reader "\<lambda>_. 0" None, OF srv] ent show ?thesis
    by (simp add: read_last_slot_from_topic_def assms(1) map_error_def meta)
qed

lemma checkpoints_on_topic:
  assumes "\<And>e. json e = Ok (payload e)" and "\<forall>s\<in>set xs. \<forall>r\<in>set (is_records s). pr_topic r \<noteq> transaction_slots_topic config"
  shows "map km_payload (filter (\<lambda>m. km_topic m = transaction_slots_topic config) (concat (map (transaction_slot_messages rt json config) xs))) =
    map (\<lambda>s. payload (build_transaction_slot_commit_event rt s)) xs"
  using assms(2)
proof (induction xs)
  case (Cons s xs)
  then have "filter (\<lambda>m. km_topic m = transaction_slots_topic config) (map record_message (is_records s)) = []"
    by (auto simp: filter_empty_conv record_message_def)
  with Cons show ?case by (simp add: transaction_slot_messages_def assms(1))
qed simp


definition demo_consumer :: kafka_consumer where
  "demo_consumer =
     \<lparr>kc_fetch_metadata = (\<lambda>topic. Ok [(topic, [0, 1])]),
      kc_fetch_watermarks = (\<lambda>topic pid. Ok (if pid = 0 then (0, 4) else (0, 0))),
      kc_add_partition_offset = (\<lambda>topic pid lo. Ok ()), kc_assign = (\<lambda>topic pid lo. Ok ()), kc_seek = (\<lambda>topic pid lo. Ok ()),
      kc_polls = (\<lambda>topic pid lo. PollNone # PollError ''transport'' #
        (if lo \<le> 2 then [PollMessage \<lparr>cm_partition = 0, cm_offset = 2, cm_payload = Some [7, 1]\<rparr>] else []))\<rparr>"

definition demo_reader :: json_reader where
  "demo_reader = \<lparr>parse_event = (\<lambda>_. Some (build_transaction_slot_commit_event demo_plain_text (hd demo_slots))), json_slot = (\<lambda>_. None)\<rparr>"

lemma demo_run_checkpoint:
  "map km_payload (filter (\<lambda>m. km_topic m = transaction_slots_topic demo_config) (demo_visible (fst demo_run))) = [[7, 1]]"
  by code_simp

lemma demo_consumer_serves:
  assumes "map km_payload ms = [[7, 1]]"
  shows "serves_topic demo_consumer topic (\<lambda>_. 0) ms"
proof -
  obtain m where ms: "ms = [m]" "km_payload m = [7, 1]" using assms by auto
  have "serves_partition demo_consumer topic 0 [(2, [7, 1])]"
    unfolding serves_partition_def by (intro exI[of _ 0] exI[of _ 4]) (auto simp: demo_consumer_def)
  moreover have "serves_partition demo_consumer topic 1 []"
    unfolding serves_partition_def by (intro exI[of _ 0] exI[of _ 0]) (auto simp: demo_consumer_def)
  ultimately show ?thesis
    unfolding serves_topic_def
    by (intro exI[of _ "[0, 1]"] exI[of _ "\<lambda>pid. if pid = 0 then [(2, [7, 1])] else []"]) (auto simp: ms demo_consumer_def)
qed


end
