(* ===== verification/Kafka_Passthrough.thy ===== *)
theory Kafka_Passthrough
  imports Kafka_Delivery
begin

text \<open>
  The watermarks of the passthrough sink (\<open>AccountPassthroughSink::run\<close> in
  \<open>crates/kafka-sink/src/kafka_sink.rs\<close>): a send whose answer is lost is repeated, so the topic
  is read up to adjacent repetitions.
\<close>

lemma retry_repeats:
  assumes "\<And>k. finishes (\<lambda>k'. topic_log k' = topic_log k @ [m]) (\<lambda>_ k'. topic_log k' \<in> {topic_log k, topic_log k @ [m]}) (f k)"
  shows "finishes (\<lambda>k'. \<exists>n. topic_log k' = topic_log k @ replicate (Suc n) m) (\<lambda>_ k'. \<exists>n. topic_log k' = topic_log k @ replicate n m)
    (with_retry mx context slot f k)" (is "finishes ?Q (\<lambda>_. ?P) _")
proof (rule contractD[OF contract_retry])
  show "contract ?P f ?Q (\<lambda>_. ?P)"
  proof (rule contractI)
    fix k1 assume "?P k1"
    then obtain n where n: "topic_log k1 = topic_log k @ replicate n m" by blast
    then have q: "?Q k'" if "topic_log k' = topic_log k1 @ [m]" for k'
      using that by (simp add: replicate_append_same exI[of _ n])
    have p: "?P k'" if "topic_log k' \<in> {topic_log k1, topic_log k1 @ [m]}" for k'
      using that n by (auto simp: replicate_append_same simp flip: replicate_Suc)
    show "finishes ?Q (\<lambda>_. ?P) (f k1)"
      by (rule finishes_mono[OF assms]) (fact q, fact p)
  qed
  show "?P k" by (simp add: exI[of _ 0])
qed

definition watermark_of :: "account_passthrough_sink \<Rightarrow> (account_slot_commit_event \<Rightarrow> bytes) \<Rightarrow> slot \<Rightarrow> kafka_message" where
  "watermark_of sink payload s = watermark_message sink s (payload (watermark_event s))"

lemma emit_watermark_writes:
  assumes "plain_producer p topic_log" and "\<And>e. json e = Ok (payload e)"
  shows "finishes (\<lambda>k'. \<exists>n. topic_log k' = topic_log k @ replicate (Suc n) (watermark_of sink payload s))
    (\<lambda>_ k'. \<exists>n. topic_log k' = topic_log k @ replicate n (watermark_of sink payload s)) (emit_watermark_with_retry json sink p s k)"
  unfolding emit_watermark_with_retry_def
proof (rule retry_repeats)
  fix k
  from plain_send[OF assms(1), of k "watermark_of sink payload s"]
  show "finishes (\<lambda>k'. topic_log k' = topic_log k @ [watermark_of sink payload s])
      (\<lambda>_ k'. topic_log k' \<in> {topic_log k, topic_log k @ [watermark_of sink payload s]}) (emit_watermark json sink p s k)"
    by (cases rule: finishesE) (simp_all add: emit_watermark_def assms(2) watermark_of_def)
qed

lemma publish_record_writes:
  assumes "plain_producer p topic_log"
  shows "finishes (\<lambda>k'. \<exists>n. topic_log k' = topic_log k @ replicate (Suc n) (record_message r))
    (\<lambda>_ k'. \<exists>n. topic_log k' = topic_log k @ replicate n (record_message r)) (with_retry mx context s (publish_passthrough_record p s r) k)"
proof (rule retry_repeats)
  fix k
  from plain_send[OF assms, of k "record_message r"]
  show "finishes (\<lambda>k'. topic_log k' = topic_log k @ [record_message r])
      (\<lambda>_ k'. topic_log k' \<in> {topic_log k, topic_log k @ [record_message r]}) (publish_passthrough_record p s r k)"
    by (cases rule: finishesE) (simp_all add: publish_passthrough_record_def)
qed

text \<open>The watermarks \<open>ws\<close> that appear between two states, none of them below \<open>floor\<close>.\<close>

definition watermarks ::
  "('k \<Rightarrow> kafka_message list) \<Rightarrow> account_passthrough_sink \<Rightarrow> (account_slot_commit_event \<Rightarrow> bytes) \<Rightarrow> 'k \<Rightarrow> 'k \<Rightarrow> slot list \<Rightarrow> bool" where
  "watermarks topic_log sink payload k k' ws \<longleftrightarrow>
     (\<exists>ms. topic_log k' = topic_log k @ ms \<and> remdups_adj (filter (\<lambda>m. km_topic m = ap_topic sink) ms) = map (watermark_of sink payload) ws)"

lemma watermark_of_simps [simp]:
  "km_topic (watermark_of sink payload s) = ap_topic sink" "watermark_of sink payload s = watermark_of sink payload s' \<longleftrightarrow> s = s'"
  by (auto simp: watermark_of_def watermark_message_def dest: arg_cong[of _ _ km_key])

lemma remdups_adj_replicate_append:
  "xs = [] \<or> hd xs \<noteq> m \<Longrightarrow> remdups_adj (replicate n m @ xs) = (if n = 0 then [] else [m]) @ remdups_adj xs"
proof (induction n)
  case (Suc n) then show ?case by (cases n; cases xs) auto
qed simp

lemma watermarks_replicate:
  assumes "topic_log k1 = topic_log k @ replicate n (watermark_of sink payload s)" and "watermarks topic_log sink payload k1 k' ws"
    and "\<forall>w\<in>set ws. s < w"
  shows "watermarks topic_log sink payload k k' ((if n = 0 then [] else [s]) @ ws)"
proof -
  from assms(2) obtain ms where ms: "topic_log k' = topic_log k1 @ ms"
    "remdups_adj (filter (\<lambda>m. km_topic m = ap_topic sink) ms) = map (watermark_of sink payload) ws" unfolding watermarks_def by blast
  let ?xs = "filter (\<lambda>m. km_topic m = ap_topic sink) ms"
  have "?xs = [] \<or> hd ?xs \<noteq> watermark_of sink payload s"
  proof (cases ws)
    case (Cons w ws')
    then have "hd ?xs = watermark_of sink payload w" using ms(2) by (metis hd_remdups_adj list.sel(1) list.simps(9))
    with Cons assms(3) show ?thesis by auto
  qed (use ms(2) in simp)
  from remdups_adj_replicate_append[OF this, of n] ms assms(1) show ?thesis
    unfolding watermarks_def by (intro exI[of _ "replicate n (watermark_of sink payload s) @ ms"]) simp
qed

lemma watermarks_skip:
  assumes "topic_log k1 = topic_log k @ replicate n m" and "km_topic m \<noteq> ap_topic sink" and "watermarks topic_log sink payload k1 k' ws"
  shows "watermarks topic_log sink payload k k' ws"
  using assms unfolding watermarks_def by (force simp: filter_replicate)

lemma watermarks_none: "watermarks topic_log sink payload k k []"
  by (simp add: watermarks_def)

text \<open>The slots still to be watermarked: the current one and those of the messages to come.\<close>

definition pending_slots :: "slot option \<Rightarrow> account_msg list \<Rightarrow> slot set" where
  "pending_slots current msgs = set_option current \<union> am_slot ` set msgs"

definition ascending_from :: "slot option \<Rightarrow> slot list \<Rightarrow> bool" where
  "ascending_from current ws \<longleftrightarrow> sorted_wrt (<) ws \<and> (\<forall>w\<in>set ws. \<forall>s. current = Some s \<longrightarrow> s \<le> w)"

definition newest_slot :: "slot set \<Rightarrow> slot list \<Rightarrow> bool" where
  "newest_slot ss ws \<longleftrightarrow> (if ss = {} then ws = [] else ws \<noteq> [] \<and> (\<forall>s\<in>ss. s \<le> last ws))"

definition watermarked ::
  "('k \<Rightarrow> kafka_message list) \<Rightarrow> account_passthrough_sink \<Rightarrow> (account_slot_commit_event \<Rightarrow> bytes) \<Rightarrow> slot option \<Rightarrow> account_msg list
    \<Rightarrow> bool \<Rightarrow> 'k \<Rightarrow> 'k \<Rightarrow> bool" where
  "watermarked topic_log sink payload current msgs complete k k' \<longleftrightarrow>
     (\<exists>ws. watermarks topic_log sink payload k k' ws \<and> ascending_from current ws \<and> set ws \<subseteq> pending_slots current msgs \<and>
        (complete \<longrightarrow> newest_slot (pending_slots current msgs) ws))"

lemmas watermarked_defs = watermarked_def ascending_from_def pending_slots_def newest_slot_def

lemma watermarked_emit:
  assumes "topic_log k' = topic_log k @ replicate n (watermark_of sink payload s)"
  shows "watermarked topic_log sink payload (Some s) msgs False k k'"
  unfolding watermarked_def using watermarks_replicate[where topic_log = topic_log, OF assms watermarks_none]
  by (intro exI[of _ "if n = 0 then [] else [s]"]) (simp add: ascending_from_def pending_slots_def)

lemma watermarked_last:
  assumes "topic_log k' = topic_log k @ replicate (Suc n) (watermark_of sink payload s)"
  shows "watermarked topic_log sink payload (Some s) [] True k k'"
  unfolding watermarked_def using watermarks_replicate[where topic_log = topic_log, OF assms watermarks_none]
  by (intro exI[of _ "[s]"]) (simp add: ascending_from_def pending_slots_def newest_slot_def)

lemma watermarked_next:
  assumes "topic_log k1 = topic_log k @ replicate (Suc n) (watermark_of sink payload s)" and "s < am_slot m"
    and "watermarked topic_log sink payload (Some (am_slot m)) msgs complete k1 k'"
  shows "watermarked topic_log sink payload (Some s) (m # msgs) complete k k'"
proof -
  from assms(3) obtain ws where ws: "watermarks topic_log sink payload k1 k' ws" "sorted_wrt (<) ws" "\<forall>w\<in>set ws. am_slot m \<le> w"
    "set ws \<subseteq> {am_slot m} \<union> am_slot ` set msgs" "complete \<longrightarrow> ws \<noteq> [] \<and> (\<forall>x\<in>{am_slot m} \<union> am_slot ` set msgs. x \<le> last ws)"
    by (auto simp: watermarked_defs)
  have above: "\<forall>w\<in>set ws. s < w" using ws(3) assms(2) by auto
  from watermarks_replicate[where topic_log = topic_log, OF assms(1) ws(1) above] show ?thesis
    unfolding watermarked_def using ws assms(2) above
    by (intro exI[of _ "s # ws"]) (auto simp: ascending_from_def pending_slots_def newest_slot_def)
qed

lemma watermarked_first:
  assumes "watermarked topic_log sink payload (Some (am_slot m)) msgs complete k k'"
  shows "watermarked topic_log sink payload None (m # msgs) complete k k'"
  using assms by (auto simp: watermarked_defs)

lemma watermarked_late:
  assumes "watermarked topic_log sink payload (Some s) msgs complete k k'" and "am_slot m \<le> s"
  shows "watermarked topic_log sink payload (Some s) (m # msgs) complete k k'"
proof -
  from assms(1) obtain ws where "watermarks topic_log sink payload k k' ws" "ascending_from (Some s) ws" "set ws \<subseteq> {s} \<union> am_slot ` set msgs"
    "complete \<longrightarrow> ws \<noteq> [] \<and> s \<le> last ws \<and> (\<forall>m\<in>set msgs. am_slot m \<le> last ws)"
    by (auto simp: watermarked_def pending_slots_def newest_slot_def)
  then show ?thesis
    unfolding watermarked_def using assms(2) by (intro exI[of _ ws]) (auto simp: pending_slots_def newest_slot_def)
qed

lemma watermarked_skip:
  assumes "topic_log k1 = topic_log k @ replicate n m" and "km_topic m \<noteq> ap_topic sink"
    and "watermarked topic_log sink payload current msgs complete k1 k'"
  shows "watermarked topic_log sink payload current msgs complete k k'"
  using assms(3) watermarks_skip[where topic_log = topic_log, OF assms(1,2)] unfolding watermarked_def by blast

lemma watermarked_none: "watermarked topic_log sink payload current msgs False k k"
  unfolding watermarked_def ascending_from_def by (intro exI[of _ "[]"]) (simp add: watermarks_none)

lemma passthrough_record_step:
  assumes laws: "plain_producer p topic_log" "\<And>e. json e = Ok (payload e)"
    and step: "\<And>current k. finishes (watermarked topic_log sink payload current msgs True k)
        (\<lambda>_. watermarked topic_log sink payload current msgs False k) (passthrough_loop json sink p current msgs k)"
  shows "finishes (watermarked topic_log sink payload current (m # msgs) True k) (\<lambda>_. watermarked topic_log sink payload current (m # msgs) False k)
    (case current of
       None \<Rightarrow> passthrough_loop json sink p (Some (am_slot m)) msgs k
     | Some prev \<Rightarrow>
         if prev < am_slot m
         then then_run (emit_watermark_with_retry json sink p prev k) (passthrough_loop json sink p (Some (am_slot m)) msgs)
         else passthrough_loop json sink p current msgs k)"
proof (cases current)
  case None
  have "finishes (watermarked topic_log sink payload None (m # msgs) True k) (\<lambda>_. watermarked topic_log sink payload None (m # msgs) False k)
      (passthrough_loop json sink p (Some (am_slot m)) msgs k)"
    by (rule finishes_mono[OF step]) (rule watermarked_first, assumption)+
  with None show ?thesis by simp
next
  case (Some prev)
  let ?Q = "watermarked topic_log sink payload (Some prev) (m # msgs) True k"
  let ?E = "\<lambda>_::string. watermarked topic_log sink payload (Some prev) (m # msgs) False k"
  show ?thesis
  proof (cases "prev < am_slot m")
    case True
    have "finishes ?Q ?E (then_run (emit_watermark_with_retry json sink p prev k) (passthrough_loop json sink p (Some (am_slot m)) msgs))"
    proof (rule finishes_then)
      show "finishes (\<lambda>k'. \<exists>n. topic_log k' = topic_log k @ replicate (Suc n) (watermark_of sink payload prev)) ?E (emit_watermark_with_retry json sink p prev k)"
        by (rule finishes_mono[OF emit_watermark_writes[OF laws]]) (blast intro: watermarked_emit)+
      fix k1 assume "\<exists>n. topic_log k1 = topic_log k @ replicate (Suc n) (watermark_of sink payload prev)"
      then obtain n where n: "topic_log k1 = topic_log k @ replicate (Suc n) (watermark_of sink payload prev)" by blast
      show "finishes ?Q ?E (passthrough_loop json sink p (Some (am_slot m)) msgs k1)"
        by (rule finishes_mono[OF step]) (rule watermarked_next[where topic_log = topic_log, OF n True], assumption)+
    qed
    with Some True show ?thesis by simp
  next
    case False
    then have "am_slot m \<le> prev" by simp
    have "finishes ?Q ?E (passthrough_loop json sink p (Some prev) msgs k)"
      by (rule finishes_mono[OF step]) (rule watermarked_late[OF _ \<open>am_slot m \<le> prev\<close>], assumption)+
    with Some False show ?thesis by simp
  qed
qed

lemma passthrough_loop_watermarks:
  assumes laws: "plain_producer p topic_log" "\<And>e. json e = Ok (payload e)"
    and "\<forall>m\<in>set msgs. \<forall>r\<in>set_option (am_record m). pr_topic r \<noteq> ap_topic sink"
  shows "finishes (watermarked topic_log sink payload current msgs True k) (\<lambda>_. watermarked topic_log sink payload current msgs False k)
    (passthrough_loop json sink p current msgs k)"
  using assms(3)
proof (induction msgs arbitrary: current k)
  case Nil
  show ?case
  proof (cases current)
    case None then show ?thesis
      by (auto simp: watermarked_defs intro: watermarks_none)
  next
    case (Some s)
    have "finishes (watermarked topic_log sink payload (Some s) [] True k) (\<lambda>_. watermarked topic_log sink payload (Some s) [] False k)
        (emit_watermark_with_retry json sink p s k)"
      by (rule finishes_mono[OF emit_watermark_writes[where payload = payload, OF laws]])
        (elim exE, erule watermarked_last watermarked_emit)+
    with Some show ?thesis by simp
  qed
next
  case (Cons m msgs)
  obtain s r h where m: "m = AccountMsgRecord s r h" by (cases m)
  let ?Q = "watermarked topic_log sink payload current (m # msgs) True"
  let ?E = "\<lambda>k (_::string). watermarked topic_log sink payload current (m # msgs) False k"
  note step = passthrough_record_step[where msgs = msgs and sink = sink and m = m, OF laws Cons.IH]
  show ?case
  proof (cases r)
    case None
    from Cons.prems have "\<forall>m\<in>set msgs. \<forall>r\<in>set_option (am_record m). pr_topic r \<noteq> ap_topic sink" by simp
    with step[of current k] show ?thesis unfolding m None account_msg.sel by simp
  next
    case (Some x)
    then have topic: "km_topic (record_message x) \<noteq> ap_topic sink" using Cons.prems m by (simp add: record_message_def)
    have "finishes (?Q k) (?E k)
        (then_run (with_retry (rs_max_attempts (ap_retry sink)) ''Passthrough account write'' s (publish_passthrough_record p s x) k)
          (\<lambda>k. case current of
             None \<Rightarrow> passthrough_loop json sink p (Some (am_slot m)) msgs k
           | Some prev \<Rightarrow>
               if prev < am_slot m
               then then_run (emit_watermark_with_retry json sink p prev k) (passthrough_loop json sink p (Some (am_slot m)) msgs)
               else passthrough_loop json sink p current msgs k))"
    proof (rule finishes_then)
      show "finishes (\<lambda>k'. \<exists>n. topic_log k' = topic_log k @ replicate (Suc n) (record_message x)) (?E k)
          (with_retry (rs_max_attempts (ap_retry sink)) ''Passthrough account write'' s (publish_passthrough_record p s x) k)"
        by (rule finishes_mono[OF publish_record_writes[OF laws(1)]]) (use watermarked_skip[where topic_log = topic_log, OF _ topic watermarked_none] in blast)+
      fix k1 assume "\<exists>n. topic_log k1 = topic_log k @ replicate (Suc n) (record_message x)"
      then obtain n where n: "topic_log k1 = topic_log k @ replicate (Suc n) (record_message x)" by blast
      have "finishes (?Q k1) (?E k1) (case current of
             None \<Rightarrow> passthrough_loop json sink p (Some (am_slot m)) msgs k1
           | Some prev \<Rightarrow>
               if prev < am_slot m
               then then_run (emit_watermark_with_retry json sink p prev k1) (passthrough_loop json sink p (Some (am_slot m)) msgs)
               else passthrough_loop json sink p current msgs k1)"
        using step Cons.prems by simp
      then show "finishes (?Q k) (?E k) (case current of
             None \<Rightarrow> passthrough_loop json sink p (Some (am_slot m)) msgs k1
           | Some prev \<Rightarrow>
               if prev < am_slot m
               then then_run (emit_watermark_with_retry json sink p prev k1) (passthrough_loop json sink p (Some (am_slot m)) msgs)
               else passthrough_loop json sink p current msgs k1)"
        by (rule finishes_mono) (rule watermarked_skip[where topic_log = topic_log, OF n topic], assumption)+
    qed
    then show ?thesis unfolding m Some account_msg.sel by simp
  qed
qed

text \<open>
  C38. The passthrough sink's watermarks: read without adjacent repetitions (a send whose answer was
  lost is repeated), the watermarks on the account slots topic are strictly ascending slots of received
  messages, also when the sink stops with an error. When it ends in order the last of them is the
  highest slot received, and there is none exactly when no message was.
\<close>

theorem passthrough_watermarks_ascend:
  assumes "plain_producer p topic_log" and "\<And>e. json e = Ok (payload e)"
    and "\<forall>m\<in>set msgs. \<forall>r\<in>set_option (am_record m). pr_topic r \<noteq> ap_topic sink"
    and "passthrough_run json sink p msgs k = (k', result)"
  shows "result \<noteq> Panic \<and>
    (\<exists>ms ws. topic_log k' = topic_log k @ ms \<and>
       remdups_adj (filter (\<lambda>m. km_topic m = ap_topic sink) ms) = map (watermark_of sink payload) ws \<and>
       sorted_wrt (<) ws \<and> set ws \<subseteq> am_slot ` set msgs \<and>
       (result = Ok () \<longrightarrow> (if msgs = [] then ws = [] else ws \<noteq> [] \<and> (\<forall>m\<in>set msgs. am_slot m \<le> last ws))))"
  using passthrough_loop_watermarks[where payload = payload and json = json, OF assms(1-3), of None k] assms(4)
  by (cases result) (auto simp: passthrough_run_def watermarked_defs watermarks_def split: if_splits)

definition demo_account :: "slot \<Rightarrow> account_msg" where
  "demo_account s = AccountMsgRecord s (Some demo_record) False"

definition demo_passthrough :: account_passthrough_sink where
  "demo_passthrough = new_account_passthrough_sink ''account.slots'' 3 10"

definition demo_account_run :: "(nat \<times> kafka_message list) \<times> (string, unit) outcome" where
  "demo_account_run = passthrough_run (\<lambda>e. Ok [ucast (ac_slot e)]) demo_passthrough lossy_producer (map demo_account [5, 7, 6, 9]) (2, [])"

lemma demo_account_run_ok: "snd demo_account_run = Ok ()"
  by code_simp

theorem passthrough_watermarks_ascend_witness:
  "\<exists>ws. remdups_adj (filter (\<lambda>m. km_topic m = ''account.slots'') (snd (fst demo_account_run))) =
       map (watermark_of demo_passthrough (\<lambda>e. [ucast (ac_slot e)])) ws \<and>
     sorted_wrt (<) ws \<and> ws \<noteq> [] \<and> 9 \<le> last ws"
proof -
  have "\<forall>m\<in>set (map demo_account [5, 7, 6, 9]). \<forall>r\<in>set_option (am_record m). pr_topic r \<noteq> ap_topic demo_passthrough"
    by (simp add: demo_account_def demo_record_def demo_passthrough_def new_account_passthrough_sink_def)
  from passthrough_watermarks_ascend[where payload = "\<lambda>e. [ucast (ac_slot e)]", OF lossy_producer_plain refl this, of "(2, [])" "fst demo_account_run" "snd demo_account_run"]
  show ?thesis
    using demo_account_run_ok
    by (auto simp: demo_account_run_def demo_account_def demo_passthrough_def new_account_passthrough_sink_def)
qed

end
