(* ===== verification/Anchor_Json.thy ===== *)
theory Anchor_Json
  imports Ordered_Map "HOL-Library.Char_ord" "HOL-Library.List_Lexorder"
begin

text \<open>
  The vocabulary of the Anchor IDL converter (\<open>crates/codama-from-anchor/src\<close>): JSON values as
  \<open>serde_json\<close> has them (an object is a map in key order), the errors and limits of \<open>lib.rs\<close>, and the
  naming rules of \<open>case.rs\<close>. What other packages do is one record of functions, \<open>anchor_env\<close>.
\<close>

subsection \<open>JSON values\<close>

text \<open>A float is kept as its text: the converter never computes with one.\<close>

datatype json_number = PosInt u64 | NegInt int | JsonFloat string

datatype json =
    JNull
  | JBool bool
  | JNumber json_number
  | JString string
  | JArray "json list"
  | JObject "(string \<times> json) list"

text \<open>\<open>Value::get\<close>, \<open>as_str\<close>, \<open>as_u64\<close>, \<open>as_array\<close>, \<open>as_object\<close>.\<close>

fun json_get :: "string \<Rightarrow> json \<Rightarrow> json option" where
  "json_get key (JObject obj) = map_of obj key"
| "json_get key _ = None"

fun json_str :: "json \<Rightarrow> string option" where
  "json_str (JString s) = Some s"
| "json_str _ = None"

fun json_u64 :: "json \<Rightarrow> u64 option" where
  "json_u64 (JNumber (PosInt n)) = Some n"
| "json_u64 _ = None"

fun json_array :: "json \<Rightarrow> json list option" where
  "json_array (JArray xs) = Some xs"
| "json_array _ = None"

fun json_object :: "json \<Rightarrow> (string \<times> json) list option" where
  "json_object (JObject obj) = Some obj"
| "json_object _ = None"

definition json_get_str :: "string \<Rightarrow> json \<Rightarrow> string option" where
  "json_get_str key v = Option.bind (json_get key v) json_str"

definition json_pointer :: "string list \<Rightarrow> json \<Rightarrow> json option" where
  "json_pointer path v = fold (\<lambda>key v. Option.bind v (json_get key)) path (Some v)"

lemma json_get_size: "json_get key v = Some w \<Longrightarrow> size w < size v"
proof (induction key v rule: json_get.induct)
  case (1 key obj)
  then have "(key, w) \<in> set obj" by (auto dest: map_of_SomeD)
  then have "size w < size_list (size_prod (\<lambda>_. 0) size) obj"
    by (induction obj) auto
  then show ?case by simp
qed simp_all

lemma json_array_size: "json_array v = Some xs \<Longrightarrow> x \<in> set xs \<Longrightarrow> size x < size v"
  by (cases v) (auto dest!: size_list_estimation'[OF _ order_refl, where f = size])

subsection \<open>Errors and limits\<close>

definition NESTING_LIMIT :: nat where "NESTING_LIMIT = 128"

definition TYPE_NODE_LIMIT :: nat where "TYPE_NODE_LIMIT = 100000"

definition FIXED_TYPE_SIZE_LIMIT :: u64 where "FIXED_TYPE_SIZE_LIMIT = 10 * 1024 * 1024"

definition SUPPORTED_SPEC :: string where "SUPPORTED_SPEC = ''0.1.0''"

datatype item_kind = ProgramItem | TypeItem | AccountItem | ConstantItem | ErrorItem | EventItem | InstructionItem

fun item_kind_text :: "item_kind \<Rightarrow> string" where
  "item_kind_text ProgramItem = ''program''"
| "item_kind_text TypeItem = ''type''"
| "item_kind_text AccountItem = ''account''"
| "item_kind_text ConstantItem = ''constant''"
| "item_kind_text ErrorItem = ''error''"
| "item_kind_text EventItem = ''event''"
| "item_kind_text InstructionItem = ''instruction''"

datatype anchor_error =
    JsonError string
  | UnsupportedSpec "string option"
  | NotAnchor string
  | MissingAddress
  | LegacyUnsupported string
  | LegacyError string
  | At item_kind string anchor_error
  | EmptyDiscriminator
  | InvalidName string
  | NameCollision string
  | AmbiguousDiscriminator bytes string
  | DuplicateDiscriminator string
  | UnrecognizedType string
  | GenericTypeMissing string
  | GenericArgsMissing string
  | GenericEnum string
  | InlineEnum
  | VariableSizeCOption
  | UndefinedType string
  | GenericArgMissing string
  | InvalidArrayLength string
  | RecursionLimit
  | TooLarge
  | FixedTypeTooLarge
  | PaddedBorshType
  | UnknownLayout
  | TypeMissing
  | TypeNotStruct
  | ConflictingFlattenedArguments "string list"
  | DiscriminatorArgument

definition at_item :: "item_kind \<Rightarrow> string \<Rightarrow> (anchor_error, 'a) outcome \<Rightarrow> (anchor_error, 'a) outcome" where
  "at_item kind name = map_outcome (At kind name) id"

text \<open>
  \<open>json_text\<close> prints a value; \<open>camel_string\<close> deserializes a \<open>CamelCaseString\<close>; \<open>hex_text\<close> and \<open>bs58_bytes\<close> encode bytes;
  \<open>bytes_of_json\<close> reads a list of bytes; \<open>float_text\<close> is the number a decimal text rounds to as an \<open>f64\<close>, an integer when the double is one below 2^53.
\<close>

record anchor_env =
  json_text :: "json \<Rightarrow> string"
  camel_string :: "string \<Rightarrow> (string, string) outcome"
  hex_text :: "bytes \<Rightarrow> string"
  bs58_bytes :: "bytes \<Rightarrow> string"
  bytes_of_json :: "string \<Rightarrow> bytes option"
  float_text :: "string \<Rightarrow> json_number"

subsection \<open>Names\<close>

definition is_ascii_alphanumeric :: "char \<Rightarrow> bool" where
  "is_ascii_alphanumeric c \<longleftrightarrow> is_ascii_uppercase c \<or> is_ascii_lowercase c \<or> is_ascii_digit c"

text \<open>\<open>str::split\<close> by a test on characters: always at least one part.\<close>

fun split_str :: "(char \<Rightarrow> bool) \<Rightarrow> string \<Rightarrow> string list" where
  "split_str sep [] = [[]]"
| "split_str sep (c # s) =
     (case split_str sep s of
        p # ps \<Rightarrow> if sep c then [] # p # ps else (c # p) # ps
      | [] \<Rightarrow> [])"

fun capitalize :: "string \<Rightarrow> string" where
  "capitalize [] = []"
| "capitalize (c # s) = ascii_upper c # map ascii_lower s"

definition upper_or_digit :: "char \<Rightarrow> bool" where
  "upper_or_digit c \<longleftrightarrow> is_ascii_uppercase c \<or> is_ascii_digit c"

definition is_screaming_snake :: "string \<Rightarrow> bool" where
  "is_screaming_snake input =
     (case split_str (\<lambda>c. c = CHR ''_'') input of
        [] \<Rightarrow> False
      | head # rest \<Rightarrow>
          (head \<noteq> [] \<and> is_ascii_uppercase (hd head) \<and> list_all upper_or_digit head) \<and> rest \<noteq> [] \<and>
          list_all (\<lambda>p. p \<noteq> [] \<and> list_all upper_or_digit p) rest)"

definition title_words :: "string \<Rightarrow> string list" where
  "title_words input =
     (if is_screaming_snake input
      then map capitalize (split_str (\<lambda>c. c = CHR ''_'') (map ascii_lower input))
      else map capitalize
             (filter (\<lambda>w. w \<noteq> [])
               (split_str (\<lambda>c. \<not> is_ascii_alphanumeric c)
                 (concat (map (\<lambda>c. if is_ascii_uppercase c then [CHR '' '', c] else [c]) input)))))"

definition pascal_case :: "string \<Rightarrow> string" where
  "pascal_case input = concat (title_words input)"

definition snake_case :: "string \<Rightarrow> string" where
  "snake_case input = map ascii_lower (join_with ''_'' (title_words input))"

definition camel_case :: "string \<Rightarrow> string" where
  "camel_case input = (case pascal_case input of [] \<Rightarrow> [] | c # s \<Rightarrow> ascii_lower c # s)"

definition camel :: "anchor_env \<Rightarrow> string \<Rightarrow> (anchor_error, string) outcome" where
  "camel env input = map_outcome JsonError id (camel_string env (camel_case input))"

definition ident :: "anchor_env \<Rightarrow> string \<Rightarrow> (anchor_error, string) outcome" where
  "ident env input =
     bind_outcome (camel env input) (\<lambda>name.
       if name \<noteq> [] \<and> (is_ascii_uppercase (hd name) \<or> is_ascii_lowercase (hd name)) then Ok name else Err (InvalidName input))"

lemma case_examples:
  "map camel_case [''amount_in'', ''minAmountOut'', ''SwapResult'', ''USDC'', ''MAX_FEE_BPS'', ''str1ng'', ''v2_pool'', ''__leading'', []] =
    [''amountIn'', ''minAmountOut'', ''swapResult'', ''uSDC'', ''maxFeeBps'', ''str1ng'', ''v2Pool'', ''leading'', []]"
  by code_simp

subsection \<open>Names are normal forms\<close>

lemmas ascii_defs = is_ascii_alphanumeric_def is_ascii_uppercase_def is_ascii_lowercase_def is_ascii_digit_def upper_or_digit_def
  ascii_upper_def ascii_lower_def Let_def

lemma ascii_upper_id: "\<not> is_ascii_lowercase c \<Longrightarrow> ascii_upper c = c"
  by (auto simp: ascii_defs)

lemma ascii_lower_id: "\<not> is_ascii_uppercase c \<Longrightarrow> ascii_lower c = c"
  by (auto simp: ascii_defs)

lemma ascii_alnum:
  assumes "is_ascii_alphanumeric c"
  shows "is_ascii_alphanumeric (ascii_upper c)" "is_ascii_alphanumeric (ascii_lower c)" "upper_or_digit (ascii_upper c)"
  using assms by (auto simp: ascii_defs)

lemma ascii_upper_lower: "upper_or_digit c \<Longrightarrow> ascii_upper (ascii_lower c) = c"
  by (auto simp: ascii_defs)

lemma ascii_lower_underscore: "ascii_lower c = CHR ''_'' \<longleftrightarrow> c = CHR ''_''"
proof
  assume "ascii_lower c = CHR ''_''"
  then have "of_char (ascii_lower c) = (95 :: nat)" by simp
  then have "of_char c = (95 :: nat)" by (auto simp: ascii_lower_def Let_def split: if_splits)
  then show "c = CHR ''_''" by (simp add: of_char_eq_iff[symmetric, where ?'a = nat] del: of_char_eq_iff)
qed (simp add: ascii_defs)

lemma split_str_none: "\<forall>c\<in>set s. \<not> sep c \<Longrightarrow> split_str sep s = [s]"
  by (induction s) auto

lemma split_str_parts: "p \<in> set (split_str sep s) \<Longrightarrow> c \<in> set p \<Longrightarrow> \<not> sep c \<and> c \<in> set s"
proof (induction s arbitrary: p)
  case (Cons a s) then show ?case by (cases "split_str sep s") (fastforce split: if_splits)+
qed simp

lemma split_str_lower:
  "split_str (\<lambda>c. c = CHR ''_'') (map ascii_lower s) = map (map ascii_lower) (split_str (\<lambda>c. c = CHR ''_'') s)"
  by (induction s) (auto simp: ascii_lower_underscore split: list.splits)

lemma capitalize_word:
  assumes "\<forall>c\<in>set w. is_ascii_alphanumeric c"
  shows "(\<forall>c\<in>set (capitalize w). is_ascii_alphanumeric c) \<and> (capitalize w = [] \<or> upper_or_digit (hd (capitalize w)))"
  using assms by (cases w) (auto simp: ascii_alnum)

lemma title_words_clean:
  assumes "w \<in> set (title_words s)"
  shows "(\<forall>c\<in>set w. is_ascii_alphanumeric c) \<and> (w = [] \<or> upper_or_digit (hd w))"
proof (cases "is_screaming_snake s")
  case True
  obtain p where p: "p \<in> set (split_str (\<lambda>c. c = CHR ''_'') s)" "w = capitalize (map ascii_lower p)"
    using assms True by (auto simp: title_words_def split_str_lower)
  have "list_all upper_or_digit p"
    using True p(1) by (auto simp: is_screaming_snake_def list_all_iff split: list.splits)
  then have "\<forall>c\<in>set (map ascii_lower p). is_ascii_alphanumeric c"
    unfolding list_all_iff set_map ball_simps by (metis ascii_alnum(2) is_ascii_alphanumeric_def upper_or_digit_def)
  from capitalize_word[OF this] show ?thesis unfolding p(2) .
next
  case False
  then obtain p where "p \<in> set (split_str (\<lambda>c. \<not> is_ascii_alphanumeric c)
      (concat (map (\<lambda>c. if is_ascii_uppercase c then [CHR '' '', c] else [c]) s)))" and w: "w = capitalize p"
    using assms by (auto simp: title_words_def)
  then have "\<forall>c\<in>set p. is_ascii_alphanumeric c" using split_str_parts by blast
  from capitalize_word[OF this] show ?thesis unfolding w .
qed

lemma pascal_case_clean:
  "(\<forall>c\<in>set (pascal_case s). is_ascii_alphanumeric c) \<and> (pascal_case s = [] \<or> upper_or_digit (hd (pascal_case s)))"
proof -
  have "(\<forall>w\<in>set ws. (\<forall>c\<in>set w. is_ascii_alphanumeric c) \<and> (w = [] \<or> upper_or_digit (hd w))) \<Longrightarrow>
      (\<forall>c\<in>set (concat ws). is_ascii_alphanumeric c) \<and> (concat ws = [] \<or> upper_or_digit (hd (concat ws)))" for ws
    by (induction ws) (auto simp: hd_append)
  from this[of "title_words s"] title_words_clean show ?thesis unfolding pascal_case_def by blast
qed

text \<open>A name of letters and digits is cut before each capital letter and nowhere else.\<close>

lemma split_capitals:
  assumes "\<forall>c\<in>set s. is_ascii_alphanumeric c"
  shows "\<exists>p ps. split_str (\<lambda>c. \<not> is_ascii_alphanumeric c)
      (concat (map (\<lambda>c. if is_ascii_uppercase c then [CHR '' '', c] else [c]) s)) = p # ps \<and>
    concat (p # ps) = s \<and> (\<forall>c\<in>set p. \<not> is_ascii_uppercase c) \<and>
    (\<forall>q\<in>set ps. q \<noteq> [] \<and> is_ascii_uppercase (hd q) \<and> (\<forall>c\<in>set (tl q). \<not> is_ascii_uppercase c))"
  using assms
proof (induction s)
  case (Cons c s)
  have space: "\<not> is_ascii_alphanumeric CHR '' ''" by (simp add: ascii_defs)
  from Cons show ?case by (fastforce simp: space)
qed simp

lemma capitalize_segment: "q \<noteq> [] \<Longrightarrow> is_ascii_uppercase (hd q) \<Longrightarrow> \<forall>c\<in>set (tl q). \<not> is_ascii_uppercase c \<Longrightarrow> capitalize q = q"
  by (cases q) (auto simp: ascii_lower_id ascii_upper_id is_ascii_uppercase_def is_ascii_lowercase_def intro: map_idI)

lemma pascal_case_alnum:
  assumes "\<forall>c\<in>set s. is_ascii_alphanumeric c"
  shows "pascal_case s = (case s of [] \<Rightarrow> [] | c # t \<Rightarrow> ascii_upper c # t)"
proof -
  from split_capitals[OF assms] obtain p ps where parts: "split_str (\<lambda>c. \<not> is_ascii_alphanumeric c)
      (concat (map (\<lambda>c. if is_ascii_uppercase c then [CHR '' '', c] else [c]) s)) = p # ps"
    and s: "s = p @ concat ps" and p: "\<forall>c\<in>set p. \<not> is_ascii_uppercase c"
    and ps: "\<forall>q\<in>set ps. q \<noteq> [] \<and> is_ascii_uppercase (hd q) \<and> (\<forall>c\<in>set (tl q). \<not> is_ascii_uppercase c)" by auto
  have "\<forall>c\<in>set s. c \<noteq> CHR ''_''" using assms by (auto simp: ascii_defs)
  then have "\<not> is_screaming_snake s" by (simp add: is_screaming_snake_def split_str_none)
  moreover have "filter (\<lambda>w. w \<noteq> []) ps = ps" "map capitalize ps = ps"
    using ps by (auto simp: filter_id_conv capitalize_segment intro: map_idI)
  ultimately have "pascal_case s = capitalize p @ concat ps"
    by (simp add: pascal_case_def title_words_def parts)
  moreover have "capitalize p = (case p of [] \<Rightarrow> [] | c # t \<Rightarrow> ascii_upper c # t)"
    using p by (cases p) (auto simp: ascii_lower_id map_idI)
  moreover have "p = [] \<Longrightarrow> s = c # t \<Longrightarrow> ascii_upper c = c" for c t
    using s ps by (cases ps) (auto simp: append_eq_Cons_conv ascii_upper_id ascii_defs)
  ultimately show ?thesis
    using s by (cases p) (auto split: list.split)
qed

text \<open>
  Names are converted once: a camel-cased name has only ASCII letters and digits, and converting it
  again leaves it as it is, so the passes that rename fields of already converted types keep their names.
\<close>

theorem camel_case_stable:
  "camel_case (camel_case s) = camel_case s \<and> list_all is_ascii_alphanumeric (camel_case s)"
proof (cases "pascal_case s")
  case Nil
  moreover have "pascal_case [] = []" by (simp add: pascal_case_alnum)
  ultimately show ?thesis by (simp add: camel_case_def)
next
  case (Cons c t)
  with pascal_case_clean[of s] have c: "upper_or_digit c" "is_ascii_alphanumeric c" and t: "\<forall>c\<in>set t. is_ascii_alphanumeric c" by auto
  have name: "camel_case s = ascii_lower c # t" by (simp add: camel_case_def Cons)
  moreover have "pascal_case (ascii_lower c # t) = c # t"
    using pascal_case_alnum[of "ascii_lower c # t"] c t by (simp add: ascii_alnum ascii_upper_lower)
  ultimately show ?thesis
    using c t by (simp add: camel_case_def list_all_iff ascii_alnum)
qed

end
