(* ===== verification/Anchor_Types.thy ===== *)
theory Anchor_Types
  imports Anchor_Json
begin

text \<open>
  The types of an Anchor IDL (\<open>crates/codama-from-anchor/src/types.rs\<close>, the type definitions of
  \<open>idl.rs\<close>): JSON type expressions become Codama type nodes, generic types are expanded at
  every use. The expansion has a budget of nodes, passed as state and given back with the result;
  an error ends the whole conversion. Of the Codama type nodes those that the converter
  builds or looks at are modelled.
\<close>

subsection \<open>Codama nodes\<close>

datatype number_format =
    FormatU8 | FormatU16 | FormatU32 | FormatU64 | FormatU128
  | FormatI8 | FormatI16 | FormatI32 | FormatI64 | FormatI128
  | FormatF32 | FormatF64 | FormatShortU16

datatype bytes_encoding = Base16 | Base58 | Utf8

datatype value_node =
    BytesValue string bytes_encoding
  | NumberValue json_number
  | BooleanValue bool
  | PublicKeyValue string "string option"
  | StringValue string

datatype count_node = FixedCount u64 | PrefixedCount number_format

record field_info =
  fi_name :: string
  fi_docs :: "string list"
  fi_omitted :: bool
  fi_default :: "value_node option"

datatype type_node =
    BooleanType
  | PublicKeyType
  | StringType bytes_encoding
  | BytesType
  | NumberType number_format
  | SizePrefixType type_node number_format
  | FixedSizeType nat type_node
  | HiddenPrefixType type_node "(type_node \<times> value_node) list"
  | HiddenSuffixType type_node "(type_node \<times> value_node) list"
  | StructType "(field_info \<times> type_node) list"
  | TupleType "type_node list"
  | EnumType "enum_variant list" number_format
  | ArrayType type_node count_node
  | OptionType bool type_node number_format
  | LinkType string
and enum_variant =
    EmptyVariant string
  | StructVariant string "(field_info \<times> type_node) list"
  | TupleVariant string "type_node list"

text \<open>
  The walker of \<open>passes.rs\<close>: the types directly inside a type. A hidden suffix is not entered.
\<close>

fun variant_children :: "enum_variant \<Rightarrow> type_node list" where
  "variant_children (EmptyVariant _) = []"
| "variant_children (StructVariant _ fs) = map snd fs"
| "variant_children (TupleVariant _ ts) = ts"

fun type_children :: "type_node \<Rightarrow> type_node list" where
  "type_children (ArrayType t _) = [t]"
| "type_children (FixedSizeType _ t) = [t]"
| "type_children (SizePrefixType t _) = [t]"
| "type_children (OptionType _ t _) = [t]"
| "type_children (HiddenPrefixType t cs) = t # map fst cs"
| "type_children (StructType fs) = map snd fs"
| "type_children (TupleType ts) = ts"
| "type_children (EnumType vs _) = concat (map variant_children vs)"
| "type_children _ = []"

lemma size_list_member: "x \<in> set xs \<Longrightarrow> f x < Suc (size_list f xs)"
  by (induction xs) auto

lemma variant_children_size: "u \<in> set (variant_children v) \<Longrightarrow> size u < size v"
  by (cases v) (auto dest: size_list_member[where f = size] size_list_member[where f = "size_prod (\<lambda>_. 0) size"])

lemma type_children_size: "u \<in> set (type_children t) \<Longrightarrow> size u < size t"
proof (cases t)
  case (EnumType vs f)
  assume "u \<in> set (type_children t)"
  then obtain v where "v \<in> set vs" "u \<in> set (variant_children v)" using EnumType by auto
  then show ?thesis using EnumType size_list_member[of v vs size] variant_children_size[of u v] by simp
qed (auto dest: size_list_member[where f = size] size_list_member[where f = "size_prod (\<lambda>_. 0) size"]
    size_list_member[where f = "size_prod size (\<lambda>_. 0)"])

text \<open>All the types in a type, and how deep they nest.\<close>

function sub_nodes :: "type_node \<Rightarrow> type_node list" where
  "sub_nodes t = t # concat (map sub_nodes (type_children t))"
  by pat_completeness auto

termination
  by (relation "measure size") (auto dest: type_children_size)

function type_depth :: "type_node \<Rightarrow> nat" where
  "type_depth t = Suc (Max (insert 0 (type_depth ` set (type_children t))))"
  by pat_completeness auto

termination
  by (relation "measure size") (auto dest: type_children_size)

declare sub_nodes.simps [simp del] type_depth.simps [simp del]

definition collect_links :: "type_node \<Rightarrow> string list" where
  "collect_links t = concat (map (\<lambda>u. case u of LinkType n \<Rightarrow> [n] | _ \<Rightarrow> []) (sub_nodes t))"

subsection \<open>Type definitions\<close>

record repr_modifier =
  rm_packed :: bool
  rm_align :: "nat option"

datatype repr = ReprRust repr_modifier | ReprC repr_modifier | ReprTransparent

record type_def =
  td_name :: string
  td_docs :: "string list"
  td_generics :: "(string \<times> string) list option"
  td_serialization :: "json option"
  td_repr :: "repr option"
  td_ty :: "json option"

definition is_generic :: "type_def \<Rightarrow> bool" where
  "is_generic t = is_some_and (td_generics t) (\<lambda>g. g \<noteq> [])"

definition is_enum :: "type_def \<Rightarrow> bool" where
  "is_enum t \<longleftrightarrow> Option.bind (td_ty t) (json_get_str ''kind'') = Some ''enum''"

text \<open>Collecting pairs into a \<open>HashMap\<close>: the last of two equal keys wins.\<close>

definition collect_map :: "('k \<times> 'v) list \<Rightarrow> 'k \<rightharpoonup> 'v" where
  "collect_map kvs = map_of (rev kvs)"

record type_defs =
  generic_defs :: "string \<rightharpoonup> type_def"
  plain_defs :: "string set"

record scope =
  const_args :: "string \<rightharpoonup> json"
  type_args :: "string \<rightharpoonup> json"

definition new_scope :: scope where
  "new_scope = \<lparr>const_args = Map.empty, type_args = Map.empty\<rparr>"

definition extract_generics :: "type_def list \<Rightarrow> type_def list \<times> type_defs \<times> nat" where
  "extract_generics types =
     (let generic = filter is_generic types; plain = filter (\<lambda>t. \<not> is_generic t) types
      in (plain, \<lparr>generic_defs = collect_map (map (\<lambda>t. (td_name t, t)) generic), plain_defs = td_name ` set plain\<rparr>, TYPE_NODE_LIMIT))"

subsection \<open>State and loops\<close>

definition spend :: "nat \<Rightarrow> (anchor_error, nat) outcome" where
  "spend budget = (if budget = 0 then Err TooLarge else Ok (budget - 1))"

text \<open>\<open>try_for_each\<close>, and \<open>map\<close> with \<open>collect\<close>, over a state.\<close>

fun try_fold :: "('s \<Rightarrow> 'a \<Rightarrow> ('e, 's) outcome) \<Rightarrow> 's \<Rightarrow> 'a list \<Rightarrow> ('e, 's) outcome" where
  "try_fold f s [] = Ok s"
| "try_fold f s (x # xs) = bind_outcome (f s x) (\<lambda>s. try_fold f s xs)"

fun try_map_state :: "('a \<Rightarrow> 's \<Rightarrow> ('e, 'b \<times> 's) outcome) \<Rightarrow> 'a list \<Rightarrow> 's \<Rightarrow> ('e, 'b list \<times> 's) outcome" where
  "try_map_state f [] s = Ok ([], s)"
| "try_map_state f (x # xs) s =
     bind_outcome (f x s) (\<lambda>(y, s). bind_outcome (try_map_state f xs s) (\<lambda>(ys, s). Ok (y # ys, s)))"

lemma try_fold_cong [fundef_cong]:
  assumes "s = t" and "xs = ys" and "\<And>s x. x \<in> set ys \<Longrightarrow> f s x = g s x"
  shows "try_fold f s xs = try_fold g t ys"
  unfolding assms(1,2) using assms(3)
proof (induction ys arbitrary: t)
  case (Cons y ys)
  then have "try_fold f t ys = try_fold g t ys" for t by simp
  with Cons.prems show ?case by (simp add: bind_outcome_def split: outcome.splits)
qed simp

lemma try_map_state_cong [fundef_cong]:
  assumes "xs = ys" and "s = t" and "\<And>x s. x \<in> set ys \<Longrightarrow> f x s = g x s"
  shows "try_map_state f xs s = try_map_state g ys t"
  unfolding assms(1,2) using assms(3)
proof (induction ys arbitrary: t)
  case (Cons y ys)
  then have "try_map_state f ys t = try_map_state g ys t" for t by simp
  with Cons.prems show ?case by (simp add: bind_outcome_def split: outcome.splits)
qed simp

lemma try_map_cong [fundef_cong]:
  assumes "xs = ys" and "\<And>x. x \<in> set ys \<Longrightarrow> f x = g x"
  shows "try_map f xs = try_map g ys"
  unfolding assms(1) using assms(2) by (induction ys) auto

lemma bind_outcome_cong [fundef_cong]:
  "r = r' \<Longrightarrow> (\<And>x. r' = Ok x \<Longrightarrow> f x = g x) \<Longrightarrow> bind_outcome r f = bind_outcome r' g"
  by (simp add: bind_outcome_def split: outcome.splits)

fun json_children :: "json \<Rightarrow> json list" where
  "json_children (JObject obj) = map snd obj"
| "json_children (JArray xs) = xs"
| "json_children _ = []"

lemma json_children_size: "w \<in> set (json_children v) \<Longrightarrow> size w < size v"
proof (induction v rule: json_children.induct)
  case (1 obj)
  then obtain k where "(k, w) \<in> set obj" by auto
  then have "size w < size_list (size_prod (\<lambda>_. 0) size) obj" by (induction obj) auto
  then show ?case by simp
next
  case (2 xs) then show ?case using json_array_size[of "JArray xs" xs w] by simp
qed simp_all

function spend_on :: "nat \<Rightarrow> json \<Rightarrow> nat \<Rightarrow> (anchor_error, nat) outcome" where
  "spend_on depth v budget =
     (if NESTING_LIMIT < depth then Err RecursionLimit
      else bind_outcome (spend budget) (\<lambda>budget. try_fold (\<lambda>b w. spend_on (depth + 1) w b) budget (json_children v)))"
  by pat_completeness auto

termination
  by (relation "measure (\<lambda>(_, v, _). size v)") (auto dest: json_children_size)

declare spend_on.simps [simp del]

text \<open>\<open>str::trim_start\<close> for the spaces an IDL has, and the digits \<open>is_digit(radix)\<close> accepts.\<close>

fun digit_in :: "nat \<Rightarrow> char \<Rightarrow> nat option" where
  "digit_in radix c =
     (let n = of_char c :: nat;
          d = (if is_ascii_digit c then Some (n - 48) else if is_ascii_lowercase c then Some (n - 87)
               else if is_ascii_uppercase c then Some (n - 55) else None)
      in Option.bind d (\<lambda>d. if d < radix then Some d else None))"

definition from_str_radix :: "nat \<Rightarrow> string \<Rightarrow> u64 option" where
  "from_str_radix radix s =
     (let n = foldl (\<lambda>acc c. int radix * acc + int (the (digit_in radix c))) 0 s
      in if s = [] \<or> 2 ^ 64 \<le> n then None else Some (of_int n))"

definition const_value :: "anchor_env \<Rightarrow> json \<Rightarrow> (anchor_error, u64) outcome" where
  "const_value env arg =
     (case Option.bind (json_get ''type'' arg) json_u64 of
        Some len \<Rightarrow> Ok len
      | None \<Rightarrow>
          (case json_get_str ''value'' arg of
             None \<Rightarrow> Err (InvalidArrayLength (json_text env arg))
           | Some raw \<Rightarrow>
               (let unsigned = dropWhile is_whitespace raw;
                    unsigned = (if take 1 unsigned = ''+'' then drop 1 unsigned else unsigned);
                    (digits, radix) = (if take 2 unsigned \<in> {''0x'', ''0X''} then (drop 2 unsigned, 16) else (unsigned, 10))
                in case from_str_radix radix (takeWhile (\<lambda>c. digit_in radix c \<noteq> None) digits) of
                     Some n \<Rightarrow> Ok n
                   | None \<Rightarrow> Err (InvalidArrayLength raw))))"

function resolve :: "anchor_env \<Rightarrow> scope \<Rightarrow> json \<Rightarrow> nat \<Rightarrow> nat \<Rightarrow> (anchor_error, json \<times> nat) outcome" where
  "resolve env sc arg depth budget =
     (if NESTING_LIMIT < depth then Err RecursionLimit
      else bind_outcome (spend budget) (\<lambda>budget.
        case arg of
          JObject obj \<Rightarrow>
            (case map_of obj ''generic'' of
               Some (JString name) \<Rightarrow>
                 (case Option.bind (type_args sc name) (json_get ''type'') of
                    Some ty \<Rightarrow> bind_outcome (spend_on depth ty budget) (\<lambda>budget. Ok (ty, budget))
                  | None \<Rightarrow>
                      (case const_args sc name of
                         Some len \<Rightarrow> bind_outcome (const_value env len) (\<lambda>n. Ok (JNumber (PosInt n), budget))
                       | None \<Rightarrow> Err (GenericArgMissing name)))
             | _ \<Rightarrow>
                 (case (if json_get_str ''kind'' arg = Some ''const''
                        then Option.bind (json_get_str ''value'' arg) (const_args sc) else None) of
                    Some bound \<Rightarrow> bind_outcome (spend_on depth bound budget) (\<lambda>budget. Ok (bound, budget))
                  | None \<Rightarrow>
                      bind_outcome (try_map_state (\<lambda>v b. resolve env sc v (depth + 1) b) (json_children arg) budget) (\<lambda>(vs, budget).
                        Ok (JObject (zip (map fst obj) vs), budget))))
        | JArray items \<Rightarrow>
            bind_outcome (try_map_state (\<lambda>v b. resolve env sc v (depth + 1) b) (json_children arg) budget) (\<lambda>(vs, budget). Ok (JArray vs, budget))
        | _ \<Rightarrow> Ok (arg, budget)))"
  by pat_completeness auto

termination
  by (relation "measure (\<lambda>(_, _, v, _, _). size v)") (auto dest: json_children_size simp del: json_children.simps)

declare resolve.simps [simp del]

subsection \<open>Type expressions\<close>

definition MAX_ARRAY_LEN :: u64 where "MAX_ARRAY_LEN = 10 * 1024 * 1024"

definition array_len :: "anchor_env \<Rightarrow> scope \<Rightarrow> json \<Rightarrow> (anchor_error, u64) outcome" where
  "array_len env sc len =
     bind_outcome
       (case json_u64 len of
          Some n \<Rightarrow> Ok n
        | None \<Rightarrow>
            (case Option.bind (json_get_str ''generic'' len) (const_args sc) of
               Some arg \<Rightarrow> const_value env arg
             | None \<Rightarrow> Err (InvalidArrayLength (json_text env len))))
       (\<lambda>n. if MAX_ARRAY_LEN < n then Err (InvalidArrayLength (decimal (unat n))) else Ok n)"

definition alias_target :: "json \<Rightarrow> json option" where
  "alias_target ty =
     Option.bind (json_get_str ''kind'' ty) (\<lambda>kind.
       if kind = ''type'' then json_get ''alias'' ty else if kind = ''alias'' then json_get ''value'' ty else None)"

definition size_prefixed :: "type_node \<Rightarrow> type_node" where
  "size_prefixed inner = SizePrefixType inner FormatU32"

definition leaf_type_node :: "string \<Rightarrow> type_node option" where
  "leaf_type_node leaf =
     map_of [(''bool'', BooleanType), (''pubkey'', PublicKeyType), (''string'', size_prefixed (StringType Utf8)),
       (''bytes'', size_prefixed BytesType), (''u8'', NumberType FormatU8), (''u16'', NumberType FormatU16), (''u32'', NumberType FormatU32),
       (''u64'', NumberType FormatU64), (''u128'', NumberType FormatU128), (''i8'', NumberType FormatI8), (''i16'', NumberType FormatI16),
       (''i32'', NumberType FormatI32), (''i64'', NumberType FormatI64), (''i128'', NumberType FormatI128), (''f32'', NumberType FormatF32),
       (''f64'', NumberType FormatF64), (''shortU16'', NumberType FormatShortU16)] leaf"

text \<open>The text of the offending type, cut after 200 characters.\<close>

definition unrecognized :: "anchor_env \<Rightarrow> json \<Rightarrow> anchor_error" where
  "unrecognized env ty =
     (let txt = json_text env ty in UnrecognizedType (if 200 < length txt then take 200 txt @ ''...'' else txt))"

definition empty_struct :: json where
  "empty_struct = JObject [(''fields'', JArray []), (''kind'', JString ''struct'')]"

definition is_named_field :: "json \<Rightarrow> bool" where
  "is_named_field field \<longleftrightarrow> json_get ''name'' field \<noteq> None \<and> json_get ''type'' field \<noteq> None"

text \<open>\<open>docs\<close>: one line, many lines, or none.\<close>

definition docs_of :: "anchor_env \<Rightarrow> json \<Rightarrow> (anchor_error, string list) outcome" where
  "docs_of env v =
     (case v of
        JNull \<Rightarrow> Ok []
      | JString line \<Rightarrow> Ok [line]
      | JArray xs \<Rightarrow>
          if list_all (\<lambda>x. json_str x \<noteq> None) xs then Ok (map (the \<circ> json_str) xs)
          else Err (JsonError ''data did not match any variant of untagged enum Docs'')
      | _ \<Rightarrow> Err (JsonError ''data did not match any variant of untagged enum Docs''))"

text \<open>
  The parts of a type expression, by the conversion \<open>conv\<close> of the types in them one level deeper.
\<close>

type_synonym converter = "scope \<Rightarrow> json \<Rightarrow> nat \<Rightarrow> (anchor_error, type_node \<times> nat) outcome"

definition option_type :: "converter \<Rightarrow> scope \<Rightarrow> json \<Rightarrow> bool \<Rightarrow> nat \<Rightarrow> (anchor_error, type_node \<times> nat) outcome" where
  "option_type conv sc item is_coption budget =
     bind_outcome (conv sc item budget) (\<lambda>(t, budget).
       Ok (OptionType is_coption t (if is_coption then FormatU32 else FormatU8), budget))"

definition struct_field :: "anchor_env \<Rightarrow> converter \<Rightarrow> scope \<Rightarrow> json \<Rightarrow> nat \<Rightarrow> (anchor_error, (field_info \<times> type_node) \<times> nat) outcome" where
  "struct_field env conv sc field budget =
     (case (json_get_str ''name'' field, json_get ''type'' field) of
        (Some name, Some ty) \<Rightarrow>
          bind_outcome (case json_get ''docs'' field of Some d \<Rightarrow> docs_of env d | None \<Rightarrow> Ok []) (\<lambda>docs.
          bind_outcome (ident env name) (\<lambda>name.
          bind_outcome (conv sc ty budget) (\<lambda>(t, budget).
            Ok ((\<lparr>fi_name = name, fi_docs = docs, fi_omitted = False, fi_default = None\<rparr>, t), budget))))
      | _ \<Rightarrow> Err (unrecognized env field))"

definition struct_type ::
  "anchor_env \<Rightarrow> converter \<Rightarrow> scope \<Rightarrow> json list \<Rightarrow> nat \<Rightarrow> (anchor_error, (field_info \<times> type_node) list \<times> nat) outcome" where
  "struct_type env conv sc = try_map_state (struct_field env conv sc)"

definition tuple_type :: "converter \<Rightarrow> scope \<Rightarrow> json list \<Rightarrow> nat \<Rightarrow> (anchor_error, type_node list \<times> nat) outcome" where
  "tuple_type conv sc = try_map_state (conv sc)"

text \<open>A missing list of fields is an empty one; anything but a list is not recognized.\<close>

definition fields_of :: "anchor_env \<Rightarrow> json \<Rightarrow> (anchor_error, json list) outcome" where
  "fields_of env v =
     (case json_get ''fields'' v of
        Some (JArray members) \<Rightarrow> Ok members
      | None \<Rightarrow> Ok []
      | Some JNull \<Rightarrow> Ok []
      | Some _ \<Rightarrow> Err (unrecognized env v))"

definition enum_variant_of :: "anchor_env \<Rightarrow> converter \<Rightarrow> scope \<Rightarrow> json \<Rightarrow> nat \<Rightarrow> (anchor_error, enum_variant \<times> nat) outcome" where
  "enum_variant_of env conv sc variant budget =
     (case json_get_str ''name'' variant of
        None \<Rightarrow> Err (unrecognized env variant)
      | Some name \<Rightarrow>
          bind_outcome (ident env name) (\<lambda>name.
          bind_outcome (fields_of env variant) (\<lambda>members.
            case members of
              [] \<Rightarrow> Ok (EmptyVariant name, budget)
            | first # _ \<Rightarrow>
                if is_named_field first
                then bind_outcome (struct_type env conv sc members budget) (\<lambda>(fs, budget). Ok (StructVariant name fs, budget))
                else bind_outcome (tuple_type conv sc members budget) (\<lambda>(ts, budget). Ok (TupleVariant name ts, budget)))))"

definition enum_type :: "anchor_env \<Rightarrow> converter \<Rightarrow> scope \<Rightarrow> json \<Rightarrow> nat \<Rightarrow> (anchor_error, type_node \<times> nat) outcome" where
  "enum_type env conv sc variants budget =
     (case json_array variants of
        None \<Rightarrow> Err (unrecognized env variants)
      | Some vs \<Rightarrow>
          bind_outcome (try_map_state (enum_variant_of env conv sc) vs budget) (\<lambda>(out, budget). Ok (EnumType out FormatU8, budget)))"

text \<open>The arguments of a generic type, resolved in the scope of its use; a missing one is null.\<close>

fun bind_args ::
  "anchor_env \<Rightarrow> scope \<Rightarrow> (string \<times> string) list \<Rightarrow> json list \<Rightarrow> scope \<Rightarrow> nat \<Rightarrow> (anchor_error, scope \<times> nat) outcome" where
  "bind_args env sc [] args inner budget = Ok (inner, budget)"
| "bind_args env sc ((kind, name) # params) args inner budget =
     bind_outcome (case args of arg # _ \<Rightarrow> resolve env sc arg 0 budget | [] \<Rightarrow> Ok (JNull, budget)) (\<lambda>(arg, budget).
       bind_args env sc params (drop 1 args)
         (if kind = ''const'' then inner\<lparr>const_args := (const_args inner)(name \<mapsto> arg)\<rparr>
          else inner\<lparr>type_args := (type_args inner)(name \<mapsto> arg)\<rparr>) budget)"

definition defined_type ::
  "anchor_env \<Rightarrow> type_defs \<Rightarrow> converter \<Rightarrow> scope \<Rightarrow> (string \<times> json) list \<Rightarrow> nat \<Rightarrow> (anchor_error, type_node \<times> nat) outcome" where
  "defined_type env defs conv sc defined budget =
     (case json_get_str ''name'' (JObject defined) of
        None \<Rightarrow> Err (unrecognized env (JObject defined))
      | Some name \<Rightarrow>
          (case Option.bind (Option.bind (map_of defined ''generics'') json_array) (\<lambda>args. if args = [] then None else Some args) of
             None \<Rightarrow>
               if generic_defs defs name \<noteq> None then Err (GenericArgsMissing name)
               else if name \<notin> plain_defs defs then Err (UndefinedType name)
               else bind_outcome (ident env name) (\<lambda>n. Ok (LinkType n, budget))
           | Some args \<Rightarrow>
               (case generic_defs defs name of
                  None \<Rightarrow> Err (GenericTypeMissing name)
                | Some t \<Rightarrow>
                    if is_enum t then Err (GenericEnum name)
                    else
                      bind_outcome (bind_args env sc (unwrap_or (td_generics t) []) args new_scope budget) (\<lambda>(inner, budget).
                        conv inner (unwrap_or (td_ty t) empty_struct) budget))))"

lemma converter_eq: "(\<And>s v b. f s v b = g s v b) \<Longrightarrow> f = (g :: converter)"
  by (intro ext) blast

text \<open>
  One level of a type expression: the node it stands for, with \<open>conv\<close> for the types it mentions. The
  tests are made in this order, and the first that applies decides.
\<close>

definition struct_expr :: "anchor_env \<Rightarrow> converter \<Rightarrow> scope \<Rightarrow> json \<Rightarrow> nat \<Rightarrow> (anchor_error, type_node \<times> nat) outcome" where
  "struct_expr env conv sc ty budget =
     bind_outcome (fields_of env ty) (\<lambda>members.
       if list_all is_named_field members
       then bind_outcome (struct_type env conv sc members budget) (\<lambda>(fs, budget). Ok (StructType fs, budget))
       else if \<not> list_ex is_named_field members
       then bind_outcome (tuple_type conv sc members budget) (\<lambda>(ts, budget). Ok (TupleType ts, budget))
       else Err (unrecognized env ty))"

definition kind_type ::
  "anchor_env \<Rightarrow> converter \<Rightarrow> scope \<Rightarrow> (string \<times> json) list \<Rightarrow> nat \<Rightarrow> (anchor_error, type_node \<times> nat) outcome" where
  "kind_type env conv sc obj budget =
     (let ty = JObject obj; kind = json_get_str ''kind'' ty
      in case if kind = Some ''enum'' then map_of obj ''variants'' else None of
        Some variants \<Rightarrow> enum_type env conv sc variants budget
      | None \<Rightarrow>
      (case alias_target ty of
        Some target \<Rightarrow> conv sc target budget
      | None \<Rightarrow>
      (case map_of obj ''option'' of
        Some item \<Rightarrow> option_type conv sc item False budget
      | None \<Rightarrow>
      (case map_of obj ''coption'' of
        Some item \<Rightarrow> option_type conv sc item True budget
      | None \<Rightarrow> if kind = Some ''struct'' then struct_expr env conv sc ty budget else Err (unrecognized env ty)))))"

definition object_type ::
  "anchor_env \<Rightarrow> type_defs \<Rightarrow> converter \<Rightarrow> scope \<Rightarrow> (string \<times> json) list \<Rightarrow> nat \<Rightarrow> (anchor_error, type_node \<times> nat) outcome" where
  "object_type env defs conv sc obj budget =
     (case Option.bind (map_of obj ''array'') json_array of
        Some [item, len] \<Rightarrow>
          bind_outcome (conv sc item budget) (\<lambda>(t, budget).
          bind_outcome (array_len env sc len) (\<lambda>n. Ok (ArrayType t (FixedCount n), budget)))
      | _ \<Rightarrow>
      (case map_of obj ''vec'' of
        Some item \<Rightarrow> bind_outcome (conv sc item budget) (\<lambda>(t, budget). Ok (ArrayType t (PrefixedCount FormatU32), budget))
      | None \<Rightarrow>
      (case Option.bind (map_of obj ''defined'') json_object of
        Some d \<Rightarrow> defined_type env defs conv sc d budget
      | None \<Rightarrow>
      (case map_of obj ''generic'' of
        Some name \<Rightarrow>
          (case Option.bind (Option.bind (json_str name) (type_args sc)) (json_get ''type'') of
             Some arg \<Rightarrow> conv sc arg budget
           | None \<Rightarrow> Err (GenericArgMissing (json_text env name)))
      | None \<Rightarrow> kind_type env conv sc obj budget))))"

lemma object_type_cong [fundef_cong]:
  "env = env' \<Longrightarrow> defs = defs' \<Longrightarrow> (\<And>s v b. f s v b = g s v b) \<Longrightarrow> sc = sc' \<Longrightarrow> d = d' \<Longrightarrow> b = b' \<Longrightarrow>
    object_type env defs f sc d b = object_type env' defs' g sc' d' b'"
  using converter_eq[of f g] by simp

function type_node_at ::
  "anchor_env \<Rightarrow> type_defs \<Rightarrow> nat \<Rightarrow> scope \<Rightarrow> json \<Rightarrow> nat \<Rightarrow> (anchor_error, type_node \<times> nat) outcome" where
  "type_node_at env defs depth sc ty budget =
     (if NESTING_LIMIT \<le> depth then Err RecursionLimit
      else bind_outcome (spend budget) (\<lambda>budget.
        case Option.bind (json_str ty) leaf_type_node of
          Some node \<Rightarrow> Ok (node, budget)
        | None \<Rightarrow>
            (case ty of
               JObject obj \<Rightarrow> object_type env defs (\<lambda>s v b. type_node_at env defs (depth + 1) s v b) sc obj budget
             | _ \<Rightarrow> Err (unrecognized env ty))))"
  by pat_completeness auto

termination
  by (relation "measure (\<lambda>(_, _, depth, _). NESTING_LIMIT - depth)") auto

declare type_node_at.simps [simp del]

definition convert_type :: "anchor_env \<Rightarrow> type_defs \<Rightarrow> scope \<Rightarrow> json \<Rightarrow> nat \<Rightarrow> (anchor_error, type_node \<times> nat) outcome" where
  "convert_type env defs = type_node_at env defs 0"

subsection \<open>What a converted type looks like\<close>

text \<open>Names are identifiers, lengths are bounded, and a link names a type definition that is not generic.\<close>

definition valid_ident :: "string \<Rightarrow> bool" where
  "valid_ident n \<longleftrightarrow> n \<noteq> [] \<and> (is_ascii_uppercase (hd n) \<or> is_ascii_lowercase (hd n))"

fun variant_name :: "enum_variant \<Rightarrow> string" where
  "variant_name (EmptyVariant n) = n"
| "variant_name (StructVariant n _) = n"
| "variant_name (TupleVariant n _) = n"

fun variant_ok :: "enum_variant \<Rightarrow> bool" where
  "variant_ok (StructVariant n fs) \<longleftrightarrow> valid_ident n \<and> list_all (valid_ident \<circ> fi_name \<circ> fst) fs"
| "variant_ok v \<longleftrightarrow> valid_ident (variant_name v)"

fun node_ok :: "anchor_env \<Rightarrow> type_defs \<Rightarrow> type_node \<Rightarrow> bool" where
  "node_ok env defs (LinkType n) \<longleftrightarrow> (\<exists>p\<in>plain_defs defs. ident env p = Ok n)"
| "node_ok env defs (ArrayType _ (FixedCount n)) \<longleftrightarrow> n \<le> MAX_ARRAY_LEN"
| "node_ok env defs (StructType fs) \<longleftrightarrow> list_all (valid_ident \<circ> fi_name \<circ> fst) fs"
| "node_ok env defs (EnumType vs _) \<longleftrightarrow> list_all variant_ok vs"
| "node_ok env defs _ \<longleftrightarrow> True"

lemma ident_valid: "ident env s = Ok n \<Longrightarrow> valid_ident n"
  by (auto simp: ident_def valid_ident_def bind_outcome_eq_Ok split: if_splits)

text \<open>
  What the types \<open>ts\<close> cost: at most two nodes for every unit of the budget that went from \<open>b\<close> to \<open>b'\<close>.
\<close>

definition affordable :: "anchor_env \<Rightarrow> type_defs \<Rightarrow> nat \<Rightarrow> nat \<Rightarrow> nat \<Rightarrow> type_node list \<Rightarrow> bool" where
  "affordable env defs d b b' ts \<longleftrightarrow>
     b' \<le> b \<and> length (concat (map sub_nodes ts)) \<le> 2 * (b - b') \<and>
     (\<forall>t\<in>set ts. type_depth t \<le> d \<and> list_all (node_ok env defs) (sub_nodes t))"

lemma affordable_Nil [intro]: "b' \<le> b \<Longrightarrow> affordable env defs d b b' []"
  by (simp add: affordable_def)

lemma affordable_append:
  "affordable env defs d b c ts \<Longrightarrow> affordable env defs d c e us \<Longrightarrow> affordable env defs d b e (ts @ us)"
  by (auto simp: affordable_def)

lemma affordable_mono: "affordable env defs d b c ts \<Longrightarrow> d \<le> d' \<Longrightarrow> b \<le> b' \<Longrightarrow> affordable env defs d' b' c ts"
  by (auto simp: affordable_def)

lemma affordable_node:
  assumes "affordable env defs d b b' (type_children t)" "node_ok env defs t"
  shows "affordable env defs (Suc d) (Suc b) b' [t]"
proof -
  have "type_depth t \<le> Suc d" using assms(1) by (subst type_depth.simps) (auto simp: affordable_def)
  moreover have "list_all (node_ok env defs) (sub_nodes t)"
    using assms by (subst sub_nodes.simps) (auto simp: affordable_def list_all_iff)
  moreover have "length (sub_nodes t) \<le> 2 * (Suc b - b')" "b' \<le> Suc b"
    using assms(1) by (subst sub_nodes.simps, auto simp: affordable_def)
  ultimately show ?thesis by (simp add: affordable_def)
qed

lemma try_map_state_affordable:
  assumes "\<And>x b y b'. f x b = Ok (y, b') \<Longrightarrow> affordable env defs d b b' (g y)"
  shows "try_map_state f xs b = Ok (ys, b') \<Longrightarrow> affordable env defs d b b' (concat (map g ys))"
proof (induction xs arbitrary: b ys)
  case (Cons x xs)
  then obtain y c zs where "f x b = Ok (y, c)" "try_map_state f xs c = Ok (zs, b')" "ys = y # zs"
    by (auto simp: bind_outcome_eq_Ok)
  then show ?case using affordable_append[OF assms Cons.IH, of x b y c zs] by simp
qed auto

lemma try_map_state_all:
  assumes "\<And>x b y b'. f x b = Ok (y, b') \<Longrightarrow> P y"
  shows "try_map_state f xs b = Ok (ys, b') \<Longrightarrow> list_all P ys"
  by (induction xs arbitrary: b ys) (auto simp: bind_outcome_eq_Ok dest: assms)

text \<open>Copying an argument spends, and never gives back.\<close>

lemma spend_le: "spend b = Ok b' \<Longrightarrow> b = Suc b'"
  by (auto simp: spend_def split: if_splits)

lemma try_fold_le: "(\<And>x b b'. x \<in> set xs \<Longrightarrow> f b x = Ok b' \<Longrightarrow> b' \<le> (b :: nat)) \<Longrightarrow> try_fold f b xs = Ok b' \<Longrightarrow> b' \<le> b"
proof (induction xs arbitrary: b)
  case (Cons x xs)
  from Cons.prems(2) obtain c where c: "f b x = Ok c" "try_fold f c xs = Ok b'" by (auto simp: bind_outcome_eq_Ok)
  have "b' \<le> c" by (rule Cons.IH[OF _ c(2)]) (use Cons.prems(1) in auto)
  then show ?case using Cons.prems(1)[OF _ c(1)] by simp
qed simp

lemma try_map_state_le:
  "(\<And>x b y b'. x \<in> set xs \<Longrightarrow> f x b = Ok (y, b') \<Longrightarrow> b' \<le> (b :: nat)) \<Longrightarrow> try_map_state f xs b = Ok (ys, b') \<Longrightarrow> b' \<le> b"
proof (induction xs arbitrary: b ys)
  case (Cons x xs)
  from Cons.prems(2) obtain y c zs where c: "f x b = Ok (y, c)" "try_map_state f xs c = Ok (zs, b')" by (auto simp: bind_outcome_eq_Ok)
  have "b' \<le> c" by (rule Cons.IH[OF _ c(2)]) (use Cons.prems(1) in auto)
  then show ?case using Cons.prems(1)[OF _ c(1)] by simp
qed simp

lemma spend_on_le: "spend_on depth v b = Ok b' \<Longrightarrow> b' \<le> b"
proof (induction depth v b arbitrary: b' rule: spend_on.induct)
  case (1 depth v b)
  from 1(2) obtain c where "\<not> NESTING_LIMIT < depth" "spend b = Ok c"
      "try_fold (\<lambda>b w. spend_on (depth + 1) w b) c (json_children v) = Ok b'"
    by (subst (asm) spend_on.simps) (auto simp: bind_outcome_eq_Ok split: if_splits)
  moreover from this(3) have "b' \<le> c" by (rule try_fold_le[rotated]) (use 1(1) calculation in auto)
  ultimately show ?case by (auto dest: spend_le)
qed

lemma resolve_le: "resolve env sc arg depth b = Ok (v, b') \<Longrightarrow> b' \<le> b"
proof (induction "size arg" arbitrary: arg depth b v b' rule: less_induct)
  case less
  have children: "try_map_state (\<lambda>v. resolve env sc v (depth + 1)) (json_children arg) c = Ok (vs, e) \<Longrightarrow> e \<le> c" for c vs e
    by (rule try_map_state_le) (auto dest: json_children_size less.hyps simp del: json_children.simps)
  from less.prems obtain c where c: "spend b = Ok c" by (subst (asm) resolve.simps) (auto simp: bind_outcome_eq_Ok split: if_splits)
  have "b' \<le> c"
  proof (cases arg)
    case (JObject obj)
    let ?map = "try_map_state (\<lambda>v. resolve env sc v (depth + 1)) (json_children (JObject obj)) c"
    consider ty where "spend_on depth ty c = Ok b'" | "b' = c" | vs where "?map = Ok (vs, b')"
      using less.prems unfolding JObject
      by (subst (asm) resolve.simps)
        (auto simp: c bind_outcome_eq_Ok simp del: json_children.simps split: if_splits option.split_asm json.split_asm)
    then show ?thesis using children[unfolded JObject] by cases (auto dest: spend_on_le)
  next
    case (JArray xs)
    then show ?thesis using less.prems children[unfolded JArray]
      by (subst (asm) resolve.simps) (auto simp: c bind_outcome_eq_Ok simp del: json_children.simps split: if_splits)
  qed (use less.prems in \<open>subst (asm) resolve.simps, auto simp: c split: if_splits\<close>)+
  with c show ?case by (auto dest: spend_le)
qed

lemma bind_args_le: "bind_args env sc params args inner b = Ok (inner', b') \<Longrightarrow> b' \<le> b"
proof (induction params arbitrary: args inner b)
  case (Cons p params)
  obtain kind name where p: "p = (kind, name)" by (cases p)
  from Cons.prems obtain arg c where "(case args of arg # _ \<Rightarrow> resolve env sc arg 0 b | [] \<Rightarrow> Ok (JNull, b)) = Ok (arg, c)"
    and rest: "b' \<le> c" unfolding p by (auto simp: bind_outcome_eq_Ok dest!: Cons.IH)
  then have "c \<le> b" by (auto split: list.splits dest: resolve_le)
  with rest show ?case by simp
qed simp

text \<open>The parts of a type are affordable when the types in them are.\<close>

definition conv_affordable :: "anchor_env \<Rightarrow> type_defs \<Rightarrow> nat \<Rightarrow> converter \<Rightarrow> bool" where
  "conv_affordable env defs d conv \<longleftrightarrow> (\<forall>sc v b t b'. conv sc v b = Ok (t, b') \<longrightarrow> affordable env defs d b b' [t])"

lemma struct_type_affordable:
  assumes "conv_affordable env defs d conv" "struct_type env conv sc ms b = Ok (fs, b')"
  shows "affordable env defs d b b' (map snd fs) \<and> list_all (valid_ident \<circ> fi_name \<circ> fst) fs"
proof -
  have "affordable env defs d c c' [snd f] \<and> valid_ident (fi_name (fst f))" if "struct_field env conv sc m c = Ok (f, c')" for m c f c'
    using that assms(1) by (auto simp: struct_field_def conv_affordable_def bind_outcome_eq_Ok split: option.splits dest: ident_valid)
  then show ?thesis
    using try_map_state_affordable[of "struct_field env conv sc" env defs d "\<lambda>f. [snd f]" ms b fs b']
      try_map_state_all[of "struct_field env conv sc" "valid_ident \<circ> fi_name \<circ> fst" ms b fs b'] assms(2)
    by (simp add: struct_type_def)
qed

lemma tuple_type_affordable:
  assumes "conv_affordable env defs d conv" "tuple_type conv sc ms b = Ok (ts, b')"
  shows "affordable env defs d b b' ts"
  using try_map_state_affordable[of "conv sc" env defs d "\<lambda>t. [t]" ms b ts b'] assms
  by (simp add: tuple_type_def conv_affordable_def)

lemma enum_variant_affordable:
  assumes "conv_affordable env defs d conv" "enum_variant_of env conv sc v b = Ok (w, b')"
  shows "affordable env defs d b b' (variant_children w) \<and> variant_ok w"
proof -
  from assms(2) obtain m n ms where "ident env m = Ok n" and members:
    "(case ms of [] \<Rightarrow> Ok (EmptyVariant n, b)
      | first # _ \<Rightarrow>
          if is_named_field first
          then bind_outcome (struct_type env conv sc ms b) (\<lambda>(fs, budget). Ok (StructVariant n fs, budget))
          else bind_outcome (tuple_type conv sc ms b) (\<lambda>(ts, budget). Ok (TupleVariant n ts, budget))) = Ok (w, b')"
    unfolding enum_variant_of_def by (auto simp: bind_outcome_eq_Ok[of "ident _ _"] bind_outcome_eq_Ok[of "fields_of _ _"] split: option.splits)
  then show ?thesis
    using struct_type_affordable[OF assms(1)] tuple_type_affordable[OF assms(1)]
    by (cases ms) (auto simp: bind_outcome_eq_Ok split: if_splits dest: ident_valid)
qed

lemma enum_type_affordable:
  assumes "conv_affordable env defs d conv" "enum_type env conv sc vs b = Ok (t, b')"
  shows "affordable env defs d b b' (type_children t) \<and> node_ok env defs t"
proof -
  from assms(2) obtain js ws where ws: "try_map_state (enum_variant_of env conv sc) js b = Ok (ws, b')" "t = EnumType ws FormatU8"
    by (auto simp: enum_type_def bind_outcome_eq_Ok split: option.splits)
  then show ?thesis
    using try_map_state_affordable[of "enum_variant_of env conv sc" env defs d variant_children js b ws b']
      try_map_state_all[of "enum_variant_of env conv sc" variant_ok js b ws b'] enum_variant_affordable[OF assms(1)] by auto
qed

lemma defined_type_affordable:
  assumes conv: "conv_affordable env defs d conv" and "defined_type env defs conv sc obj b = Ok (t, b')"
  shows "affordable env defs (Suc d) (Suc b) b' [t]"
proof -
  consider n p where "t = LinkType n" "b' = b" "p \<in> plain_defs defs" "ident env p = Ok n"
    | inner ty c where "c \<le> b" "conv inner ty c = Ok (t, b')"
    using assms(2) by (auto simp: defined_type_def bind_outcome_eq_Ok dest: bind_args_le split: option.splits if_splits)
  then show ?thesis
  proof cases
    case 1 then show ?thesis by (intro affordable_node) (auto simp: affordable_def)
  next
    case 2
    then have "affordable env defs d c b' [t]" using conv by (auto simp: conv_affordable_def)
    then show ?thesis using 2(1) by (auto elim: affordable_mono)
  qed
qed

lemma array_len_le: "array_len env sc len = Ok n \<Longrightarrow> n \<le> MAX_ARRAY_LEN"
  by (auto simp: array_len_def bind_outcome_eq_Ok split: if_splits)

text \<open>A result is that of a type inside, a generic type or link, or a node around affordable types.\<close>

definition affordable_result :: "anchor_env \<Rightarrow> type_defs \<Rightarrow> nat \<Rightarrow> nat \<Rightarrow> nat \<Rightarrow> type_node \<Rightarrow> bool" where
  "affordable_result env defs d b b' t \<longleftrightarrow>
     affordable env defs d b b' [t] \<or> affordable env defs (Suc d) (Suc b) b' [t] \<or>
     affordable env defs d b b' (type_children t) \<and> node_ok env defs t"

lemma affordable_result: "affordable_result env defs d b b' t \<Longrightarrow> affordable env defs (Suc d) (Suc b) b' [t]"
  unfolding affordable_result_def by (auto intro: affordable_node affordable_mono)

lemma struct_expr_affordable:
  assumes conv: "conv_affordable env defs d conv" and ok: "struct_expr env conv sc ty b = Ok (t, b')"
  shows "affordable_result env defs d b b' t"
  using ok by (auto simp: struct_expr_def bind_outcome_eq_Ok affordable_result_def split: if_splits
      dest: struct_type_affordable[OF conv] tuple_type_affordable[OF conv])

lemma kind_type_affordable:
  assumes conv: "conv_affordable env defs d conv" and ok: "kind_type env conv sc obj b = Ok (t, b')"
  shows "affordable_result env defs d b b' t"
proof -
  have inner: "conv sc v b = Ok (u, c) \<Longrightarrow> affordable env defs d b c [u]" for v u c
    using conv by (auto simp: conv_affordable_def)
  have enum: "enum_type env conv sc vs b = Ok (t, b') \<Longrightarrow> affordable_result env defs d b b' t" for vs
    using enum_type_affordable[OF conv] by (auto simp: affordable_result_def)
  have target: "conv sc v b = Ok (t, b') \<Longrightarrow> affordable_result env defs d b b' t" for v
    using inner by (auto simp: affordable_result_def)
  have option: "option_type conv sc v c b = Ok (t, b') \<Longrightarrow> affordable_result env defs d b b' t" for v c
    using inner by (auto simp: affordable_result_def option_type_def bind_outcome_eq_Ok)
  show ?thesis
    using ok unfolding kind_type_def Let_def
    by (simp split: option.split_asm if_split_asm add: enum target option struct_expr_affordable[OF conv])
qed

lemma object_type_affordable:
  assumes conv: "conv_affordable env defs d conv" and ok: "object_type env defs conv sc obj b = Ok (t, b')"
  shows "affordable_result env defs d b b' t"
proof -
  have inner: "conv sc v b = Ok (u, c) \<Longrightarrow> affordable env defs d b c [u]" for v u c
    using conv by (auto simp: conv_affordable_def)
  have array: "bind_outcome (conv sc item b) (\<lambda>(t, b). bind_outcome (array_len env sc len) (\<lambda>n. Ok (ArrayType t (FixedCount n), b))) = Ok (t, b')
      \<Longrightarrow> affordable_result env defs d b b' t" for item len
    using inner by (auto simp: affordable_result_def bind_outcome_eq_Ok dest: array_len_le)
  have vec: "bind_outcome (conv sc item b) (\<lambda>(t, b). Ok (ArrayType t (PrefixedCount FormatU32), b)) = Ok (t, b')
      \<Longrightarrow> affordable_result env defs d b b' t" for item
    using inner by (auto simp: affordable_result_def bind_outcome_eq_Ok)
  have generic: "conv sc v b = Ok (t, b') \<Longrightarrow> affordable_result env defs d b b' t" for v
    using inner by (auto simp: affordable_result_def)
  have defined: "defined_type env defs conv sc ob b = Ok (t, b') \<Longrightarrow> affordable_result env defs d b b' t" for ob
    using defined_type_affordable[OF conv] by (auto simp: affordable_result_def)
  show ?thesis
    using ok unfolding object_type_def
    by (simp split: option.split_asm list.split_asm add: array vec generic defined kind_type_affordable[OF conv])
qed

lemma leaf_nodes:
  assumes "type_children t = []"
  shows "sub_nodes t = [t]" "type_depth t = 1"
  by (simp_all add: sub_nodes.simps[of t] type_depth.simps[of t] assms)

lemma leaf_affordable:
  assumes "leaf_type_node leaf = Some t"
  shows "affordable env defs (Suc (Suc d)) (Suc b) b [t]"
proof -
  consider "type_children t = []" "node_ok env defs t" | u f where "t = SizePrefixType u f" "type_children u = []" "node_ok env defs u"
    using assms by (auto simp: leaf_type_node_def size_prefixed_def split: if_splits)
  then show ?thesis
  proof cases
    case 1 then show ?thesis by (simp add: affordable_def leaf_nodes)
  next
    case 2 then show ?thesis
      by (simp add: affordable_def sub_nodes.simps[of "SizePrefixType u f"] type_depth.simps[of "SizePrefixType u f"] leaf_nodes)
  qed
qed

lemma type_node_at_affordable:
  "conv_affordable env defs (Suc (NESTING_LIMIT - depth)) (type_node_at env defs depth)"
proof (induction "NESTING_LIMIT - depth" arbitrary: depth)
  case 0
  then show ?case by (auto simp: conv_affordable_def type_node_at.simps)
next
  case (Suc n)
  then have IH: "conv_affordable env defs (NESTING_LIMIT - depth) (type_node_at env defs (depth + 1))"
    using Suc.hyps(1)[of "depth + 1"] by (simp add: Suc_diff_Suc)
  have "affordable env defs (Suc (NESTING_LIMIT - depth)) b b' [t]" if "type_node_at env defs depth sc ty b = Ok (t, b')" for sc ty b t b'
  proof -
    from that obtain c where c: "b = Suc c" and cases: "(\<exists>l. leaf_type_node l = Some t \<and> b' = c) \<or>
        (\<exists>obj. object_type env defs (type_node_at env defs (depth + 1)) sc obj c = Ok (t, b'))"
      by (subst (asm) type_node_at.simps) (auto simp: bind_outcome_eq_Ok split: if_splits option.splits json.splits dest!: spend_le)
    show ?thesis
      using cases affordable_result[OF object_type_affordable[OF IH, of sc _ c t b']] leaf_affordable[of _ t env defs n c] Suc.hyps(2) unfolding c by auto
  qed
  then show ?case by (simp add: conv_affordable_def)
qed

text \<open>
  C12. Converting a type is bounded and its result is closed: the nodes of the result are at most twice what was
  spent of the budget, they nest at most one level deeper than the nesting limit, every fixed array length is one that an
  account can hold, every field and variant has a name that is an identifier, and every link names a defined type
  without parameters, so generic types are gone.
\<close>

theorem converted_type_well_formed:
  assumes "convert_type env defs sc ty budget = Ok (t, left)"
  shows "left < budget \<and> length (sub_nodes t) \<le> 2 * (budget - left) \<and> type_depth t \<le> NESTING_LIMIT + 1 \<and>
    list_all (node_ok env defs) (sub_nodes t)"
proof -
  have "affordable env defs (Suc NESTING_LIMIT) budget left [t]"
    using type_node_at_affordable[of env defs 0] assms by (auto simp: conv_affordable_def convert_type_def)
  moreover have "0 < length (sub_nodes t)" by (simp add: sub_nodes.simps[of t])
  ultimately show ?thesis by (cases "left = budget") (auto simp: affordable_def)
qed

definition sample_env :: anchor_env where
  "sample_env = \<lparr>json_text = (\<lambda>_. ''json''), camel_string = Ok, hex_text = map (\<lambda>_. CHR ''0''), bs58_bytes = map (\<lambda>_. CHR ''1''),
     bytes_of_json = (\<lambda>_. None), float_text = JsonFloat\<rparr>"

definition sample_pair :: type_def where
  "sample_pair =
     \<lparr>td_name = ''Pair'', td_docs = [], td_generics = Some [(''type'', ''T''), (''const'', ''N'')], td_serialization = None, td_repr = None,
        td_ty = Some (JObject [(''fields'', JArray
          [JObject [(''name'', JString ''left_side''), (''type'', JObject [(''generic'', JString ''T'')])],
           JObject [(''name'', JString ''rest''), (''type'', JObject [(''array'', JArray [JString ''string'', JObject [(''generic'', JString ''N'')]])])]]),
          (''kind'', JString ''struct'')])\<rparr>"

definition sample_defs :: type_defs where
  "sample_defs = \<lparr>generic_defs = [''Pair'' \<mapsto> sample_pair], plain_defs = {''Point''}\<rparr>"

definition sample_type :: json where
  "sample_type = JObject [(''defined'', JObject [(''generics'', JArray
      [JObject [(''kind'', JString ''type''), (''type'', JObject [(''defined'', JObject [(''name'', JString ''Point'')])])],
       JObject [(''kind'', JString ''const''), (''value'', JString ''0x10'')]]), (''name'', JString ''Pair'')])]"

definition sample_node :: type_node where
  "sample_node = StructType
     [(\<lparr>fi_name = ''leftSide'', fi_docs = [], fi_omitted = False, fi_default = None\<rparr>, LinkType ''point''),
      (\<lparr>fi_name = ''rest'', fi_docs = [], fi_omitted = False, fi_default = None\<rparr>,
        ArrayType (SizePrefixType (StringType Utf8) FormatU32) (FixedCount 16))]"

lemma sample_converted: "convert_type sample_env sample_defs new_scope sample_type 100 = Ok (sample_node, 86)"
  by code_simp

theorem converted_type_well_formed_witness:
  "convert_type sample_env sample_defs new_scope sample_type 100 = Ok (sample_node, 86) \<and> length (sub_nodes sample_node) \<le> 28 \<and>
    list_all (node_ok sample_env sample_defs) (sub_nodes sample_node)"
  using converted_type_well_formed[OF sample_converted] sample_converted by simp

end
