(* ===== verification/Anchor_Idl.thy ===== *)
theory Anchor_Idl
  imports Anchor_Types
begin

text \<open>
  The Anchor IDL as \<open>crates/codama-from-anchor/src/idl.rs\<close> has it: its items as records, the readers written by
  hand there (documentation lines, error codes, constant values, account groups), and \<open>locate\<close>, which names the item that does not
  parse. The derived readers of the items are \<open>serde\<close>'s and enter as parameters.
\<close>

record idl_field =
  fd_name :: string
  fd_docs :: "string list"
  fd_ty :: json

datatype seed = SeedConst bytes | SeedArg string | SeedAccount string | SeedUnsupported

record pda =
  pda_seeds :: "seed list"
  pda_program :: "seed option"

record instruction_account =
  ia_name :: string
  ia_docs :: "string list"
  ia_writable :: bool
  ia_signer :: bool
  ia_optional :: bool
  ia_address :: "string option"
  ia_pda :: "pda option"

datatype instruction_account_item =
    AccountGroup string "instruction_account_item list"
  | SingleAccount instruction_account

record idl_instruction =
  ii_name :: string
  ii_discriminator :: bytes
  ii_docs :: "string list"
  ii_accounts :: "instruction_account_item list"
  ii_args :: "idl_field list"

record idl_account =
  ac_name :: string
  ac_discriminator :: bytes

record idl_error =
  er_code :: u32
  er_name :: string
  er_msg :: "string option"

record idl_const =
  cn_name :: string
  cn_ty :: "json option"
  cn_value :: string

record idl =
  idl_address :: string
  idl_name :: string
  idl_version :: string
  idl_instructions :: "idl_instruction list"
  idl_accounts :: "idl_account list"
  idl_events :: "idl_account list"
  idl_errors :: "idl_error list"
  idl_types :: "type_def list"
  idl_constants :: "idl_const list"

fun seed_path :: "seed \<Rightarrow> string option" where
  "seed_path (SeedArg path) = Some path"
| "seed_path (SeedAccount path) = Some path"
| "seed_path (SeedConst _) = None"
| "seed_path SeedUnsupported = None"

text \<open>A code is a number of 32 bits, or its text.\<close>

definition error_code :: "json \<Rightarrow> (string, u32) outcome" where
  "error_code v =
     (case v of
        JNumber (PosInt n) \<Rightarrow> if unat n < 2 ^ 32 then Ok (ucast n) else Err ''data did not match any variant of untagged enum Code''
      | JString s \<Rightarrow>
          (let digits = (if take 1 s = ''+'' then drop 1 s else s)
           in if s = [] then Err ''cannot parse integer from empty string''
              else if digits = [] \<or> \<not> list_all is_ascii_digit digits then Err ''invalid digit found in string''
              else if 2 ^ 32 \<le> decimal_value digits then Err ''number too large to fit in target type''
              else Ok (of_nat (decimal_value digits)))
      | _ \<Rightarrow> Err ''data did not match any variant of untagged enum Code'')"

definition text_value :: "anchor_env \<Rightarrow> json \<Rightarrow> string" where
  "text_value env v = (case v of JString s \<Rightarrow> s | _ \<Rightarrow> json_text env v)"

text \<open>
  An account item with \<open>accounts\<close> is a group, whatever else it has; \<open>grouped\<close> and \<open>single\<close> are the derived readers.
\<close>

definition read_account_item ::
  "(json \<Rightarrow> (string, string \<times> instruction_account_item list) outcome) \<Rightarrow> (json \<Rightarrow> (string, instruction_account) outcome) \<Rightarrow>
   json \<Rightarrow> (string, instruction_account_item) outcome" where
  "read_account_item grouped single v =
     (if json_get ''accounts'' v \<noteq> None then map_outcome id (\<lambda>(name, items). AccountGroup name items) (grouped v)
      else map_outcome id SingleAccount (single v))"

text \<open>The first item of a section that does not parse, by its name or its position.\<close>

fun locate_first :: "(json \<Rightarrow> string option) \<Rightarrow> item_kind \<Rightarrow> nat \<Rightarrow> json list \<Rightarrow> anchor_error option" where
  "locate_first failure kind i [] = None"
| "locate_first failure kind i (item # items) =
     (case failure item of
        Some err \<Rightarrow> Some (At kind (unwrap_or (json_get_str ''name'' item) (''#'' @ decimal i)) (JsonError err))
      | None \<Rightarrow> locate_first failure kind (i + 1) items)"

definition IDL_SECTIONS :: "(string \<times> item_kind) list" where
  "IDL_SECTIONS = [(''instructions'', InstructionItem), (''accounts'', AccountItem), (''events'', EventItem), (''types'', TypeItem),
     (''errors'', ErrorItem), (''constants'', ConstantItem)]"

fun first_some :: "('a \<Rightarrow> 'b option) \<Rightarrow> 'a list \<Rightarrow> 'b option" where
  "first_some f [] = None"
| "first_some f (x # xs) = (case f x of Some y \<Rightarrow> Some y | None \<Rightarrow> first_some f xs)"

definition locate :: "(item_kind \<Rightarrow> json \<Rightarrow> string option) \<Rightarrow> json \<Rightarrow> anchor_error option" where
  "locate failure v =
     first_some (\<lambda>(key, kind).
       Option.bind (Option.bind (json_get key v) json_array) (locate_first (failure kind) kind 0)) IDL_SECTIONS"

end
