(* ===== verification/Anchor_Layout.thy ===== *)
theory Anchor_Layout
  imports Anchor_Idl "HOL-Library.Sublist"
begin

text \<open>
  Padding of zero-copy structs (\<open>crates/codama-from-anchor/src/layout.rs\<close>). Sizes and alignments are \<open>u64\<close> with checked
  arithmetic; the cache of shapes \<open>known\<close> is passed as state and kept on failure, as the \<open>RefCell\<close> is.
\<close>

subsection \<open>Which types are read in place\<close>

function defined_names :: "json \<Rightarrow> string list" where
  "defined_names v =
     (case v of
        JObject _ \<Rightarrow> (case Option.bind (json_get ''defined'' v) (json_get_str ''name'') of Some n \<Rightarrow> [n] | None \<Rightarrow> [])
      | _ \<Rightarrow> []) @ concat (map defined_names (json_children v))"
  by pat_completeness auto

termination
  by (relation "measure size") (auto dest: json_children_size)

declare defined_names.simps [simp del]

definition def_map :: "type_def list \<Rightarrow> string \<rightharpoonup> type_def" where
  "def_map types = collect_map (map (\<lambda>t. (td_name t, t)) types)"

lemma def_map_member: "def_map types n = Some t \<Longrightarrow> t \<in> set types \<and> td_name t = n"
  by (auto simp: def_map_def collect_map_def dest!: map_of_SomeD)

definition linked_names :: "type_def list \<Rightarrow> string \<Rightarrow> string list" where
  "linked_names types name = (case Option.bind (def_map types name) td_ty of Some ty \<Rightarrow> defined_names ty | None \<Rightarrow> [])"

text \<open>The work list: the stack has its top first, so names are pushed in reverse.\<close>

definition all_links :: "type_def list \<Rightarrow> string set" where
  "all_links types = \<Union> ((\<lambda>t. case td_ty t of Some ty \<Rightarrow> set (defined_names ty) | None \<Rightarrow> {}) ` set types)"

lemma linked_all: "set (linked_names types n) \<subseteq> all_links types"
proof
  fix x
  assume "x \<in> set (linked_names types n)"
  then obtain t ty where "def_map types n = Some t" "td_ty t = Some ty" "x \<in> set (defined_names ty)"
    by (cases "Option.bind (def_map types n) td_ty") (auto simp: linked_names_def bind_eq_Some_conv)
  then show "x \<in> all_links types"
    using def_map_member[of types n t] by (auto simp: all_links_def intro!: bexI[of _ t])
qed

lemma finite_all_links [simp]: "finite (all_links types)"
  by (auto simp: all_links_def split: option.splits)

function reachable_from :: "type_def list \<Rightarrow> string list \<Rightarrow> string set \<Rightarrow> string set" where
  "reachable_from types [] seen = seen"
| "reachable_from types (name # stack) seen =
     (if name \<in> seen then reachable_from types stack seen
      else reachable_from types (rev (linked_names types name) @ stack) (insert name seen))"
  by pat_completeness auto

termination
proof (relation "measures [\<lambda>(types, stack, seen). card ((set stack \<union> all_links types) - seen), \<lambda>(types, stack, seen). length stack]", goal_cases)
  case (2 types name stack seen)
  then have "(set (name # stack) \<union> all_links types) - seen = (set stack \<union> all_links types) - seen" by auto
  then show ?case by simp
next
  case (3 types name stack seen)
  have "(set (rev (linked_names types name) @ stack) \<union> all_links types) - insert name seen
      \<subset> (set (name # stack) \<union> all_links types) - seen"
    using linked_all[of types name] 3 by auto
  then have "card ((set (rev (linked_names types name) @ stack) \<union> all_links types) - insert name seen)
      < card ((set (name # stack) \<union> all_links types) - seen)"
    by (rule psubset_card_mono[rotated]) simp
  then show ?case by simp
qed simp

definition reachable_types :: "type_def list \<Rightarrow> string list \<Rightarrow> string set" where
  "reachable_types types roots = reachable_from types (rev roots) {}"

definition serialization_is :: "string \<Rightarrow> type_def \<Rightarrow> bool" where
  "serialization_is s t \<longleftrightarrow> Option.bind (td_serialization t) json_str = Some s"

definition is_borsh :: "type_def \<Rightarrow> bool" where
  "is_borsh t = is_none_or (td_serialization t) (\<lambda>s. json_str s = Some ''borsh'')"

definition is_bytemuck :: "type_def \<Rightarrow> bool" where
  "is_bytemuck = serialization_is ''bytemuck''"

definition is_bytemuck_unsafe :: "type_def \<Rightarrow> bool" where
  "is_bytemuck_unsafe = serialization_is ''bytemuckunsafe''"

definition borsh_types :: "idl \<Rightarrow> string set" where
  "borsh_types idl =
     reachable_types (idl_types idl)
       (concat (map (\<lambda>arg. defined_names (fd_ty arg)) (concat (map ii_args (idl_instructions idl)))) @
        map ac_name (idl_events idl) @
        filter (\<lambda>n. is_some_and (def_map (idl_types idl) n) is_borsh) (map ac_name (idl_accounts idl)))"

subsection \<open>Shapes\<close>

record shape =
  sh_size :: u64
  sh_align :: u64

record layout =
  lo_shape :: shape
  lo_pads :: "u64 list"
  lo_tail :: u64

lemma checked_add_code [code]: "checked_add a b = (if uint a + uint b < 2 ^ LENGTH('a) then Some (a + b) else None)"
  for a b :: "'a::len word"
  unfolding checked_add_def of_nat_less_iff[where 'a = int, symmetric] by (simp del: of_nat_less_iff)

definition checked_mul :: "u64 \<Rightarrow> u64 \<Rightarrow> u64 option" where
  "checked_mul a b = (if unat a * unat b < 2 ^ 64 then Some (a * b) else None)"

lemma checked_mul_code [code]: "checked_mul a b = (if uint a * uint b < 2 ^ 64 then Some (a * b) else None)"
  unfolding checked_mul_def of_nat_less_iff[where 'a = int, symmetric] by (simp del: of_nat_less_iff)

definition checked_next_multiple_of :: "u64 \<Rightarrow> u64 \<Rightarrow> u64 option" where
  "checked_next_multiple_of a b =
     (if b = 0 then None else if a mod b = 0 then Some a else checked_add a (b - a mod b))"

definition layout_alias :: "type_def \<Rightarrow> json option" where
  "layout_alias t = (if is_generic t then None else Option.bind (td_ty t) alias_target)"

definition padding :: "string \<Rightarrow> u64 \<Rightarrow> json" where
  "padding name len =
     JObject [(''name'', JString name), (''type'', JObject [(''array'', JArray [JString ''u8'', JNumber (PosInt len)])])]"

definition struct_fields :: "type_def \<Rightarrow> json list option" where
  "struct_fields t =
     Option.bind (Option.bind (td_ty t) json_object) (\<lambda>obj.
       case map_of obj ''fields'' of None \<Rightarrow> Some [] | Some JNull \<Rightarrow> Some [] | Some v \<Rightarrow> json_array v)"

type_synonym known_shapes = "string \<rightharpoonup> shape option"
type_synonym sizer = "json \<Rightarrow> known_shapes \<Rightarrow> shape option \<times> known_shapes"

fun map_shapes :: "sizer \<Rightarrow> json list \<Rightarrow> known_shapes \<Rightarrow> shape list option \<times> known_shapes" where
  "map_shapes f [] k = (Some [], k)"
| "map_shapes f (x # xs) k =
     (case f x k of
        (None, k) \<Rightarrow> (None, k)
      | (Some s, k) \<Rightarrow> (case map_shapes f xs k of (None, k) \<Rightarrow> (None, k) | (Some ss, k) \<Rightarrow> (Some (s # ss), k)))"

text \<open>A tuple field is a bare type, and only \<open>repr(transparent)\<close> gives it a layout.\<close>

definition field_shape :: "repr \<Rightarrow> sizer \<Rightarrow> sizer" where
  "field_shape r f field k =
     (case json_get ''type'' field of
        Some ty \<Rightarrow> f ty k
      | None \<Rightarrow> if r = ReprTransparent then f field k else (None, k))"

text \<open>The padding before each field, the end of the last one, and the widest alignment.\<close>

fun place :: "bool \<Rightarrow> shape list \<Rightarrow> u64 \<Rightarrow> u64 \<Rightarrow> (u64 list \<times> u64 \<times> u64) option" where
  "place packed [] offset widest = Some ([], offset, widest)"
| "place packed (s # ss) offset widest =
     (let align = (if packed then 1 else sh_align s)
      in Option.bind (checked_next_multiple_of offset align) (\<lambda>start.
         Option.bind (checked_add start (sh_size s)) (\<lambda>end'.
         map_option (\<lambda>(pads, rest). ((start - offset) # pads, rest)) (place packed ss end' (max widest align)))))"

definition rustc_align :: "nat \<Rightarrow> bool" where
  "rustc_align n \<longleftrightarrow> list_ex (\<lambda>k. n = 2 ^ k) [0..<30]"

definition explicit_align :: "repr_modifier \<Rightarrow> u64 option" where
  "explicit_align m = (case rm_align m of None \<Rightarrow> Some 1 | Some n \<Rightarrow> if rustc_align n then Some (of_nat n) else None)"

definition c_layout :: "repr_modifier \<Rightarrow> shape list \<Rightarrow> layout option" where
  "c_layout m shapes =
     Option.bind (place (rm_packed m) shapes 0 1) (\<lambda>(pads, offset, widest).
     Option.bind (explicit_align m) (\<lambda>explicit.
       let align = max widest explicit
       in map_option (\<lambda>size. \<lparr>lo_shape = \<lparr>sh_size = size, sh_align = align\<rparr>, lo_pads = pads, lo_tail = size - offset\<rparr>)
            (checked_next_multiple_of offset align)))"

definition transparent_layout :: "shape list \<Rightarrow> layout option" where
  "transparent_layout shapes =
     (if list_ex (\<lambda>s. sh_size s = 0 \<and> sh_align s \<noteq> 1) shapes then None
      else case filter (\<lambda>s. sh_size s \<noteq> 0) shapes of
             [s] \<Rightarrow> Some \<lparr>lo_shape = s, lo_pads = replicate (length shapes) 0, lo_tail = 0\<rparr>
           | _ \<Rightarrow> None)"

fun layout_of :: "repr \<Rightarrow> shape list \<Rightarrow> layout option" where
  "layout_of (ReprC m) shapes = c_layout m shapes"
| "layout_of ReprTransparent shapes = transparent_layout shapes"
| "layout_of (ReprRust _) shapes = None"

text \<open>The layout of a struct, with \<open>f\<close> for the types of its fields.\<close>

definition struct_layout_with :: "sizer \<Rightarrow> type_def \<Rightarrow> nat \<Rightarrow> known_shapes \<Rightarrow> layout option \<times> known_shapes" where
  "struct_layout_with f t depth k =
     (if NESTING_LIMIT < depth \<or> is_generic t then (None, k)
      else case (struct_fields t, td_repr t) of
             (Some members, Some r) \<Rightarrow>
               (case r of
                  ReprRust _ \<Rightarrow> (None, k)
                | _ \<Rightarrow> (case map_shapes (field_shape r f) members k of
                         (None, k) \<Rightarrow> (None, k)
                       | (Some shapes, k) \<Rightarrow> (layout_of r shapes, k)))
           | _ \<Rightarrow> (None, k))"

definition leaf_shape :: "string \<Rightarrow> shape option" where
  "leaf_shape leaf =
     map_of [(''bool'', \<lparr>sh_size = 1, sh_align = 1\<rparr>), (''u8'', \<lparr>sh_size = 1, sh_align = 1\<rparr>), (''i8'', \<lparr>sh_size = 1, sh_align = 1\<rparr>),
       (''u16'', \<lparr>sh_size = 2, sh_align = 2\<rparr>), (''i16'', \<lparr>sh_size = 2, sh_align = 2\<rparr>), (''u32'', \<lparr>sh_size = 4, sh_align = 4\<rparr>),
       (''i32'', \<lparr>sh_size = 4, sh_align = 4\<rparr>), (''f32'', \<lparr>sh_size = 4, sh_align = 4\<rparr>), (''u64'', \<lparr>sh_size = 8, sh_align = 8\<rparr>),
       (''i64'', \<lparr>sh_size = 8, sh_align = 8\<rparr>), (''f64'', \<lparr>sh_size = 8, sh_align = 8\<rparr>), (''u128'', \<lparr>sh_size = 16, sh_align = 8\<rparr>),
       (''i128'', \<lparr>sh_size = 16, sh_align = 8\<rparr>), (''pubkey'', \<lparr>sh_size = 32, sh_align = 1\<rparr>)] leaf"

definition array_pair :: "json \<Rightarrow> (json \<times> json) option" where
  "array_pair ty = (case Option.bind (json_get ''array'' ty) json_array of Some [item, len] \<Rightarrow> Some (item, len) | _ \<Rightarrow> None)"

lemma array_pair_size: "array_pair ty = Some (item, len) \<Longrightarrow> size item < size ty"
  by (auto simp: array_pair_def bind_eq_Some_conv dest!: json_get_size json_array_size[where x = item]
      split: option.split_asm list.split_asm)

text \<open>A named type, with \<open>f\<close> for the types one level deeper: cached, and marked as unknown while it is computed.\<close>

definition named_layout :: "(string \<rightharpoonup> type_def) \<Rightarrow> nat \<Rightarrow> sizer \<Rightarrow> string \<Rightarrow> known_shapes \<Rightarrow> shape option \<times> known_shapes" where
  "named_layout defs depth f name k =
     (case k name of
        Some known \<Rightarrow> (known, k)
      | None \<Rightarrow>
          (let k = k(name \<mapsto> None)
           in case defs name of
                None \<Rightarrow> (None, k)
              | Some def \<Rightarrow>
                  (let (r, k) =
                     (case layout_alias def of
                        Some target \<Rightarrow> f target k
                      | None \<Rightarrow> map_prod (map_option lo_shape) id (struct_layout_with f def depth k))
                   in (r, k(name \<mapsto> r)))))"

lemma named_layout_cong [fundef_cong]:
  "defs = defs' \<Longrightarrow> depth = depth' \<Longrightarrow> (\<And>x k. f x k = g x k) \<Longrightarrow> name = name' \<Longrightarrow> k = k' \<Longrightarrow>
    named_layout defs depth f name k = named_layout defs' depth' g name' k'"
  using ext[OF ext, of f g] by simp

function field_layout :: "(string \<rightharpoonup> type_def) \<Rightarrow> nat \<Rightarrow> sizer" where
  "field_layout defs depth ty k =
     (if NESTING_LIMIT < depth then (None, k)
      else case json_str ty of
        Some leaf \<Rightarrow> (leaf_shape leaf, k)
      | None \<Rightarrow>
      (case array_pair ty of
        Some (item, len) \<Rightarrow>
          (case field_layout defs depth item k of
             (None, k) \<Rightarrow> (None, k)
           | (Some s, k) \<Rightarrow>
               (Option.bind (json_u64 len) (\<lambda>n. map_option (\<lambda>size. s\<lparr>sh_size := size\<rparr>) (checked_mul (sh_size s) n)), k))
      | None \<Rightarrow>
      (case Option.bind (json_get ''defined'' ty) (json_get_str ''name'') of
        None \<Rightarrow> (None, k)
      | Some name \<Rightarrow> named_layout defs (depth + 1) (\<lambda>x k. field_layout defs (depth + 1) x k) name k)))"
  by pat_completeness auto

termination
  by (relation "measures [\<lambda>(_, depth, _, _). Suc NESTING_LIMIT - depth, \<lambda>(_, _, ty, _). size ty]") (auto dest: array_pair_size)

declare field_layout.simps [simp del]

definition struct_layout :: "(string \<rightharpoonup> type_def) \<Rightarrow> type_def \<Rightarrow> known_shapes \<Rightarrow> layout option \<times> known_shapes" where
  "struct_layout defs t = struct_layout_with (field_layout defs 0) t 0"

subsection \<open>Padding fields\<close>

text \<open>
  A free name for a padding field: the base, then numbered from 2. One of the names tried here is always free.
\<close>

definition numbered :: "string \<Rightarrow> nat \<Rightarrow> string" where
  "numbered base n = base @ ''_'' @ decimal n"

definition free_name :: "string list \<Rightarrow> string \<Rightarrow> string option" where
  "free_name taken base = find (\<lambda>name. camel_case name \<notin> set taken) (base # map (numbered base) [2..<length taken + 3])"

fun insert_padding :: "string list \<Rightarrow> (json \<times> u64) list \<Rightarrow> (json list \<times> string list) option" where
  "insert_padding taken [] = Some ([], taken)"
| "insert_padding taken ((field, pad) # rest) =
     (if 0 < pad
      then Option.bind (json_get_str ''name'' field) (\<lambda>name.
           Option.bind (free_name taken (''padding_before_'' @ name)) (\<lambda>free.
           map_option (\<lambda>(out, taken). (padding free pad # field # out, taken)) (insert_padding (camel_case free # taken) rest)))
      else map_option (\<lambda>(out, taken). (field # out, taken)) (insert_padding taken rest))"

definition pad_members :: "json list \<Rightarrow> layout \<Rightarrow> json list option" where
  "pad_members members l =
     (if lo_tail l = 0 \<and> list_all (\<lambda>pad. pad = 0) (lo_pads l) then None
      else Option.bind (insert_padding (map camel_case (List.map_filter (json_get_str ''name'') members)) (zip members (lo_pads l)))
             (\<lambda>(out, taken).
                if 0 < lo_tail l
                then map_option (\<lambda>free. out @ [padding free (lo_tail l)]) (free_name taken ''padding_end'')
                else Some out))"

definition padded_fields :: "(string \<rightharpoonup> type_def) \<Rightarrow> type_def \<Rightarrow> known_shapes \<Rightarrow> json list option \<times> known_shapes" where
  "padded_fields defs t k =
     (case struct_fields t of
        None \<Rightarrow> (None, k)
      | Some members \<Rightarrow> (case struct_layout defs t k of (l, k) \<Rightarrow> (Option.bind l (pad_members members), k)))"

subsection \<open>The pass\<close>

fun any_unknown :: "(string \<rightharpoonup> type_def) \<Rightarrow> type_def list \<Rightarrow> known_shapes \<Rightarrow> type_def option \<times> known_shapes" where
  "any_unknown defs [] k = (None, k)"
| "any_unknown defs (t # ts) k = (case struct_layout defs t k of (None, k) \<Rightarrow> (Some t, k) | (Some _, k) \<Rightarrow> any_unknown defs ts k)"

fun padded_types :: "(string \<rightharpoonup> type_def) \<Rightarrow> string set \<Rightarrow> type_def list \<Rightarrow> known_shapes \<Rightarrow> json list option list" where
  "padded_types defs zero_copy [] k = []"
| "padded_types defs zero_copy (t # ts) k =
     (if td_name t \<in> zero_copy
      then (case padded_fields defs t k of (p, k) \<Rightarrow> p # padded_types defs zero_copy ts k)
      else None # padded_types defs zero_copy ts k)"

definition set_fields :: "type_def \<Rightarrow> json list \<Rightarrow> type_def" where
  "set_fields t fs =
     (case td_ty t of Some (JObject body) \<Rightarrow> t\<lparr>td_ty := Some (JObject (bt_insert ''fields'' (JArray fs) body))\<rparr> | _ \<Rightarrow> t)"

definition in_bytemuck :: "idl \<Rightarrow> type_def list \<Rightarrow> string set" where
  "in_bytemuck idl accounts = reachable_types (idl_types idl) (map td_name (filter is_bytemuck accounts))"

definition read_in_place :: "idl \<Rightarrow> type_def list" where
  "read_in_place idl =
     filter (\<lambda>t. \<not> is_generic t) (List.map_filter (\<lambda>a. def_map (idl_types idl) (ac_name a)) (idl_accounts idl))"

definition zero_copy_roots :: "idl \<Rightarrow> type_def list" where
  "zero_copy_roots idl =
     (let accounts = read_in_place idl
      in filter (\<lambda>t. is_bytemuck_unsafe t \<and> \<not> is_generic t)
           (accounts @ filter (\<lambda>t. td_name t \<in> in_bytemuck idl accounts) (idl_types idl)))"

definition pad_zero_copy :: "idl \<Rightarrow> (anchor_error, idl) outcome" where
  "pad_zero_copy idl =
     (let types = idl_types idl; defs = def_map types;
          enclosed = in_bytemuck idl (read_in_place idl)
      in case find (\<lambda>t. td_name t \<in> enclosed \<and> is_enum t) types of
           Some t \<Rightarrow> Err (At TypeItem (td_name t) UnknownLayout)
         | None \<Rightarrow>
             (let roots = zero_copy_roots idl
              in case any_unknown defs roots Map.empty of
                   (Some t, _) \<Rightarrow> Err (At TypeItem (td_name t) UnknownLayout)
                 | (None, k) \<Rightarrow>
                     (let padded = padded_types defs (reachable_types types (map td_name roots)) types k
                      in case find (\<lambda>(t, p). p \<noteq> None \<and> td_name t \<in> borsh_types idl) (zip types padded) of
                           Some (t, _) \<Rightarrow> Err (At TypeItem (td_name t) PaddedBorshType)
                         | None \<Rightarrow>
                             Ok (idl\<lparr>idl_types := map2 (\<lambda>t p. case p of Some fs \<Rightarrow> set_fields t fs | None \<Rightarrow> t) types padded\<rparr>))))"

subsection \<open>Layouts are stable\<close>

text \<open>The cache only grows, and a shape once computed is found again.\<close>

lemma map_shapes_grows:
  assumes "\<And>x k r k'. f x k = (r, k') \<Longrightarrow> k \<subseteq>\<^sub>m k'"
  shows "map_shapes f xs k = (r, k') \<Longrightarrow> k \<subseteq>\<^sub>m k'"
proof (induction xs arbitrary: k r k')
  case (Cons x xs)
  obtain s k1 where k1: "f x k = (s, k1)" by fastforce
  obtain ss k2 where k2: "map_shapes f xs k1 = (ss, k2)" by fastforce
  have "k \<subseteq>\<^sub>m k1" "k1 \<subseteq>\<^sub>m k2" using assms[OF k1] Cons.IH[OF k2] by auto
  then show ?case using Cons.prems k1 k2 by (auto split: option.splits intro: map_le_trans)
qed auto

lemma struct_layout_grows:
  assumes "\<And>x k r k'. f x k = (r, k') \<Longrightarrow> k \<subseteq>\<^sub>m k'" and "struct_layout_with f t depth k = (l, k')"
  shows "k \<subseteq>\<^sub>m k'"
proof -
  have "field_shape r f x k = (s, k') \<Longrightarrow> k \<subseteq>\<^sub>m k'" for r x k s k'
    using assms(1) by (auto simp: field_shape_def split: option.splits if_splits)
  from map_shapes_grows[OF this] show ?thesis
    using assms(2) by (auto simp: struct_layout_with_def split: if_splits option.splits repr.splits prod.splits)
qed

lemma named_layout_grows:
  assumes grows: "\<And>x k r k'. f x k = (r, k') \<Longrightarrow> k \<subseteq>\<^sub>m k'" and ok: "named_layout defs depth f name k = (r, k')"
  shows "k \<subseteq>\<^sub>m k' \<and> k' name = Some r"
proof (cases "k name")
  case None
  have "k(name \<mapsto> None) \<subseteq>\<^sub>m k1 \<Longrightarrow> k \<subseteq>\<^sub>m k1(name \<mapsto> r)" for k1
    using None by (auto simp: map_le_def) (metis fun_upd_other domI)
  moreover have "k \<subseteq>\<^sub>m k(name \<mapsto> None)" using None by (auto simp: map_le_def)
  moreover have "struct_layout_with f t depth (k(name \<mapsto> None)) = (l, k1) \<Longrightarrow> k(name \<mapsto> None) \<subseteq>\<^sub>m k1" for t l k1
    by (rule struct_layout_grows[OF grows])
  ultimately show ?thesis
    using ok None by (auto simp: named_layout_def Let_def map_prod_def id_def split: option.splits prod.splits
        dest: grows)
qed (use ok in \<open>auto simp: named_layout_def\<close>)

lemma field_layout_grows: "field_layout defs depth ty k = (r, k') \<Longrightarrow> k \<subseteq>\<^sub>m k'"
proof (induction defs depth ty k arbitrary: r k' rule: field_layout.induct)
  case (1 defs depth ty k)
  note ok = 1(3)
  consider "NESTING_LIMIT < depth" | leaf where "\<not> NESTING_LIMIT < depth" "json_str ty = Some leaf"
    | item len where "\<not> NESTING_LIMIT < depth" "json_str ty = None" "array_pair ty = Some (item, len)"
    | "\<not> NESTING_LIMIT < depth" "json_str ty = None" "array_pair ty = None" by fastforce
  then show ?case
  proof cases
    case 1
    then show ?thesis using ok by (subst (asm) field_layout.simps) simp
  next
    case 2
    then show ?thesis using ok by (subst (asm) field_layout.simps) simp
  next
    case 3
    then show ?thesis using 1(2)[OF 3 refl] 1(3) by (subst (asm) field_layout.simps) (auto split: option.splits prod.splits)
  next
    case 4
    note IH = 1(1)[OF 4]
    show ?thesis
    proof (cases "Option.bind (json_get ''defined'' ty) (json_get_str ''name'')")
      case (Some name)
      then have "named_layout defs (depth + 1) (field_layout defs (depth + 1)) name k = (r, k')"
        using 4 1(3) by (subst (asm) field_layout.simps) simp
      then show ?thesis using named_layout_grows[of "field_layout defs (depth + 1)"] IH[OF Some] by blast
    qed (use 4 1(3) in \<open>subst (asm) field_layout.simps, simp\<close>)
  qed
qed

lemma field_layout_again:
  "field_layout defs depth ty k = (Some s, k') \<Longrightarrow> k' \<subseteq>\<^sub>m k2 \<Longrightarrow> field_layout defs depth ty k2 = (Some s, k2)"
proof (induction "size ty" arbitrary: ty s rule: less_induct)
  case less
  have deep: "\<not> NESTING_LIMIT < depth" using less.prems(1) by (subst (asm) field_layout.simps) (auto split: if_splits)
  show ?case
  proof (cases "json_str ty")
    case (Some leaf)
    then show ?thesis using less.prems(1) deep by (subst (asm) field_layout.simps, subst field_layout.simps) auto
  next
    case None
    note str = this
    show ?thesis
    proof (cases "array_pair ty")
      case (Some p)
      obtain item len where p: "p = (item, len)" by (cases p)
      from less.prems(1) obtain s' where s': "field_layout defs depth item k = (Some s', k')"
          "Option.bind (json_u64 len) (\<lambda>n. map_option (\<lambda>size. s'\<lparr>sh_size := size\<rparr>) (checked_mul (sh_size s') n)) = Some s"
        using str Some deep p by (subst (asm) field_layout.simps) (auto split: option.splits prod.splits)
      have "field_layout defs depth item k2 = (Some s', k2)"
        by (rule less.hyps[OF _ s'(1) less.prems(2)]) (use Some p in \<open>auto dest: array_pair_size\<close>)
      then show ?thesis using str Some deep p s'(2) by (subst field_layout.simps) simp
    next
      case None
      with less.prems(1) str deep obtain name where name: "Option.bind (json_get ''defined'' ty) (json_get_str ''name'') = Some name"
          "named_layout defs (depth + 1) (field_layout defs (depth + 1)) name k = (Some s, k')"
        by (subst (asm) field_layout.simps) (auto split: option.splits)
      have "k' name = Some (Some s)" using named_layout_grows[OF field_layout_grows name(2)] by simp
      then have "k2 name = Some (Some s)" using less.prems(2) by (auto simp: map_le_def dom_def)
      then show ?thesis using None str deep name(1) by (subst field_layout.simps) (simp add: named_layout_def)
    qed
  qed
qed

subsection \<open>Padded fields lie where \<open>repr(C)\<close> puts them\<close>

text \<open>
  The reference: with \<open>repr(C)\<close> a field starts at the next multiple of its alignment, and the struct ends at the next multiple of
  the widest one; Borsh reads fields back to back.
\<close>

definition round_up :: "nat \<Rightarrow> nat \<Rightarrow> nat" where
  "round_up n a = a * ((n + (a - 1)) div a)"

definition c_align :: "bool \<Rightarrow> shape \<Rightarrow> nat" where
  "c_align packed s = (if packed then 1 else unat (sh_align s))"

fun c_starts :: "bool \<Rightarrow> nat \<Rightarrow> shape list \<Rightarrow> nat list" where
  "c_starts packed n [] = []"
| "c_starts packed n (s # ss) =
     round_up n (c_align packed s) # c_starts packed (round_up n (c_align packed s) + unat (sh_size s)) ss"

fun c_end :: "bool \<Rightarrow> nat \<Rightarrow> shape list \<Rightarrow> nat" where
  "c_end packed n [] = n"
| "c_end packed n (s # ss) = c_end packed (round_up n (c_align packed s) + unat (sh_size s)) ss"

fun borsh_starts :: "nat \<Rightarrow> shape list \<Rightarrow> nat list" where
  "borsh_starts n [] = []"
| "borsh_starts n (s # ss) = n # borsh_starts (n + unat (sh_size s)) ss"

definition borsh_size :: "shape list \<Rightarrow> nat" where
  "borsh_size ss = sum_list (map (unat \<circ> sh_size) ss)"

text \<open>Rounding up gives the least multiple that is not smaller.\<close>

lemma round_up_least:
  assumes "0 < a"
  shows "n \<le> round_up n a" "a dvd round_up n a" "a dvd m \<Longrightarrow> n \<le> m \<Longrightarrow> round_up n a \<le> m"
proof -
  have "n + (a - 1) < a * ((n + (a - 1)) div a) + a" using assms by (metis dividend_less_times_div mult.commute add.commute)
  then show "n \<le> round_up n a" using assms by (simp add: round_up_def)
  show "a dvd round_up n a" by (simp add: round_up_def)
  assume "a dvd m" "n \<le> m"
  then obtain q where q: "m = a * q" by (elim dvdE)
  have "(n + (a - 1)) div a \<le> (a * q + (a - 1)) div a" using \<open>n \<le> m\<close> q by (intro div_le_mono) simp
  also have "\<dots> = q" using assms div_mult_self4[of a q "a - 1"] by simp
  finally show "round_up n a \<le> m" unfolding round_up_def q by (rule mult_le_mono2)
qed

lemma round_up_mod:
  assumes "0 < a"
  shows "round_up n a = (if n mod a = 0 then n else n + (a - n mod a))"
proof -
  define q r where "q = n div a" and "r = n mod a"
  have n: "n = a * q + r" and r: "r < a" using assms by (simp_all add: q_def r_def)
  have "(a * q + r + (a - 1)) div a = (if r = 0 then q else q + 1)"
  proof (cases "r = 0")
    case False
    then have "a * q + r + (a - 1) = a * (q + 1) + (r - 1)" using assms by simp
    then have "(a * q + r + (a - 1)) div a = q + 1 + (r - 1) div a" using assms by (simp only: div_mult_self4[of a "q + 1"])
    then show ?thesis using False r by simp
  qed (use assms div_mult_self4[of a q "a - 1"] in simp)
  then show ?thesis using r by (simp add: round_up_def n)
qed

lemma next_multiple_unat:
  assumes "checked_next_multiple_of a b = Some c"
  shows "unat c = round_up (unat a) (unat b)"
proof -
  have b: "b \<noteq> 0" using assms by (auto simp: checked_next_multiple_of_def split: if_splits)
  then have pos: "0 < unat b" by (simp add: unat_gt_0)
  have m: "unat (a mod b) = unat a mod unat b" by (simp add: unat_mod)
  have "unat (b - a mod b) = unat b - unat a mod unat b"
    using pos m by (metis unat_sub word_le_nat_alt less_imp_le mod_less_divisor)
  moreover have "a mod b = 0 \<longleftrightarrow> unat a mod unat b = 0" by (metis m unat_0 unat_eq_zero)
  ultimately show ?thesis
    using assms b unfolding round_up_mod[OF pos]
    by (auto simp: checked_next_multiple_of_def checked_add_eq_Some unat_add_no_wrap split: if_splits)
qed

text \<open>The shapes of the fields with a padding field of one-byte alignment before those that have padding.\<close>

definition pad_shape :: "u64 \<Rightarrow> shape list" where
  "pad_shape pad = (if 0 < pad then [\<lparr>sh_size = pad, sh_align = 1\<rparr>] else [])"

fun padded_shapes :: "shape list \<Rightarrow> u64 list \<Rightarrow> shape list" where
  "padded_shapes (s # ss) (pad # pads) = pad_shape pad @ s # padded_shapes ss pads"
| "padded_shapes _ _ = []"

lemma place_length: "place packed ss n w = Some (pads, rest) \<Longrightarrow> length pads = length ss"
  by (induction ss arbitrary: n w pads rest) (auto simp: Let_def bind_eq_Some_conv)

lemma place_step:
  assumes "place packed (s # ss) n w = Some (pads, e, w')"
  obtains pad pads' m where "pads = pad # pads'" "unat n + unat pad = round_up (unat n) (c_align packed s)"
    "unat m = round_up (unat n) (c_align packed s) + unat (sh_size s)" "place packed ss m (max w (if packed then 1 else sh_align s)) = Some (pads', e, w')"
proof -
  let ?a = "if packed then 1 else sh_align s"
  from assms obtain start m pads' where start: "checked_next_multiple_of n ?a = Some start" and m: "checked_add start (sh_size s) = Some m"
      and rest: "place packed ss m (max w ?a) = Some (pads', e, w')" and pads: "pads = (start - n) # pads'"
    by (auto simp: Let_def bind_eq_Some_conv simp del: if_split split: prod.splits)
  have a: "unat ?a = c_align packed s" by (simp add: c_align_def)
  have "?a \<noteq> 0" using start by (auto simp: checked_next_multiple_of_def split: if_splits)
  then have "unat ?a \<noteq> 0" by (simp only: unat_eq_zero not_False_eq_True)
  then have "0 < c_align packed s" unfolding a by simp
  moreover have u: "unat start = round_up (unat n) (c_align packed s)" using next_multiple_unat[OF start] a by simp
  ultimately have "n \<le> start" using round_up_least(1) by (simp add: word_le_nat_alt)
  then have "unat n + unat (start - n) = round_up (unat n) (c_align packed s)" by (simp add: unat_sub u word_le_nat_alt)
  moreover have "unat m = round_up (unat n) (c_align packed s) + unat (sh_size s)"
    using m by (auto simp: checked_add_eq_Some unat_add_no_wrap u)
  ultimately show thesis using that pads rest by blast
qed

lemma borsh_starts_append: "borsh_starts n (xs @ ys) = borsh_starts n xs @ borsh_starts (n + borsh_size xs) ys"
  by (induction xs arbitrary: n) (auto simp: borsh_size_def add.assoc)

lemma borsh_starts_length [simp]: "length (borsh_starts n ss) = length ss"
  by (induction ss arbitrary: n) auto

lemma borsh_size_simps [simp]:
  "borsh_size [] = 0" "borsh_size (s # ss) = unat (sh_size s) + borsh_size ss" "borsh_size (xs @ ys) = borsh_size xs + borsh_size ys"
  "borsh_size (pad_shape pad) = unat pad"
  by (auto simp: borsh_size_def pad_shape_def) (simp_all add: word_less_nat_alt)

text \<open>Each field keeps its start, in order.\<close>

lemma place_starts:
  assumes "place packed ss n w = Some (pads, e, w')" "insert_padding taken (zip ms pads) = Some (out, taken')" "length ms = length ss"
  shows "subseq (zip ms (c_starts packed (unat n) ss)) (zip out (borsh_starts (unat n) (padded_shapes ss pads))) \<and>
    unat n + borsh_size (padded_shapes ss pads) = c_end packed (unat n) ss \<and> unat e = c_end packed (unat n) ss"
  using assms
proof (induction ss arbitrary: n w pads ms taken out taken')
  case (Cons s ss)
  obtain pad pads' m where step: "pads = pad # pads'" "unat n + unat pad = round_up (unat n) (c_align packed s)"
    "unat m = round_up (unat n) (c_align packed s) + unat (sh_size s)" "place packed ss m (max w (if packed then 1 else sh_align s)) = Some (pads', e, w')"
    using place_step[OF Cons.prems(1)] by blast
  obtain f ms' where ms: "ms = f # ms'" "length ms' = length ss" using Cons.prems(3) by (cases ms) auto
  obtain free out' taken'' where out: "insert_padding taken'' (zip ms' pads') = Some (out', taken')"
      "out = (if 0 < pad then [padding free pad] else []) @ f # out'"
    using Cons.prems(2) unfolding step ms by (auto simp: bind_eq_Some_conv split: if_splits)
  from Cons.IH[OF step(4) out(1) ms(2)] have IH:
    "subseq (zip ms' (c_starts packed (unat m) ss)) (zip out' (borsh_starts (unat m) (padded_shapes ss pads')))"
    "unat m + borsh_size (padded_shapes ss pads') = c_end packed (unat m) ss" "unat e = c_end packed (unat m) ss" by auto
  have "zip out (borsh_starts (unat n) (padded_shapes (s # ss) pads)) =
      (if 0 < pad then [(padding free pad, unat n)] else []) @
      (f, unat n + unat pad) # zip out' (borsh_starts (unat n + unat pad + unat (sh_size s)) (padded_shapes ss pads'))"
    unfolding step(1) out(2) by (cases "pad = 0") (auto simp: pad_shape_def word_neq_0_conv)
  then show ?case
    using IH step(2,3) unfolding step(1) ms(1) by (auto simp: subseq_drop_many add.assoc[symmetric])
qed auto

lemma map_shapes_again:
  assumes "map_shapes (field_shape r (field_layout defs d)) ms k = (Some ss, k')" "k' \<subseteq>\<^sub>m k2"
  shows "map_shapes (field_shape r (field_layout defs d)) ms k2 = (Some ss, k2)"
  using assms
proof (induction ms arbitrary: k ss)
  case (Cons x ms)
  obtain s k1 ss' where s: "field_shape r (field_layout defs d) x k = (Some s, k1)"
      and ss: "map_shapes (field_shape r (field_layout defs d)) ms k1 = (Some ss', k')" "ss = s # ss'"
    using Cons.prems(1) by (auto split: prod.splits option.splits)
  have grows: "field_shape r (field_layout defs d) x k = (t, l) \<Longrightarrow> k \<subseteq>\<^sub>m l" for x k t l
    using field_layout_grows by (auto simp: field_shape_def split: option.splits if_splits)
  have "k1 \<subseteq>\<^sub>m k2" using map_shapes_grows[OF grows ss(1)] Cons.prems(2) by (rule map_le_trans)
  then have "field_shape r (field_layout defs d) x k2 = (Some s, k2)"
    using s field_layout_again by (auto simp: field_shape_def split: option.splits if_splits)
  then show ?case using Cons.IH[OF ss(1) Cons.prems(2)] ss(2) by simp
qed simp

lemma padding_shape: "field_shape (ReprC m) (field_layout defs 0) (padding name pad) k = (Some \<lparr>sh_size = pad, sh_align = 1\<rparr>, k)"
proof -
  have "field_layout defs 0 (JString ''u8'') k = (Some \<lparr>sh_size = 1, sh_align = 1\<rparr>, k)"
    by (subst field_layout.simps) (simp add: leaf_shape_def)
  moreover have "checked_mul 1 pad = Some pad" using unat_bound[of pad] by (simp add: checked_mul_def)
  ultimately show ?thesis
    by (simp add: field_shape_def padding_def, subst field_layout.simps, simp add: array_pair_def)
qed

lemma map_shapes_append:
  "map_shapes f (xs @ ys) k =
    (case map_shapes f xs k of (None, k) \<Rightarrow> (None, k)
     | (Some ss, k) \<Rightarrow> (case map_shapes f ys k of (None, k) \<Rightarrow> (None, k) | (Some ts, k) \<Rightarrow> (Some (ss @ ts), k)))"
  by (induction xs arbitrary: k) (auto split: prod.splits option.splits)

lemma map_shapes_padded:
  assumes "map_shapes (field_shape (ReprC m) (field_layout defs 0)) ms k = (Some ss, k)" "insert_padding taken (zip ms pads) = Some (out, taken')"
    "length pads = length ms"
  shows "map_shapes (field_shape (ReprC m) (field_layout defs 0)) out k = (Some (padded_shapes ss pads), k)"
  using assms
proof (induction ms arbitrary: ss pads taken out taken')
  case (Cons f ms)
  then obtain pad pads' where pads: "pads = pad # pads'" "length pads' = length ms" by (cases pads) auto
  obtain free out' taken'' where out: "insert_padding taken'' (zip ms pads') = Some (out', taken')"
      "out = (if 0 < pad then [padding free pad] else []) @ f # out'"
    using Cons.prems(2) unfolding pads by (auto simp: bind_eq_Some_conv split: if_splits)
  obtain s k1 ss' where s: "field_shape (ReprC m) (field_layout defs 0) f k = (Some s, k1)"
      and ss: "map_shapes (field_shape (ReprC m) (field_layout defs 0)) ms k1 = (Some ss', k)" "ss = s # ss'"
    using Cons.prems(1) by (auto split: prod.splits option.splits)
  have grows: "field_shape r (field_layout defs 0) x k = (t, l) \<Longrightarrow> k \<subseteq>\<^sub>m l" for r x k t l
    using field_layout_grows by (auto simp: field_shape_def split: option.splits if_splits)
  have "k1 = k" using grows[OF s] map_shapes_grows[OF grows ss(1)] by (rule map_le_antisym[rotated])
  then show ?case
    using Cons.IH[OF _ out(1) pads(2)] s ss unfolding pads(1) out(2)
    by (auto simp: padding_shape pad_shape_def)
qed simp

definition struct_align :: "repr_modifier \<Rightarrow> shape list \<Rightarrow> nat" where
  "struct_align m ss = max (fold max (map (c_align (rm_packed m)) ss) 1) (unwrap_or (rm_align m) 1)"

lemma unat_max: "unat (max a b) = max (unat a) (unat b)"
  by (simp add: max_def word_le_nat_alt)

lemma place_widest: "place packed ss n w = Some (pads, e, w') \<Longrightarrow> unat w' = fold max (map (c_align packed) ss) (unat w)"
proof (induction ss arbitrary: n w pads)
  case (Cons s ss)
  obtain pads' m where "place packed ss m (max w (if packed then 1 else sh_align s)) = Some (pads', e, w')"
    using place_step[OF Cons.prems] by metis
  from Cons.IH[OF this] show ?case by (simp add: unat_max c_align_def max.commute)
qed simp

lemma explicit_unat: "explicit_align m = Some a \<Longrightarrow> unat a = unwrap_or (rm_align m) 1"
proof -
  have "unat (of_nat (2 ^ j) :: u64) = 2 ^ j" if "j < 30" for j
    using that power_strict_increasing[of j 64 "2 :: nat"] by (simp add: unat_of_nat del: of_nat_power)
  then show "explicit_align m = Some a \<Longrightarrow> unat a = unwrap_or (rm_align m) 1"
    by (auto simp: explicit_align_def rustc_align_def list_ex_iff split: option.splits if_splits)
qed

lemma c_layout_sizes:
  assumes "c_layout m ss = Some l"
  shows "\<exists>e w. place (rm_packed m) ss 0 1 = Some (lo_pads l, e, w) \<and>
    unat e + unat (lo_tail l) = round_up (unat e) (struct_align m ss) \<and> unat (sh_size (lo_shape l)) = round_up (unat e) (struct_align m ss)"
proof -
  from assms obtain pads e w a size where l: "place (rm_packed m) ss 0 1 = Some (pads, e, w)" "explicit_align m = Some a"
      "checked_next_multiple_of e (max w a) = Some size" "l = \<lparr>lo_shape = \<lparr>sh_size = size, sh_align = max w a\<rparr>, lo_pads = pads, lo_tail = size - e\<rparr>"
    by (auto simp: c_layout_def Let_def bind_eq_Some_conv)
  have align: "unat (max w a) = struct_align m ss"
    using place_widest[OF l(1)] explicit_unat[OF l(2)] by (simp add: unat_max struct_align_def)
  have "max w a \<noteq> 0" using l(3) by (auto simp: checked_next_multiple_of_def split: if_splits)
  then have pos: "0 < struct_align m ss" unfolding align[symmetric] by (simp add: unat_gt_0)
  have size: "unat size = round_up (unat e) (struct_align m ss)" using next_multiple_unat[OF l(3)] align by simp
  then have "e \<le> size" using round_up_least(1)[OF pos] by (simp add: word_le_nat_alt)
  then have "unat e + unat (size - e) = unat size" by (simp add: unat_sub word_le_nat_alt)
  then show ?thesis using l(1,4) size by auto
qed

definition sample_struct :: type_def where
  "sample_struct =
     \<lparr>td_name = ''Vault'', td_docs = [], td_generics = None, td_serialization = Some (JString ''bytemuckunsafe''),
      td_repr = Some (ReprC \<lparr>rm_packed = False, rm_align = None\<rparr>),
      td_ty = Some (JObject [(''fields'', JArray
        [JObject [(''name'', JString ''bump''), (''type'', JString ''u8'')],
         JObject [(''name'', JString ''total''), (''type'', JString ''u64'')],
         JObject [(''name'', JString ''slot''), (''type'', JString ''u16'')]]), (''kind'', JString ''struct'')])\<rparr>"

definition sample_padded :: "json list" where
  "sample_padded =
     [JObject [(''name'', JString ''bump''), (''type'', JString ''u8'')], padding ''padding_before_total'' 7,
      JObject [(''name'', JString ''total''), (''type'', JString ''u64'')],
      JObject [(''name'', JString ''slot''), (''type'', JString ''u16'')], padding ''padding_end'' 6]"

definition sample_known :: known_shapes where
  "sample_known = snd (padded_fields Map.empty sample_struct Map.empty)"

lemma sample_struct_padded: "padded_fields Map.empty sample_struct Map.empty = (Some sample_padded, sample_known)"
proof -
  have "fst (padded_fields Map.empty sample_struct Map.empty) = Some sample_padded" by code_simp
  then show ?thesis by (simp add: prod_eq_iff sample_known_def)
qed

text \<open>
  C11. Reading a padded struct back to back finds every field where \<open>repr(C)\<close> puts it: when the padding pass gives a
  type new fields, its old fields are among them in their order, each at the offset that the C layout of the old fields
  gives it, counting the sizes of all the fields before it; and the new fields together are as long as the C struct, tail padding included.
\<close>

theorem padding_matches_repr_c:
  assumes "padded_fields defs t k = (Some out, k')"
  shows "\<exists>m members shapes out_shapes.
    td_repr t = Some (ReprC m) \<and> struct_fields t = Some members \<and>
    map_shapes (field_shape (ReprC m) (field_layout defs 0)) members k = (Some shapes, k') \<and>
    map_shapes (field_shape (ReprC m) (field_layout defs 0)) out k' = (Some out_shapes, k') \<and>
    subseq (zip members (c_starts (rm_packed m) 0 shapes)) (zip out (borsh_starts 0 out_shapes)) \<and>
    borsh_size out_shapes = round_up (c_end (rm_packed m) 0 shapes) (struct_align m shapes)"
proof -
  from assms obtain members l where fields: "struct_fields t = Some members" "struct_layout defs t k = (Some l, k')" "pad_members members l = Some out"
    by (auto simp: padded_fields_def bind_eq_Some_conv split: option.splits prod.splits)
  from fields(1,2) obtain r shapes where r: "td_repr t = Some r"
      "map_shapes (field_shape r (field_layout defs 0)) members k = (Some shapes, k')" "layout_of r shapes = Some l"
    by (auto simp: struct_layout_def struct_layout_with_def split: if_splits option.splits repr.splits prod.splits)
  have "r \<noteq> ReprTransparent"
    using fields(3) r(3) by (auto simp: transparent_layout_def pad_members_def list_all_iff split: if_splits list.splits)
  then obtain m where m: "r = ReprC m" using r(3) by (cases r) auto
  let ?shapes = "map_shapes (field_shape (ReprC m) (field_layout defs 0))"
  from c_layout_sizes[of m shapes l] r(3) m obtain e w where place: "place (rm_packed m) shapes 0 1 = Some (lo_pads l, e, w)"
      and tail: "unat e + unat (lo_tail l) = round_up (unat e) (struct_align m shapes)" by auto
  from fields(3) obtain out1 taken taken' free where out1: "insert_padding taken (zip members (lo_pads l)) = Some (out1, taken')"
      and out: "out = out1 @ (if 0 < lo_tail l then [padding free (lo_tail l)] else [])"
    by (auto simp: pad_members_def bind_eq_Some_conv split: if_splits)
  have len: "length (f :: shape list) = length (xs :: json list)" if "map_shapes g xs k = (Some f, k')" for f xs g and k k' :: known_shapes
    using that by (induction xs arbitrary: k f) (auto split: prod.splits option.splits)
  have lens: "length members = length shapes" "length (lo_pads l) = length members"
    using len[OF r(2)] place_length[OF place] by simp_all
  from place_starts[OF place out1 lens(1)] have starts:
    "subseq (zip members (c_starts (rm_packed m) 0 shapes)) (zip out1 (borsh_starts 0 (padded_shapes shapes (lo_pads l))))"
    "borsh_size (padded_shapes shapes (lo_pads l)) = c_end (rm_packed m) 0 shapes" "unat e = c_end (rm_packed m) 0 shapes" by simp_all
  have "?shapes members k' = (Some shapes, k')" by (rule map_shapes_again[OF r(2)[unfolded m] map_le_refl])
  from map_shapes_padded[OF this out1 lens(2)]
  have padded: "?shapes out1 k' = (Some (padded_shapes shapes (lo_pads l)), k')" .
  have whole: "?shapes out k' = (Some (padded_shapes shapes (lo_pads l) @ pad_shape (lo_tail l)), k')"
    unfolding out by (simp add: map_shapes_append padded padding_shape pad_shape_def)
  have "subseq (zip out1 (borsh_starts 0 (padded_shapes shapes (lo_pads l))))
      (zip out (borsh_starts 0 (padded_shapes shapes (lo_pads l) @ pad_shape (lo_tail l))))"
    unfolding out borsh_starts_append using len[OF padded] by (simp add: zip_append prefix_imp_subseq)
  from subseq_order.order_trans[OF starts(1) this] show ?thesis
    using r m fields(1) whole starts(2,3) tail by (intro exI[of _ m] exI[of _ members] exI[of _ shapes] exI) auto
qed

theorem padding_matches_repr_c_witness:
  "padded_fields Map.empty sample_struct Map.empty = (Some sample_padded, sample_known) \<and>
    (\<exists>m members shapes out_shapes.
      td_repr sample_struct = Some (ReprC m) \<and> struct_fields sample_struct = Some members \<and>
      map_shapes (field_shape (ReprC m) (field_layout Map.empty 0)) members Map.empty = (Some shapes, sample_known) \<and>
      map_shapes (field_shape (ReprC m) (field_layout Map.empty 0)) sample_padded sample_known = (Some out_shapes, sample_known) \<and>
      subseq (zip members (c_starts (rm_packed m) 0 shapes)) (zip sample_padded (borsh_starts 0 out_shapes)) \<and>
      borsh_size out_shapes = round_up (c_end (rm_packed m) 0 shapes) (struct_align m shapes))"
  using padding_matches_repr_c[OF sample_struct_padded] sample_struct_padded by blast

subsection \<open>A free name is always found\<close>

lemma split_str_nonempty [simp]: "split_str sep s \<noteq> []"
  by (induction s) (auto split: list.splits)

lemma split_str_append: "sep c \<Longrightarrow> split_str sep (xs @ c # ys) = split_str sep xs @ split_str sep ys"
proof (induction xs)
  case Nil then show ?case by (cases "split_str sep ys") auto
next
  case (Cons x xs) then show ?case by (cases "split_str sep xs") auto
qed

lemma lower_start_not_screaming:
  assumes "\<not> is_ascii_uppercase c" "c \<noteq> CHR ''_''"
  shows "\<not> is_screaming_snake (c # s)"
  using assms by (cases "split_str (\<lambda>c. c = CHR ''_'') s") (auto simp: is_screaming_snake_def)

lemma digits_ascii:
  assumes "c \<in> set (decimal n)"
  shows "is_ascii_digit c" "\<not> is_ascii_uppercase c" "is_ascii_alphanumeric c" "ascii_upper c = c" "ascii_lower c = c"
proof -
  show d: "is_ascii_digit c" using decimal_digits[OF assms] by (simp add: is_ascii_digit_def)
  then show u: "\<not> is_ascii_uppercase c" and "is_ascii_alphanumeric c" and "ascii_upper c = c" by (auto simp: ascii_defs)
  from u show "ascii_lower c = c" by (rule ascii_lower_id)
qed

lemma capitalize_decimal: "capitalize (decimal n) = decimal n"
  using digits_ascii[of _ n] by (cases "decimal n") (auto intro: map_idI)

lemma title_words_numbered:
  assumes "\<not> is_ascii_uppercase c" "c \<noteq> CHR ''_''"
  shows "title_words (numbered (c # s) n) = title_words (c # s) @ [decimal n]"
proof -
  let ?sep = "\<lambda>c. \<not> is_ascii_alphanumeric c"
  let ?cut = "\<lambda>s. concat (map (\<lambda>c. if is_ascii_uppercase c then [CHR '' '', c] else [c]) s)"
  have "?cut ds = ds" if "\<forall>c\<in>set ds. \<not> is_ascii_uppercase c" for ds using that by (induction ds) auto
  then have "?cut (decimal n) = decimal n" using digits_ascii by blast
  moreover have "?cut ''_'' = ''_''" "?sep CHR ''_''" by (simp_all add: ascii_defs)
  ultimately have "?cut (numbered (c # s) n) = ?cut (c # s) @ CHR ''_'' # decimal n" by (simp add: numbered_def)
  moreover have "split_str ?sep (decimal n) = [decimal n]" using digits_ascii by (intro split_str_none) blast
  ultimately have "split_str ?sep (?cut (numbered (c # s) n)) = split_str ?sep (?cut (c # s)) @ [decimal n]"
    using split_str_append[of ?sep "CHR ''_''" "?cut (c # s)" "decimal n", OF \<open>?sep CHR ''_''\<close>] by (simp only:)
  then show ?thesis
    using lower_start_not_screaming[OF assms] lower_start_not_screaming[OF assms, of "s @ ''_'' @ decimal n"]
    by (simp only: title_words_def if_False) (simp add: numbered_def capitalize_decimal)
qed

lemma camel_case_numbered:
  assumes "\<not> is_ascii_uppercase c" "c \<noteq> CHR ''_''"
  shows "camel_case (numbered (c # s) n) = camel_case (c # s) @ decimal n"
proof -
  have pascal: "pascal_case (numbered (c # s) n) = pascal_case (c # s) @ decimal n"
    by (simp add: pascal_case_def title_words_numbered[OF assms])
  obtain d ds where d: "decimal n = d # ds" by (cases "decimal n") auto
  then have "ascii_lower d = d" using digits_ascii(5)[of d n] by simp
  then show ?thesis using d by (cases "pascal_case (c # s)") (simp_all add: camel_case_def pascal)
qed

lemma free_name_found:
  assumes "\<not> is_ascii_uppercase c" "c \<noteq> CHR ''_''"
  shows "\<exists>name. free_name taken (c # s) = Some name"
proof (rule ccontr)
  assume "\<nexists>name. free_name taken (c # s) = Some name"
  then have "free_name taken (c # s) = None" by simp
  then have "camel_case (numbered (c # s) n) \<in> set taken" if "n \<in> {2..<length taken + 3}" for n
    using that by (auto simp: free_name_def find_None_iff split: if_splits)
  then have "(\<lambda>n. camel_case (c # s) @ decimal n) ` {2..<length taken + 3} \<subseteq> set taken"
    unfolding camel_case_numbered[OF assms] by blast
  then have "card ((\<lambda>n. camel_case (c # s) @ decimal n) ` {2..<length taken + 3}) \<le> length taken"
    by (meson List.finite_set card_length card_mono le_trans)
  moreover have "inj (\<lambda>n. camel_case (c # s) @ decimal n)" by (auto intro!: injI simp: decimal_inj)
  ultimately show False by (simp add: card_image inj_on_subset)
qed

subsection \<open>The pass as a whole\<close>

definition gap_free :: "layout \<Rightarrow> bool" where
  "gap_free l \<longleftrightarrow> lo_tail l = 0 \<and> list_all (\<lambda>pad. pad = 0) (lo_pads l)"

definition gaps_named :: "json list \<Rightarrow> layout \<Rightarrow> bool" where
  "gaps_named members l \<longleftrightarrow> list_all (\<lambda>(field, pad). 0 < pad \<longrightarrow> json_get_str ''name'' field \<noteq> None) (zip members (lo_pads l))"

lemma insert_padding_total:
  "list_all (\<lambda>(field, pad). 0 < pad \<longrightarrow> json_get_str ''name'' field \<noteq> None) fps \<Longrightarrow> \<exists>out taken'. insert_padding taken fps = Some (out, taken')"
proof (induction fps arbitrary: taken)
  case (Cons fp fps)
  obtain f p where fp: "fp = (f, p)" by (cases fp)
  have start: "\<not> is_ascii_uppercase CHR ''p''" by (simp add: ascii_defs)
  from Cons obtain out taken' where "insert_padding t fps = Some (out t, taken' t)" for t by simp metis
  then show ?case
    using Cons.prems free_name_found[OF start, of taken] unfolding fp by (auto simp: bind_eq_Some_conv)
qed simp

lemma pad_members_total:
  assumes "gaps_named members l" "\<not> gap_free l"
  shows "\<exists>out. pad_members members l = Some out"
proof -
  have start: "\<not> is_ascii_uppercase CHR ''p''" by (simp add: ascii_defs)
  obtain out taken where "insert_padding (map camel_case (List.map_filter (json_get_str ''name'') members)) (zip members (lo_pads l)) = Some (out, taken)"
    using assms(1) insert_padding_total unfolding gaps_named_def by meson
  moreover obtain free where "free_name taken ''padding_end'' = Some free" using free_name_found[OF start] by force
  ultimately show ?thesis using assms(2) by (auto simp: pad_members_def gap_free_def)
qed

lemma reachable_from_contains: "seen \<union> set stack \<subseteq> reachable_from types stack seen"
  by (induction types stack seen rule: reachable_from.induct) auto

lemma struct_layout_again:
  assumes "struct_layout defs t k = (Some l, k')" "k' \<subseteq>\<^sub>m k2"
  shows "struct_layout defs t k2 = (Some l, k2)"
proof -
  from assms(1) obtain r members shapes where r: "td_repr t = Some r" "struct_fields t = Some members" "\<not> is_generic t"
      "map_shapes (field_shape r (field_layout defs 0)) members k = (Some shapes, k')" "layout_of r shapes = Some l"
    by (auto simp: struct_layout_def struct_layout_with_def split: if_splits option.splits repr.splits prod.splits)
  with map_shapes_again[OF r(4) assms(2)] show ?thesis
    by (cases r) (auto simp: struct_layout_def struct_layout_with_def)
qed

lemma struct_layout_cache: "struct_layout defs t k = (l, k') \<Longrightarrow> k \<subseteq>\<^sub>m k'"
  unfolding struct_layout_def by (rule struct_layout_grows[OF field_layout_grows])

lemma any_unknown_None:
  "any_unknown defs ts k = (None, k') \<Longrightarrow> k \<subseteq>\<^sub>m k' \<and> (\<forall>t\<in>set ts. \<exists>l. \<forall>k2. k' \<subseteq>\<^sub>m k2 \<longrightarrow> struct_layout defs t k2 = (Some l, k2))"
proof (induction ts arbitrary: k)
  case (Cons t ts)
  obtain l k1 where l: "struct_layout defs t k = (Some l, k1)" "any_unknown defs ts k1 = (None, k')"
    using Cons.prems by (auto split: prod.splits option.splits)
  note IH = Cons.IH[OF l(2)]
  have "k' \<subseteq>\<^sub>m k2 \<Longrightarrow> struct_layout defs t k2 = (Some l, k2)" for k2
    using struct_layout_again[OF l(1)] IH map_le_trans by blast
  then show ?case using IH struct_layout_cache[OF l(1)] map_le_trans by (auto intro: map_le_trans)
qed simp

lemma padded_types_all2:
  "list_all2 (\<lambda>t p. \<exists>k1. k \<subseteq>\<^sub>m k1 \<and> p = (if td_name t \<in> zc then fst (padded_fields defs t k1) else None)) ts (padded_types defs zc ts k)"
proof (induction ts arbitrary: k)
  case (Cons t ts)
  obtain p k' where p: "padded_fields defs t k = (p, k')" by fastforce
  then have "k \<subseteq>\<^sub>m k'" by (auto simp: padded_fields_def split: option.splits prod.splits dest: struct_layout_cache)
  then have "list_all2 (\<lambda>t p. \<exists>k1. k \<subseteq>\<^sub>m k1 \<and> p = (if td_name t \<in> zc then fst (padded_fields defs t k1) else None)) ts (padded_types defs zc ts k')"
    by (intro list_all2_mono[OF Cons.IH[of k']]) (blast intro: map_le_trans)
  then show ?case using Cons.IH[of k] p by (auto intro!: exI[of _ k])
qed simp

text \<open>A type of the converted IDL: as it was, or with padding fields and then not one that Borsh reads.\<close>

definition padded_type :: "idl \<Rightarrow> type_def \<Rightarrow> type_def \<Rightarrow> bool" where
  "padded_type idl t t' \<longleftrightarrow>
     t' = t \<or> td_name t \<notin> borsh_types idl \<and> (\<exists>k out k'. padded_fields (def_map (idl_types idl)) t k = (Some out, k') \<and> t' = set_fields t out)"

text \<open>A root: its layout is known, and its padding fields are there unless it has no gaps or a field after a gap has no name.\<close>

definition root_padded :: "idl \<Rightarrow> type_def \<Rightarrow> type_def \<Rightarrow> bool" where
  "root_padded idl t t' \<longleftrightarrow>
     (\<exists>members l k. struct_fields t = Some members \<and> struct_layout (def_map (idl_types idl)) t k = (Some l, k) \<and>
        (gap_free l \<and> t' = t \<or> \<not> gaps_named members l \<or> (\<exists>out. pad_members members l = Some out \<and> t' = set_fields t out)))"


definition sample_idl :: idl where
  "sample_idl =
     \<lparr>idl_address = ''Vau1t'', idl_name = ''vault'', idl_version = ''0.1.0'', idl_instructions = [],
      idl_accounts = [\<lparr>ac_name = ''Vault'', ac_discriminator = [1, 2]\<rparr>], idl_events = [], idl_errors = [],
      idl_types = [sample_struct], idl_constants = []\<rparr>"

lemma sample_idl_padded:
  "pad_zero_copy sample_idl = Ok (sample_idl\<lparr>idl_types := [set_fields sample_struct sample_padded]\<rparr>)"
  by code_simp

lemma sample_root: "sample_struct \<in> set (zero_copy_roots sample_idl)"
  by code_simp


end
