(* ===== verification/Anchor_Program.thy ===== *)
theory Anchor_Program
  imports Anchor_Layout
begin

text \<open>
  The mapping of an Anchor IDL to a Codama program (\<open>crates/codama-from-anchor/src/v01.rs\<close>): accounts, events, instructions,
  errors and constants become nodes, then the checks that a renderer can work with them. The budget of type nodes and the caches of
  the checks are passed as state. Fields that are constant in every node built here are left out.
\<close>

subsection \<open>Nodes\<close>

datatype discriminator_node = FieldDiscriminator string nat | ConstantDiscriminator nat type_node value_node

record codama_account =
  an_name :: string
  an_fields :: "(field_info \<times> type_node) list"
  an_discriminators :: "discriminator_node list"

record codama_event =
  ev_name :: string
  ev_data :: type_node
  ev_discriminators :: "discriminator_node list"

record codama_error =
  en_name :: string
  en_code :: u32
  en_docs :: "string list"
  en_message :: string

record codama_constant =
  co_name :: string
  co_type :: type_node
  co_value :: value_node

record codama_defined_type =
  dt_name :: string
  dt_docs :: "string list"
  dt_type :: type_node

datatype pda_seed_node = ConstantSeed type_node value_node | VariableSeed string type_node

datatype pda_seed_value = SeedOfAccount string | SeedOfArgument string

record pda_value =
  pv_name :: string
  pv_program_id :: "string option"
  pv_seeds :: "pda_seed_node list"
  pv_values :: "(string \<times> pda_seed_value) list"
  pv_program_value :: "pda_seed_value option"

datatype input_value = ValueInput value_node | PdaInput pda_value

record argument_node =
  ag_name :: string
  ag_docs :: "string list"
  ag_omitted :: bool
  ag_type :: type_node
  ag_default :: "input_value option"

record account_meta_node =
  am_name :: string
  am_docs :: "string list"
  am_writable :: bool
  am_signer :: bool
  am_optional :: bool
  am_default :: "input_value option"

record codama_instruction =
  in_name :: string
  in_docs :: "string list"
  in_accounts :: "account_meta_node list"
  in_arguments :: "argument_node list"
  in_discriminators :: "discriminator_node list"

record codama_program =
  pn_name :: string
  pn_public_key :: string
  pn_version :: string
  pn_accounts :: "codama_account list"
  pn_instructions :: "codama_instruction list"
  pn_defined_types :: "codama_defined_type list"
  pn_events :: "codama_event list"
  pn_errors :: "codama_error list"
  pn_constants :: "codama_constant list"

subsection \<open>Accounts, events, errors and types\<close>

definition defined_type_node ::
  "anchor_env \<Rightarrow> type_defs \<Rightarrow> type_def \<Rightarrow> nat \<Rightarrow> (anchor_error, codama_defined_type \<times> nat) outcome" where
  "defined_type_node env defs t budget =
     bind_outcome (ident env (td_name t)) (\<lambda>name.
     bind_outcome (convert_type env defs new_scope (unwrap_or (td_ty t) empty_struct) budget) (\<lambda>(ty, budget).
       Ok (\<lparr>dt_name = name, dt_docs = td_docs t, dt_type = ty\<rparr>, budget)))"

definition fixed_bytes :: "nat \<Rightarrow> type_node" where
  "fixed_bytes len = FixedSizeType len BytesType"

definition base16_bytes :: "anchor_env \<Rightarrow> bytes \<Rightarrow> value_node" where
  "base16_bytes env bs = BytesValue (hex_text env bs) Base16"

definition payload ::
  "anchor_env \<Rightarrow> type_defs \<Rightarrow> type_def list \<Rightarrow> string \<Rightarrow> bytes \<Rightarrow> nat \<Rightarrow> (anchor_error, type_node \<times> nat) outcome" where
  "payload env defs types name discriminator budget =
     (case find (\<lambda>t. td_name t = name) types of
        None \<Rightarrow> Err TypeMissing
      | Some t \<Rightarrow>
          if discriminator = [] then Err EmptyDiscriminator
          else convert_type env defs new_scope (unwrap_or (td_ty t) empty_struct) budget)"

definition discriminator_info :: "anchor_env \<Rightarrow> string \<Rightarrow> bytes \<Rightarrow> field_info" where
  "discriminator_info env name bs = \<lparr>fi_name = name, fi_docs = [], fi_omitted = True, fi_default = Some (base16_bytes env bs)\<rparr>"

definition account_node ::
  "anchor_env \<Rightarrow> type_defs \<Rightarrow> type_def list \<Rightarrow> idl_account \<Rightarrow> nat \<Rightarrow> (anchor_error, codama_account \<times> nat) outcome" where
  "account_node env defs types a budget =
     bind_outcome (payload env defs types (ac_name a) (ac_discriminator a) budget) (\<lambda>(ty, budget).
       case ty of
         StructType fs \<Rightarrow>
           bind_outcome (camel env ''discriminator'') (\<lambda>d.
           bind_outcome (ident env (ac_name a)) (\<lambda>name.
             Ok (\<lparr>an_name = name,
                  an_fields = (discriminator_info env d (ac_discriminator a), fixed_bytes (length (ac_discriminator a))) # fs,
                  an_discriminators = [FieldDiscriminator d 0]\<rparr>, budget)))
       | _ \<Rightarrow> Err TypeNotStruct)"

definition event_node ::
  "anchor_env \<Rightarrow> type_defs \<Rightarrow> type_def list \<Rightarrow> idl_account \<Rightarrow> nat \<Rightarrow> (anchor_error, codama_event \<times> nat) outcome" where
  "event_node env defs types e budget =
     bind_outcome (payload env defs types (ac_name e) (ac_discriminator e) budget) (\<lambda>(ty, budget).
       case ty of
         StructType fs \<Rightarrow>
           (let bytes_ty = fixed_bytes (length (ac_discriminator e)); value = base16_bytes env (ac_discriminator e)
            in bind_outcome (ident env (ac_name e)) (\<lambda>name.
                 Ok (\<lparr>ev_name = name, ev_data = HiddenPrefixType (StructType fs) [(bytes_ty, value)],
                      ev_discriminators = [ConstantDiscriminator 0 bytes_ty value]\<rparr>, budget)))
       | _ \<Rightarrow> Err TypeNotStruct)"

definition error_node :: "anchor_env \<Rightarrow> idl_error \<Rightarrow> (anchor_error, codama_error) outcome" where
  "error_node env e =
     (let msg = unwrap_or (er_msg e) []
      in bind_outcome (camel env (er_name e)) (\<lambda>name.
           Ok \<lparr>en_name = name, en_code = er_code e, en_docs = [er_name e @ '': '' @ msg], en_message = msg\<rparr>))"

subsection \<open>Constants\<close>

text \<open>An integer text stays exact up to 64 bits; anything else is read as a double.\<close>

definition all_digits :: "string \<Rightarrow> bool" where
  "all_digits s \<longleftrightarrow> s \<noteq> [] \<and> list_all is_ascii_digit s"

definition js_number :: "anchor_env \<Rightarrow> string \<Rightarrow> bool \<Rightarrow> json_number option" where
  "js_number env txt is_float =
     (let negative = (take 1 txt = ''-''); unsigned = (if negative then drop 1 txt else txt);
          int_part = takeWhile (\<lambda>c. c \<noteq> CHR ''.'') unsigned; frac = dropWhile (\<lambda>c. c \<noteq> CHR ''.'') unsigned
      in if frac \<noteq> [] \<and> \<not> is_float then None
         else if \<not> all_digits int_part \<or> frac \<noteq> [] \<and> \<not> all_digits (tl frac) then None
         else (let n = int (decimal_value int_part)
               in if frac = [] \<and> \<not> negative \<and> n < 2 ^ 64 then Some (PosInt (of_int n))
                  else if frac = [] \<and> negative \<and> n \<le> 2 ^ 63 then Some (if n = 0 then PosInt 0 else NegInt (- n))
                  else Some (float_text env txt)))"

definition constant_value :: "anchor_env \<Rightarrow> string \<Rightarrow> type_node \<Rightarrow> type_node \<times> value_node" where
  "constant_value env txt declared =
     (let as_string = (StringType Utf8, StringValue txt)
      in case declared of
           BytesType \<Rightarrow> (case bytes_of_json env txt of Some bs \<Rightarrow> (declared, base16_bytes env bs) | None \<Rightarrow> as_string)
         | NumberType f \<Rightarrow>
             (case js_number env txt (f = FormatF32 \<or> f = FormatF64) of Some n \<Rightarrow> (declared, NumberValue n) | None \<Rightarrow> as_string)
         | BooleanType \<Rightarrow> if txt = ''true'' \<or> txt = ''false'' then (declared, BooleanValue (txt = ''true'')) else as_string
         | PublicKeyType \<Rightarrow> (declared, PublicKeyValue txt None)
         | _ \<Rightarrow> (declared, StringValue txt))"

definition declared_type :: "anchor_env \<Rightarrow> type_defs \<Rightarrow> json option \<Rightarrow> nat \<Rightarrow> (anchor_error, type_node \<times> nat) outcome" where
  "declared_type env defs ty budget =
     (case ty of
        None \<Rightarrow> Ok (StringType Utf8, budget)
      | Some ty \<Rightarrow>
          if ty = JString ''bytes'' then Ok (BytesType, budget)
          else if ty \<in> {JNull, JString []} then Ok (StringType Utf8, budget)
          else convert_type env defs new_scope ty budget)"

definition constant_node :: "anchor_env \<Rightarrow> type_defs \<Rightarrow> idl_const \<Rightarrow> nat \<Rightarrow> (anchor_error, codama_constant \<times> nat) outcome" where
  "constant_node env defs c budget =
     bind_outcome (declared_type env defs (cn_ty c) budget) (\<lambda>(declared, budget).
       (let (ty, value) = constant_value env (cn_value c) declared
        in bind_outcome (camel env (cn_name c)) (\<lambda>name. Ok (\<lparr>co_name = name, co_type = ty, co_value = value\<rparr>, budget))))"

subsection \<open>Instructions\<close>

definition prefixed :: "string option \<Rightarrow> string \<Rightarrow> string" where
  "prefixed p name = (case p of Some p \<Rightarrow> p @ ''_'' @ name | None \<Rightarrow> name)"

definition seed_type :: "type_node \<Rightarrow> type_node" where
  "seed_type t =
     (case t of
        SizePrefixType (StringType Utf8) FormatU32 \<Rightarrow> StringType Utf8
      | SizePrefixType BytesType FormatU32 \<Rightarrow> BytesType
      | _ \<Rightarrow> t)"

definition first_segment :: "string \<Rightarrow> string" where
  "first_segment path = takeWhile (\<lambda>c. c \<noteq> CHR ''.'') path"

fun pda_seed ::
  "anchor_env \<Rightarrow> argument_node list \<Rightarrow> string option \<Rightarrow> seed \<Rightarrow>
   (anchor_error, (pda_seed_node \<times> (string \<times> pda_seed_value) option) option) outcome" where
  "pda_seed env args p (SeedConst value) = Ok (Some (ConstantSeed BytesType (BytesValue (bs58_bytes env value) Base58), None))"
| "pda_seed env args p (SeedAccount path) =
     bind_outcome (camel env (prefixed p (first_segment path))) (\<lambda>name.
       Ok (Some (VariableSeed name PublicKeyType, Some (name, SeedOfAccount name))))"
| "pda_seed env args p (SeedArg path) =
     (case find (\<lambda>a. ag_name a = camel_case (first_segment path)) args of
        None \<Rightarrow> Ok None
      | Some a \<Rightarrow> Ok (Some (VariableSeed (ag_name a) (seed_type (ag_type a)), Some (ag_name a, SeedOfArgument (ag_name a)))))"
| "pda_seed env args p SeedUnsupported = Ok None"

fun pda_seed_list ::
  "anchor_env \<Rightarrow> argument_node list \<Rightarrow> string option \<Rightarrow> seed list \<Rightarrow>
   (anchor_error, (pda_seed_node list \<times> (string \<times> pda_seed_value) list) option) outcome" where
  "pda_seed_list env args p [] = Ok (Some ([], []))"
| "pda_seed_list env args p (s # ss) =
     bind_outcome (pda_seed env args p s) (\<lambda>r.
       case r of
         None \<Rightarrow> Ok None
       | Some (d, v) \<Rightarrow>
           bind_outcome (pda_seed_list env args p ss) (\<lambda>rs.
             Ok (map_option (\<lambda>(ds, vs). (d # ds, (case v of Some v \<Rightarrow> v # vs | None \<Rightarrow> vs))) rs)))"

definition pda_program_of ::
  "pda_seed_node \<times> (string \<times> pda_seed_value) option \<Rightarrow> string option \<times> pda_seed_value option" where
  "pda_program_of r =
     (case r of
        (ConstantSeed _ (BytesValue data Base58), _) \<Rightarrow> (Some data, None)
      | (_, Some (_, v)) \<Rightarrow> (None, Some v)
      | (_, None) \<Rightarrow> (None, None))"

definition pda_default ::
  "anchor_env \<Rightarrow> pda \<Rightarrow> string \<Rightarrow> argument_node list \<Rightarrow> string option \<Rightarrow> (anchor_error, input_value option) outcome" where
  "pda_default env pd name args p =
     (if list_ex (\<lambda>s. is_some_and (seed_path s) (\<lambda>path. CHR ''.'' \<in> set path)) (pda_seeds pd) then Ok None
      else bind_outcome (pda_seed_list env args p (pda_seeds pd)) (\<lambda>r.
        case r of
          None \<Rightarrow> Ok None
        | Some (definitions, values) \<Rightarrow>
            bind_outcome
              (case pda_program pd of
                 None \<Rightarrow> Ok (Some (None, None))
               | Some program \<Rightarrow> map_outcome id (map_option pda_program_of) (pda_seed env args p program))
              (\<lambda>r. case r of
                 None \<Rightarrow> Ok None
               | Some (program_id, program_value) \<Rightarrow>
                   bind_outcome (camel env name) (\<lambda>name.
                     Ok (Some (PdaInput \<lparr>pv_name = name, pv_program_id = program_id, pv_seeds = definitions, pv_values = values,
                                         pv_program_value = program_value\<rparr>))))))"

definition instruction_account_node ::
  "anchor_env \<Rightarrow> argument_node list \<Rightarrow> string option \<Rightarrow> instruction_account \<Rightarrow> (anchor_error, account_meta_node) outcome" where
  "instruction_account_node env args p a =
     (let name = prefixed p (ia_name a)
      in bind_outcome
           (case Option.bind (ia_address a) (\<lambda>address. if address = [] then None else Some address) of
              Some address \<Rightarrow> bind_outcome (camel env name) (\<lambda>i. Ok (Some (ValueInput (PublicKeyValue address (Some i)))))
            | None \<Rightarrow> (case ia_pda a of Some pd \<Rightarrow> pda_default env pd name args p | None \<Rightarrow> Ok None))
           (\<lambda>default. bind_outcome (ident env name) (\<lambda>n.
              Ok \<lparr>am_name = n, am_docs = ia_docs a, am_writable = ia_writable a, am_signer = ia_signer a, am_optional = ia_optional a,
                  am_default = default\<rparr>)))"

fun account_names :: "instruction_account_item \<Rightarrow> string list" where
  "account_names (AccountGroup _ items) = concat (map account_names items)"
| "account_names (SingleAccount a) = [camel_case (ia_name a)]"

definition has_duplicate_names :: "instruction_account_item list \<Rightarrow> bool" where
  "has_duplicate_names items \<longleftrightarrow> \<not> distinct (concat (map account_names items))"

fun account_item_nodes ::
  "anchor_env \<Rightarrow> argument_node list \<Rightarrow> bool \<Rightarrow> string option \<Rightarrow> instruction_account_item \<Rightarrow> (anchor_error, account_meta_node list) outcome" where
  "account_item_nodes env args should_prefix p (AccountGroup name items) =
     (let q = (if should_prefix then Some (prefixed p name) else None)
      in map_outcome id concat
           (try_map (\<lambda>item. account_item_nodes env args (q \<noteq> None \<or> has_duplicate_names items) q item) items))"
| "account_item_nodes env args should_prefix p (SingleAccount a) = map_outcome id (\<lambda>n. [n]) (instruction_account_node env args p a)"

definition instruction_accounts ::
  "anchor_env \<Rightarrow> instruction_account_item list \<Rightarrow> argument_node list \<Rightarrow> string option \<Rightarrow> (anchor_error, account_meta_node list) outcome" where
  "instruction_accounts env items args p =
     map_outcome id concat (try_map (account_item_nodes env args (p \<noteq> None \<or> has_duplicate_names items) p) items)"

definition argument_of :: "anchor_env \<Rightarrow> type_defs \<Rightarrow> idl_field \<Rightarrow> nat \<Rightarrow> (anchor_error, argument_node \<times> nat) outcome" where
  "argument_of env defs arg budget =
     bind_outcome (ident env (fd_name arg)) (\<lambda>name.
       if name = ''discriminator'' then Err DiscriminatorArgument
       else bind_outcome (convert_type env defs new_scope (fd_ty arg) budget) (\<lambda>(ty, budget).
         Ok (\<lparr>ag_name = name, ag_docs = fd_docs arg, ag_omitted = False, ag_type = ty, ag_default = None\<rparr>, budget)))"

definition instruction_node ::
  "anchor_env \<Rightarrow> type_defs \<Rightarrow> idl_instruction \<Rightarrow> nat \<Rightarrow> (anchor_error, codama_instruction \<times> nat) outcome" where
  "instruction_node env defs ix budget =
     (if ii_discriminator ix = [] then Err EmptyDiscriminator
      else bind_outcome (camel env ''discriminator'') (\<lambda>d.
        bind_outcome (try_map_state (argument_of env defs) (ii_args ix) budget) (\<lambda>(args, budget).
          (let arguments =
             \<lparr>ag_name = d, ag_docs = [], ag_omitted = True, ag_type = fixed_bytes (length (ii_discriminator ix)),
              ag_default = Some (ValueInput (base16_bytes env (ii_discriminator ix)))\<rparr> # args
           in bind_outcome (ident env (ii_name ix)) (\<lambda>name.
              bind_outcome (instruction_accounts env (ii_accounts ix) arguments None) (\<lambda>accounts.
                Ok (\<lparr>in_name = name, in_docs = ii_docs ix, in_accounts = accounts, in_arguments = arguments,
                     in_discriminators = [FieldDiscriminator d 0]\<rparr>, budget)))))))"

subsection \<open>Wire sizes\<close>

fun number_wire_size :: "number_format \<Rightarrow> u64 option" where
  "number_wire_size FormatShortU16 = None"
| "number_wire_size f =
     Some (if f \<in> {FormatI8, FormatU8} then 1 else if f \<in> {FormatI16, FormatU16} then 2
           else if f \<in> {FormatF32, FormatI32, FormatU32} then 4 else if f \<in> {FormatF64, FormatI64, FormatU64} then 8 else 16)"

definition capped :: "u64 option \<Rightarrow> u64" where
  "capped sz = (case sz of Some n \<Rightarrow> if n \<le> FIXED_TYPE_SIZE_LIMIT then n else FIXED_TYPE_SIZE_LIMIT + 1 | None \<Rightarrow> FIXED_TYPE_SIZE_LIMIT + 1)"

definition capped_add :: "u64 \<Rightarrow> u64 \<Rightarrow> u64" where
  "capped_add a b = capped (checked_add a b)"

definition capped_mul :: "u64 \<Rightarrow> u64 \<Rightarrow> u64" where
  "capped_mul a b = capped (checked_mul a b)"

definition capped_size :: "nat \<Rightarrow> u64" where
  "capped_size n = (if int n \<le> uint FIXED_TYPE_SIZE_LIMIT then of_nat n else FIXED_TYPE_SIZE_LIMIT + 1)"

type_synonym known_sizes = "string \<rightharpoonup> u64 option"
type_synonym measurer = "type_node \<Rightarrow> known_sizes \<Rightarrow> u64 option \<times> known_sizes"

text \<open>\<open>try_fold\<close> over the sizes of a list: stops at the first unknown size.\<close>

fun sum_sizes :: "measurer \<Rightarrow> u64 \<Rightarrow> type_node list \<Rightarrow> known_sizes \<Rightarrow> u64 option \<times> known_sizes" where
  "sum_sizes f acc [] k = (Some acc, k)"
| "sum_sizes f acc (t # ts) k =
     (case f t k of (None, k) \<Rightarrow> (None, k) | (Some n, k) \<Rightarrow> sum_sizes f (capped_add acc n) ts k)"

lemma sum_sizes_cong [fundef_cong]:
  "acc = acc' \<Longrightarrow> ts = ts' \<Longrightarrow> k = k' \<Longrightarrow> (\<And>t k. f t k = g t k) \<Longrightarrow> sum_sizes f acc ts k = sum_sizes g acc' ts' k'"
  using ext[OF ext, of f g] by simp

text \<open>
  The set of types being measured is the same after a call as before it, so it is an argument only.
\<close>

function fixed_size_of_type :: "(string \<rightharpoonup> type_node) \<Rightarrow> string set \<Rightarrow> nat \<Rightarrow> measurer" where
  "fixed_size_of_type defs visiting depth ty k =
     (if NESTING_LIMIT < depth then (None, k)
      else
        (let f = (\<lambda>t k. fixed_size_of_type defs visiting (depth + 1) t k)
         in case ty of
              BooleanType \<Rightarrow> (Some 1, k)
            | PublicKeyType \<Rightarrow> (Some 32, k)
            | NumberType fmt \<Rightarrow> (number_wire_size fmt, k)
            | FixedSizeType n _ \<Rightarrow> (Some (capped_size n), k)
            | HiddenPrefixType t cs \<Rightarrow>
                (case sum_sizes f 0 (map fst cs) k of
                   (None, k) \<Rightarrow> (None, k)
                 | (Some n, k) \<Rightarrow> map_prod (map_option (\<lambda>m. capped_add n m)) id (f t k))
            | HiddenSuffixType t cs \<Rightarrow>
                (case sum_sizes f 0 (map fst cs) k of
                   (None, k) \<Rightarrow> (None, k)
                 | (Some n, k) \<Rightarrow> map_prod (map_option (\<lambda>m. capped_add m n)) id (f t k))
            | StructType fs \<Rightarrow> sum_sizes f 0 (map snd fs) k
            | TupleType ts \<Rightarrow> sum_sizes f 0 ts k
            | ArrayType t (FixedCount n) \<Rightarrow> map_prod (map_option (\<lambda>m. capped_mul m n)) id (f t k)
            | OptionType True t fmt \<Rightarrow>
                (case number_wire_size fmt of
                   None \<Rightarrow> (None, k)
                 | Some n \<Rightarrow> map_prod (map_option (\<lambda>m. capped_add n m)) id (f t k))
            | LinkType name \<Rightarrow>
                (case defs name of
                   None \<Rightarrow> (None, k)
                 | Some def \<Rightarrow>
                     (case k name of
                        Some sz \<Rightarrow> (sz, k)
                      | None \<Rightarrow>
                          if name \<in> visiting then (None, k)
                          else (case fixed_size_of_type defs (insert name visiting) (depth + 1) def k of
                                  (sz, k) \<Rightarrow> (sz, k(name \<mapsto> sz)))))
            | _ \<Rightarrow> (None, k)))"
  by pat_completeness auto

termination
  by (relation "measure (\<lambda>(_, _, depth, _, _). Suc NESTING_LIMIT - depth)") auto

declare fixed_size_of_type.simps [simp del]

definition check_fixed_size :: "u64 option \<Rightarrow> (anchor_error, unit) outcome" where
  "check_fixed_size sz = (if is_some_and sz (\<lambda>n. FIXED_TYPE_SIZE_LIMIT < n) then Err FixedTypeTooLarge else Ok ())"

definition fixed_size_sum :: "(string \<rightharpoonup> type_node) \<Rightarrow> type_node list \<Rightarrow> u64 option" where
  "fixed_size_sum defs ts = fst (sum_sizes (fixed_size_of_type defs {} 0) 0 ts Map.empty)"

subsection \<open>Checks\<close>

function check_node :: "(string \<rightharpoonup> type_node) \<Rightarrow> known_sizes \<Rightarrow> type_node \<Rightarrow> (anchor_error, known_sizes) outcome" where
  "check_node defs k ty =
     (case fixed_size_of_type defs {} 0 ty k of
        (sz, k) \<Rightarrow>
          if (case ty of EnumType _ _ \<Rightarrow> True | _ \<Rightarrow> False) then Err InlineEnum
          else if (case ty of OptionType fixed _ _ \<Rightarrow> fixed | _ \<Rightarrow> False) \<and> sz = None then Err VariableSizeCOption
          else bind_outcome (check_fixed_size sz) (\<lambda>_. try_fold (\<lambda>k child. check_node defs k child) k (type_children ty)))"
  by pat_completeness auto

termination
  by (relation "measure (\<lambda>(_, _, ty). size ty)") (auto dest: type_children_size)

declare check_node.simps [simp del]

text \<open>The part of a defined type that is an alias: its body, unless it is a struct, an enum or a tuple of other than one item.\<close>

definition alias_body :: "type_node \<Rightarrow> type_node option" where
  "alias_body t =
     (case t of TupleType [u] \<Rightarrow> Some u | StructType _ \<Rightarrow> None | EnumType _ _ \<Rightarrow> None | TupleType _ \<Rightarrow> None | _ \<Rightarrow> Some t)"

function alias_depth ::
  "(string \<rightharpoonup> type_node) \<Rightarrow> nat \<Rightarrow> string \<Rightarrow> (string \<rightharpoonup> nat) \<Rightarrow> (anchor_error, nat \<times> (string \<rightharpoonup> nat)) outcome" where
  "alias_depth defs depth name known =
     (if NESTING_LIMIT < depth then Err RecursionLimit
      else case known name of
        Some longest \<Rightarrow> if NESTING_LIMIT < depth + longest then Err RecursionLimit else Ok (longest, known)
      | None \<Rightarrow>
          (case Option.bind (defs name) alias_body of
             None \<Rightarrow> Ok (0, known)
           | Some body \<Rightarrow>
               bind_outcome
                 (try_fold (\<lambda>(longest, known) link.
                    bind_outcome (alias_depth defs (depth + 1) link known) (\<lambda>(n, known). Ok (max longest (n + 1), known)))
                   (0, known) (collect_links body))
                 (\<lambda>(longest, known). Ok (longest, known(name \<mapsto> longest)))))"
  by pat_completeness auto

termination
  by (relation "measure (\<lambda>(_, depth, _, _). Suc NESTING_LIMIT - depth)") auto

declare alias_depth.simps [simp del]

definition check_defined ::
  "(string \<rightharpoonup> type_node) \<Rightarrow> known_sizes \<times> (string \<rightharpoonup> nat) \<Rightarrow> codama_defined_type \<times> type_def \<Rightarrow> (anchor_error, known_sizes \<times> (string \<rightharpoonup> nat)) outcome" where
  "check_defined defs s x =
     (case (s, x) of
        ((k, depths), (t, def)) \<Rightarrow>
          at_item TypeItem (td_name def)
            (bind_outcome
               (case dt_type t of
                  EnumType _ _ \<Rightarrow> try_fold (check_node defs) k (type_children (dt_type t))
                | body \<Rightarrow> check_node defs k body)
               (\<lambda>k. bind_outcome (alias_depth defs 0 (dt_name t) depths) (\<lambda>(_, depths). Ok (k, depths)))))"

definition check_account ::
  "(string \<rightharpoonup> type_node) \<Rightarrow> known_sizes \<Rightarrow> codama_account \<times> idl_account \<Rightarrow> (anchor_error, known_sizes) outcome" where
  "check_account defs k x =
     (case x of (a, raw) \<Rightarrow>
        at_item AccountItem (ac_name raw)
          (bind_outcome (check_fixed_size (fixed_size_sum defs (map snd (an_fields a)))) (\<lambda>_.
             try_fold (check_node defs) k (map snd (an_fields a)))))"

definition check_instruction ::
  "(string \<rightharpoonup> type_node) \<Rightarrow> known_sizes \<Rightarrow> codama_instruction \<times> idl_instruction \<Rightarrow> (anchor_error, known_sizes) outcome" where
  "check_instruction defs k x =
     (case x of (ix, raw) \<Rightarrow>
        at_item InstructionItem (ii_name raw)
          (bind_outcome (check_fixed_size (fixed_size_sum defs (map ag_type (in_arguments ix)))) (\<lambda>_.
             try_fold (check_node defs) k (map ag_type (in_arguments ix)))))"

definition check_event ::
  "(string \<rightharpoonup> type_node) \<Rightarrow> known_sizes \<Rightarrow> codama_event \<times> idl_account \<Rightarrow> (anchor_error, known_sizes) outcome" where
  "check_event defs k x = (case x of (e, raw) \<Rightarrow> at_item EventItem (ac_name raw) (check_node defs k (ev_data e)))"

definition check_renderable ::
  "idl \<Rightarrow> type_def list \<Rightarrow> codama_defined_type list \<Rightarrow> codama_account list \<Rightarrow> codama_event list \<Rightarrow> codama_instruction list \<Rightarrow> (anchor_error, unit) outcome" where
  "check_renderable idl unclaimed types accounts events instructions =
     (let defs = collect_map (map (\<lambda>t. (dt_name t, dt_type t)) types)
      in bind_outcome (try_fold (check_defined defs) (Map.empty, Map.empty) (zip types unclaimed)) (\<lambda>(k, _).
         bind_outcome (try_fold (check_account defs) k (zip accounts (idl_accounts idl))) (\<lambda>k.
         bind_outcome (try_fold (check_event defs) k (zip events (idl_events idl))) (\<lambda>k.
         bind_outcome (try_fold (check_instruction defs) k (zip instructions (idl_instructions idl))) (\<lambda>_. Ok ())))))"

fun check_names_from :: "item_kind \<Rightarrow> (string \<rightharpoonup> string) \<Rightarrow> string list \<Rightarrow> (anchor_error, unit) outcome" where
  "check_names_from kind seen [] = Ok ()"
| "check_names_from kind seen (name # names) =
     (case seen (camel_case name) of
        Some first \<Rightarrow> Err (At kind name (NameCollision first))
      | None \<Rightarrow> check_names_from kind (seen(camel_case name \<mapsto> name)) names)"

definition check_names :: "item_kind \<Rightarrow> string list \<Rightarrow> (anchor_error, unit) outcome" where
  "check_names kind = check_names_from kind Map.empty"

text \<open>The first clash of an item with another, in the order of both loops.\<close>

definition discriminator_clash ::
  "item_kind \<Rightarrow> nat \<times> string \<times> bytes \<Rightarrow> nat \<times> string \<times> bytes \<Rightarrow> anchor_error option" where
  "discriminator_clash kind x y =
     (case (x, y) of
        ((i, name, d), (j, other, e)) \<Rightarrow>
          if length d < length e \<and> take (length d) e = d then Some (AmbiguousDiscriminator d other)
          else if kind = AccountItem \<and> j < i \<and> e = d then Some (DuplicateDiscriminator other)
          else None)"

definition check_items :: "item_kind \<Rightarrow> (string \<times> bytes) list \<Rightarrow> (anchor_error, unit) outcome" where
  "check_items kind items =
     bind_outcome (check_names kind (map fst items)) (\<lambda>_.
       (let indexed = zip [0..<length items] items
        in case first_some (\<lambda>x. map_option (\<lambda>err. At kind (fst (snd x)) err) (first_some (discriminator_clash kind x) indexed)) indexed of
             Some err \<Rightarrow> Err err
           | None \<Rightarrow> Ok ()))"

subsection \<open>The program\<close>

definition claimed_names :: "idl \<Rightarrow> string set" where
  "claimed_names idl = ac_name ` set (idl_accounts idl) \<union> ac_name ` set (idl_events idl)"

definition program_node :: "anchor_env \<Rightarrow> idl \<Rightarrow> (anchor_error, codama_program) outcome" where
  "program_node env idl =
     (let (types, defs, budget) = extract_generics (idl_types idl);
          unclaimed = filter (\<lambda>t. td_name t \<notin> claimed_names idl) types
      in bind_outcome (try_map_state (\<lambda>t b. at_item TypeItem (td_name t) (defined_type_node env defs t b)) unclaimed budget) (\<lambda>(defined_types, budget).
         bind_outcome (try_map_state (\<lambda>a b. at_item AccountItem (ac_name a) (account_node env defs types a b)) (idl_accounts idl) budget) (\<lambda>(accounts, budget).
         bind_outcome (try_map_state (\<lambda>c b. at_item ConstantItem (cn_name c) (constant_node env defs c b)) (idl_constants idl) budget) (\<lambda>(constants, budget).
         bind_outcome (try_map (\<lambda>e. at_item ErrorItem (er_name e) (error_node env e)) (idl_errors idl)) (\<lambda>errors.
         bind_outcome (try_map_state (\<lambda>e b. at_item EventItem (ac_name e) (event_node env defs types e b)) (idl_events idl) budget) (\<lambda>(events, budget).
         bind_outcome (try_map_state (\<lambda>ix b. at_item InstructionItem (ii_name ix) (instruction_node env defs ix b)) (idl_instructions idl) budget)
           (\<lambda>(instructions, budget).
         bind_outcome (check_renderable idl unclaimed defined_types accounts events instructions) (\<lambda>_.
         bind_outcome (check_names TypeItem (map td_name unclaimed)) (\<lambda>_.
         bind_outcome (check_items AccountItem (map (\<lambda>a. (ac_name a, ac_discriminator a)) (idl_accounts idl))) (\<lambda>_.
         bind_outcome (check_items EventItem (map (\<lambda>e. (ac_name e, ac_discriminator e)) (idl_events idl))) (\<lambda>_.
         bind_outcome (check_items InstructionItem (map (\<lambda>ix. (ii_name ix, ii_discriminator ix)) (idl_instructions idl))) (\<lambda>_.
         bind_outcome (at_item ProgramItem (idl_name idl) (ident env (idl_name idl))) (\<lambda>name.
           Ok \<lparr>pn_name = name, pn_public_key = idl_address idl, pn_version = idl_version idl, pn_accounts = accounts,
               pn_instructions = instructions, pn_defined_types = defined_types, pn_events = events, pn_errors = errors,
               pn_constants = constants\<rparr>)))))))))))))"

end
