(* ===== verification/Anchor_Links.thy ===== *)
theory Anchor_Links
  imports Anchor_Program "HOL-Library.Code_Target_Nat"
begin

text \<open>
  What holds of every converted program: its links name items of the program, and its discriminators tell the
  accounts apart.
\<close>

subsection \<open>Converted types are closed\<close>

lemma try_map_state_list_all2:
  "try_map_state f xs s = Ok (ys, s') \<Longrightarrow> list_all2 (\<lambda>x y. \<exists>s1 s2. f x s1 = Ok (y, s2)) xs ys"
  by (induction xs arbitrary: s ys) (auto simp: bind_outcome_eq_Ok)

lemma map_outcome_Ok: "map_outcome f g r = Ok y \<longleftrightarrow> (\<exists>x. r = Ok x \<and> y = g x)"
  by (cases r) auto

lemma at_item_Ok [simp]: "at_item kind name r = Ok y \<longleftrightarrow> r = Ok y"
  by (cases r) (auto simp: at_item_def)

lemma collect_links_children: "collect_links t = (case t of LinkType n \<Rightarrow> [n] | _ \<Rightarrow> []) @ concat (map collect_links (type_children t))"
proof -
  have "concat (concat (map (\<lambda>x. map g (f x)) xs)) = concat (map (\<lambda>x. concat (map g (f x))) xs)"
    for g :: "type_node \<Rightarrow> string list" and f and xs :: "type_node list" by (induction xs) auto
  then show ?thesis unfolding collect_links_def by (subst sub_nodes.simps) (simp add: map_concat comp_def)
qed

definition links_in :: "string set \<Rightarrow> type_node \<Rightarrow> bool" where
  "links_in L t \<longleftrightarrow> set (collect_links t) \<subseteq> L"

lemma links_in_node: "links_in L t \<longleftrightarrow> (case t of LinkType n \<Rightarrow> n \<in> L | _ \<Rightarrow> True) \<and> list_all (links_in L) (type_children t)"
  unfolding links_in_def by (subst collect_links_children) (auto simp: list_all_iff split: type_node.splits)

lemma links_in_simps [simp]:
  "links_in L (fixed_bytes n)" "links_in L BytesType" "links_in L PublicKeyType" "links_in L (StringType e)"
  "links_in L (StructType fs) \<longleftrightarrow> list_all (links_in L \<circ> snd) fs"
  "links_in L (SizePrefixType t f) \<longleftrightarrow> links_in L t"
  "links_in L (HiddenPrefixType t cs) \<longleftrightarrow> links_in L t \<and> list_all (links_in L \<circ> fst) cs"
  by (simp_all add: links_in_node[of L "BytesType"] links_in_node[of L "FixedSizeType _ _"] links_in_node[of L PublicKeyType]
      links_in_node[of L "StringType _"] links_in_node[of L "StructType _"] links_in_node[of L "HiddenPrefixType _ _"]
      links_in_node[of L "SizePrefixType _ _"] fixed_bytes_def list.pred_map)

definition plain_names :: "anchor_env \<Rightarrow> type_defs \<Rightarrow> string set" where
  "plain_names env defs = {n. \<exists>q\<in>plain_defs defs. ident env q = Ok n}"

lemma convert_type_links:
  assumes "convert_type env defs sc ty b = Ok (t, b')"
  shows "links_in (plain_names env defs) t"
proof -
  have "affordable env defs (Suc NESTING_LIMIT) b b' [t]"
    using type_node_at_affordable[of env defs 0] assms by (auto simp: conv_affordable_def convert_type_def)
  then have "\<forall>u\<in>set (sub_nodes t). node_ok env defs u" by (simp add: affordable_def list_all_iff)
  then show ?thesis unfolding links_in_def collect_links_def plain_names_def by (force split: type_node.splits)
qed

lemma defined_type_node_links:
  "defined_type_node env defs t b = Ok (n, b') \<Longrightarrow> ident env (td_name t) = Ok (dt_name n) \<and> links_in (plain_names env defs) (dt_type n)"
  by (auto simp: defined_type_node_def bind_outcome_eq_Ok dest: convert_type_links)

lemma payload_links: "payload env defs types name d b = Ok (t, b') \<Longrightarrow> links_in (plain_names env defs) t"
  by (auto simp: payload_def split: option.splits if_splits dest: convert_type_links)

lemma account_node_links:
  assumes "account_node env defs types a b = Ok (n, b')"
  shows "ident env (ac_name a) = Ok (an_name n) \<and> list_all (links_in (plain_names env defs) \<circ> snd) (an_fields n)"
proof -
  obtain ty b1 where ty: "payload env defs types (ac_name a) (ac_discriminator a) b = Ok (ty, b1)"
    using assms by (auto simp: account_node_def bind_outcome_eq_Ok)
  then show ?thesis
    using assms payload_links[OF ty] by (cases ty) (auto simp: account_node_def bind_outcome_eq_Ok[of "camel _ _"] bind_outcome_eq_Ok[of "ident _ _"])
qed

lemma event_node_links:
  assumes "event_node env defs types a b = Ok (n, b')"
  shows "ident env (ac_name a) = Ok (ev_name n) \<and> links_in (plain_names env defs) (ev_data n)"
proof -
  obtain ty b1 where ty: "payload env defs types (ac_name a) (ac_discriminator a) b = Ok (ty, b1)"
    using assms by (auto simp: event_node_def bind_outcome_eq_Ok)
  then show ?thesis
    using assms payload_links[OF ty] by (cases ty) (auto simp: event_node_def Let_def bind_outcome_eq_Ok[of "ident _ _"])
qed

lemma constant_value_links: "links_in L t \<Longrightarrow> links_in L (fst (constant_value env txt t))"
  by (auto simp: constant_value_def Let_def split: type_node.splits option.splits if_splits)

lemma constant_node_links:
  assumes "constant_node env defs c b = Ok (n, b')"
  shows "links_in (plain_names env defs) (co_type n)"
proof -
  from assms obtain t b1 where ty: "declared_type env defs (cn_ty c) b = Ok (t, b1)" and "co_type n = fst (constant_value env (cn_value c) t)"
    unfolding constant_node_def by (auto simp: bind_outcome_eq_Ok Let_def case_prod_beta)
  moreover from ty have "links_in (plain_names env defs) t"
    by (auto simp: declared_type_def split: option.splits if_splits dest: convert_type_links)
  ultimately show ?thesis using constant_value_links by auto
qed

subsection \<open>Instructions\<close>

definition seed_node_type :: "pda_seed_node \<Rightarrow> type_node" where
  "seed_node_type s = (case s of ConstantSeed t _ \<Rightarrow> t | VariableSeed _ t \<Rightarrow> t)"

definition default_types :: "input_value option \<Rightarrow> type_node list" where
  "default_types v = (case v of Some (PdaInput pv) \<Rightarrow> map seed_node_type (pv_seeds pv) | _ \<Rightarrow> [])"

definition instruction_types :: "codama_instruction \<Rightarrow> type_node list" where
  "instruction_types ix = map ag_type (in_arguments ix) @ concat (map (default_types \<circ> am_default) (in_accounts ix))"

lemma seed_type_links: "links_in L t \<Longrightarrow> links_in L (seed_type t)"
  by (auto simp: seed_type_def split: type_node.splits bytes_encoding.splits number_format.splits)

lemma pda_seed_links:
  assumes "list_all (links_in L \<circ> ag_type) args" "pda_seed env args p s = Ok (Some (d, v))"
  shows "links_in L (seed_node_type d)"
  using assms(2)
proof (cases s)
  case (SeedArg path)
  have "find P xs = Some a \<Longrightarrow> a \<in> set xs" for P a and xs :: "argument_node list" by (auto simp: find_Some_iff)
  with SeedArg obtain a where "a \<in> set args" "d = VariableSeed (ag_name a) (seed_type (ag_type a))"
    using assms(2) by (cases "find (\<lambda>a. ag_name a = camel_case (first_segment path)) args") auto
  then show ?thesis using assms(1) seed_type_links by (auto simp: seed_node_type_def list_all_iff)
qed (auto simp: seed_node_type_def bind_outcome_eq_Ok)

lemma pda_seed_list_links:
  assumes "list_all (links_in L \<circ> ag_type) args"
  shows "pda_seed_list env args p ss = Ok (Some (ds, vs)) \<Longrightarrow> list_all (links_in L \<circ> seed_node_type) ds"
proof (induction ss arbitrary: ds vs)
  case (Cons s ss)
  then obtain d v ds' vs' where "pda_seed env args p s = Ok (Some (d, v))" "pda_seed_list env args p ss = Ok (Some (ds', vs'))" "ds = d # ds'"
    by (auto simp: bind_outcome_eq_Ok split: option.splits)
  then show ?case using Cons.IH[of ds' vs'] pda_seed_links[OF assms] by auto
qed simp

lemma account_default_links:
  assumes args: "list_all (links_in L \<circ> ag_type) args" and "instruction_account_node env args p a = Ok n"
  shows "list_all (links_in L) (default_types (am_default n))"
proof (cases "am_default n")
  case (Some v)
  show ?thesis
  proof (cases v)
    case (PdaInput pv)
    with assms(2) Some obtain pd where "pda_default env pd (prefixed p (ia_name a)) args p = Ok (Some (PdaInput pv))"
      by (auto simp: instruction_account_node_def Let_def bind_outcome_eq_Ok split: option.splits)
    then obtain ds vs where "pda_seed_list env args p (pda_seeds pd) = Ok (Some (ds, vs))" "pv_seeds pv = ds"
      by (auto simp: pda_default_def bind_outcome_eq_Ok split: if_splits option.splits)
    then show ?thesis using pda_seed_list_links[OF args] Some PdaInput by (auto simp: default_types_def list.pred_map)
  qed (simp add: Some default_types_def)
qed (simp add: default_types_def)

definition metas_in :: "string set \<Rightarrow> account_meta_node list \<Rightarrow> bool" where
  "metas_in L ns \<longleftrightarrow> list_all (\<lambda>n. list_all (links_in L) (default_types (am_default n))) ns"

lemma try_map_metas:
  assumes "\<And>x ns. x \<in> set xs \<Longrightarrow> f x = Ok ns \<Longrightarrow> metas_in L ns"
  shows "try_map f xs = Ok nss \<Longrightarrow> metas_in L (concat nss)"
  using assms
proof (induction xs arbitrary: nss)
  case (Cons x xs)
  then obtain ns mss where ns: "f x = Ok ns" and mss: "try_map f xs = Ok mss" and nss: "nss = ns # mss" by (auto simp: bind_outcome_eq_Ok)
  have "metas_in L (concat mss)" by (rule Cons.IH[OF mss]) (use Cons.prems(2) in auto)
  moreover have "metas_in L ns" using Cons.prems(2)[OF _ ns] by simp
  ultimately show ?case by (simp add: nss metas_in_def)
qed (simp add: metas_in_def)

lemma account_item_links:
  assumes args: "list_all (links_in L \<circ> ag_type) args"
  shows "account_item_nodes env args pre p item = Ok ns \<Longrightarrow> metas_in L ns"
proof (induction item arbitrary: pre p ns)
  case (AccountGroup name items)
  then obtain pre' p' nss where nss: "try_map (account_item_nodes env args pre' p') items = Ok nss" and ns: "ns = concat nss"
    by (auto simp: Let_def map_outcome_Ok)
  show ?case unfolding ns by (rule try_map_metas[OF _ nss]) (rule AccountGroup.IH)
next
  case (SingleAccount a)
  then show ?case using account_default_links[OF args] by (auto simp: map_outcome_Ok metas_in_def)
qed

lemma argument_links: "argument_of env defs arg b = Ok (a, b') \<Longrightarrow> links_in (plain_names env defs) (ag_type a)"
  by (auto simp: argument_of_def bind_outcome_eq_Ok split: if_splits dest: convert_type_links)

lemma instruction_node_links:
  assumes "instruction_node env defs ix b = Ok (n, b')"
  shows "list_all (links_in (plain_names env defs)) (instruction_types n)"
proof -
  from assms obtain d args b1 where args: "try_map_state (argument_of env defs) (ii_args ix) b = Ok (args, b1)"
      and n: "in_arguments n = \<lparr>ag_name = d, ag_docs = [], ag_omitted = True, ag_type = fixed_bytes (length (ii_discriminator ix)),
              ag_default = Some (ValueInput (base16_bytes env (ii_discriminator ix)))\<rparr> # args"
      and accounts: "instruction_accounts env (ii_accounts ix) (in_arguments n) None = Ok (in_accounts n)"
    unfolding instruction_node_def by (auto simp: bind_outcome_eq_Ok Let_def split: if_splits)
  have "list_all (\<lambda>a. links_in (plain_names env defs) (ag_type a)) args" by (rule try_map_state_all[OF argument_links args])
  then have closed: "list_all (links_in (plain_names env defs) \<circ> ag_type) (in_arguments n)" using n by (simp add: comp_def)
  have "metas_in (plain_names env defs) (in_accounts n)"
    using accounts try_map_metas[OF account_item_links[OF closed]] by (auto simp: instruction_accounts_def map_outcome_Ok)
  then show ?thesis using closed by (auto simp: instruction_types_def metas_in_def list_all_iff)
qed

subsection \<open>The whole program\<close>

definition program_types :: "codama_program \<Rightarrow> type_node list" where
  "program_types p =
     concat (map (map snd \<circ> an_fields) (pn_accounts p)) @ map ev_data (pn_events p) @ map dt_type (pn_defined_types p) @
     map co_type (pn_constants p) @ concat (map instruction_types (pn_instructions p))"

definition item_names :: "codama_program \<Rightarrow> string set" where
  "item_names p = dt_name ` set (pn_defined_types p) \<union> an_name ` set (pn_accounts p) \<union> ev_name ` set (pn_events p)"

lemma list_all2_image: "list_all2 P xs ys \<Longrightarrow> x \<in> set xs \<Longrightarrow> \<exists>y\<in>set ys. P x y"
  by (metis in_set_conv_nth list_all2_conv_all_nth)

lemma list_all2_all: "list_all2 P xs ys \<Longrightarrow> (\<And>x y. P x y \<Longrightarrow> Q y) \<Longrightarrow> list_all Q ys"
  by (induction xs ys rule: list_all2_induct) auto

lemma try_map_items:
  "try_map_state (\<lambda>x b. at_item kind (name x) (f x b)) xs s = Ok r \<Longrightarrow> list_all2 (\<lambda>x y. \<exists>b b'. f x b = Ok (y, b')) xs (fst r)"
  by (cases r) (auto dest: try_map_state_list_all2)

lemma program_node_parts:
  assumes "program_node env idl = Ok p"
  obtains types defs budget where "extract_generics (idl_types idl) = (types, defs, budget)"
    and "list_all2 (\<lambda>t n. \<exists>b b'. defined_type_node env defs t b = Ok (n, b')) (filter (\<lambda>t. td_name t \<notin> claimed_names idl) types) (pn_defined_types p)"
    and "list_all2 (\<lambda>a n. \<exists>b b'. account_node env defs types a b = Ok (n, b')) (idl_accounts idl) (pn_accounts p)"
    and "list_all2 (\<lambda>c n. \<exists>b b'. constant_node env defs c b = Ok (n, b')) (idl_constants idl) (pn_constants p)"
    and "list_all2 (\<lambda>e n. \<exists>b b'. event_node env defs types e b = Ok (n, b')) (idl_events idl) (pn_events p)"
    and "list_all2 (\<lambda>ix n. \<exists>b b'. instruction_node env defs ix b = Ok (n, b')) (idl_instructions idl) (pn_instructions p)"
    and "check_names TypeItem (map td_name (filter (\<lambda>t. td_name t \<notin> claimed_names idl) types)) = Ok ()"
    and "check_items AccountItem (map (\<lambda>a. (ac_name a, ac_discriminator a)) (idl_accounts idl)) = Ok ()"
    and "check_items EventItem (map (\<lambda>a. (ac_name a, ac_discriminator a)) (idl_events idl)) = Ok ()"
    and "check_items InstructionItem (map (\<lambda>a. (ii_name a, ii_discriminator a)) (idl_instructions idl)) = Ok ()"
proof -
  obtain types defs budget where ext: "extract_generics (idl_types idl) = (types, defs, budget)" by (metis prod_cases3)
  from assms obtain dt an co er ev ix name where parts:
    "try_map_state (\<lambda>t b. at_item TypeItem (td_name t) (defined_type_node env defs t b)) (filter (\<lambda>t. td_name t \<notin> claimed_names idl) types) budget = Ok dt"
    "try_map_state (\<lambda>a b. at_item AccountItem (ac_name a) (account_node env defs types a b)) (idl_accounts idl) (snd dt) = Ok an"
    "try_map_state (\<lambda>c b. at_item ConstantItem (cn_name c) (constant_node env defs c b)) (idl_constants idl) (snd an) = Ok co"
    "try_map_state (\<lambda>e b. at_item EventItem (ac_name e) (event_node env defs types e b)) (idl_events idl) (snd co) = Ok ev"
    "try_map_state (\<lambda>ix b. at_item InstructionItem (ii_name ix) (instruction_node env defs ix b)) (idl_instructions idl) (snd ev) = Ok ix"
    and checks: "check_names TypeItem (map td_name (filter (\<lambda>t. td_name t \<notin> claimed_names idl) types)) = Ok ()"
    "check_items AccountItem (map (\<lambda>a. (ac_name a, ac_discriminator a)) (idl_accounts idl)) = Ok ()"
    "check_items EventItem (map (\<lambda>a. (ac_name a, ac_discriminator a)) (idl_events idl)) = Ok ()"
    "check_items InstructionItem (map (\<lambda>a. (ii_name a, ii_discriminator a)) (idl_instructions idl)) = Ok ()"
    and p: "p = \<lparr>pn_name = name, pn_public_key = idl_address idl, pn_version = idl_version idl, pn_accounts = fst an,
      pn_instructions = fst ix, pn_defined_types = fst dt, pn_events = fst ev, pn_errors = er, pn_constants = fst co\<rparr>"
    unfolding program_node_def ext Let_def case_prod_beta fst_conv snd_conv bind_outcome_eq_Ok outcome.inject
    by (elim exE conjE) (rule that; (assumption | erule sym | simp))
  show thesis
    by (rule that[OF ext _ _ _ _ _ checks]) (use parts[THEN try_map_items] in \<open>simp_all add: p\<close>)
qed

text \<open>
  A converted program is closed: every type mentioned in it links only to a defined type, an account or an event of that program.
\<close>

lemma program_node_closed:
  assumes "program_node env idl = Ok p"
  shows "list_all (links_in (item_names p)) (program_types p)"
proof -
  from program_node_parts[OF assms] obtain types defs budget where ext: "extract_generics (idl_types idl) = (types, defs, budget)"
    and dts: "list_all2 (\<lambda>t n. \<exists>b b'. defined_type_node env defs t b = Ok (n, b')) (filter (\<lambda>t. td_name t \<notin> claimed_names idl) types) (pn_defined_types p)"
    and ans: "list_all2 (\<lambda>a n. \<exists>b b'. account_node env defs types a b = Ok (n, b')) (idl_accounts idl) (pn_accounts p)"
    and cos: "list_all2 (\<lambda>c n. \<exists>b b'. constant_node env defs c b = Ok (n, b')) (idl_constants idl) (pn_constants p)"
    and evs: "list_all2 (\<lambda>e n. \<exists>b b'. event_node env defs types e b = Ok (n, b')) (idl_events idl) (pn_events p)"
    and ins: "list_all2 (\<lambda>ix n. \<exists>b b'. instruction_node env defs ix b = Ok (n, b')) (idl_instructions idl) (pn_instructions p)" .
  let ?L = "plain_names env defs"
  have "?L \<subseteq> item_names p"
  proof
    fix n
    assume "n \<in> ?L"
    then obtain t where t: "t \<in> set types" "ident env (td_name t) = Ok n"
      using ext by (auto simp: plain_names_def extract_generics_def Let_def)
    show "n \<in> item_names p"
    proof (cases "td_name t \<in> claimed_names idl")
      case True
      then consider a where "a \<in> set (idl_accounts idl)" "ac_name a = td_name t" | e where "e \<in> set (idl_events idl)" "ac_name e = td_name t"
        by (auto simp: claimed_names_def)
      then show ?thesis
      proof cases
        case 1
        with t(2) list_all2_image[OF ans 1(1)] show ?thesis by (force simp: item_names_def dest!: account_node_links)
      next
        case 2
        with t(2) list_all2_image[OF evs 2(1)] show ?thesis by (force simp: item_names_def dest!: event_node_links)
      qed
    next
      case False
      with t list_all2_image[OF dts, of t] show ?thesis by (force simp: item_names_def dest!: defined_type_node_links)
    qed
  qed
  then have mono: "links_in ?L t \<Longrightarrow> links_in (item_names p) t" for t by (auto simp: links_in_def)
  have "list_all (links_in ?L \<circ> dt_type) (pn_defined_types p)" by (rule list_all2_all[OF dts]) (auto dest: defined_type_node_links)
  moreover have "list_all (list_all (links_in ?L \<circ> snd) \<circ> an_fields) (pn_accounts p)"
    by (rule list_all2_all[OF ans]) (auto dest: account_node_links)
  moreover have "list_all (links_in ?L \<circ> co_type) (pn_constants p)" by (rule list_all2_all[OF cos]) (auto dest: constant_node_links)
  moreover have "list_all (links_in ?L \<circ> ev_data) (pn_events p)" by (rule list_all2_all[OF evs]) (auto dest: event_node_links)
  moreover have "list_all (list_all (links_in ?L) \<circ> instruction_types) (pn_instructions p)"
    by (rule list_all2_all[OF ins]) (auto dest: instruction_node_links)
  ultimately show ?thesis by (auto simp: program_types_def list_all_iff intro!: mono)
qed

definition sample_point :: type_def where
  "sample_point = \<lparr>td_name = ''Point'', td_docs = [], td_generics = None, td_serialization = None, td_repr = None,
     td_ty = Some (JObject [(''fields'', JArray [JObject [(''name'', JString ''x''), (''type'', JString ''i64'')]]), (''kind'', JString ''struct'')])\<rparr>"

definition sample_place :: type_def where
  "sample_place = \<lparr>td_name = ''Place'', td_docs = [], td_generics = None, td_serialization = None, td_repr = None,
     td_ty = Some (JObject [(''fields'', JArray [JObject [(''name'', JString ''corner''), (''type'', JObject [(''defined'', JObject [(''name'', JString ''Point'')])])]]), (''kind'', JString ''struct'')])\<rparr>"

definition sample_move :: idl_instruction where
  "sample_move =
     \<lparr>ii_name = ''move_to'', ii_discriminator = [9], ii_docs = [],
      ii_accounts = [SingleAccount \<lparr>ia_name = ''place'', ia_docs = [], ia_writable = True, ia_signer = False, ia_optional = False, ia_address = None,
        ia_pda = Some \<lparr>pda_seeds = [SeedConst [1], SeedArg ''target''], pda_program = None\<rparr>\<rparr>],
      ii_args = [\<lparr>fd_name = ''target'', fd_docs = [], fd_ty = JObject [(''defined'', JObject [(''name'', JString ''Point'')])]\<rparr>]\<rparr>"

definition sample_program_idl :: idl where
  "sample_program_idl =
     \<lparr>idl_address = ''P1ace'', idl_name = ''places'', idl_version = ''0.1.0'', idl_instructions = [sample_move],
      idl_accounts = [\<lparr>ac_name = ''Place'', ac_discriminator = [1, 2]\<rparr>],
      idl_events = [], idl_errors = [], idl_types = [sample_point, sample_place], idl_constants = []\<rparr>"

lemma sample_program_converts: "\<exists>p. program_node sample_env sample_program_idl = Ok p \<and> map dt_name (pn_defined_types p) = [''point'']"
proof -
  have "map_outcome id (map dt_name \<circ> pn_defined_types) (program_node sample_env sample_program_idl) = Ok [''point'']" by code_simp
  then show ?thesis by (auto simp: map_outcome_Ok)
qed

subsection \<open>Discriminators\<close>

lemma check_names_from_distinct:
  "check_names_from kind seen names = Ok () \<Longrightarrow> distinct (map camel_case names) \<and> (\<forall>n\<in>set names. seen (camel_case n) = None)"
  by (induction names arbitrary: seen) (fastforce split: option.splits if_splits)+

lemma first_some_None: "first_some f xs = None \<longleftrightarrow> (\<forall>x\<in>set xs. f x = None)"
  by (induction xs) (auto split: option.splits)

definition starts_with :: "bytes \<Rightarrow> bytes \<Rightarrow> bool" where
  "starts_with d data \<longleftrightarrow> take (length d) data = d"

lemma starts_with_shorter:
  assumes "starts_with d data" "starts_with e data" "length d \<le> length e"
  shows "take (length d) e = d"
proof -
  have "take (length d) e = take (length d) (take (length e) data)" using assms(2) by (simp add: starts_with_def)
  also have "\<dots> = d" using assms(1,3) by (simp add: starts_with_def min_absorb1)
  finally show ?thesis .
qed

lemma check_items_Ok:
  assumes "check_items kind items = Ok ()"
  shows "distinct (map (camel_case \<circ> fst) items)"
    and "i < length items \<Longrightarrow> j < length items \<Longrightarrow> starts_with (snd (items ! i)) data \<Longrightarrow> starts_with (snd (items ! j)) data \<Longrightarrow> snd (items ! i) = snd (items ! j)"
    and "kind = AccountItem \<Longrightarrow> distinct (map snd items)"
proof -
  let ?ix = "zip [0..<length items] items"
  from assms have names: "check_names kind (map fst items) = Ok ()"
    and clash: "\<forall>x\<in>set ?ix. \<forall>y\<in>set ?ix. discriminator_clash kind x y = None"
    by (auto simp: check_items_def bind_outcome_eq_Ok Let_def first_some_None split: option.splits)
  have no_clash: "discriminator_clash kind (i, items ! i) (j, items ! j) = None" if "i < length items" "j < length items" for i j
  proof -
    have "(i, items ! i) \<in> set ?ix" "(j, items ! j) \<in> set ?ix" using that by (auto simp: in_set_zip intro: exI[of _ i] exI[of _ j])
    then show ?thesis using clash by blast
  qed
  show "distinct (map (camel_case \<circ> fst) items)"
    using check_names_from_distinct[OF names[unfolded check_names_def]] by simp
  have shorter: "snd (items ! i) = snd (items ! j)"
    if "i < length items" "j < length items" "starts_with (snd (items ! i)) data" "starts_with (snd (items ! j)) data" "length (snd (items ! i)) \<le> length (snd (items ! j))" for i j
  proof -
    note starts_with_shorter[OF that(3-5)]
    with no_clash[OF that(1,2)] that(5) show ?thesis
      by (cases "length (snd (items ! i)) = length (snd (items ! j))") (auto simp: discriminator_clash_def case_prod_beta split: if_splits)
  qed
  show "i < length items \<Longrightarrow> j < length items \<Longrightarrow> starts_with (snd (items ! i)) data \<Longrightarrow> starts_with (snd (items ! j)) data \<Longrightarrow> snd (items ! i) = snd (items ! j)"
    using shorter[of i j] shorter[of j i] by (metis nat_le_linear)
  assume kind: "kind = AccountItem"
  have "snd (items ! i) \<noteq> snd (items ! j)" if "j < i" "i < length items" for i j
    using no_clash[of i j] that kind by (auto simp: discriminator_clash_def case_prod_beta split: if_splits)
  then show "distinct (map snd items)" by (auto simp: distinct_conv_nth) (metis linorder_neqE_nat)
qed

text \<open>
  C13. The checked discriminators decide: when an IDL converts, no data begins with the discriminators of two of its accounts, two
  instructions (or two events) that match the same data have the same discriminator, and within each kind no two names become the same
  Rust name.
\<close>

theorem discriminators_decide:
  assumes "program_node env idl = Ok p"
  shows "(\<forall>i j data. i < length (idl_accounts idl) \<and> j < length (idl_accounts idl) \<and>
        starts_with (ac_discriminator (idl_accounts idl ! i)) data \<and> starts_with (ac_discriminator (idl_accounts idl ! j)) data \<longrightarrow> i = j) \<and>
    (\<forall>x\<in>set (idl_instructions idl). \<forall>y\<in>set (idl_instructions idl). \<forall>data.
        starts_with (ii_discriminator x) data \<and> starts_with (ii_discriminator y) data \<longrightarrow> ii_discriminator x = ii_discriminator y) \<and>
    distinct (map (camel_case \<circ> ac_name) (idl_accounts idl)) \<and> distinct (map (camel_case \<circ> ii_name) (idl_instructions idl))"
proof -
  from program_node_parts[OF assms] have
    accounts: "check_items AccountItem (map (\<lambda>a. (ac_name a, ac_discriminator a)) (idl_accounts idl)) = Ok ()" and
    instructions: "check_items InstructionItem (map (\<lambda>a. (ii_name a, ii_discriminator a)) (idl_instructions idl)) = Ok ()" by metis+
  have one: "i = j" if "i < length (idl_accounts idl)" "j < length (idl_accounts idl)"
      "starts_with (ac_discriminator (idl_accounts idl ! i)) data" "starts_with (ac_discriminator (idl_accounts idl ! j)) data" for i j data
    using check_items_Ok(2)[OF accounts, of i j data] check_items_Ok(3)[OF accounts refl] that
    by (simp add: distinct_conv_nth) (metis (no_types, lifting))
  have same: "ii_discriminator x = ii_discriminator y" if "x \<in> set (idl_instructions idl)" "y \<in> set (idl_instructions idl)"
      "starts_with (ii_discriminator x) data" "starts_with (ii_discriminator y) data" for x y data
    using check_items_Ok(2)[OF instructions] that by (auto simp: in_set_conv_nth)
  show ?thesis
    using one same check_items_Ok(1)[OF accounts] check_items_Ok(1)[OF instructions] by (simp add: comp_def) blast
qed

definition sample_accounts_idl :: idl where
  "sample_accounts_idl = sample_program_idl\<lparr>idl_instructions := [],
     idl_accounts := [\<lparr>ac_name = ''Place'', ac_discriminator = [1, 2]\<rparr>, \<lparr>ac_name = ''Point'', ac_discriminator = [1, 3]\<rparr>]\<rparr>"

lemma sample_accounts_convert: "\<exists>p. program_node sample_env sample_accounts_idl = Ok p"
proof -
  have "case program_node sample_env sample_accounts_idl of Ok p \<Rightarrow> True | _ \<Rightarrow> False" by code_simp
  then show ?thesis by (auto split: outcome.splits)
qed

theorem discriminators_decide_witness:
  "starts_with [1, 2] [1, 2, 7] \<and> \<not> starts_with [1, 3] [1, 2, 7] \<and>
    distinct (map (camel_case \<circ> ac_name) (idl_accounts sample_accounts_idl))"
proof -
  obtain p where "program_node sample_env sample_accounts_idl = Ok p" using sample_accounts_convert by blast
  from discriminators_decide[OF this]
  have "distinct (map (camel_case \<circ> ac_name) (idl_accounts sample_accounts_idl))"
    and "\<forall>i j data. i < 2 \<and> j < 2 \<and> starts_with (ac_discriminator (idl_accounts sample_accounts_idl ! i)) data \<and>
      starts_with (ac_discriminator (idl_accounts sample_accounts_idl ! j)) data \<longrightarrow> i = j" by (simp_all add: sample_accounts_idl_def)
  from this(1) this(2)[rule_format, of 0 1 "[1, 2, 7]"] show ?thesis by (simp add: sample_accounts_idl_def starts_with_def)
qed

end
