(* ===== verification/Anchor_Passes.thy ===== *)
theory Anchor_Passes
  imports Anchor_Links
begin

text \<open>
  The passes over a converted program (\<open>crates/codama-from-anchor/src/passes.rs\<close>): default addresses, inlining of
  types used once as an argument, flattening of struct arguments, and byte arrays as bytes.
\<close>

subsection \<open>Default addresses\<close>

definition COMMON_ADDRESSES :: "(string list \<times> string \<times> string option) list" where
  "COMMON_ADDRESSES =
     [([''systemProgram'', ''splSystemProgram''], ''11111111111111111111111111111111'', Some ''splSystem''),
      ([''tokenProgram'', ''splTokenProgram''], ''TokenkegQfeZyiNwAJbNbGKPFXCWuBvf9Ss623VQ5DA'', Some ''splToken''),
      ([''ataProgram'', ''splAtaProgram''], ''ATokenGPvbdGVxr1b2hvZbsiqW5xWH25efTNsLJA8knL'', Some ''splAssociatedToken''),
      ([''tokenMetadataProgram'', ''mplTokenMetadataProgram''], ''metaqbxxUerdq28cj1RbAWkYQm3ybzjb6a8bt518x1s'', Some ''mplTokenMetadata''),
      ([''tokenAuthRulesProgram'', ''mplTokenAuthRulesProgram'', ''authorizationRulesProgram'', ''mplAuthorizationRulesProgram'',
        ''authRulesProgram'', ''mplAuthRulesProgram''], ''auth9SigNpDKz4sJJ1DfCTuZrZNSAgh9sFD3rboVmgg'', Some ''mplTokenAuthRules''),
      ([''candyMachineProgram'', ''mplCandyMachineProgram''], ''CndyV3LdqHUfDLmE5naZjVN8rBZz4tqhdefbAnjHG3JR'', Some ''mplCandyMachine''),
      ([''candyGuardProgram'', ''mplCandyGuardProgram''], ''Guard1JwRhJkVH6XZhzoYxeBVQe872VH6QggF4BWmS9g'', Some ''mplCandyGuard''),
      ([''clockSysvar'', ''sysvarClock''], ''SysvarC1ock11111111111111111111111111111111'', None),
      ([''epochScheduleSysvar'', ''sysvarEpochSchedule''], ''SysvarEpochSchedu1e111111111111111111111111'', None),
      ([''instructionSysvar'', ''instructionsSysvar'', ''sysvarInstruction'', ''sysvarInstructions'', ''instructionSysvarAccount'',
        ''instructionsSysvarAccount'', ''sysvarInstructionAccount'', ''sysvarInstructionsAccount''],
       ''Sysvar1nstructions1111111111111111111111111'', None),
      ([''recentBlockhashesSysvar'', ''sysvarRecentBlockhashes''], ''SysvarRecentB1ockHashes11111111111111111111'', None),
      ([''rent'', ''rentSysvar'', ''sysvarRent''], ''SysvarRent111111111111111111111111111111111'', None),
      ([''rewardsSysvar'', ''sysvarRewards''], ''SysvarRewards111111111111111111111111111111'', None),
      ([''slotHashesSysvar'', ''sysvarSlotHashes''], ''SysvarS1otHashes111111111111111111111111111'', None),
      ([''slotHistorySysvar'', ''sysvarSlotHistory''], ''SysvarS1otHistory11111111111111111111111111'', None),
      ([''stakeHistorySysvar'', ''sysvarStakeHistory''], ''SysvarStakeHistory1111111111111111111111111'', None),
      ([''mplCoreProgram''], ''CoREENxT6tW1HoK8ypY1SxRMZTcVPm7R94rH4PZNhX7d'', Some ''mplCore'')]"

definition common_account_address :: "string \<Rightarrow> (string \<times> string option) option" where
  "common_account_address name = map_option snd (find (\<lambda>(names, _). name \<in> set names) COMMON_ADDRESSES)"

definition default_account :: "anchor_env \<Rightarrow> account_meta_node \<Rightarrow> (anchor_error, account_meta_node) outcome" where
  "default_account env a =
     (if am_optional a \<or> am_default a \<noteq> None then Ok a
      else case common_account_address (am_name a) of
             None \<Rightarrow> Ok a
           | Some (key, identifier) \<Rightarrow>
               bind_outcome (case identifier of Some i \<Rightarrow> map_outcome id Some (camel env i) | None \<Rightarrow> Ok None) (\<lambda>i.
                 Ok (a\<lparr>am_default := Some (ValueInput (PublicKeyValue key i))\<rparr>)))"

definition set_instruction_account_default_values :: "anchor_env \<Rightarrow> codama_program \<Rightarrow> (anchor_error, codama_program) outcome" where
  "set_instruction_account_default_values env p =
     bind_outcome
       (try_map (\<lambda>ix. bind_outcome (try_map (default_account env) (in_accounts ix)) (\<lambda>accounts. Ok (ix\<lparr>in_accounts := accounts\<rparr>)))
         (pn_instructions p))
       (\<lambda>ixs. Ok (p\<lparr>pn_instructions := ixs\<rparr>))"

subsection \<open>The walker\<close>

text \<open>The write version of the walker, for functions that are total and for walks that may not end.\<close>

fun map_variant :: "(type_node \<Rightarrow> type_node) \<Rightarrow> enum_variant \<Rightarrow> enum_variant" where
  "map_variant f (EmptyVariant n) = EmptyVariant n"
| "map_variant f (StructVariant n fs) = StructVariant n (map (\<lambda>(i, t). (i, f t)) fs)"
| "map_variant f (TupleVariant n ts) = TupleVariant n (map f ts)"

fun map_children :: "(type_node \<Rightarrow> type_node) \<Rightarrow> type_node \<Rightarrow> type_node" where
  "map_children f (ArrayType t c) = ArrayType (f t) c"
| "map_children f (FixedSizeType n t) = FixedSizeType n (f t)"
| "map_children f (SizePrefixType t p) = SizePrefixType (f t) p"
| "map_children f (OptionType b t p) = OptionType b (f t) p"
| "map_children f (HiddenPrefixType t cs) = HiddenPrefixType (f t) (map (\<lambda>(u, v). (f u, v)) cs)"
| "map_children f (StructType fs) = StructType (map (\<lambda>(i, t). (i, f t)) fs)"
| "map_children f (TupleType ts) = TupleType (map f ts)"
| "map_children f (EnumType vs s) = EnumType (map (map_variant f) vs) s"
| "map_children f t = t"

lemma map_variant_cong: "(\<And>u. u \<in> set (variant_children v) \<Longrightarrow> f u = g u) \<Longrightarrow> map_variant f v = map_variant g v"
  by (cases v) (force simp: case_prod_beta)+

lemma map_children_cong [fundef_cong]:
  assumes "s = t" "\<And>u. u \<in> set (type_children t) \<Longrightarrow> f u = g u"
  shows "map_children f s = map_children g t"
proof -
  have "map_variant f v = map_variant g v" if "t = EnumType vs p" "v \<in> set vs" for vs v p
    using that assms(2) by (intro map_variant_cong) auto
  then show ?thesis unfolding assms(1) using assms(2) by (cases t) (force simp: case_prod_beta)+
qed

lemma type_children_map: "type_children (map_children f t) = map f (type_children t)"
proof -
  have "variant_children (map_variant f v) = map f (variant_children v)" for v by (cases v) auto
  then show ?thesis by (cases t) (auto simp: map_concat comp_def case_prod_beta)
qed

definition walk_children :: "(type_node \<Rightarrow> type_node option) \<Rightarrow> type_node \<Rightarrow> type_node option" where
  "walk_children f t =
     (if list_all (\<lambda>u. f u \<noteq> None) (type_children t) then Some (map_children (\<lambda>u. the (f u)) t) else None)"

subsection \<open>Types used once as an argument\<close>

text \<open>How often each name is linked, and how often as a whole argument; a name that is not counted has no uses.\<close>

type_synonym uses = "string \<Rightarrow> nat \<times> nat"

definition use_link :: "string \<Rightarrow> uses \<Rightarrow> uses" where
  "use_link n u = u(n := (fst (u n) + 1, snd (u n)))"

function count_links :: "type_node \<Rightarrow> uses \<Rightarrow> uses" where
  "count_links t u = (case t of LinkType n \<Rightarrow> use_link n u | _ \<Rightarrow> fold (\<lambda>c u. count_links c u) (type_children t) u)"
  by pat_completeness auto

termination
  by (relation "measure (\<lambda>(t, _). size t)") (auto dest: type_children_size simp del: type_children.simps)

declare count_links.simps [simp del]

definition count_argument :: "argument_node \<Rightarrow> uses \<Rightarrow> uses" where
  "count_argument a u =
     (case ag_type a of LinkType n \<Rightarrow> u(n := (fst (u n) + 1, snd (u n) + 1)) | t \<Rightarrow> count_links t u)"

definition owned_seed_types :: "codama_program \<Rightarrow> account_meta_node \<Rightarrow> type_node list" where
  "owned_seed_types p a =
     (case am_default a of
        Some (PdaInput pv) \<Rightarrow>
          if is_none_or (pv_program_id pv) (\<lambda>i. i = [] \<or> i = pn_public_key p)
          then List.map_filter (\<lambda>s. case s of VariableSeed _ t \<Rightarrow> Some t | ConstantSeed _ _ \<Rightarrow> None) (pv_seeds pv) else []
      | _ \<Rightarrow> [])"

definition counted_types :: "codama_program \<Rightarrow> type_node list" where
  "counted_types p =
     concat (map (map snd \<circ> an_fields) (pn_accounts p)) @ map ev_data (pn_events p) @ map dt_type (pn_defined_types p) @
     map co_type (pn_constants p) @ concat (map (owned_seed_types p) (concat (map in_accounts (pn_instructions p))))"

definition program_uses :: "codama_program \<Rightarrow> uses" where
  "program_uses p =
     fold count_argument (concat (map in_arguments (pn_instructions p))) (fold count_links (counted_types p) (\<lambda>_. (0, 0)))"

definition used_once :: "codama_program \<Rightarrow> codama_defined_type \<Rightarrow> bool" where
  "used_once p t \<longleftrightarrow> program_uses p (dt_name t) = (1, 1) \<and> (case dt_type t of EnumType _ _ \<Rightarrow> False | _ \<Rightarrow> True)"

text \<open>
  Replacing a link by the body it names, then walking into the result: a body that linked back would never end, so the
  walk has fuel, and running out of it is the endless recursion.
\<close>

fun inline_links :: "nat \<Rightarrow> (string \<rightharpoonup> type_node) \<Rightarrow> type_node \<Rightarrow> type_node option" where
  "inline_links 0 bodies t = None"
| "inline_links (Suc n) bodies t =
     walk_children (inline_links n bodies) (case t of LinkType m \<Rightarrow> unwrap_or (bodies m) t | _ \<Rightarrow> t)"

definition INLINE_DEPTH :: "codama_defined_type list \<Rightarrow> type_node \<Rightarrow> nat" where
  "INLINE_DEPTH inlined t = size t + sum_list (map (size \<circ> dt_type) inlined) + 2"

text \<open>Applying a function to every root type of an instruction; the function may not return.\<close>

definition map_seed :: "(type_node \<Rightarrow> type_node) \<Rightarrow> pda_seed_node \<Rightarrow> pda_seed_node" where
  "map_seed f s = (case s of ConstantSeed t v \<Rightarrow> ConstantSeed (f t) v | VariableSeed n t \<Rightarrow> VariableSeed n (f t))"

definition map_default :: "(type_node \<Rightarrow> type_node) \<Rightarrow> input_value option \<Rightarrow> input_value option" where
  "map_default f v =
     (case v of Some (PdaInput pv) \<Rightarrow> Some (PdaInput (pv\<lparr>pv_seeds := map (map_seed f) (pv_seeds pv)\<rparr>)) | _ \<Rightarrow> v)"

definition instruction_types_mut :: "(type_node \<Rightarrow> type_node) \<Rightarrow> codama_instruction \<Rightarrow> codama_instruction" where
  "instruction_types_mut f ix =
     ix\<lparr>in_arguments := map (\<lambda>a. a\<lparr>ag_type := f (ag_type a)\<rparr>) (in_arguments ix),
        in_accounts := map (\<lambda>m. m\<lparr>am_default := map_default f (am_default m)\<rparr>) (in_accounts ix)\<rparr>"

definition unwrap_instruction_args_defined_types :: "codama_program \<Rightarrow> codama_program option" where
  "unwrap_instruction_args_defined_types p =
     (let inlined = filter (used_once p) (pn_defined_types p);
          kept = filter (\<lambda>t. \<not> used_once p t) (pn_defined_types p);
          bodies = collect_map (map (\<lambda>t. (dt_name t, dt_type t)) inlined);
          replace = (\<lambda>t. inline_links (INLINE_DEPTH inlined t) bodies t)
      in if inlined = [] then Some (p\<lparr>pn_defined_types := kept\<rparr>)
         else if list_all (\<lambda>ix. list_all (\<lambda>t. replace t \<noteq> None) (instruction_types ix)) (pn_instructions p)
         then Some (p\<lparr>pn_defined_types := kept, pn_instructions := map (instruction_types_mut (\<lambda>t. the (replace t))) (pn_instructions p)\<rparr>)
         else None)"

subsection \<open>Flattening and bytes\<close>

definition flatten_argument :: "anchor_env \<Rightarrow> argument_node \<Rightarrow> (anchor_error, argument_node list) outcome" where
  "flatten_argument env a =
     (case ag_type a of
        StructType fs \<Rightarrow>
          try_map (\<lambda>(i, t). bind_outcome (ident env (fi_name i)) (\<lambda>name.
            Ok \<lparr>ag_name = name, ag_docs = fi_docs i, ag_omitted = fi_omitted i, ag_type = t,
                ag_default = map_option ValueInput (fi_default i)\<rparr>)) fs
      | _ \<Rightarrow> Ok [a])"

fun duplicates_of :: "string set \<Rightarrow> string list \<Rightarrow> string list" where
  "duplicates_of seen [] = []"
| "duplicates_of seen (n # ns) = (if n \<in> seen then n # duplicates_of seen ns else duplicates_of (insert n seen) ns)"

definition flatten_instruction :: "anchor_env \<Rightarrow> codama_instruction \<Rightarrow> (anchor_error, codama_instruction) outcome" where
  "flatten_instruction env ix =
     bind_outcome (map_outcome id concat (try_map (flatten_argument env) (in_arguments ix))) (\<lambda>flattened.
       case duplicates_of {} (map ag_name flattened) of
         [] \<Rightarrow> Ok (ix\<lparr>in_arguments := flattened\<rparr>)
       | dups \<Rightarrow> Err (At InstructionItem (in_name ix) (ConflictingFlattenedArguments (remdups (sort dups)))))"

definition flatten_instruction_data_arguments :: "anchor_env \<Rightarrow> codama_program \<Rightarrow> (anchor_error, codama_program) outcome" where
  "flatten_instruction_data_arguments env p =
     bind_outcome (try_map (flatten_instruction env) (pn_instructions p)) (\<lambda>ixs. Ok (p\<lparr>pn_instructions := ixs\<rparr>))"

definition byte_array :: "type_node \<Rightarrow> type_node" where
  "byte_array t = (case t of ArrayType (NumberType FormatU8) (FixedCount n) \<Rightarrow> fixed_bytes (unat n) | _ \<Rightarrow> t)"

function u8_arrays_to_bytes :: "type_node \<Rightarrow> type_node" where
  "u8_arrays_to_bytes t = byte_array (map_children u8_arrays_to_bytes t)"
  by pat_completeness auto

termination
  by (relation "measure size") (auto dest: type_children_size)

declare u8_arrays_to_bytes.simps [simp del]

definition transform_u8_arrays_to_bytes :: "codama_program \<Rightarrow> codama_program" where
  "transform_u8_arrays_to_bytes p =
     p\<lparr>pn_accounts := map (\<lambda>a. a\<lparr>an_fields := map (\<lambda>(i, t). (i, u8_arrays_to_bytes t)) (an_fields a)\<rparr>) (pn_accounts p),
       pn_instructions := map (instruction_types_mut u8_arrays_to_bytes) (pn_instructions p),
       pn_defined_types := map (\<lambda>t. t\<lparr>dt_type := u8_arrays_to_bytes (dt_type t)\<rparr>) (pn_defined_types p),
       pn_events := map (\<lambda>e. e\<lparr>ev_data := u8_arrays_to_bytes (ev_data e)\<rparr>) (pn_events p),
       pn_constants := map (\<lambda>c. c\<lparr>co_type := u8_arrays_to_bytes (co_type c)\<rparr>) (pn_constants p)\<rparr>"

text \<open>All the passes; a walk that does not end is a stack overflow.\<close>

definition run_passes :: "anchor_env \<Rightarrow> codama_program \<Rightarrow> (anchor_error, codama_program) outcome" where
  "run_passes env p =
     bind_outcome (set_instruction_account_default_values env p) (\<lambda>p.
     bind_outcome (case unwrap_instruction_args_defined_types p of Some p \<Rightarrow> Ok p | None \<Rightarrow> Panic) (\<lambda>p.
     bind_outcome (flatten_instruction_data_arguments env p) (\<lambda>p. Ok (transform_u8_arrays_to_bytes p))))"

subsection \<open>Counting and inlining\<close>

definition occurrences :: "string list \<Rightarrow> uses \<Rightarrow> uses" where
  "occurrences ns u = (\<lambda>n. (fst (u n) + count_list ns n, snd (u n)))"

lemma occurrences_append: "occurrences ys (occurrences xs u) = occurrences (xs @ ys) u"
  by (auto simp: occurrences_def count_list_append)

lemma fold_occurrences:
  "(\<And>x u. x \<in> set xs \<Longrightarrow> f x u = occurrences (g x) u) \<Longrightarrow> fold f xs u = occurrences (concat (map g xs)) u"
  by (induction xs arbitrary: u) (auto simp: occurrences_append occurrences_def)

lemma count_links_eq: "count_links t u = occurrences (collect_links t) u"
proof (induction "size t" arbitrary: t u rule: less_induct)
  case less
  have children: "fold count_links (type_children t) u = occurrences (concat (map collect_links (type_children t))) u"
    by (rule fold_occurrences) (auto intro: less type_children_size)
  show ?case
  proof (cases "\<exists>n. t = LinkType n")
    case True
    then show ?thesis by (auto simp: count_links.simps collect_links_children[of t] occurrences_def use_link_def)
  next
    case False
    then have "count_links t u = fold count_links (type_children t) u" "collect_links t = concat (map collect_links (type_children t))"
      by (subst count_links.simps, cases t; simp) (subst collect_links_children, cases t; use False in simp)
    then show ?thesis using children by simp
  qed
qed

text \<open>A name used once, as an argument, is linked nowhere else that is counted.\<close>

lemma count_argument_le: "snd (u n) + fst (count_argument a u n) \<ge> fst (u n) + snd (count_argument a u n) \<and> snd (u n) \<le> snd (count_argument a u n)"
  by (auto simp: count_argument_def count_links_eq occurrences_def split: type_node.split)

lemma count_arguments_le:
  "snd (u n) + fst (fold count_argument as u n) \<ge> fst (u n) + snd (fold count_argument as u n)"
proof (induction as arbitrary: u)
  case (Cons a as)
  from Cons.IH[of "count_argument a u"] count_argument_le[of u n a] show ?case by simp
qed simp

lemma used_once_unlinked:
  assumes "used_once p t" "u \<in> set (counted_types p)"
  shows "dt_name t \<notin> set (collect_links u)"
proof
  assume "dt_name t \<in> set (collect_links u)"
  then have "dt_name t \<in> set (concat (map collect_links (counted_types p)))" using assms(2) by auto
  then have "0 < count_list (concat (map collect_links (counted_types p))) (dt_name t)"
    using count_list_0_iff by (metis gr0I)
  moreover have "fold count_links (counted_types p) (\<lambda>_. (0, 0)) = occurrences (concat (map collect_links (counted_types p))) (\<lambda>_. (0, 0))"
    by (rule fold_occurrences) (rule count_links_eq)
  ultimately have "0 < fst (fold count_links (counted_types p) (\<lambda>_. (0, 0)) (dt_name t))" "snd (fold count_links (counted_types p) (\<lambda>_. (0, 0)) (dt_name t)) = 0"
    by (simp_all add: occurrences_def)
  with count_arguments_le[of "fold count_links (counted_types p) (\<lambda>_. (0, 0))" "dt_name t" "concat (map in_arguments (pn_instructions p))"]
  show False using assms(1) by (simp add: used_once_def program_uses_def)
qed

text \<open>Bodies that have no inlined links are copied as they are, so the walk ends.\<close>

lemma walk_children_Some:
  assumes "\<And>u. u \<in> set (type_children t) \<Longrightarrow> f u = Some (g u)"
  shows "walk_children f t = Some (map_children g t)"
  using assms by (auto simp: walk_children_def list_all_iff intro: map_children_cong)

lemma map_children_id: "map_children (\<lambda>u. u) t = t"
proof -
  have "map_variant (\<lambda>u. u) v = v" for v by (cases v) (auto simp: case_prod_beta)
  then show ?thesis by (cases t) (auto simp: case_prod_beta map_idI)
qed

lemma inline_head:
  assumes "set (collect_links t) \<inter> dom bodies = {}"
  shows "(case t of LinkType m \<Rightarrow> unwrap_or (bodies m) t | _ \<Rightarrow> t) = t"
proof (cases t)
  case (LinkType m)
  then have "bodies m = None" using assms by (auto simp: collect_links_children[of "LinkType m"])
  then show ?thesis by (simp add: LinkType)
qed simp_all

lemma inline_links_none:
  "set (collect_links t) \<inter> dom bodies = {} \<Longrightarrow> size t < n \<Longrightarrow> inline_links n bodies t = Some t"
proof (induction n arbitrary: t)
  case (Suc n)
  note same = inline_head[OF Suc.prems(1)]
  have "inline_links n bodies u = Some u" if "u \<in> set (type_children t)" for u
  proof (rule Suc.IH)
    have "set (collect_links u) \<subseteq> set (collect_links t)" using that by (subst (2) collect_links_children) auto
    then show "set (collect_links u) \<inter> dom bodies = {}" using Suc.prems(1) by auto
    show "size u < n" using type_children_size[OF that] Suc.prems(2) by simp
  qed
  then show ?case using same walk_children_Some[of t "inline_links n bodies" "\<lambda>u. u"] by (simp add: map_children_id)
qed simp

lemma inline_links_links:
  assumes bodies: "\<And>m b. bodies m = Some b \<Longrightarrow> set (collect_links b) \<inter> dom bodies = {} \<and> size b < k \<and> links_in L b"
  shows "links_in L t \<Longrightarrow> size t + k < n \<Longrightarrow> \<exists>t'. inline_links n bodies t = Some t' \<and> links_in (L - dom bodies) t'"
proof (induction n arbitrary: t)
  case (Suc n)
  show ?case
  proof (cases "\<exists>m b. t = LinkType m \<and> bodies m = Some b")
    case True
    then obtain m b where t: "t = LinkType m" "bodies m = Some b" by blast
    note b = bodies[OF t(2)]
    have "inline_links (Suc n) bodies b = Some b" by (rule inline_links_none) (use b Suc.prems in auto)
    then have "inline_links (Suc n) bodies t = Some b" using inline_head[of b bodies] b t by simp
    then show ?thesis using b by (auto simp: links_in_def)
  next
    case False
    then have same: "(case t of LinkType m \<Rightarrow> unwrap_or (bodies m) t | _ \<Rightarrow> t) = t" by (cases t) (auto simp: unwrap_or_def split: option.splits)
    have "\<exists>u'. inline_links n bodies u = Some u' \<and> links_in (L - dom bodies) u'" if "u \<in> set (type_children t)" for u
      by (rule Suc.IH) (use that Suc.prems type_children_size[OF that] links_in_node[of L t] in \<open>auto simp: list_all_iff\<close>)
    then obtain g where g: "\<And>u. u \<in> set (type_children t) \<Longrightarrow> inline_links n bodies u = Some (g u) \<and> links_in (L - dom bodies) (g u)" by metis
    have "links_in (L - dom bodies) (map_children g t)"
    proof (subst links_in_node, rule conjI)
      show "list_all (links_in (L - dom bodies)) (type_children (map_children g t))" using g by (auto simp: type_children_map list_all_iff)
      show "case map_children g t of LinkType n \<Rightarrow> n \<in> L - dom bodies | _ \<Rightarrow> True"
        using False Suc.prems(1) links_in_node[of L t] by (cases t) auto
    qed
    moreover have "inline_links (Suc n) bodies t = Some (map_children g t)" using same g by (simp add: walk_children_Some)
    ultimately show ?thesis by blast
  qed
qed simp

subsection \<open>The passes keep links resolved\<close>

lemma list_all_concat: "list_all P (concat xss) \<longleftrightarrow> list_all (list_all P) xss"
  by (induction xss) auto

lemma program_types_all:
  "list_all P (program_types p) \<longleftrightarrow>
    list_all (list_all (P \<circ> snd) \<circ> an_fields) (pn_accounts p) \<and> list_all (P \<circ> ev_data) (pn_events p) \<and>
    list_all (P \<circ> dt_type) (pn_defined_types p) \<and> list_all (P \<circ> co_type) (pn_constants p) \<and>
    list_all (list_all P \<circ> instruction_types) (pn_instructions p)"
  by (simp add: program_types_def list_all_concat list.pred_map comp_def)

abbreviation program_closed :: "codama_program \<Rightarrow> bool" where
  "program_closed p \<equiv> list_all (links_in (item_names p)) (program_types p)"

definition inline_bodies :: "codama_program \<Rightarrow> string \<rightharpoonup> type_node" where
  "inline_bodies p = collect_map (map (\<lambda>t. (dt_name t, dt_type t)) (filter (used_once p) (pn_defined_types p)))"

lemma inline_bodies_Some: "inline_bodies p m = Some b \<Longrightarrow> \<exists>t\<in>set (filter (used_once p) (pn_defined_types p)). dt_name t = m \<and> dt_type t = b"
  by (auto simp: inline_bodies_def collect_map_def dest!: map_of_SomeD)

lemma inline_bodies_dom: "dom (inline_bodies p) = dt_name ` set (filter (used_once p) (pn_defined_types p))"
  by (auto simp: inline_bodies_def collect_map_def dom_map_of_conv_image_fst image_image)

lemma counted_unlinked: "u \<in> set (counted_types p) \<Longrightarrow> set (collect_links u) \<inter> dom (inline_bodies p) = {}"
  using used_once_unlinked by (auto simp: inline_bodies_dom)

lemma inline_returns:
  assumes "links_in L t" "\<And>t. t \<in> set (pn_defined_types p) \<Longrightarrow> links_in L (dt_type t)"
  shows "\<exists>t'. inline_links (INLINE_DEPTH (filter (used_once p) (pn_defined_types p)) t) (inline_bodies p) t = Some t' \<and>
    links_in (L - dom (inline_bodies p)) t'"
proof (rule inline_links_links[where k = "sum_list (map (size \<circ> dt_type) (filter (used_once p) (pn_defined_types p))) + 1"])
  fix m b
  assume "inline_bodies p m = Some b"
  then obtain t where t: "t \<in> set (filter (used_once p) (pn_defined_types p))" "dt_type t = b" by (blast dest: inline_bodies_Some)
  have "b \<in> set (counted_types p)" using t by (auto simp: counted_types_def)
  moreover have "size b \<le> sum_list (map (size \<circ> dt_type) (filter (used_once p) (pn_defined_types p)))"
    using t by (intro member_le_sum_list) auto
  ultimately show "set (collect_links b) \<inter> dom (inline_bodies p) = {} \<and>
      size b < sum_list (map (size \<circ> dt_type) (filter (used_once p) (pn_defined_types p))) + 1 \<and> links_in L b"
    using counted_unlinked assms(2) t by auto
qed (use assms(1) in \<open>simp_all add: INLINE_DEPTH_def\<close>)

lemma default_types_map: "default_types (map_default f v) = map f (default_types v)"
  by (auto simp: default_types_def map_default_def map_seed_def seed_node_type_def split: option.splits input_value.splits pda_seed_node.splits)

lemma instruction_types_map: "instruction_types (instruction_types_mut f ix) = map f (instruction_types ix)"
  by (auto simp: instruction_types_def instruction_types_mut_def default_types_map map_concat comp_def)

text \<open>
  C15. Inlining ends: whatever the program, also with types that refer to each other in a circle, unwrapping the types that are used once
  as an argument returns, because such a type is linked from no other type, so no inlined body brings in another.
\<close>

theorem unwrap_returns: "\<exists>p'. unwrap_instruction_args_defined_types p = Some p'"
proof -
  have "inline_links (INLINE_DEPTH (filter (used_once p) (pn_defined_types p)) t) (inline_bodies p) t \<noteq> None" for t
    using inline_returns[of UNIV t p] by (auto simp: links_in_def)
  then show ?thesis by (simp add: unwrap_instruction_args_defined_types_def Let_def list_all_iff inline_bodies_def[symmetric])
qed

lemma unwrap_closed:
  assumes closed: "program_closed p" and ok: "unwrap_instruction_args_defined_types p = Some p'"
  shows "program_closed p'"
proof -
  let ?inlined = "filter (used_once p) (pn_defined_types p)" and ?D = "dom (inline_bodies p)"
  let ?f = "\<lambda>t. the (inline_links (INLINE_DEPTH ?inlined t) (inline_bodies p) t)"
  have types: "pn_accounts p' = pn_accounts p" "pn_events p' = pn_events p"
      "pn_constants p' = pn_constants p" "pn_defined_types p' = filter (\<lambda>t. \<not> used_once p t) (pn_defined_types p)"
      "pn_instructions p' = (if ?inlined = [] then pn_instructions p else map (instruction_types_mut ?f) (pn_instructions p))"
    using ok by (auto simp: unwrap_instruction_args_defined_types_def Let_def inline_bodies_def[symmetric] split: if_splits)
  have names: "item_names p - ?D \<subseteq> item_names p'" unfolding item_names_def inline_bodies_dom types by force
  have defined: "links_in (item_names p) (dt_type t)" if "t \<in> set (pn_defined_types p)" for t
    using closed that unfolding program_types_all by (simp add: list_all_iff)
  have counted: "links_in (item_names p') t" if "t \<in> set (counted_types p)" "links_in (item_names p) t" for t
    using counted_unlinked[OF that(1)] that(2) names unfolding links_in_def by blast
  have inlined: "links_in (item_names p') (?f t)" if "links_in (item_names p) t" for t
    using inline_returns[OF that defined] names by (fastforce simp: links_in_def)
  have plain: "links_in (item_names p') t" if "?inlined = []" "links_in (item_names p) t" for t
    using that names by (auto simp: links_in_def inline_bodies_dom)
  have ix: "links_in (item_names p) t" if "ix \<in> set (pn_instructions p)" "t \<in> set (instruction_types ix)" for ix t
    using closed that unfolding program_types_all by (simp add: list_all_iff)
  have counted_all: "set xs \<subseteq> set (counted_types p) \<Longrightarrow> list_all (links_in (item_names p)) xs \<Longrightarrow> list_all (links_in (item_names p')) xs" for xs
    using counted by (auto simp: list_all_iff)
  have "list_all (links_in (item_names p)) (concat (map (map snd \<circ> an_fields) (pn_accounts p)) @ map ev_data (pn_events p) @
      map dt_type (pn_defined_types p) @ map co_type (pn_constants p))"
    using closed by (simp add: program_types_def)
  then have "list_all (links_in (item_names p')) (concat (map (map snd \<circ> an_fields) (pn_accounts p)) @ map ev_data (pn_events p) @
      map dt_type (pn_defined_types p) @ map co_type (pn_constants p))"
    by (rule counted_all[rotated]) (auto simp: counted_types_def)
  moreover have "list_all (list_all (links_in (item_names p')) \<circ> instruction_types) (pn_instructions p')"
    unfolding types(5) by (auto simp: list_all_iff instruction_types_map intro: inlined plain dest: ix)
  ultimately show ?thesis
    unfolding program_types_all types(1-4) by (simp add: list_all_concat list.pred_map comp_def) (simp add: list_all_iff)
qed

lemma default_account_types: "default_account env a = Ok a' \<Longrightarrow> default_types (am_default a') = default_types (am_default a)"
  by (auto simp: default_account_def bind_outcome_eq_Ok default_types_def split: if_splits option.splits)

lemma set_defaults_instructions:
  assumes "set_instruction_account_default_values env p = Ok p'"
  shows "\<exists>ixs. p' = p\<lparr>pn_instructions := ixs\<rparr> \<and> map instruction_types ixs = map instruction_types (pn_instructions p)"
proof -
  have one: "instruction_types ix' = instruction_types ix"
    if "bind_outcome (try_map (default_account env) (in_accounts ix)) (\<lambda>accounts. Ok (ix\<lparr>in_accounts := accounts\<rparr>)) = Ok ix'" for ix ix'
  proof -
    from that obtain accounts where "try_map (default_account env) (in_accounts ix) = Ok accounts" and ix': "ix' = ix\<lparr>in_accounts := accounts\<rparr>"
      by (auto simp: bind_outcome_eq_Ok)
    then have "list_all2 (\<lambda>a a'. default_account env a = Ok a') (in_accounts ix) accounts" by (simp add: try_map_eq_Ok)
    then have "map (default_types \<circ> am_default) accounts = map (default_types \<circ> am_default) (in_accounts ix)"
      by (induction rule: list_all2_induct) (auto dest: default_account_types)
    then show ?thesis by (simp add: instruction_types_def ix')
  qed
  from assms obtain ixs where ixs: "list_all2 (\<lambda>ix ix'. bind_outcome (try_map (default_account env) (in_accounts ix)) (\<lambda>accounts. Ok (ix\<lparr>in_accounts := accounts\<rparr>)) = Ok ix') (pn_instructions p) ixs"
      and p': "p' = p\<lparr>pn_instructions := ixs\<rparr>"
    by (auto simp: set_instruction_account_default_values_def bind_outcome_eq_Ok[of "try_map _ (pn_instructions _)"] try_map_eq_Ok)
  from ixs have "map instruction_types ixs = map instruction_types (pn_instructions p)"
    by (induction rule: list_all2_induct) (auto dest: one)
  with p' show ?thesis by blast
qed

lemma item_names_instructions [simp]: "item_names (p\<lparr>pn_instructions := ixs\<rparr>) = item_names p"
  by (simp add: item_names_def)

lemma program_closed_instructions:
  assumes "program_closed p" and "\<And>ix. ix \<in> set ixs \<Longrightarrow> list_all (links_in (item_names p)) (instruction_types ix)"
  shows "program_closed (p\<lparr>pn_instructions := ixs\<rparr>)"
  using assms unfolding program_types_all by (simp add: list_all_iff)

lemma flatten_argument_links:
  assumes "links_in L (ag_type a)" "flatten_argument env a = Ok as"
  shows "list_all (links_in L \<circ> ag_type) as"
proof (cases "\<exists>fs. ag_type a = StructType fs")
  case True
  then obtain fs where fs: "ag_type a = StructType fs" by blast
  have "try_map (\<lambda>(i, t). bind_outcome (ident env (fi_name i)) (\<lambda>name.
            Ok \<lparr>ag_name = name, ag_docs = fi_docs i, ag_omitted = fi_omitted i, ag_type = t,
                ag_default = map_option ValueInput (fi_default i)\<rparr>)) fs = Ok as \<Longrightarrow> map ag_type as = map snd fs" for as
    by (induction fs arbitrary: as) (auto simp: bind_outcome_eq_Ok)
  then have "map ag_type as = map snd fs" using assms(2) fs by (simp add: flatten_argument_def)
  then show ?thesis using assms(1) fs by (metis links_in_simps(5) list.pred_map)
next
  case False
  then have "as = [a]" using assms(2) by (cases "ag_type a") (auto simp: flatten_argument_def)
  then show ?thesis using assms(1) by simp
qed

lemma flatten_instruction_Ok:
  assumes "flatten_instruction env ix = Ok ix'"
  shows "\<exists>ass. try_map (flatten_argument env) (in_arguments ix) = Ok ass \<and> ix' = ix\<lparr>in_arguments := concat ass\<rparr> \<and>
    duplicates_of {} (map ag_name (concat ass)) = []"
proof -
  from assms obtain ass where ass: "try_map (flatten_argument env) (in_arguments ix) = Ok ass"
    by (auto simp: flatten_instruction_def bind_outcome_eq_Ok map_outcome_Ok)
  then show ?thesis
    using assms by (cases "duplicates_of {} (map ag_name (concat ass))") (simp_all add: flatten_instruction_def)
qed

lemma flatten_instruction_links:
  assumes "list_all (links_in L) (instruction_types ix)" "flatten_instruction env ix = Ok ix'"
  shows "list_all (links_in L) (instruction_types ix')"
proof -
  from flatten_instruction_Ok[OF assms(2)] obtain ass where ass: "try_map (flatten_argument env) (in_arguments ix) = Ok ass"
      and ix': "ix' = ix\<lparr>in_arguments := concat ass\<rparr>" by blast
  have "list_all2 (\<lambda>a as. flatten_argument env a = Ok as) (in_arguments ix) ass" using ass by (simp add: try_map_eq_Ok)
  moreover have "list_all (links_in L \<circ> ag_type) (in_arguments ix)" using assms(1) by (simp add: instruction_types_def list.pred_map)
  ultimately have "list_all (links_in L \<circ> ag_type) (concat ass)"
    by (induction rule: list_all2_induct) (auto dest: flatten_argument_links)
  then show ?thesis using assms(1) by (simp add: instruction_types_def ix' list.pred_map)
qed

lemma u8_arrays_links: "links_in L t \<Longrightarrow> links_in L (u8_arrays_to_bytes t)"
proof (induction "size t" arbitrary: t rule: less_induct)
  case less
  have "links_in L (map_children u8_arrays_to_bytes t)"
  proof (subst links_in_node, rule conjI)
    show "list_all (links_in L) (type_children (map_children u8_arrays_to_bytes t))"
      using less.prems links_in_node[of L t] by (auto simp: type_children_map list_all_iff intro!: less.hyps type_children_size)
    show "case map_children u8_arrays_to_bytes t of LinkType n \<Rightarrow> n \<in> L | _ \<Rightarrow> True"
      using less.prems links_in_node[of L t] by (cases t) auto
  qed
  then have "links_in L (byte_array (map_children u8_arrays_to_bytes t))"
    by (auto simp: byte_array_def split: type_node.splits number_format.splits count_node.splits)
  then show ?case by (subst u8_arrays_to_bytes.simps)
qed

lemma transform_types: "program_types (transform_u8_arrays_to_bytes p) = map u8_arrays_to_bytes (program_types p)"
  by (simp add: program_types_def transform_u8_arrays_to_bytes_def instruction_types_map map_concat comp_def case_prod_beta)

lemma transform_names: "item_names (transform_u8_arrays_to_bytes p) = item_names p"
  by (simp add: item_names_def transform_u8_arrays_to_bytes_def image_image)

lemma run_passes_closed:
  assumes "program_closed p" "run_passes env p = Ok p'"
  shows "program_closed p'"
proof -
  from assms(2) obtain p1 p2 p3 where p1: "set_instruction_account_default_values env p = Ok p1" and p2: "unwrap_instruction_args_defined_types p1 = Some p2"
      and p3: "flatten_instruction_data_arguments env p2 = Ok p3" and p': "p' = transform_u8_arrays_to_bytes p3"
    by (auto simp: run_passes_def bind_outcome_eq_Ok split: option.splits)
  from set_defaults_instructions[OF p1] obtain ixs where ixs: "p1 = p\<lparr>pn_instructions := ixs\<rparr>" "map instruction_types ixs = map instruction_types (pn_instructions p)" by blast
  then have "program_types p1 = program_types p" "item_names p1 = item_names p" by (simp_all add: program_types_def item_names_def)
  then have "program_closed p1" using assms(1) by simp
  from unwrap_closed[OF this p2] have closed2: "program_closed p2" .
  from p3 obtain ixs3 where ixs3: "list_all2 (\<lambda>ix ix'. flatten_instruction env ix = Ok ix') (pn_instructions p2) ixs3" and p3': "p3 = p2\<lparr>pn_instructions := ixs3\<rparr>"
    by (auto simp: flatten_instruction_data_arguments_def bind_outcome_eq_Ok try_map_eq_Ok)
  have "list_all (list_all (links_in (item_names p2)) \<circ> instruction_types) (pn_instructions p2)"
    using closed2 unfolding program_types_all by blast
  with ixs3 have "list_all (list_all (links_in (item_names p2)) \<circ> instruction_types) ixs3"
    by (induction rule: list_all2_induct) (auto dest: flatten_instruction_links)
  then have "program_closed p3" unfolding p3' by (intro program_closed_instructions closed2) (auto simp: list_all_iff)
  then show ?thesis by (auto simp: p' transform_types transform_names list_all_iff intro: u8_arrays_links)
qed

subsection \<open>What the passes establish\<close>

lemma duplicates_none: "duplicates_of seen ns = [] \<Longrightarrow> distinct ns \<and> set ns \<inter> seen = {}"
  by (induction seen ns rule: duplicates_of.induct) (auto split: if_splits)

lemma byte_array_idem: "byte_array (byte_array t) = byte_array t"
  by (auto simp: byte_array_def fixed_bytes_def split: type_node.splits number_format.splits count_node.splits)

lemma u8_arrays_gone: "list_all (\<lambda>u. byte_array u = u) (sub_nodes (u8_arrays_to_bytes t))"
proof (induction "size t" arbitrary: t rule: less_induct)
  case less
  let ?t = "map_children u8_arrays_to_bytes t"
  have children: "list_all (\<lambda>u. byte_array u = u) (concat (map sub_nodes (type_children ?t)))"
    using less.hyps by (auto simp: type_children_map list_all_iff dest: type_children_size)
  have "byte_array ?t = ?t \<or> (\<exists>n. byte_array ?t = fixed_bytes n)"
    by (auto simp: byte_array_def split: type_node.split number_format.split count_node.split)
  then have "list_all (\<lambda>u. byte_array u = u) (sub_nodes (byte_array ?t))"
  proof
    assume "byte_array ?t = ?t"
    then show ?thesis using children by (subst sub_nodes.simps) simp
  next
    assume "\<exists>n. byte_array ?t = fixed_bytes n"
    then obtain n where n: "byte_array ?t = fixed_bytes n" by blast
    show ?thesis unfolding n fixed_bytes_def
      by (simp add: sub_nodes.simps[of "FixedSizeType n BytesType"] sub_nodes.simps[of BytesType] byte_array_def)
  qed
  then show ?case by (subst u8_arrays_to_bytes.simps)
qed


definition sample_argument :: "string \<Rightarrow> type_node \<Rightarrow> argument_node" where
  "sample_argument n t = \<lparr>ag_name = n, ag_docs = [], ag_omitted = False, ag_type = t, ag_default = None\<rparr>"

definition sample_fields :: "(field_info \<times> type_node) list" where
  "sample_fields =
     [(\<lparr>fi_name = ''amount'', fi_docs = [], fi_omitted = False, fi_default = None\<rparr>, NumberType FormatU64),
      (\<lparr>fi_name = ''memo'', fi_docs = [], fi_omitted = False, fi_default = None\<rparr>, ArrayType (NumberType FormatU8) (FixedCount 4))]"

definition sample_program :: codama_program where
  "sample_program =
     \<lparr>pn_name = ''pay'', pn_public_key = ''Pay'', pn_version = ''1'', pn_accounts = [],
      pn_instructions = [\<lparr>in_name = ''send'', in_docs = [], in_accounts = [],
        in_arguments = [sample_argument ''params'' (LinkType ''params''), sample_argument ''urgent'' BooleanType], in_discriminators = []\<rparr>],
      pn_defined_types = [\<lparr>dt_name = ''params'', dt_docs = [], dt_type = StructType sample_fields\<rparr>],
      pn_events = [], pn_errors = [], pn_constants = []\<rparr>"

definition argument_table :: "codama_program \<Rightarrow> (string \<times> type_node) list list" where
  "argument_table p = map (map (\<lambda>a. (ag_name a, ag_type a)) \<circ> in_arguments) (pn_instructions p)"

lemma sample_passes:
  "map_outcome id argument_table (run_passes sample_env sample_program) =
    Ok [[(''amount'', NumberType FormatU64), (''memo'', fixed_bytes 4), (''urgent'', BooleanType)]]"
  by code_simp


end
