(* ===== verification/Anchor_Root.thy ===== *)
theory Anchor_Root
  imports Anchor_Passes
begin

text \<open>
  The entry point of the converter (\<open>crates/codama-from-anchor/src/lib.rs\<close>): a legacy IDL is checked and upgraded, then the spec is
  checked, the IDL read, zero-copy structs padded, the program built and the passes run. Anchor's own upgrade, SHA-256 and the derived
  readers are one record of functions.
\<close>

subsection \<open>Legacy IDLs\<close>

text \<open>Of the upgraded IDL, what the converter reads or writes; \<open>up_value\<close> prints it back with the changed parts.\<close>

record upgraded_item =
  up_name :: string
  up_discriminator :: bytes

record upgraded_idl =
  up_instructions :: "upgraded_item list"
  up_accounts :: "upgraded_item list"
  up_events :: "upgraded_item list"
  up_types :: "(string \<times> json) list"

record legacy_env =
  convert_idl :: "json \<Rightarrow> (string, upgraded_idl) outcome"
  up_value :: "upgraded_idl \<Rightarrow> json"
  sha256 :: "string \<Rightarrow> bytes"
  read_idl :: "json \<Rightarrow> (string, idl) outcome"
  item_failure :: "item_kind \<Rightarrow> json \<Rightarrow> string option"

definition discriminator :: "legacy_env \<Rightarrow> string \<Rightarrow> string \<Rightarrow> bytes" where
  "discriminator lenv namespace name = take 8 (sha256 lenv (namespace @ '':'' @ name))"

fun upper_first :: "string \<Rightarrow> string" where
  "upper_first [] = []"
| "upper_first (c # s) = ascii_upper c # s"

definition rust_type_name :: "string \<Rightarrow> string" where
  "rust_type_name name =
     (if CHR ''_'' \<in> set name \<and> \<not> list_ex is_ascii_uppercase name then pascal_case name else upper_first name)"

definition legacy_items :: "json \<Rightarrow> string \<Rightarrow> json list" where
  "legacy_items v section = unwrap_or (Option.bind (json_get section v) json_array) []"

definition name_of :: "json \<Rightarrow> string" where
  "name_of v = unwrap_or (json_get_str ''name'' v) []"

definition quoted :: "string \<Rightarrow> string" where
  "quoted s = CHR 0x22 # s @ [CHR 0x22]"

definition own_discriminator :: "item_kind \<Rightarrow> json \<Rightarrow> anchor_error option" where
  "own_discriminator kind item =
     map_option (\<lambda>key. NotAnchor (item_kind_text kind @ '' `'' @ name_of item @ ''` has its own `'' @ key @ ''`''))
       (find (\<lambda>key. json_get key item \<noteq> None) [''discriminant'', ''discriminator''])"

definition legacy_generic :: "json \<Rightarrow> string \<times> item_kind \<Rightarrow> anchor_error option" where
  "legacy_generic v s =
     (case s of (section, kind) \<Rightarrow>
        map_option (\<lambda>t. At kind (name_of t) (LegacyUnsupported ''a generic type''))
          (find (\<lambda>t. is_some_and (Option.bind (json_get ''generics'' t) json_array) (\<lambda>gs. gs \<noteq> [])) (legacy_items v section)))"

definition foreign_origin :: "json \<Rightarrow> anchor_error option" where
  "foreign_origin v =
     Option.bind (Option.bind (json_pointer [''metadata'', ''origin''] v) json_str) (\<lambda>origin.
       if origin \<noteq> ''anchor'' then Some (NotAnchor (''metadata.origin is '' @ quoted origin)) else None)"

definition check_legacy :: "json \<Rightarrow> (anchor_error, unit) outcome" where
  "check_legacy v =
     (case foreign_origin v of
        Some err \<Rightarrow> Err err
      | None \<Rightarrow>
      (case first_some (\<lambda>(section, kind). first_some (own_discriminator kind) (legacy_items v section))
          [(''instructions'', InstructionItem), (''accounts'', AccountItem), (''events'', EventItem)] of
        Some err \<Rightarrow> Err err
      | None \<Rightarrow>
          if is_none_or (Option.bind (json_pointer [''metadata'', ''address''] v) json_str) (\<lambda>a. a = []) then Err MissingAddress
          else if is_some_and (json_get ''state'' v) (\<lambda>s. s \<noteq> JNull) then Err (LegacyUnsupported ''a `state` section'')
          else case first_some (legacy_generic v) [(''types'', TypeItem), (''accounts'', AccountItem)] of
                 Some err \<Rightarrow> Err err
               | None \<Rightarrow> Ok ()))"

text \<open>Rewriting JSON values.\<close>

fun map_json :: "(json \<Rightarrow> json) \<Rightarrow> json \<Rightarrow> json" where
  "map_json f (JObject obj) = JObject (map (\<lambda>(k, v). (k, f v)) obj)"
| "map_json f (JArray xs) = JArray (map f xs)"
| "map_json f v = v"

lemma map_json_cong [fundef_cong]: "v = w \<Longrightarrow> (\<And>u. u \<in> set (json_children w) \<Longrightarrow> f u = g u) \<Longrightarrow> map_json f v = map_json g w"
  by (cases w) (force simp: case_prod_beta)+

function strip_docs :: "json \<Rightarrow> json" where
  "strip_docs v = (case map_json strip_docs v of JObject obj \<Rightarrow> JObject (bt_remove ''docs'' obj) | w \<Rightarrow> w)"
  by pat_completeness auto

termination
  by (relation "measure size") (auto dest: json_children_size)

function usize_to_u64 :: "json \<Rightarrow> json" where
  "usize_to_u64 v = (if v = JObject [(''defined'', JString ''usize'')] then JString ''u64'' else map_json usize_to_u64 v)"
  by pat_completeness auto

termination
  by (relation "measure size") (auto dest: json_children_size)

declare strip_docs.simps [simp del] usize_to_u64.simps [simp del]

text \<open>PDAs are removed from every account item and from the groups nested in it.\<close>

function strip_pdas :: "json \<Rightarrow> json" where
  "strip_pdas accounts =
     (case accounts of
        JArray items \<Rightarrow>
          JArray (map (\<lambda>item. case item of
            JObject obj \<Rightarrow> JObject (map (\<lambda>(k, v). (k, if k = ''accounts'' then strip_pdas v else v)) (bt_remove ''pda'' obj))
          | _ \<Rightarrow> item) items)
      | _ \<Rightarrow> accounts)"
  by pat_completeness auto

termination
proof (relation "measure size", goal_cases)
  case (2 accounts items item obj kv k v)
  then have item: "item \<in> set (json_children accounts)" and "(k, v) \<in> set obj" "item = JObject obj" by (auto simp: bt_remove_def)
  then have "v \<in> set (json_children item)" by force
  from json_children_size[OF this] json_children_size[OF item] show ?case by simp
qed simp

declare strip_pdas.simps [simp del]

text \<open>\<open>Value::get_mut\<close>: a key is changed where it is; a missing one is not added.\<close>

definition json_update :: "string \<Rightarrow> (json \<Rightarrow> json) \<Rightarrow> json \<Rightarrow> json" where
  "json_update key f v = (case v of JObject obj \<Rightarrow> JObject (map (\<lambda>(k, w). (k, if k = key then f w else w)) obj) | _ \<Rightarrow> v)"

definition strip_instruction_pdas :: "json \<Rightarrow> json" where
  "strip_instruction_pdas =
     json_update ''instructions'' (\<lambda>ixs. case ixs of JArray xs \<Rightarrow> JArray (map (json_update ''accounts'' strip_pdas) xs) | _ \<Rightarrow> ixs)"

definition shadowed :: "upgraded_idl \<Rightarrow> string \<Rightarrow> bool" where
  "shadowed u name =
     (let ds = map (strip_docs \<circ> snd) (filter (\<lambda>t. fst t = name) (up_types u))
      in list_ex (\<lambda>(a, b). a \<noteq> b) (zip ds (tl ds)))"

definition check_shadowed_fields :: "upgraded_idl \<Rightarrow> (anchor_error, unit) outcome" where
  "check_shadowed_fields u =
     (case find (\<lambda>(kind, name). shadowed u name)
         (map (\<lambda>a. (AccountItem, up_name a)) (up_accounts u) @ map (\<lambda>e. (EventItem, up_name e)) (up_events u)) of
        Some (kind, name) \<Rightarrow> Err (At kind name (LegacyUnsupported ''a different type of the same name''))
      | None \<Rightarrow> Ok ())"

text \<open>One item at a time, in an IDL that has the common fields only.\<close>

definition single_item :: "json \<Rightarrow> (string \<times> json) option \<Rightarrow> json" where
  "single_item v item =
     (let base = fold (\<lambda>field m. case json_get field v of Some w \<Rightarrow> bt_insert field w m | None \<Rightarrow> m) [''version'', ''name'', ''metadata''] [];
          empty = bt_insert ''instructions'' (JArray []) base
      in JObject (case item of Some (section, x) \<Rightarrow> bt_insert section (JArray [x]) empty | None \<Rightarrow> empty))"

definition upgrade_failure :: "legacy_env \<Rightarrow> json \<Rightarrow> (string \<times> json) option \<Rightarrow> string option" where
  "upgrade_failure lenv v item = (case convert_idl lenv (single_item v item) of Err err \<Rightarrow> Some err | _ \<Rightarrow> None)"

fun locate_legacy_item :: "legacy_env \<Rightarrow> json \<Rightarrow> string \<Rightarrow> item_kind \<Rightarrow> nat \<Rightarrow> json list \<Rightarrow> anchor_error option" where
  "locate_legacy_item lenv v section kind i [] = None"
| "locate_legacy_item lenv v section kind i (x # xs) =
     (case upgrade_failure lenv v (Some (section, x)) of
        Some err \<Rightarrow> Some (At kind (unwrap_or (json_get_str ''name'' x) (''#'' @ decimal i)) (LegacyError err))
      | None \<Rightarrow> locate_legacy_item lenv v section kind (i + 1) xs)"

definition locate_legacy :: "legacy_env \<Rightarrow> json \<Rightarrow> anchor_error option" where
  "locate_legacy lenv v =
     (if upgrade_failure lenv v None \<noteq> None then None
      else first_some (\<lambda>(section, kind). locate_legacy_item lenv v section kind 0 (legacy_items v section)) IDL_SECTIONS)"

fun rename_instructions :: "legacy_env \<Rightarrow> upgraded_item list \<Rightarrow> string option list \<Rightarrow> upgraded_item list" where
  "rename_instructions lenv (ix # ixs) (Some name # names) =
     \<lparr>up_name = name, up_discriminator = discriminator lenv ''global'' (snake_case name)\<rparr> # rename_instructions lenv ixs names"
| "rename_instructions lenv (ix # ixs) (None # names) = ix # rename_instructions lenv ixs names"
| "rename_instructions lenv ixs _ = ixs"

definition rehash :: "legacy_env \<Rightarrow> string \<Rightarrow> upgraded_item \<Rightarrow> upgraded_item" where
  "rehash lenv namespace x = x\<lparr>up_discriminator := discriminator lenv namespace (rust_type_name (up_name x))\<rparr>"

definition is_legacy :: "json \<Rightarrow> bool" where
  "is_legacy v \<longleftrightarrow> json_pointer [''metadata'', ''spec''] v = None \<and> json_get_str ''name'' v \<noteq> None \<and>
     Option.bind (json_get ''instructions'' v) json_array \<noteq> None"

definition fix_discriminators :: "legacy_env \<Rightarrow> json \<Rightarrow> upgraded_idl \<Rightarrow> upgraded_idl" where
  "fix_discriminators lenv v u =
     u\<lparr>up_instructions := rename_instructions lenv (up_instructions u) (map (json_get_str ''name'') (legacy_items v ''instructions'')),
       up_accounts := map (rehash lenv ''account'') (up_accounts u),
       up_events := map (rehash lenv ''event'') (up_events u)\<rparr>"

definition upgrade_legacy :: "legacy_env \<Rightarrow> json \<Rightarrow> (anchor_error, json) outcome" where
  "upgrade_legacy lenv v =
     (if \<not> is_legacy v then Ok v
      else bind_outcome (check_legacy v) (\<lambda>_.
        (let v = usize_to_u64 (strip_instruction_pdas v)
         in bind_outcome
              (case convert_idl lenv v of
                 Ok u \<Rightarrow> Ok u
               | Err err \<Rightarrow> Err (unwrap_or (locate_legacy lenv v) (LegacyError err))
               | Panic \<Rightarrow> Panic)
              (\<lambda>u. bind_outcome (check_shadowed_fields u) (\<lambda>_. Ok (up_value lenv (fix_discriminators lenv v u)))))))"

subsection \<open>The conversion\<close>

definition check_spec :: "json \<Rightarrow> (anchor_error, unit) outcome" where
  "check_spec v =
     (let spec = Option.bind (json_pointer [''metadata'', ''spec''] v) json_str
      in if spec = Some SUPPORTED_SPEC then Ok () else Err (UnsupportedSpec spec))"

record codama_root =
  rn_standard :: string
  rn_version :: string
  rn_program :: codama_program

definition root_node :: "anchor_env \<Rightarrow> idl \<Rightarrow> (anchor_error, codama_root) outcome" where
  "root_node env idl =
     bind_outcome (program_node env idl) (\<lambda>p. Ok \<lparr>rn_standard = ''codama'', rn_version = ''1.9.2'', rn_program = p\<rparr>)"

definition root_node_from_anchor :: "anchor_env \<Rightarrow> legacy_env \<Rightarrow> json \<Rightarrow> (anchor_error, codama_root) outcome" where
  "root_node_from_anchor env lenv v =
     bind_outcome (upgrade_legacy lenv v) (\<lambda>v.
     bind_outcome (check_spec v) (\<lambda>_.
     bind_outcome
       (case read_idl lenv v of
          Ok idl \<Rightarrow> Ok idl
        | Err err \<Rightarrow> Err (unwrap_or (locate (item_failure lenv) v) (JsonError err))
        | Panic \<Rightarrow> Panic) (\<lambda>idl.
     bind_outcome (pad_zero_copy idl) (\<lambda>idl.
     bind_outcome (root_node env idl) (\<lambda>root.
     bind_outcome (run_passes env (rn_program root)) (\<lambda>p. Ok (root\<lparr>rn_program := p\<rparr>)))))))"

text \<open>
  C10. A converted IDL has no dangling links: whatever comes out of the converter, after padding, mapping and all the passes (one of
  which removes defined types), every link in the program names a defined type, an account or an event that is still there.
\<close>

theorem converted_links_resolve:
  assumes "root_node_from_anchor env lenv v = Ok root"
  shows "list_all (links_in (item_names (rn_program root))) (program_types (rn_program root))"
proof -
  from assms obtain idl p where p: "program_node env idl = Ok p" "run_passes env p = Ok (rn_program root)"
    by (auto simp: root_node_from_anchor_def root_node_def bind_outcome_eq_Ok)
  show ?thesis by (rule run_passes_closed[OF program_node_closed[OF p(1)] p(2)])
qed

definition sample_spec :: json where
  "sample_spec = JObject [(''metadata'', JObject [(''spec'', JString ''0.1.0'')])]"

definition sample_lenv :: legacy_env where
  "sample_lenv =
     \<lparr>convert_idl = (\<lambda>_. Ok \<lparr>up_instructions = [\<lparr>up_name = ''set_ab'', up_discriminator = []\<rparr>], up_accounts = [], up_events = [], up_types = []\<rparr>),
      up_value = (\<lambda>u. JObject [(''instructions'', JArray (map (JString \<circ> up_name) (up_instructions u))), (''metadata'', JObject [(''spec'', JString ''0.1.0'')])]),
      sha256 = map (\<lambda>c. of_char c), read_idl = (\<lambda>_. Ok sample_program_idl), item_failure = (\<lambda>_ _. None)\<rparr>"

lemma sample_root_converts:
  "map_outcome id (\<lambda>r. map dt_name (pn_defined_types (rn_program r))) (root_node_from_anchor sample_env sample_lenv sample_spec) = Ok [''point'']"
  by code_simp

theorem converted_links_resolve_witness:
  "\<exists>root. root_node_from_anchor sample_env sample_lenv sample_spec = Ok root \<and> map dt_name (pn_defined_types (rn_program root)) = [''point''] \<and>
    list_all (links_in (item_names (rn_program root))) (program_types (rn_program root))"
proof -
  obtain root where "root_node_from_anchor sample_env sample_lenv sample_spec = Ok root" "map dt_name (pn_defined_types (rn_program root)) = [''point'']"
    using sample_root_converts by (auto simp: map_outcome_Ok)
  with converted_links_resolve[OF this(1)] show ?thesis by auto
qed

subsection \<open>What an upgrade guarantees\<close>

lemma rename_instructions_nth:
  "i < length ixs \<Longrightarrow> i < length names \<Longrightarrow> names ! i = Some n \<Longrightarrow>
    rename_instructions lenv ixs names ! i = \<lparr>up_name = n, up_discriminator = discriminator lenv ''global'' (snake_case n)\<rparr>"
proof (induction lenv ixs names arbitrary: i rule: rename_instructions.induct)
  case (1 lenv ix ixs name names) then show ?case by (cases i) auto
next
  case (2 lenv ix ixs names) then show ?case by (cases i) auto
qed simp_all

lemma windows_equal: "\<not> list_ex (\<lambda>(a, b). a \<noteq> b) (zip xs (tl xs)) \<Longrightarrow> x \<in> set xs \<Longrightarrow> y \<in> set xs \<Longrightarrow> x = y"
proof (induction xs)
  case (Cons a xs)
  show ?case
  proof (cases xs)
    case (Cons b ys)
    with Cons.prems(1) have "a = b" "\<not> list_ex (\<lambda>(a, b). a \<noteq> b) (zip xs (tl xs))" by auto
    then show ?thesis using Cons.IH Cons.prems Cons by auto
  qed (use Cons.prems in simp)
qed simp

definition has_generics :: "json \<Rightarrow> bool" where
  "has_generics t = is_some_and (Option.bind (json_get ''generics'' t) json_array) (\<lambda>gs. gs \<noteq> [])"

lemma own_discriminator_None:
  "own_discriminator kind item = None \<longleftrightarrow> json_get ''discriminant'' item = None \<and> json_get ''discriminator'' item = None"
  by (auto simp: own_discriminator_def split: if_splits)

lemma check_legacy_Ok:
  assumes "check_legacy v = Ok r"
  shows "\<forall>section\<in>{''instructions'', ''accounts'', ''events''}. \<forall>item\<in>set (legacy_items v section).
      json_get ''discriminator'' item = None \<and> json_get ''discriminant'' item = None"
    and "\<exists>address. Option.bind (json_pointer [''metadata'', ''address''] v) json_str = Some address \<and> address \<noteq> []"
    and "\<forall>section\<in>{''types'', ''accounts''}. \<forall>t\<in>set (legacy_items v section). \<not> has_generics t"
proof -
  from assms have "first_some (\<lambda>(section, kind). first_some (own_discriminator kind) (legacy_items v section))
      [(''instructions'', InstructionItem), (''accounts'', AccountItem), (''events'', EventItem)] = None"
    and address: "\<not> is_none_or (Option.bind (json_pointer [''metadata'', ''address''] v) json_str) (\<lambda>a. a = [])"
    and generics: "first_some (legacy_generic v) [(''types'', TypeItem), (''accounts'', AccountItem)] = None"
    by (auto simp: check_legacy_def simp del: first_some.simps split: option.splits if_splits)
  then show "\<forall>section\<in>{''instructions'', ''accounts'', ''events''}. \<forall>item\<in>set (legacy_items v section).
      json_get ''discriminator'' item = None \<and> json_get ''discriminant'' item = None"
    by (auto simp: first_some_None own_discriminator_None simp del: first_some.simps)
  show "\<exists>address. Option.bind (json_pointer [''metadata'', ''address''] v) json_str = Some address \<and> address \<noteq> []"
    using address by (cases "Option.bind (json_pointer [''metadata'', ''address''] v) json_str") auto
  show "\<forall>section\<in>{''types'', ''accounts''}. \<forall>t\<in>set (legacy_items v section). \<not> has_generics t"
    using generics by (auto simp: first_some_None legacy_generic_def has_generics_def find_None_iff simp del: first_some.simps)
qed

lemma check_shadowed_Ok:
  assumes "check_shadowed_fields u = Ok r" "x \<in> set (up_accounts u @ up_events u)" "(up_name x, s) \<in> set (up_types u)" "(up_name x, t) \<in> set (up_types u)"
  shows "strip_docs s = strip_docs t"
proof -
  have "\<not> shadowed u (up_name x)"
    using assms(1,2) by (auto simp: check_shadowed_fields_def find_None_iff split: option.splits)
  then show ?thesis
    using windows_equal[of "map (strip_docs \<circ> snd) (filter (\<lambda>t. fst t = up_name x) (up_types u))" "strip_docs s" "strip_docs t"] assms(3,4)
    by (force simp: shadowed_def Let_def)
qed


definition sample_legacy :: json where
  "sample_legacy = JObject [(''instructions'', JArray [JObject [(''accounts'', JArray []), (''name'', JString ''setAB'')]]),
     (''metadata'', JObject [(''address'', JString ''Pay'')]), (''name'', JString ''pay'')]"

lemma sample_legacy_upgrades:
  "is_legacy sample_legacy"
  "upgrade_legacy sample_lenv sample_legacy =
    Ok (JObject [(''instructions'', JArray [JString ''setAB'']), (''metadata'', JObject [(''spec'', JString ''0.1.0'')])])"
  by code_simp+


end
