(* ===== verification/Spec2Isabelle.thy ===== *)
theory Spec2Isabelle
  imports Coordinator_Source Preconf_Instructions Runtime_Run Runtime_Builder Grpc_Source Jetstream_Source Ledger_Sources Fumarole_Source
    Kafka_Topics Kafka_Passthrough Anchor_Root
begin

text \<open>
  Shipstern turns a stream of Solana updates into parsed records. A source (geyser gRPC, archive
  replay, preconfirmation feeds, RPC, snapshot, Fumarole) gives updates; the runtime hands each to
  the pipelines whose prefilter it passed; a pipeline parses and calls handlers. With the Kafka
  sink, handlers send the parsed records to the block coordinator, which gathers them by slot,
  waits until a slot is confirmed, fully parsed and next in line, and gives it to a writer that
  publishes its records and a checkpoint. This development models those parts as executable
  functions and step relations, and proves what makes each of them, and their composition,
  correct.

  \<^bold>\<open>Conventions.\<close> \<open>u64\<close>, \<open>u32\<close> and \<open>u8\<close> are words of their width; \<open>usize\<close> lengths are natural
  numbers. A \<open>HashMap\<close> is a map, a \<open>HashSet\<close> a set, a \<open>BTreeMap\<close> an ascending association list
  (\<open>Ordered_Map\<close>). A Rust result is an \<open>outcome\<close>: \<open>Ok\<close>, \<open>Err\<close>, or \<open>Panic\<close> for every \<open>unwrap\<close>, index
  out of range and \<open>unreachable!\<close> of the code. Stateful code passes its state explicitly. What
  another package does is an argument of the definitions, and what the code relies on is a named
  predicate in the hypotheses of the theorems. What the environment chooses (dropped receivers, failing
  I/O, timeouts, the order in which concurrent tasks finish, the iteration order of hash tables) is
  part of the input, so that the theorems hold for every such choice. Log lines and metrics are
  not modelled. Loops are structural recursion or \<open>function\<close> with a termination proof. Two searches of the Anchor converter have a bound, and it is
  proved enough: \<open>inline_links\<close> takes the nesting limit of the code and stops below it (\<open>unwrap_returns\<close>), \<open>free_name\<close> tries one name more than there are taken (\<open>free_name_found\<close>). Where a loop consumes an unbounded stream, the model takes the finite sequence of items received so far.

  \<^bold>\<open>Core\<close> (\<open>crates/core/src\<close>). \<open>Instruction_Tree\<close> and \<open>Instruction_Build\<close> model
  \<open>instruction.rs\<close>: the tree of outer and inner instructions, its paths and traversals, and
  \<open>build_from_txn\<close>; shown are the paths and order of the built trees, that every index is resolved or
  reported as an error, and that no input panics. \<open>Log_Messages\<close> models \<open>log_messages.rs\<close> and
  shows that each instruction gets exactly the lines its program printed. \<open>Prefilter\<close>, \<open>Prefilter_Builder\<close> and \<open>Filters\<close>
  model the filters of \<open>lib.rs\<close>: their merge (what it over-delivers and where it narrows), the builder's
  validity, and the request sent to the server.

  \<^bold>\<open>Block coordinator\<close> (\<open>crates/block-coordinator/src\<close>). \<open>Coordinator_Types\<close> is \<open>types.rs\<close>,
  \<open>Slot_Buffer\<close> is \<open>buffer.rs\<close>, \<open>Coordinator_State\<close> is \<open>state.rs\<close>, \<open>Coordinator\<close> is \<open>coordinator.rs\<close>,
  \<open>Coordinator_Source\<close> is \<open>source.rs\<close> and \<open>Fixtures\<close> is \<open>fixtures.rs\<close>. The two drains are instances of one scan (locale
  \<open>slot_scan\<close> of \<open>Coordinator_Flush\<close>). \<open>Coordinator_Runs\<close>, \<open>Coordinator_Properties\<close>, \<open>Coordinator_Order\<close> and
  \<open>Coordinator_Slots\<close> show, over all runs of events and drains: slots are delivered in ascending order
  and once, only behind their gates, with exactly the records and counts reported for them; and the event
  loop delivers what the state machine releases and stops without a panic on every input. Hypothesis \<open>pops_end\<close> says that the
  block machine stops giving events.

  \<^bold>\<open>Runtime\<close> (\<open>crates/runtime/src\<close>). \<open>Runtime_Pipeline\<close> models \<open>handler.rs\<close>, \<open>filter_pipeline.rs\<close> and \<open>instruction.rs\<close>;
  \<open>Runtime_Builder\<close> \<open>builder.rs\<close> and the pipeline sets; \<open>Runtime_Handle\<close> \<open>handle.rs\<close>; \<open>Runtime_Buffer\<close> the
  job buffer of \<open>buffer.rs\<close> as a step relation of producer, bridge and jobs with permits; \<open>Runtime_Run\<close> the run of \<open>lib.rs\<close>. Shown are which
  parsers and handlers run on an update and in which order, the bound on jobs in flight, that shutdown
  ends, and when a run succeeds. Hypotheses: \<open>schedule_ok\<close> and \<open>in_order\<close> for the order of concurrent
  futures, \<open>never_panics\<close>, \<open>lists_ids\<close>, \<open>proper_items\<close>.

  \<^bold>\<open>Sources.\<close> \<open>Grpc_Source\<close>, \<open>Fumarole_Source\<close>, \<open>Jetstream_Source\<close> with \<open>Jetstream_Convert\<close>, \<open>Ledger_Sources\<close> (RPC and snapshot), and the preconfirmation source
  in \<open>Preconf_Filter\<close> (\<open>config.rs\<close>, \<open>filter.rs\<close>), \<open>Preconf_Convert\<close>, \<open>Preconf_Framer\<close>, \<open>Preconf_Reconnect\<close>,
  \<open>Preconf_Source\<close> and \<open>Preconf_Instructions\<close>. Shown are: the newest filters win over older ones,
  an archive replay delivers every block and transaction asked for, the two ledger sources agree,
  the framer numbers the transactions of a slot without gaps, the streams of the feeds do not disturb each
  other, and a preconfirmation reaches the instruction parsers as the transaction it stands for.
  Hypotheses: \<open>env_ok\<close>, \<open>dedup_ok\<close>, \<open>keys_ok\<close>, \<open>feed_io\<close>, \<open>node_reads\<close>.

  \<^bold>\<open>Kafka sink\<close> (\<open>crates/kafka-sink/src\<close>). \<open>Kafka_Config\<close> models \<open>config.rs\<close> and the settings of
  \<open>producer.rs\<close>; \<open>Kafka_Schema\<close> \<open>schema_registry.rs\<close>, with the round trip of the wire format; \<open>Kafka_Sink\<close> \<open>sink.rs\<close>, \<open>events.rs\<close>, \<open>utils.rs\<close> and \<open>parsers.rs\<close>, with
  the fact that keys identify instructions; \<open>Kafka_Handler\<close> \<open>handler.rs\<close>, and its composition with the coordinator:
  a delivered slot holds the records of all its transactions. \<open>Kafka_Write\<close> models \<open>kafka_sink.rs\<close> and the startup of transactions;
  \<open>Kafka_Delivery\<close> proves delivery exactly once with transactions and at least once without, by contracts with a postcondition for
  success and one for failure (locale \<open>attempts\<close> for the retry loops); \<open>Kafka_Passthrough\<close> the order of watermarks; \<open>Kafka_Topics\<close> models \<open>topics.rs\<close> and shows
  that a restart reads back the last slot that was committed. Hypotheses: \<open>transactional_producer\<close>, \<open>plain_producer\<close> and \<open>serves_topic\<close>, the
  documented behaviour of the Kafka client, and \<open>bs58_ok\<close>, that base58 text is injective and has no colon.

  \<^bold>\<open>Anchor converter\<close> (\<open>crates/codama-from-anchor/src\<close>). The crate turns an Anchor IDL in JSON into a Codama root node.
  \<open>Anchor_Json\<close> has the JSON values, the errors and the identifiers of \<open>case.rs\<close>; \<open>Anchor_Types\<close> is \<open>types.rs\<close> and shows that every
  converted type is well formed; \<open>Anchor_Idl\<close> is \<open>idl.rs\<close>, the reading of the document; \<open>Anchor_Layout\<close> is \<open>layout.rs\<close>, where the inserted padding puts every
  field at the offset of the C representation; \<open>Anchor_Program\<close> is \<open>v01.rs\<close>; \<open>Anchor_Links\<close> shows which links of a
  converted program have a definition and that discriminators tell the accounts, events and instructions apart; \<open>Anchor_Passes\<close> is \<open>passes.rs\<close>, whose
  inlining ends and normalises; \<open>Anchor_Root\<close> is \<open>lib.rs\<close>, where the links of the final root are closed and an upgraded legacy document meets the same contract. The printing
  and reading of JSON, camel case, hexadecimal, base58, SHA-256 and the upgrade of legacy documents are other packages' functions, in \<open>anchor_env\<close> and \<open>legacy_env\<close>.

  \<^bold>\<open>Shared.\<close> \<open>Prelude\<close> has the integers, outcomes, standard-library operations, decimal text, the locale
  \<open>machine\<close> for runs with an invariant, and the lemma collections; \<open>Sources\<close> what sources and runtime share.

  \<^bold>\<open>Not modelled.\<close> \<open>crates/proc-macro\<close> produces Rust code from Codama IDLs: its output is token
  streams whose meaning is that of the Rust compiler. The program parsers (\<open>spl-token-parser\<close>,
  \<open>spl-token-extensions-parser\<close>, \<open>stake-pool-parser\<close>, \<open>bpf-loader-parser\<close>) mostly rename the fields of instructions that packages outside the repository unpack.
  \<open>crates/proto\<close> is generated from protobuf files. \<open>crates/mock\<close> and the tests and examples are test code.
  Metrics, the command line and configuration files, and the \<open>stream\<close> server's transport are glue over packages outside the repository.
\<close>

end
